(* ===== verification/Prelude.thy ===== *)
theory Prelude
  imports Main "HOL-Library.List_Lexorder" "HOL-Library.Char_ord"
begin

text \<open>
  Shared vocabulary of the development: how the Python values, strings and tables of the
  repository are represented, and the generic lemmas the component theories share.

  Python \<open>str\<close> is \<open>string\<close>, a list of code points below 256; the string
  operations below are written out for exactly that range. Lists and strings carry the
  lexicographic order of \<open>List_Lexorder\<close> over \<open>Char_ord\<close>, the order Python's
  \<open><\<close> and \<open>sorted\<close> (and SQLite's BINARY collation) use.
\<close>

named_theorems guard_simps \<open>unfolding of argument guards\<close>

section \<open>Strings\<close>

text \<open>\<open>str.isspace\<close> of one character, for the code points below 256.\<close>

definition py_space :: "char \<Rightarrow> bool" where
  "py_space c \<longleftrightarrow> of_char c \<in> {9, 10, 11, 12, 13, 28, 29, 30, 31, 32, 133, 160 :: nat}"

text \<open>\<open>str.strip()\<close>, and the truth value of \<open>value.strip()\<close>.\<close>

definition py_strip :: "string \<Rightarrow> string" where
  "py_strip s = rev (dropWhile py_space (rev (dropWhile py_space s)))"

definition nonblank :: "string \<Rightarrow> bool" where
  "nonblank s \<longleftrightarrow> py_strip s \<noteq> []"

lemma py_strip_Nil [simp]: "py_strip [] = []"
  by (simp add: py_strip_def)

lemma nonblank_iff: "nonblank s \<longleftrightarrow> (\<exists>c \<in> set s. \<not> py_space c)"
proof -
  have "py_strip s = [] \<longleftrightarrow> (\<forall>c \<in> set s. py_space c)"
  proof (cases "\<forall>c \<in> set s. py_space c")
    case True
    then show ?thesis by (auto simp: py_strip_def dropWhile_eq_Nil_conv dest: set_dropWhileD)
  next
    case False
    then have "dropWhile py_space s \<noteq> []" by (simp add: dropWhile_eq_Nil_conv)
    then have "\<not> py_space (hd (dropWhile py_space s))" by (rule hd_dropWhile)
    with \<open>dropWhile py_space s \<noteq> []\<close> have "\<exists>c \<in> set (dropWhile py_space s). \<not> py_space c"
      by (meson hd_in_set)
    with False show ?thesis by (auto simp: py_strip_def dropWhile_eq_Nil_conv)
  qed
  then show ?thesis by (auto simp: nonblank_def)
qed

text \<open>\<open>needle in text\<close> for strings, and \<open>str(n)\<close> for an integer.\<close>

fun starts_with :: "string \<Rightarrow> string \<Rightarrow> bool" where
  "starts_with [] s = True"
| "starts_with (c # p) [] = False"
| "starts_with (c # p) (d # s) = (c = d \<and> starts_with p s)"

fun contains :: "string \<Rightarrow> string \<Rightarrow> bool" where
  "contains p [] = (p = [])"
| "contains p (c # s) = (starts_with p (c # s) \<or> contains p s)"

fun nat_digits :: "nat \<Rightarrow> string" where
  "nat_digits n = (if n < 10 then [char_of (48 + n)] else nat_digits (n div 10) @ [char_of (48 + n mod 10)])"

declare nat_digits.simps [simp del]

definition str_int :: "int \<Rightarrow> string" where
  "str_int i = (if i < 0 then CHR ''-'' # nat_digits (nat (- i)) else nat_digits (nat i))"

text \<open>\<open>a or b\<close> for strings: the first non-empty one.\<close>

definition or_str :: "string \<Rightarrow> string \<Rightarrow> string" where
  "or_str a b = (if a = [] then b else a)"

lemma starts_with_prefix: "starts_with p s \<longleftrightarrow> (\<exists>t. s = p @ t)"
  by (induction p s rule: starts_with.induct) auto

lemma contains_iff: "contains p s \<longleftrightarrow> (\<exists>a b. s = a @ p @ b)"
proof (induction s)
  case Nil
  then show ?case by simp
next
  case (Cons c s)
  show ?case
  proof
    assume "contains p (c # s)"
    then consider t where "c # s = p @ t" | a b where "s = a @ p @ b"
      using Cons by (auto simp: starts_with_prefix)
    then show "\<exists>a b. c # s = a @ p @ b"
    proof cases
      case 1
      then show ?thesis by (metis append_Nil)
    next
      case 2
      then show ?thesis by (metis append_Cons)
    qed
  next
    assume "\<exists>a b. c # s = a @ p @ b"
    then obtain a b where ab: "c # s = a @ p @ b" by blast
    show "contains p (c # s)"
    proof (cases a)
      case Nil
      with ab have "starts_with p (c # s)" by (auto simp: starts_with_prefix)
      then show ?thesis by simp
    next
      case (Cons d a')
      with ab Cons.IH show ?thesis by auto
    qed
  qed
qed

lemma contains_set: "contains p s \<Longrightarrow> set p \<subseteq> set s"
  by (auto simp: contains_iff)

section \<open>Sequences of checks\<close>

text \<open>A loop that raises at its first problem.\<close>

fun first_some :: "('a \<Rightarrow> 'b option) \<Rightarrow> 'a list \<Rightarrow> 'b option" where
  "first_some f [] = None"
| "first_some f (x # xs) = (case f x of None \<Rightarrow> first_some f xs | Some e \<Rightarrow> Some e)"

lemma first_some_None [simp]: "first_some f xs = None \<longleftrightarrow> (\<forall>x \<in> set xs. f x = None)"
  by (induction xs) (auto split: option.splits)

declare first_some.simps(2) [simp del]

section \<open>Tables\<close>

text \<open>
  A SQL table is the list of its rows in rowid order. \<open>UPDATE .. SET .. WHERE\<close> rewrites
  the rows a condition selects and reports how many they are (\<open>rowcount\<close>);
  \<open>SELECT .. ORDER BY k ASC LIMIT 1\<close> is the first row of the stable sort by \<open>k\<close>.
\<close>

definition sql_update :: "('a \<Rightarrow> bool) \<Rightarrow> ('a \<Rightarrow> 'a) \<Rightarrow> 'a list \<Rightarrow> 'a list" where
  "sql_update p f rows = map (\<lambda>r. if p r then f r else r) rows"

definition sql_rowcount :: "('a \<Rightarrow> bool) \<Rightarrow> 'a list \<Rightarrow> nat" where
  "sql_rowcount p rows = length (filter p rows)"

definition first_by :: "('a \<Rightarrow> 'k::linorder) \<Rightarrow> 'a list \<Rightarrow> 'a option" where
  "first_by k xs = (case sort_key k xs of [] \<Rightarrow> None | x # _ \<Rightarrow> Some x)"

lemma first_by_None [simp]: "first_by k xs = None \<longleftrightarrow> xs = []"
  by (auto simp: first_by_def split: list.splits)
     (metis set_empty set_sort)

lemma first_by_Some:
  assumes "first_by k xs = Some x"
  shows "x \<in> set xs" and "y \<in> set xs \<Longrightarrow> k x \<le> k y"
proof -
  from assms obtain ys where ys: "sort_key k xs = x # ys"
    by (auto simp: first_by_def split: list.splits)
  then have mem: "set xs = insert x (set ys)" by (metis list.simps(15) set_sort)
  then show "x \<in> set xs" by simp
  have "sorted (map k (x # ys))" by (metis sorted_sort_key ys)
  then show "y \<in> set xs \<Longrightarrow> k x \<le> k y" using mem by auto
qed

lemma first_by_ex: "xs \<noteq> [] \<Longrightarrow> \<exists>x. first_by k xs = Some x"
  by (metis first_by_None option.exhaust)

lemma sql_rowcount_pos: "0 < sql_rowcount p rows \<longleftrightarrow> (\<exists>r \<in> set rows. p r)"
  by (auto simp: sql_rowcount_def filter_empty_conv)

lemma sql_update_none: "\<forall>r \<in> set rows. \<not> p r \<Longrightarrow> sql_update p f rows = rows"
  by (auto simp: sql_update_def intro: map_idI)

lemma length_sql_update [simp]: "length (sql_update p f rows) = length rows"
  by (simp add: sql_update_def)

lemma set_sql_update: "set (sql_update p f rows) = {f r |r. r \<in> set rows \<and> p r} \<union> {r \<in> set rows. \<not> p r}"
  by (auto simp: sql_update_def)

text \<open>Lookup by a key the update keeps.\<close>

lemma find_sql_update:
  assumes "\<And>r. key (f r) = key r"
  shows "find (\<lambda>r. key r = x) (sql_update p f rows) =
    map_option (\<lambda>r. if p r then f r else r) (find (\<lambda>r. key r = x) rows)"
  by (induction rows) (auto simp: sql_update_def assms)

lemma map_sql_update:
  assumes "\<And>r. key (f r) = key r"
  shows "map key (sql_update p f rows) = map key rows"
  by (simp add: sql_update_def assms)

text \<open>With a unique key, a condition that fixes the key selects at most one row.\<close>

lemma distinct_key_rowcount:
  assumes "distinct (map key rows)" and "\<And>r. p r \<Longrightarrow> key r = x"
  shows "sql_rowcount p rows = (case find (\<lambda>r. key r = x) rows of None \<Rightarrow> 0 | Some r \<Rightarrow> if p r then 1 else 0)"
  using assms(1)
proof (induction rows)
  case Nil
  then show ?case by (simp add: sql_rowcount_def)
next
  case (Cons r rows)
  show ?case
  proof (cases "key r = x")
    case True
    with Cons.prems assms(2) have "filter p rows = []"
      by (auto simp: filter_empty_conv) (metis imageI)
    with True show ?thesis by (simp add: sql_rowcount_def)
  next
    case False
    with assms(2) have "\<not> p r" by auto
    with False Cons show ?thesis by (simp add: sql_rowcount_def)
  qed
qed

lemma find_key_Some: "find (\<lambda>r. key r = x) rows = Some r \<Longrightarrow> r \<in> set rows \<and> key r = x"
  by (auto simp: find_Some_iff)

lemma find_key_mem:
  assumes "distinct (map key rows)" and "r \<in> set rows"
  shows "find (\<lambda>s. key s = key r) rows = Some r"
  using assms by (induction rows) auto

end
