(* ===== verification/QueueDB.thy ===== *)
theory QueueDB
  imports Prelude
begin

text \<open>
  The job queue of app/queue_db.py: the tables \<open>jobs\<close> and \<open>worker_leases\<close>, one
  definition per method of \<open>QueueDB\<close>, each a transaction from the state before to the
  state after. A method that raises leaves the state as it was (the connection rolls back).
  The clock \<open>utc_now()\<close> and \<open>uuid4().hex\<close> are arguments; a time is the ISO text the
  code stores and compares as text. Rows are in rowid order, and ties of
  \<open>ORDER BY created_at\<close> are taken in that order; no theorem depends on ties.
  Arguments have the types their annotations give; SQL's NULL is \<open>None\<close>, and
  \<open>column = ?\<close> is false on NULL.
\<close>

section \<open>Tables\<close>

datatype job_status = Queued | Running | Succeeded | Failed

record job =
  j_id :: string
  j_status :: job_status
  j_task_type :: string
  j_source_filename :: string
  j_source_path :: string
  j_output_path :: "string option"
  j_instructions_path :: "string option"
  j_edited_output_path :: "string option"
  j_job_dir :: string
  j_created_at :: string
  j_updated_at :: string
  j_started_at :: "string option"
  j_finished_at :: "string option"
  j_last_heartbeat :: "string option"
  j_attempts :: int
  j_max_attempts :: int
  j_worker_name :: "string option"
  j_claim_run_id :: "string option"
  j_claim_generation :: "string option"
  j_error :: "string option"
  j_file_size_bytes :: int
  j_content_type :: "string option"

record lease =
  l_run_id :: string
  l_generation :: string
  l_worker_pid :: int
  l_start_identity :: string
  l_updated_at :: string

record qdb =
  jobs :: "job list"
  leases :: "string \<rightharpoonup> lease"

datatype queue_error = ValueError string | IntegrityError

definition empty_db :: qdb where
  "empty_db = \<lparr>jobs = [], leases = Map.empty\<rparr>"

text \<open>
  \<open>initialize\<close> creates the table when it is missing and otherwise adds each column the
  existing table lacks; the schema is the list of the column names of \<open>jobs\<close>.
\<close>

definition ddl_job_columns :: "string list" where
  "ddl_job_columns =
    [''job_id'', ''status'', ''task_type'', ''source_filename'', ''source_path'', ''output_path'',
     ''instructions_path'', ''edited_output_path'', ''job_dir'', ''created_at'', ''updated_at'',
     ''started_at'', ''finished_at'', ''last_heartbeat'', ''attempts'', ''max_attempts'',
     ''worker_name'', ''claim_run_id'', ''claim_candidate_generation'', ''error'',
     ''file_size_bytes'', ''content_type'']"

definition missing_columns :: "string list" where
  "missing_columns =
    [''task_type'', ''instructions_path'', ''edited_output_path'', ''claim_run_id'',
     ''claim_candidate_generation'']"

definition initialize :: "string list option \<Rightarrow> string list" where
  "initialize table =
    (let existing = (case table of None \<Rightarrow> ddl_job_columns | Some cols \<Rightarrow> cols)
     in existing @ filter (\<lambda>c. c \<notin> set existing) missing_columns)"

section \<open>Reading\<close>

definition get_job :: "qdb \<Rightarrow> string \<Rightarrow> job option" where
  "get_job db jid = find (\<lambda>j. j_id j = jid) (jobs db)"

definition count_by_status :: "qdb \<Rightarrow> job_status \<Rightarrow> nat" where
  "count_by_status db st = length (filter (\<lambda>j. j_status j = st) (jobs db))"

definition worker_lease_matches :: "qdb \<Rightarrow> string \<Rightarrow> string \<Rightarrow> string \<Rightarrow> bool" where
  "worker_lease_matches db w r g =
    (case leases db w of None \<Rightarrow> False | Some l \<Rightarrow> l_run_id l = r \<and> l_generation l = g)"

section \<open>Enqueueing\<close>

record job_request =
  rq_task_type :: string
  rq_source_filename :: string
  rq_source_path :: string
  rq_output_path :: string
  rq_instructions_path :: "string option"
  rq_edited_output_path :: "string option"
  rq_job_dir :: string
  rq_file_size_bytes :: int
  rq_content_type :: "string option"
  rq_max_attempts :: int
  rq_job_id :: "string option"

definition new_job :: "string \<Rightarrow> string \<Rightarrow> job_request \<Rightarrow> job" where
  "new_job now jid rq =
    \<lparr>j_id = jid, j_status = Queued, j_task_type = rq_task_type rq,
     j_source_filename = rq_source_filename rq, j_source_path = rq_source_path rq,
     j_output_path = Some (rq_output_path rq),
     j_instructions_path = rq_instructions_path rq,
     j_edited_output_path = rq_edited_output_path rq, j_job_dir = rq_job_dir rq,
     j_created_at = now, j_updated_at = now, j_started_at = None, j_finished_at = None,
     j_last_heartbeat = None, j_attempts = 0, j_max_attempts = rq_max_attempts rq,
     j_worker_name = None, j_claim_run_id = None, j_claim_generation = None, j_error = None,
     j_file_size_bytes = rq_file_size_bytes rq, j_content_type = rq_content_type rq\<rparr>"

text \<open>\<open>job_id or uuid4().hex\<close>: an absent or empty id takes the fresh one.\<close>

definition chosen_id :: "string \<Rightarrow> job_request \<Rightarrow> string" where
  "chosen_id fresh rq = (case rq_job_id rq of None \<Rightarrow> fresh | Some i \<Rightarrow> if i = [] then fresh else i)"

definition enqueue_job :: "string \<Rightarrow> string \<Rightarrow> job_request \<Rightarrow> qdb \<Rightarrow> queue_error + (qdb \<times> job option)" where
  "enqueue_job now fresh rq db =
    (let jid = chosen_id fresh rq in
     if \<exists>j \<in> set (jobs db). j_id j = jid then Inl IntegrityError
     else let db' = db\<lparr>jobs := jobs db @ [new_job now jid rq]\<rparr> in Inr (db', get_job db' jid))"

section \<open>Worker leases\<close>

definition acquire_worker_lease ::
  "string \<Rightarrow> string \<Rightarrow> string \<Rightarrow> string \<Rightarrow> int \<Rightarrow> string \<Rightarrow> qdb \<Rightarrow> queue_error + (qdb \<times> bool)" where
  "acquire_worker_lease now w r g pid start db =
    (if \<not> (nonblank w \<and> nonblank r \<and> nonblank g \<and> nonblank start)
     then Inl (ValueError ''Worker lease identity fields must be non-empty strings.'')
     else if pid \<le> 0 then Inl (ValueError ''Worker lease PID must be a positive integer.'')
     else Inr (db\<lparr>leases := (leases db)(w \<mapsto>
       \<lparr>l_run_id = r, l_generation = g, l_worker_pid = pid, l_start_identity = start, l_updated_at = now\<rparr>)\<rparr>, True))"

definition renew_worker_lease :: "string \<Rightarrow> string \<Rightarrow> string \<Rightarrow> string \<Rightarrow> qdb \<Rightarrow> qdb \<times> bool" where
  "renew_worker_lease now w r g db =
    (case leases db w of
       None \<Rightarrow> (db, False)
     | Some l \<Rightarrow>
         if l_run_id l = r \<and> l_generation l = g
         then (db\<lparr>leases := (leases db)(w \<mapsto> l\<lparr>l_updated_at := now\<rparr>)\<rparr>, True) else (db, False))"

section \<open>Claiming\<close>

text \<open>The \<open>lease_clause\<close>: present only when a worker generation was supplied.\<close>

definition supplied :: "string option \<Rightarrow> string option \<Rightarrow> (string \<times> string) option" where
  "supplied r g = (case (r, g) of (Some r', Some g') \<Rightarrow> Some (r', g') | _ \<Rightarrow> None)"

definition lease_clause :: "qdb \<Rightarrow> string \<Rightarrow> (string \<times> string) option \<Rightarrow> bool" where
  "lease_clause db w gen = (case gen of None \<Rightarrow> True | Some (r, g) \<Rightarrow> worker_lease_matches db w r g)"

definition claimable :: "qdb \<Rightarrow> string \<Rightarrow> (string \<times> string) option \<Rightarrow> job \<Rightarrow> bool" where
  "claimable db w gen j \<longleftrightarrow> j_status j = Queued \<and> j_attempts j < j_max_attempts j \<and> lease_clause db w gen"

definition set_claimed :: "string \<Rightarrow> string \<Rightarrow> string option \<Rightarrow> string option \<Rightarrow> job \<Rightarrow> job" where
  "set_claimed now w r g j =
    j\<lparr>j_status := Running, j_updated_at := now,
      j_started_at := (case j_started_at j of None \<Rightarrow> Some now | Some t \<Rightarrow> Some t),
      j_last_heartbeat := Some now, j_attempts := j_attempts j + 1, j_worker_name := Some w,
      j_claim_run_id := r, j_claim_generation := g, j_error := None\<rparr>"

definition claim_next_job ::
  "string \<Rightarrow> string \<Rightarrow> string option \<Rightarrow> string option \<Rightarrow> qdb \<Rightarrow> queue_error + (qdb \<times> job option)" where
  "claim_next_job now w r g db =
    (if (r = None) \<noteq> (g = None)
     then Inl (ValueError ''run_id and candidate_generation must be supplied together.'')
     else
       let gen = supplied r g in
       case first_by j_created_at (filter (claimable db w gen) (jobs db)) of
         None \<Rightarrow> Inr (db, None)
       | Some row \<Rightarrow>
           let p = (\<lambda>j. j_id j = j_id row \<and> j_status j = Queued \<and> lease_clause db w gen) in
           if sql_rowcount p (jobs db) \<noteq> 1 then Inr (db, None)
           else let db' = db\<lparr>jobs := sql_update p (set_claimed now w r g) (jobs db)\<rparr>
                in Inr (db', get_job db' (j_id row)))"

section \<open>Operations of the claim's owner\<close>

text \<open>The \<open>WHERE\<close> condition that names one exact sealed claim.\<close>

record claim_token =
  ct_job_id :: string
  ct_worker :: string
  ct_run_id :: string
  ct_generation :: string

definition owns :: "claim_token \<Rightarrow> job \<Rightarrow> bool" where
  "owns t j \<longleftrightarrow> j_id j = ct_job_id t \<and> j_status j = Running \<and> j_worker_name j = Some (ct_worker t)
    \<and> j_claim_run_id j = Some (ct_run_id t) \<and> j_claim_generation j = Some (ct_generation t)"

definition token_fields_ok :: "claim_token \<Rightarrow> bool" where
  "token_fields_ok t \<longleftrightarrow>
    nonblank (ct_job_id t) \<and> nonblank (ct_worker t) \<and> nonblank (ct_run_id t) \<and> nonblank (ct_generation t)"

definition owned_update :: "claim_token \<Rightarrow> (job \<Rightarrow> job) \<Rightarrow> qdb \<Rightarrow> qdb \<times> bool" where
  "owned_update t f db =
    (db\<lparr>jobs := sql_update (owns t) f (jobs db)\<rparr>, sql_rowcount (owns t) (jobs db) = 1)"

definition set_released :: "string \<Rightarrow> string \<Rightarrow> job \<Rightarrow> job" where
  "set_released now err j =
    j\<lparr>j_status := Queued, j_updated_at := now, j_error := Some err, j_started_at := None,
      j_finished_at := None, j_worker_name := None, j_claim_run_id := None,
      j_claim_generation := None, j_last_heartbeat := None\<rparr>"

definition set_heartbeat :: "string \<Rightarrow> job \<Rightarrow> job" where
  "set_heartbeat now j = j\<lparr>j_last_heartbeat := Some now, j_updated_at := now\<rparr>"

definition set_succeeded :: "string \<Rightarrow> job \<Rightarrow> job" where
  "set_succeeded now j =
    j\<lparr>j_status := Succeeded, j_updated_at := now, j_finished_at := Some now, j_error := None\<rparr>"

definition set_failed :: "string \<Rightarrow> string \<Rightarrow> job \<Rightarrow> job" where
  "set_failed now err j =
    j\<lparr>j_status := Failed, j_updated_at := now, j_finished_at := Some now, j_error := Some err\<rparr>"

definition requeue_claimed_job_if_owned ::
  "string \<Rightarrow> claim_token \<Rightarrow> string \<Rightarrow> qdb \<Rightarrow> queue_error + (qdb \<times> bool)" where
  "requeue_claimed_job_if_owned now t err db =
    (if \<not> (token_fields_ok t \<and> nonblank err)
     then Inl (ValueError ''Claim release fields must be non-empty strings.'')
     else Inr (owned_update t (set_released now err) db))"

definition touch_heartbeat_if_owned :: "string \<Rightarrow> claim_token \<Rightarrow> qdb \<Rightarrow> queue_error + (qdb \<times> bool)" where
  "touch_heartbeat_if_owned now t db =
    (if \<not> token_fields_ok t
     then Inl (ValueError ''Claim heartbeat fields must be non-empty strings.'')
     else Inr (owned_update t (set_heartbeat now) db))"

definition mark_succeeded_if_owned :: "string \<Rightarrow> claim_token \<Rightarrow> qdb \<Rightarrow> queue_error + (qdb \<times> bool)" where
  "mark_succeeded_if_owned now t db =
    (if \<not> token_fields_ok t
     then Inl (ValueError ''Claim completion fields must be non-empty strings.'')
     else Inr (owned_update t (set_succeeded now) db))"

definition mark_failed_if_owned ::
  "string \<Rightarrow> claim_token \<Rightarrow> string \<Rightarrow> qdb \<Rightarrow> queue_error + (qdb \<times> bool)" where
  "mark_failed_if_owned now t err db =
    (if \<not> (token_fields_ok t \<and> nonblank err)
     then Inl (ValueError ''Claim failure fields must be non-empty strings.'')
     else Inr (owned_update t (set_failed now err) db))"

section \<open>Unowned operations\<close>

definition update_by_id :: "string \<Rightarrow> (job \<Rightarrow> job) \<Rightarrow> qdb \<Rightarrow> qdb" where
  "update_by_id jid f db = db\<lparr>jobs := sql_update (\<lambda>j. j_id j = jid) f (jobs db)\<rparr>"

definition touch_heartbeat :: "string \<Rightarrow> string \<Rightarrow> qdb \<Rightarrow> qdb" where
  "touch_heartbeat now jid = update_by_id jid (set_heartbeat now)"

definition mark_succeeded :: "string \<Rightarrow> string \<Rightarrow> qdb \<Rightarrow> qdb" where
  "mark_succeeded now jid = update_by_id jid (set_succeeded now)"

definition mark_failed :: "string \<Rightarrow> string \<Rightarrow> string \<Rightarrow> qdb \<Rightarrow> qdb" where
  "mark_failed now jid err = update_by_id jid (set_failed now err)"

definition requeue_job :: "string \<Rightarrow> string \<Rightarrow> string \<Rightarrow> qdb \<Rightarrow> qdb" where
  "requeue_job now jid err = update_by_id jid (set_released now err)"

section \<open>Recovery of stale jobs\<close>

text \<open>\<open>COALESCE(last_heartbeat, started_at, updated_at) < threshold\<close>, compared as text.\<close>

definition last_sign :: "job \<Rightarrow> string" where
  "last_sign j =
    (case j_last_heartbeat j of Some t \<Rightarrow> t
     | None \<Rightarrow> (case j_started_at j of Some t \<Rightarrow> t | None \<Rightarrow> j_updated_at j))"

definition stale :: "string \<Rightarrow> job \<Rightarrow> bool" where
  "stale threshold j \<longleftrightarrow> j_status j = Running \<and> last_sign j < threshold"

definition set_recovered :: "string \<Rightarrow> job \<Rightarrow> job" where
  "set_recovered now j =
    j\<lparr>j_status := Queued, j_updated_at := now, j_started_at := None, j_worker_name := None,
      j_claim_run_id := None, j_claim_generation := None,
      j_error := Some ''Recovered stale running job for retry.'', j_last_heartbeat := None\<rparr>"

definition recover_row :: "string \<Rightarrow> job \<Rightarrow> qdb \<Rightarrow> qdb" where
  "recover_row now row =
    (if j_attempts row < j_max_attempts row then update_by_id (j_id row) (set_recovered now)
     else update_by_id (j_id row) (set_failed now ''Job exceeded max attempts after stale recovery.''))"

text \<open>The loop over the rows read first; \<open>clock i\<close> is \<open>utc_now()\<close> in round \<open>i\<close>.\<close>

fun recover_rows :: "(nat \<Rightarrow> string) \<Rightarrow> nat \<Rightarrow> job list \<Rightarrow> qdb \<Rightarrow> qdb \<times> nat" where
  "recover_rows clock recovered [] db = (db, recovered)"
| "recover_rows clock recovered (row # rows) db =
    recover_rows clock (recovered + 1) rows (recover_row (clock recovered) row db)"

definition recover_stale_running_jobs :: "string \<Rightarrow> (nat \<Rightarrow> string) \<Rightarrow> qdb \<Rightarrow> qdb \<times> nat" where
  "recover_stale_running_jobs threshold clock db =
    recover_rows clock 0 (filter (stale threshold) (jobs db)) db"

section \<open>Lookup and update\<close>

definition ids_distinct :: "qdb \<Rightarrow> bool" where
  "ids_distinct db \<longleftrightarrow> distinct (map j_id (jobs db))"

definition holds_claim :: "claim_token \<Rightarrow> qdb \<Rightarrow> bool" where
  "holds_claim t db \<longleftrightarrow> (case get_job db (ct_job_id t) of None \<Rightarrow> False | Some j \<Rightarrow> owns t j)"

lemma set_ids [simp]:
  "j_id (set_claimed now w r g j) = j_id j" "j_id (set_released now e j) = j_id j"
  "j_id (set_heartbeat now j) = j_id j" "j_id (set_succeeded now j) = j_id j"
  "j_id (set_failed now e j) = j_id j" "j_id (set_recovered now j) = j_id j"
  by (simp_all add: set_claimed_def set_released_def set_heartbeat_def set_succeeded_def
      set_failed_def set_recovered_def)

lemma set_statuses [simp]:
  "j_status (set_claimed now w r g j) = Running" "j_status (set_released now e j) = Queued"
  "j_status (set_succeeded now j) = Succeeded"
  "j_status (set_failed now e j) = Failed" "j_status (set_recovered now j) = Queued"
  by (simp_all add: set_claimed_def set_released_def set_succeeded_def
      set_failed_def set_recovered_def)

lemma get_job_Some: "get_job db i = Some j \<Longrightarrow> j \<in> set (jobs db) \<and> j_id j = i"
  by (auto simp: get_job_def dest: find_key_Some)

lemma get_job_mem: "ids_distinct db \<Longrightarrow> j \<in> set (jobs db) \<Longrightarrow> get_job db (j_id j) = Some j"
  by (simp add: get_job_def ids_distinct_def find_key_mem)

lemma ids_distinct_eq:
  "ids_distinct db \<Longrightarrow> j \<in> set (jobs db) \<Longrightarrow> k \<in> set (jobs db) \<Longrightarrow> j_id j = j_id k \<Longrightarrow> j = k"
  by (metis get_job_mem option.inject)

lemma get_job_leases [simp]: "get_job (db\<lparr>leases := x\<rparr>) i = get_job db i"
  by (simp add: get_job_def)

lemma get_job_sql_update:
  assumes "\<And>j. j_id (f j) = j_id j"
  shows "get_job (db\<lparr>jobs := sql_update p f (jobs db)\<rparr>) i =
    map_option (\<lambda>j. if p j then f j else j) (get_job db i)"
  using assms by (simp add: get_job_def find_sql_update)

lemma ids_distinct_sql_update:
  assumes "\<And>j. j_id (f j) = j_id j"
  shows "ids_distinct (db\<lparr>jobs := sql_update p f (jobs db)\<rparr>) \<longleftrightarrow> ids_distinct db"
  using assms by (simp add: ids_distinct_def map_sql_update)

lemma owns_id: "owns t j \<Longrightarrow> j_id j = ct_job_id t"
  by (simp add: owns_def)

lemma owned_update_result:
  assumes "ids_distinct db"
  shows "snd (owned_update t f db) \<longleftrightarrow> holds_claim t db"
  using distinct_key_rowcount [of j_id "jobs db" "owns t" "ct_job_id t"] assms
  by (auto simp: owned_update_def holds_claim_def get_job_def ids_distinct_def owns_def split: option.splits)

lemma owned_update_stale:
  assumes "ids_distinct db" and "\<not> holds_claim t db"
  shows "owned_update t f db = (db, False)"
proof -
  have "\<not> owns t j" if "j \<in> set (jobs db)" for j
    using assms that get_job_mem [OF assms(1) that] owns_id [of t j]
    by (cases "owns t j") (simp_all add: holds_claim_def)
  then show ?thesis
    using owned_update_result [OF assms(1), of t f] assms(2)
    by (simp add: owned_update_def sql_update_none)
qed

lemma owned_update_lookup:
  assumes "ids_distinct db" and "\<And>j. j_id (f j) = j_id j" and "holds_claim t db"
  shows "get_job (fst (owned_update t f db)) =
    (get_job db)(ct_job_id t \<mapsto> f (the (get_job db (ct_job_id t))))"
proof
  fix i
  show "get_job (fst (owned_update t f db)) i =
    ((get_job db)(ct_job_id t \<mapsto> f (the (get_job db (ct_job_id t))))) i"
    using assms get_job_Some [of db i]
    by (cases "get_job db i")
       (auto simp: owned_update_def get_job_sql_update holds_claim_def owns_def split: option.splits)
qed

section \<open>The contract of an owner-only operation\<close>

text \<open>
  What a worker relies on: an operation that names a claim changes the claimed row by
  \<open>eff\<close> and answers True when the claim still stands, and otherwise changes nothing and
  answers False. A releasing operation also ends the claim.
\<close>

locale claim_operation =
  fixes lookup :: "'db \<Rightarrow> 'id \<Rightarrow> 'row option"
    and inv :: "'db \<Rightarrow> bool"
    and owned :: "'tok \<Rightarrow> 'row \<Rightarrow> bool"
    and id_of :: "'tok \<Rightarrow> 'id"
    and opr :: "'tok \<Rightarrow> 'db \<Rightarrow> 'db \<times> bool"
    and eff :: "'row \<Rightarrow> 'row"
  assumes opr_owned: "inv db \<Longrightarrow> lookup db (id_of t) = Some r \<Longrightarrow> owned t r \<Longrightarrow>
      snd (opr t db) \<and> lookup (fst (opr t db)) = (lookup db)(id_of t \<mapsto> eff r)"
    and opr_stale: "inv db \<Longrightarrow> (\<And>r. lookup db (id_of t) = Some r \<Longrightarrow> \<not> owned t r) \<Longrightarrow>
      opr t db = (db, False)"
    and opr_inv: "inv db \<Longrightarrow> inv (fst (opr t db))"
begin

lemma answer:
  "inv db \<Longrightarrow> snd (opr t db) \<longleftrightarrow> (\<exists>r. lookup db (id_of t) = Some r \<and> owned t r)"
  using opr_owned opr_stale by (metis snd_conv)

lemma refused_unchanged: "inv db \<Longrightarrow> \<not> snd (opr t db) \<Longrightarrow> fst (opr t db) = db"
  using answer opr_stale by (metis fst_conv)

lemma other_rows: "inv db \<Longrightarrow> i \<noteq> id_of t \<Longrightarrow> lookup (fst (opr t db)) i = lookup db i"
  using opr_owned [of db t] answer [of db t] refused_unchanged [of db t] by (cases "snd (opr t db)") auto

end

locale releasing_operation = claim_operation +
  assumes eff_releases: "owned t r \<Longrightarrow> \<not> owned t' (eff r)"
begin

text \<open>Between two claims of a row, a releasing operation takes effect at most once.\<close>

lemma takes_effect_once:
  assumes "inv db" and "snd (opr t db)" and "id_of t' = id_of t"
  shows "opr t' (fst (opr t db)) = (fst (opr t db), False)"
proof (rule opr_stale)
  show "inv (fst (opr t db))" using assms(1) by (rule opr_inv)
  obtain r where r: "lookup db (id_of t) = Some r" "owned t r"
    using assms(1,2) answer by blast
  then have "lookup (fst (opr t db)) (id_of t') = Some (eff r)"
    using opr_owned [OF assms(1) r] assms(3) by simp
  then show "\<not> owned t' r'" if "lookup (fst (opr t db)) (id_of t') = Some r'" for r'
    using that eff_releases [OF r(2)] by simp
qed

end

lemma owned_update_claim_operation:
  assumes "\<And>j. j_id (f j) = j_id j"
  shows "claim_operation get_job ids_distinct owns ct_job_id (\<lambda>t. owned_update t f) f"
proof (unfold_locales, goal_cases)
  case (1 db t r)
  then show ?case
    using owned_update_lookup [OF 1(1) assms, of t] owned_update_result [OF 1(1), of t f]
    by (simp add: holds_claim_def)
next
  case (2 db t)
  then show ?case by (intro owned_update_stale) (auto simp: holds_claim_def split: option.splits)
next
  case (3 db t)
  then show ?case by (simp add: owned_update_def ids_distinct_sql_update assms)
qed

lemma owned_update_releasing:
  assumes "\<And>j. j_id (f j) = j_id j" and "\<And>j. j_status (f j) \<noteq> Running"
  shows "releasing_operation get_job ids_distinct owns ct_job_id (\<lambda>t. owned_update t f) f"
  unfolding releasing_operation_def releasing_operation_axioms_def
  using owned_update_claim_operation [of f] assms by (auto simp: owns_def)

interpretation heartbeat: claim_operation get_job ids_distinct owns ct_job_id
  "\<lambda>t. owned_update t (set_heartbeat now)" "set_heartbeat now" for now
  by (rule owned_update_claim_operation) simp

interpretation succeed: releasing_operation get_job ids_distinct owns ct_job_id
  "\<lambda>t. owned_update t (set_succeeded now)" "set_succeeded now" for now
  by (rule owned_update_releasing) simp_all

interpretation fail: releasing_operation get_job ids_distinct owns ct_job_id
  "\<lambda>t. owned_update t (set_failed now err)" "set_failed now err" for now err
  by (rule owned_update_releasing) simp_all

interpretation release: releasing_operation get_job ids_distinct owns ct_job_id
  "\<lambda>t. owned_update t (set_released now err)" "set_released now err" for now err
  by (rule owned_update_releasing) simp_all

end
