(* ===== verification/QueueProps.thy ===== *)
theory QueueProps
  imports QueueDB
begin

text \<open>
  What the queue of \<open>QueueDB\<close> guarantees: the steps other processes and the workers can
  take, the invariant of every reachable queue, the effect of a claim, the bound on the
  claims of a job, and what recovery of stale jobs does.
\<close>

section \<open>Effect of a claim\<close>

lemma claim_found:
  assumes "ids_distinct db" and "(r = None) = (g = None)"
    and "gen = supplied r g"
    and "first_by j_created_at (filter (claimable db w gen) (jobs db)) = Some row"
  shows "claim_next_job now w r g db =
    Inr (db\<lparr>jobs := sql_update (\<lambda>j. j_id j = j_id row) (set_claimed now w r g) (jobs db)\<rparr>,
         Some (set_claimed now w r g row))"
proof -
  let ?p = "\<lambda>j. j_id j = j_id row \<and> j_status j = Queued \<and> lease_clause db w gen"
  from first_by_Some(1) [OF assms(4)] have row: "row \<in> set (jobs db)" "claimable db w gen row"
    by auto
  have "?p row" using row(2) by (simp add: claimable_def)
  moreover have "j = row" if "j \<in> set (jobs db)" "j_id j = j_id row" for j
    using ids_distinct_eq [OF assms(1) that(1) row(1) that(2)] .
  ultimately have same: "?p j \<longleftrightarrow> j_id j = j_id row" if "j \<in> set (jobs db)" for j
    using that by blast
  from \<open>?p row\<close> have count: "sql_rowcount ?p (jobs db) = 1"
    using distinct_key_rowcount [of j_id "jobs db" ?p "j_id row"] assms(1)
      get_job_mem [OF assms(1) row(1)]
    by (simp add: ids_distinct_def get_job_def)
  have upd: "sql_update ?p (set_claimed now w r g) (jobs db) =
      sql_update (\<lambda>j. j_id j = j_id row) (set_claimed now w r g) (jobs db)"
    unfolding sql_update_def by (rule map_cong) (use same in auto)
  have "get_job (db\<lparr>jobs := sql_update (\<lambda>j. j_id j = j_id row) (set_claimed now w r g) (jobs db)\<rparr>) (j_id row)
      = Some (set_claimed now w r g row)"
    by (simp add: get_job_sql_update get_job_mem [OF assms(1) row(1)])
  then show ?thesis
    using assms(2) unfolding claim_next_job_def
    by (simp only: assms(3) [symmetric] assms(4) Let_def count upd option.case) simp
qed

lemma claim_none:
  assumes "(r = None) = (g = None)"
    and "first_by j_created_at (filter (claimable db w (supplied r g)) (jobs db)) = None"
  shows "claim_next_job now w r g db = Inr (db, None)"
  using assms(1) unfolding claim_next_job_def by (simp only: assms(2) Let_def option.case) simp

lemma claim_cases:
  assumes "ids_distinct db" and "claim_next_job now w r g db = Inr (db', res)"
  obtains (none) "res = None" "db' = db"
  | (claimed) row where "res = Some (set_claimed now w r g row)" "row \<in> set (jobs db)"
      "j_status row = Queued" "j_attempts row < j_max_attempts row" "(r = None) = (g = None)"
      "\<And>r' g'. r = Some r' \<Longrightarrow> g = Some g' \<Longrightarrow> worker_lease_matches db w r' g'"
      "\<And>j. j \<in> set (jobs db) \<Longrightarrow> j_status j = Queued \<Longrightarrow> j_attempts j < j_max_attempts j \<Longrightarrow>
         j_created_at row \<le> j_created_at j"
      "db' = db\<lparr>jobs := sql_update (\<lambda>j. j_id j = j_id row) (set_claimed now w r g) (jobs db)\<rparr>"
proof -
  let ?gen = "supplied r g"
  have rg: "(r = None) = (g = None)"
    using assms(2) by (auto simp: claim_next_job_def split: if_splits)
  show thesis
  proof (cases "first_by j_created_at (filter (claimable db w ?gen) (jobs db))")
    case None
    from claim_none [OF rg None] assms(2) none show thesis by simp
  next
    case (Some row)
    from first_by_Some(1) [OF Some] have row: "row \<in> set (jobs db)" "claimable db w ?gen row" by auto
    from claim_found [OF assms(1) rg refl Some] assms(2)
    have "res = Some (set_claimed now w r g row)"
      "db' = db\<lparr>jobs := sql_update (\<lambda>j. j_id j = j_id row) (set_claimed now w r g) (jobs db)\<rparr>"
      by auto
    moreover have "j_created_at row \<le> j_created_at j"
      if "j \<in> set (jobs db)" "j_status j = Queued" "j_attempts j < j_max_attempts j" for j
      using first_by_Some(2) [OF Some, of j] that row(2) by (simp add: claimable_def)
    moreover have "worker_lease_matches db w r' g'" if "r = Some r'" "g = Some g'" for r' g'
      using row(2) that by (simp add: claimable_def lease_clause_def supplied_def)
    ultimately show thesis
      using claimed [of row] row rg by (simp add: claimable_def)
  qed
qed

section \<open>Recovery, row by row\<close>

lemma recover_rows_count: "snd (recover_rows clock n rows db) = n + length rows"
  by (induction clock n rows db rule: recover_rows.induct) simp_all

lemma update_by_id_other [simp]:
  "(\<And>j. j_id (f j) = j_id j) \<Longrightarrow> i \<noteq> jid \<Longrightarrow> get_job (update_by_id jid f db) i = get_job db i"
  by (cases "get_job db i") (auto simp: update_by_id_def get_job_sql_update dest: get_job_Some)

lemma update_by_id_same:
  "(\<And>j. j_id (f j) = j_id j) \<Longrightarrow> get_job (update_by_id jid f db) jid = map_option f (get_job db jid)"
  by (cases "get_job db jid") (auto simp: update_by_id_def get_job_sql_update dest: get_job_Some)

lemma ids_distinct_update_by_id [simp]:
  "(\<And>j. j_id (f j) = j_id j) \<Longrightarrow> ids_distinct (update_by_id jid f db) = ids_distinct db"
  by (simp add: update_by_id_def ids_distinct_sql_update)

lemma recover_row_simps [simp]:
  "ids_distinct (recover_row now row db) = ids_distinct db"
  "leases (recover_row now row db) = leases db"
  "i \<noteq> j_id row \<Longrightarrow> get_job (recover_row now row db) i = get_job db i"
  by (simp_all add: recover_row_def) (simp_all add: update_by_id_def)

lemma recover_rows_other:
  "i \<notin> j_id ` set rows \<Longrightarrow> get_job (fst (recover_rows clock n rows db)) i = get_job db i"
  by (induction clock n rows db rule: recover_rows.induct) simp_all

definition recovered_job :: "string \<Rightarrow> job \<Rightarrow> job" where
  "recovered_job now j =
    (if j_attempts j < j_max_attempts j then set_recovered now j
     else set_failed now ''Job exceeded max attempts after stale recovery.'' j)"

lemma recover_rows_at:
  assumes "distinct (map j_id rows)" and "k < length rows" and "get_job db (j_id (rows ! k)) = Some (rows ! k)"
  shows "get_job (fst (recover_rows clock n rows db)) (j_id (rows ! k)) =
    Some (recovered_job (clock (n + k)) (rows ! k))"
  using assms
proof (induction rows arbitrary: n k db)
  case Nil
  then show ?case by simp
next
  case (Cons row rows)
  show ?case
  proof (cases k)
    case 0
    with Cons.prems show ?thesis
      by (auto simp: recover_rows_other recover_row_def recovered_job_def update_by_id_same)
  next
    case (Suc k')
    with Cons.prems(2) have "rows ! k' \<in> set rows" by simp
    with Cons.prems(1) have "j_id (rows ! k') \<noteq> j_id row" by (metis distinct.simps(2) image_eqI list.set_map list.simps(9))
    with Cons Suc show ?thesis by simp
  qed
qed

lemma recover_lookup:
  assumes "ids_distinct db" and "get_job db i = Some j"
  shows "\<exists>k. get_job (fst (recover_stale_running_jobs threshold clock db)) i =
    Some (if stale threshold j then recovered_job (clock k) j else j)"
proof (cases "stale threshold j")
  case False
  have "i \<notin> j_id ` set (filter (stale threshold) (jobs db))"
    using assms False get_job_mem [OF assms(1)] by force
  then show ?thesis using False assms(2)
    by (simp add: recover_stale_running_jobs_def recover_rows_other)
next
  case True
  let ?rows = "filter (stale threshold) (jobs db)"
  from assms(2) have j: "j \<in> set (jobs db)" "j_id j = i" by (auto dest: get_job_Some)
  with True have "j \<in> set ?rows" by simp
  then obtain k where k: "k < length ?rows" "?rows ! k = j"
    by (meson in_set_conv_nth)
  have "distinct (map j_id ?rows)"
    using assms(1) by (simp add: ids_distinct_def distinct_map_filter)
  from recover_rows_at [OF this k(1), of db clock 0] k assms(2) j True show ?thesis
    by (auto simp: recover_stale_running_jobs_def)
qed

section \<open>Steps\<close>

text \<open>
  Everything that can happen to the stored queue, with any arguments and any times. The
  label names the job a step claims, or the job an operation without ownership check is
  applied to.
\<close>

datatype qevent = Claimed string | Unowned string | Internal

inductive qstep :: "qdb \<Rightarrow> qevent \<Rightarrow> qdb \<Rightarrow> bool" where
  enqueue: "enqueue_job now fresh rq db = Inr (db', res) \<Longrightarrow> qstep db Internal db'"
| acquire: "acquire_worker_lease now w r g pid start db = Inr (db', res) \<Longrightarrow> qstep db Internal db'"
| renew: "renew_worker_lease now w r g db = (db', res) \<Longrightarrow> qstep db Internal db'"
| idle: "claim_next_job now w r g db = Inr (db', None) \<Longrightarrow> qstep db Internal db'"
| claim: "claim_next_job now w r g db = Inr (db', Some j) \<Longrightarrow> qstep db (Claimed (j_id j)) db'"
| requeue_owned: "requeue_claimed_job_if_owned now t err db = Inr (db', res) \<Longrightarrow> qstep db Internal db'"
| touch_owned: "touch_heartbeat_if_owned now t db = Inr (db', res) \<Longrightarrow> qstep db Internal db'"
| succeed_owned: "mark_succeeded_if_owned now t db = Inr (db', res) \<Longrightarrow> qstep db Internal db'"
| fail_owned: "mark_failed_if_owned now t err db = Inr (db', res) \<Longrightarrow> qstep db Internal db'"
| touch: "qstep db (Unowned jid) (touch_heartbeat now jid db)"
| succeed: "qstep db (Unowned jid) (mark_succeeded now jid db)"
| fail: "qstep db (Unowned jid) (mark_failed now jid err db)"
| requeue: "qstep db (Unowned jid) (requeue_job now jid err db)"
| recover: "qstep db Internal (fst (recover_stale_running_jobs threshold clock db))"

inductive qtrace :: "qdb \<Rightarrow> qevent list \<Rightarrow> qdb \<Rightarrow> bool" where
  start: "qtrace db [] db"
| more: "qtrace db es db' \<Longrightarrow> qstep db' e db'' \<Longrightarrow> qtrace db (es @ [e]) db''"

section \<open>The life cycle of one job\<close>

text \<open>
  The abstract machine of a single row. Every step of the stored queue is, for each job, a
  step of this machine (\<open>qstep_jobs\<close>), so a property of jobs is a property of its few
  transitions.
\<close>

inductive job_step :: "qevent \<Rightarrow> job \<Rightarrow> job \<Rightarrow> bool" where
  stay: "e \<noteq> Claimed (j_id j) \<Longrightarrow> job_step e j j"
| take: "j_status j = Queued \<Longrightarrow> j_attempts j < j_max_attempts j \<Longrightarrow> (r = None) = (g = None) \<Longrightarrow>
    job_step (Claimed (j_id j)) j (set_claimed now w r g j)"
| give_back: "j_status j = Running \<Longrightarrow> job_step Internal j (set_released now err j)"
| beat: "j_status j = Running \<Longrightarrow> job_step Internal j (set_heartbeat now j)"
| finish: "j_status j = Running \<Longrightarrow> job_step Internal j (set_succeeded now j)"
| give_up: "j_status j = Running \<Longrightarrow> job_step Internal j (set_failed now err j)"
| revive: "j_status j = Running \<Longrightarrow> j_attempts j < j_max_attempts j \<Longrightarrow>
    job_step Internal j (set_recovered now j)"
| force_beat: "job_step (Unowned (j_id j)) j (set_heartbeat now j)"
| force_finish: "job_step (Unowned (j_id j)) j (set_succeeded now j)"
| force_fail: "job_step (Unowned (j_id j)) j (set_failed now err j)"
| force_requeue: "job_step (Unowned (j_id j)) j (set_released now err j)"

inductive_cases job_stepE: "job_step e j j'"

text \<open>How a whole step acts on the row with a given id.\<close>

definition row_follows :: "qevent \<Rightarrow> string \<Rightarrow> job option \<Rightarrow> job option \<Rightarrow> bool" where
  "row_follows e i before after =
    (case before of
       Some j \<Rightarrow> (\<exists>j'. after = Some j' \<and> job_step e j j')
     | None \<Rightarrow> e \<noteq> Claimed i \<and> (after = None \<or> (\<exists>now rq. after = Some (new_job now i rq))))"

lemma row_follows_same: "e \<noteq> Claimed i \<Longrightarrow> get_job db i = x \<Longrightarrow> row_follows e i x x"
  by (auto simp: row_follows_def split: option.splits intro!: stay dest!: get_job_Some)

lemma owned_update_follows:
  assumes "ids_distinct db" and "\<And>j. j_id (f j) = j_id j"
    and "\<And>j. j_status j = Running \<Longrightarrow> job_step Internal j (f j)"
  shows "row_follows Internal i (get_job db i) (get_job (fst (owned_update t f db)) i)"
  using assms(2,3)
  by (cases "get_job db i")
     (auto simp: row_follows_def owned_update_def get_job_sql_update owns_def intro: stay)

lemma update_by_id_follows:
  assumes "\<And>j. j_id (f j) = j_id j" and "\<And>j. job_step (Unowned (j_id j)) j (f j)"
  shows "row_follows (Unowned jid) i (get_job db i) (get_job (update_by_id jid f db) i)"
  using assms
  by (cases "get_job db i")
     (auto simp: row_follows_def update_by_id_def get_job_sql_update intro: stay)

lemma claim_follows:
  assumes "ids_distinct db" and "row \<in> set (jobs db)" and "j_status row = Queued"
    and "j_attempts row < j_max_attempts row" and "(r = None) = (g = None)"
  shows "row_follows (Claimed (j_id row)) i (get_job db i)
    (get_job (db\<lparr>jobs := sql_update (\<lambda>j. j_id j = j_id row) (set_claimed now w r g) (jobs db)\<rparr>) i)"
proof (cases "i = j_id row")
  case True
  with assms show ?thesis
    by (auto simp: row_follows_def get_job_sql_update get_job_mem intro: take)
next
  case False
  then show ?thesis
    by (cases "get_job db i")
       (auto simp: row_follows_def get_job_sql_update dest: get_job_Some intro: stay)
qed

lemma recovered_follows:
  "get_job db i = Some j \<Longrightarrow> stale threshold j \<Longrightarrow> job_step Internal j (recovered_job now j)"
  by (auto simp: recovered_job_def stale_def intro: revive give_up)

lemma recovered_not_stale: "stale threshold (if stale threshold j then recovered_job now j else j) = False"
  by (simp add: stale_def recovered_job_def)

lemma recover_row_ids [simp]: "map j_id (jobs (recover_row now row db)) = map j_id (jobs db)"
  by (simp add: recover_row_def update_by_id_def map_sql_update)

lemma recover_rows_ids [simp]: "map j_id (jobs (fst (recover_rows clock n rows db))) = map j_id (jobs db)"
  by (induction clock n rows db rule: recover_rows.induct) simp_all

lemma recover_ids [simp]:
  "map j_id (jobs (fst (recover_stale_running_jobs threshold clock db))) = map j_id (jobs db)"
  by (simp add: recover_stale_running_jobs_def)

lemma get_job_None: "get_job db i = None \<longleftrightarrow> i \<notin> set (map j_id (jobs db))"
  by (auto simp: get_job_def find_None_iff)

lemma recover_follows:
  assumes "ids_distinct db"
  shows "row_follows Internal i (get_job db i)
    (get_job (fst (recover_stale_running_jobs threshold clock db)) i)"
proof (cases "get_job db i")
  case None
  then have "get_job (fst (recover_stale_running_jobs threshold clock db)) i = None"
    by (simp add: get_job_None del: set_map)
  with None show ?thesis by (simp add: row_follows_def)
next
  case (Some j)
  from recover_lookup [OF assms Some, of threshold clock] recovered_follows [OF Some] Some
  show ?thesis by (auto simp: row_follows_def intro: stay)
qed

lemma enqueue_follows:
  assumes "enqueue_job now fresh rq db = Inr (db', res)"
  shows "row_follows Internal i (get_job db i) (get_job db' i)" and "ids_distinct db \<Longrightarrow> ids_distinct db'"
proof -
  let ?jid = "chosen_id fresh rq"
  from assms have db': "db' = db\<lparr>jobs := jobs db @ [new_job now ?jid rq]\<rparr>"
    and fresh: "\<forall>j \<in> set (jobs db). j_id j \<noteq> ?jid"
    by (auto simp: enqueue_job_def Let_def split: if_splits)
  have id: "j_id (new_job now ?jid rq) = ?jid" by (simp add: new_job_def)
  have app: "find P (xs @ [x]) = (case find P xs of None \<Rightarrow> if P x then Some x else None | Some y \<Rightarrow> Some y)"
    for P :: "job \<Rightarrow> bool" and xs x by (induction xs) auto
  show "row_follows Internal i (get_job db i) (get_job db' i)"
    using id by (auto simp: db' get_job_def app row_follows_def intro: stay split: option.splits)
  show "ids_distinct db \<Longrightarrow> ids_distinct db'"
    using fresh id by (auto simp: db' ids_distinct_def)
qed

lemma qstep_jobs:
  assumes "qstep db e db'" and "ids_distinct db"
  shows "row_follows e i (get_job db i) (get_job db' i)" and "ids_distinct db'"
proof -
  have "row_follows e i (get_job db i) (get_job db' i) \<and> ids_distinct db'"
    using assms
  proof (cases rule: qstep.cases)
    case (enqueue now fresh rq res)
    with assms(2) enqueue_follows show ?thesis by blast
  next
    case (acquire now w r g pid start res)
    then have "jobs db' = jobs db" by (auto simp: acquire_worker_lease_def split: if_splits)
    with acquire assms(2) row_follows_same [of Internal i db] show ?thesis
      by (simp add: get_job_def ids_distinct_def)
  next
    case (renew now w r g res)
    then have "jobs db' = jobs db" by (auto simp: renew_worker_lease_def split: if_splits option.splits)
    with renew assms(2) row_follows_same [of Internal i db] show ?thesis
      by (simp add: get_job_def ids_distinct_def)
  next
    case (idle now w r g)
    from claim_cases [OF assms(2) idle(2)] have "db' = db" by (cases) auto
    with idle assms(2) row_follows_same [of Internal i db] show ?thesis by simp
  next
    case (claim now w r g j)
    from claim_cases [OF assms(2) claim(2)] show ?thesis
      by (cases) (use claim(1) claim_follows [OF assms(2)] assms(2) in
        \<open>auto simp: ids_distinct_sql_update\<close>)
  next
    case (requeue_owned now t err res)
    then have "db' = fst (owned_update t (set_released now err) db)"
      by (auto simp: requeue_claimed_job_if_owned_def split: if_splits)
    with requeue_owned(1) owned_update_follows [OF assms(2) _ give_back] release.opr_inv [OF assms(2)]
    show ?thesis by simp
  next
    case (touch_owned now t res)
    then have "db' = fst (owned_update t (set_heartbeat now) db)"
      by (auto simp: touch_heartbeat_if_owned_def split: if_splits)
    with touch_owned(1) owned_update_follows [OF assms(2) _ beat] heartbeat.opr_inv [OF assms(2)]
    show ?thesis by simp
  next
    case (succeed_owned now t res)
    then have "db' = fst (owned_update t (set_succeeded now) db)"
      by (auto simp: mark_succeeded_if_owned_def split: if_splits)
    with succeed_owned(1) owned_update_follows [OF assms(2) _ finish] succeed.opr_inv [OF assms(2)]
    show ?thesis by simp
  next
    case (fail_owned now t err res)
    then have "db' = fst (owned_update t (set_failed now err) db)"
      by (auto simp: mark_failed_if_owned_def split: if_splits)
    with fail_owned(1) owned_update_follows [OF assms(2) _ give_up] fail.opr_inv [OF assms(2)]
    show ?thesis by simp
  next
    case (touch jid now)
    with update_by_id_follows [OF _ force_beat] assms(2) show ?thesis by (simp add: touch_heartbeat_def)
  next
    case (succeed jid now)
    with update_by_id_follows [OF _ force_finish] assms(2) show ?thesis by (simp add: mark_succeeded_def)
  next
    case (fail jid now err)
    with update_by_id_follows [OF _ force_fail] assms(2) show ?thesis by (simp add: mark_failed_def)
  next
    case (requeue jid now err)
    with update_by_id_follows [OF _ force_requeue] assms(2) show ?thesis by (simp add: requeue_job_def)
  next
    case (recover threshold clock)
    with recover_follows [OF assms(2)] assms(2) show ?thesis by (simp add: ids_distinct_def)
  qed
  then show "row_follows e i (get_job db i) (get_job db' i)" and "ids_distinct db'" by simp_all
qed

section \<open>Invariant of the stored jobs\<close>

definition job_ok :: "job \<Rightarrow> bool" where
  "job_ok j \<longleftrightarrow> 0 \<le> j_attempts j \<and> j_attempts j \<le> max 0 (j_max_attempts j)
    \<and> (j_status j = Running \<longrightarrow> j_worker_name j \<noteq> None \<and> j_started_at j \<noteq> None
        \<and> j_last_heartbeat j \<noteq> None \<and> j_finished_at j = None \<and> 0 < j_attempts j
        \<and> (j_claim_run_id j = None) = (j_claim_generation j = None))
    \<and> (j_status j = Queued \<longrightarrow> j_worker_name j = None \<and> j_claim_run_id j = None
        \<and> j_claim_generation j = None \<and> j_started_at j = None \<and> j_finished_at j = None)
    \<and> (j_status j = Succeeded \<or> j_status j = Failed \<longrightarrow> j_finished_at j \<noteq> None)"

lemma new_job_ok: "job_ok (new_job now i rq)"
  by (simp add: job_ok_def new_job_def)

lemma job_step_ok: "job_step e j j' \<Longrightarrow> job_ok j \<Longrightarrow> job_ok j'"
  by (erule job_stepE)
     (auto simp: job_ok_def set_claimed_def set_released_def set_heartbeat_def set_succeeded_def
        set_failed_def set_recovered_def split: option.splits)

lemma job_step_attempts:
  "job_step e j j' \<Longrightarrow> j_id j' = j_id j \<and> j_max_attempts j' = j_max_attempts j
    \<and> j_attempts j' = j_attempts j + (if e = Claimed (j_id j) then 1 else 0)"
  by (erule job_stepE)
     (auto simp: set_claimed_def set_released_def set_heartbeat_def set_succeeded_def
        set_failed_def set_recovered_def)

definition claims_of :: "string \<Rightarrow> qevent list \<Rightarrow> nat" where
  "claims_of i es = length (filter (\<lambda>e. e = Claimed i) es)"

definition row_ok :: "qevent list \<Rightarrow> string \<Rightarrow> job option \<Rightarrow> bool" where
  "row_ok es i row = (case row of None \<Rightarrow> claims_of i es = 0
     | Some j \<Rightarrow> job_ok j \<and> j_attempts j = int (claims_of i es))"

lemma row_follows_ok:
  assumes "row_follows e i before after" and "row_ok es i before" and "\<And>j. before = Some j \<Longrightarrow> j_id j = i"
  shows "row_ok (es @ [e]) i after"
proof (cases before)
  case None
  with assms show ?thesis
    by (auto simp: row_follows_def row_ok_def claims_of_def new_job_ok) (auto simp: new_job_def)
next
  case (Some j)
  with assms obtain j' where j': "after = Some j'" "job_step e j j'" by (auto simp: row_follows_def)
  from job_step_attempts [OF j'(2)] job_step_ok [OF j'(2)] assms Some j'(1) show ?thesis
    by (auto simp: row_ok_def claims_of_def)
qed

lemma qtrace_rows:
  "qtrace db es db' \<Longrightarrow> db = empty_db \<Longrightarrow> ids_distinct db' \<and> (\<forall>i. row_ok es i (get_job db' i))"
proof (induction rule: qtrace.induct)
  case (start db)
  then show ?case by (simp add: empty_db_def ids_distinct_def get_job_def row_ok_def claims_of_def)
next
  case (more db es db' e db'')
  from more.IH [OF more.prems] qstep_jobs [OF more.hyps(2)] row_follows_ok [of e _ "get_job db' _"]
  show ?case by (blast dest: get_job_Some)
qed


definition example_request :: job_request where
  "example_request = \<lparr>rq_task_type = ''convert'', rq_source_filename = ''a.hwpx'', rq_source_path = ''/in/a.hwpx'',
     rq_output_path = ''/out/a.pdf'', rq_instructions_path = None, rq_edited_output_path = None,
     rq_job_dir = ''/jobs/1'', rq_file_size_bytes = 10, rq_content_type = None, rq_max_attempts = 2,
     rq_job_id = Some ''j1''\<rparr>"

definition example_job :: job where
  "example_job = new_job ''t0'' ''j1'' example_request"

definition example_db :: qdb where
  "example_db = \<lparr>jobs = [example_job], leases = Map.empty\<rparr>"

definition example_lease :: lease where
  "example_lease = \<lparr>l_run_id = ''r1'', l_generation = ''g1'', l_worker_pid = 7, l_start_identity = ''s'', l_updated_at = ''t0''\<rparr>"

lemma example_enqueue: "enqueue_job ''t0'' ''u'' example_request empty_db = Inr (example_db, Some example_job)"
  by (simp add: enqueue_job_def empty_db_def example_db_def example_job_def example_request_def
      chosen_id_def get_job_def new_job_def Let_def)

lemma example_trace: "qtrace empty_db [Internal] example_db"
  using qtrace.more [OF qtrace.start qstep.enqueue [OF example_enqueue]] by simp

lemma example_claim:
  "claim_next_job ''t1'' ''w'' (Some ''r1'') (Some ''g1'') (example_db\<lparr>leases := [''w'' \<mapsto> example_lease]\<rparr>) =
    Inr (example_db\<lparr>jobs := [set_claimed ''t1'' ''w'' (Some ''r1'') (Some ''g1'') example_job], leases := [''w'' \<mapsto> example_lease]\<rparr>,
      Some (set_claimed ''t1'' ''w'' (Some ''r1'') (Some ''g1'') example_job))"
  by (simp add: claim_next_job_def example_db_def example_lease_def example_job_def example_request_def
      claimable_def supplied_def lease_clause_def worker_lease_matches_def first_by_def new_job_def
      sql_rowcount_def sql_update_def get_job_def)

lemma example_claim_plain:
  "claim_next_job ''t1'' ''w'' None None example_db =
    Inr (example_db\<lparr>jobs := [set_claimed ''t1'' ''w'' None None example_job]\<rparr>, Some (set_claimed ''t1'' ''w'' None None example_job))"
  by (simp add: claim_next_job_def example_db_def example_job_def example_request_def
      claimable_def supplied_def lease_clause_def first_by_def new_job_def
      sql_rowcount_def sql_update_def get_job_def)

lemma example_claimed_trace:
  "qtrace empty_db [Internal, Claimed ''j1''] (example_db\<lparr>jobs := [set_claimed ''t1'' ''w'' None None example_job]\<rparr>)"
  using qtrace.more [OF example_trace qstep.claim [OF example_claim_plain]]
  by (simp add: example_job_def new_job_def)


text \<open>
  Over the whole life of a queue, a job's attempt counter is exactly the number of times it
  was claimed, and it is never claimed more often than its \<open>max_attempts\<close>.
\<close>

theorem claims_bounded:
  assumes "qtrace empty_db es db" and "get_job db i = Some j"
  shows "j_attempts j = int (claims_of i es) \<and> claims_of i es \<le> nat (j_max_attempts j)"
  using qtrace_rows [OF assms(1) refl] assms(2)
  by (auto simp: row_ok_def job_ok_def dest!: spec [of _ i])

theorem claims_bounded_witness:
  "claims_of ''j1'' [Internal, Claimed ''j1''] = 1 \<and> claims_of ''j1'' [Internal, Claimed ''j1''] \<le> nat 2"
proof -
  have "get_job (example_db\<lparr>jobs := [set_claimed ''t1'' ''w'' None None example_job]\<rparr>) ''j1''
      = Some (set_claimed ''t1'' ''w'' None None example_job)"
    by (simp add: get_job_def example_job_def new_job_def)
  from claims_bounded [OF example_claimed_trace this] show ?thesis
    by (simp add: set_claimed_def example_job_def new_job_def example_request_def)
qed

section \<open>Properties of the operations\<close>

text \<open>
  \<open>claim_next_job\<close> returns a job exactly when the generation arguments come together and
  some queued job has attempts left and the worker's lease (if one is named) still holds; the
  returned job is an oldest such job, now running, with one more attempt and sealed with the
  caller's worker, run and generation, and it is the stored row; every other row is unchanged.
\<close>

theorem claim_next_job_exact:
  assumes "ids_distinct db" and "claim_next_job now w r g db = Inr (db', res)"
  shows "(res = None \<longleftrightarrow> filter (claimable db w (supplied r g)) (jobs db) = [])
    \<and> (case res of None \<Rightarrow> db' = db
       | Some j' \<Rightarrow> \<exists>j \<in> set (filter (claimable db w (supplied r g)) (jobs db)).
           j' = set_claimed now w r g j
           \<and> list_all (\<lambda>k. j_created_at j \<le> j_created_at k) (filter (claimable db w (supplied r g)) (jobs db))
           \<and> get_job db' = (get_job db)(j_id j \<mapsto> j') \<and> leases db' = leases db)"
proof -
  let ?xs = "filter (claimable db w (supplied r g)) (jobs db)"
  have rg: "(r = None) = (g = None)"
    using assms(2) by (auto simp: claim_next_job_def split: if_splits)
  show ?thesis
  proof (cases "first_by j_created_at ?xs")
    case None
    with claim_none [OF rg None] assms(2) show ?thesis by auto
  next
    case (Some j)
    have j: "j \<in> set ?xs" by (rule first_by_Some(1) [OF Some])
    then have mem: "j \<in> set (jobs db)" by simp
    from claim_found [OF assms(1) rg refl Some] assms(2)
    have res: "res = Some (set_claimed now w r g j)"
      and db': "db' = db\<lparr>jobs := sql_update (\<lambda>k. j_id k = j_id j) (set_claimed now w r g) (jobs db)\<rparr>" by auto
    have "get_job db' i = ((get_job db)(j_id j \<mapsto> set_claimed now w r g j)) i" for i
    proof (cases "i = j_id j")
      case True
      then show ?thesis by (simp add: db' get_job_sql_update get_job_mem [OF assms(1) mem])
    next
      case False
      then show ?thesis by (cases "get_job db i") (auto simp: db' get_job_sql_update dest: get_job_Some)
    qed
    moreover have "list_all (\<lambda>k. j_created_at j \<le> j_created_at k) ?xs"
      using first_by_Some(2) [OF Some] by (simp add: list_all_iff)
    moreover have "?xs \<noteq> []" using j by (metis empty_iff list.set(1))
    moreover have "leases db' = leases db" by (simp add: db')
    ultimately show ?thesis unfolding res option.case using j by (intro conjI bexI [of _ j]) (auto simp: fun_eq_iff)
  qed
qed

theorem claim_next_job_exact_witness:
  "ids_distinct example_db \<and> claim_next_job ''t1'' ''w'' None None example_db =
     Inr (example_db\<lparr>jobs := [set_claimed ''t1'' ''w'' None None example_job]\<rparr>, Some (set_claimed ''t1'' ''w'' None None example_job))
   \<and> filter (claimable example_db ''w'' (supplied None None)) (jobs example_db) \<noteq> []"
proof -
  have d: "ids_distinct example_db" by (simp add: ids_distinct_def example_db_def)
  show ?thesis using d example_claim_plain claim_next_job_exact [OF d example_claim_plain] by simp
qed

text \<open>
  C13. Fencing: once a successor has taken over a worker's lease with another run or generation,
  the predecessor can neither claim a job nor renew the lease, and both attempts change nothing.
\<close>

theorem successor_fences_predecessor:
  assumes "acquire_worker_lease now w r' g' pid start db = Inr (db', ok)" and "(r', g') \<noteq> (r, g)"
  shows "claim_next_job now2 w (Some r) (Some g) db' = Inr (db', None)
    \<and> renew_worker_lease now2 w r g db' = (db', False) \<and> \<not> worker_lease_matches db' w r g"
proof -
  from assms have no: "\<not> worker_lease_matches db' w r g" and "renew_worker_lease now2 w r g db' = (db', False)"
    by (auto simp: acquire_worker_lease_def worker_lease_matches_def renew_worker_lease_def split: if_splits)
  moreover have "filter (claimable db' w (supplied (Some r) (Some g))) (jobs db') = []"
    using no by (simp add: filter_empty_conv claimable_def supplied_def lease_clause_def)
  then have "claim_next_job now2 w (Some r) (Some g) db' = Inr (db', None)"
    by (intro claim_none) simp_all
  ultimately show ?thesis by simp
qed

theorem successor_fences_predecessor_witness:
  "claim_next_job ''t2'' ''w'' (Some ''r1'') (Some ''g1'')
     (example_db\<lparr>leases := [''w'' \<mapsto> \<lparr>l_run_id = ''r2'', l_generation = ''g1'', l_worker_pid = 8, l_start_identity = ''s'', l_updated_at = ''t1''\<rparr>]\<rparr>)
   = Inr (example_db\<lparr>leases := [''w'' \<mapsto> \<lparr>l_run_id = ''r2'', l_generation = ''g1'', l_worker_pid = 8, l_start_identity = ''s'', l_updated_at = ''t1''\<rparr>]\<rparr>, None)"
proof -
  have a: "acquire_worker_lease ''t1'' ''w'' ''r2'' ''g1'' 8 ''s'' (example_db\<lparr>leases := [''w'' \<mapsto> example_lease]\<rparr>)
    = Inr (example_db\<lparr>leases := [''w'' \<mapsto> \<lparr>l_run_id = ''r2'', l_generation = ''g1'', l_worker_pid = 8, l_start_identity = ''s'', l_updated_at = ''t1''\<rparr>]\<rparr>, True)"
    by (simp add: acquire_worker_lease_def nonblank_iff py_space_def)
  show ?thesis using successor_fences_predecessor [OF a, of "''r1''" "''g1''" "''t2''"] by simp
qed

text \<open>
  An operation of a claim's owner answers True exactly when the stored job is running under
  exactly that worker, run and generation; then only that row changes, in the way the operation
  says, and otherwise the whole database is unchanged. In particular a stale worker can neither
  heartbeat, complete, fail nor release a job its successor has claimed.
\<close>

theorem owner_operations_exact:
  assumes "ids_distinct db" and "token_fields_ok t" and "nonblank err"
    and "(opr, f) \<in> {(touch_heartbeat_if_owned now t, set_heartbeat now),
      (mark_succeeded_if_owned now t, set_succeeded now),
      (mark_failed_if_owned now t err, set_failed now err),
      (requeue_claimed_job_if_owned now t err, set_released now err)}"
  shows "opr db = Inr (if holds_claim t db
      then (db\<lparr>jobs := sql_update (\<lambda>j. j_id j = ct_job_id t) f (jobs db)\<rparr>, True) else (db, False))"
proof -
  have opr: "opr db = Inr (owned_update t f db)"
    using assms(2-4) by (auto simp: touch_heartbeat_if_owned_def mark_succeeded_if_owned_def
        mark_failed_if_owned_def requeue_claimed_job_if_owned_def)
  show ?thesis
  proof (cases "holds_claim t db")
    case True
    then obtain k where k: "get_job db (ct_job_id t) = Some k" "owns t k"
      by (auto simp: holds_claim_def split: option.splits)
    have "owns t j \<longleftrightarrow> j_id j = ct_job_id t" if "j \<in> set (jobs db)" for j
      using get_job_mem [OF assms(1) that] k owns_id [of t j] by auto
    then have "sql_update (owns t) f (jobs db) = sql_update (\<lambda>j. j_id j = ct_job_id t) f (jobs db)"
      by (simp add: sql_update_def)
    moreover have "snd (owned_update t f db)" using owned_update_result [OF assms(1)] True by simp
    ultimately show ?thesis using opr True by (simp add: owned_update_def)
  next
    case False
    with opr owned_update_stale [OF assms(1) False] show ?thesis by simp
  qed
qed

theorem owner_operations_exact_witness:
  "mark_succeeded_if_owned ''t9'' \<lparr>ct_job_id = ''j1'', ct_worker = ''w'', ct_run_id = ''r1'', ct_generation = ''g1''\<rparr>
     (example_db\<lparr>jobs := [set_claimed ''t1'' ''w'' (Some ''r2'') (Some ''g2'') example_job]\<rparr>)
   = Inr (example_db\<lparr>jobs := [set_claimed ''t1'' ''w'' (Some ''r2'') (Some ''g2'') example_job]\<rparr>, False)"
proof -
  let ?t = "\<lparr>ct_job_id = ''j1'', ct_worker = ''w'', ct_run_id = ''r1'', ct_generation = ''g1''\<rparr>"
  let ?db = "example_db\<lparr>jobs := [set_claimed ''t1'' ''w'' (Some ''r2'') (Some ''g2'') example_job]\<rparr>"
  have "\<not> holds_claim ?t ?db"
    by (simp add: holds_claim_def get_job_def example_job_def new_job_def owns_def set_claimed_def)
  moreover have "ids_distinct ?db" by (simp add: ids_distinct_def)
  moreover have "token_fields_ok ?t" "nonblank ''e''" by (simp_all add: token_fields_ok_def nonblank_iff py_space_def)
  ultimately show ?thesis
    using owner_operations_exact [of ?db ?t "''e''" "mark_succeeded_if_owned ''t9'' ?t" "set_succeeded ''t9''" "''t9''"] by simp
qed

text \<open>
  Recovery acts on exactly the stale running jobs (last sign of life before the threshold,
  compared as stored text) and reports their number: one with attempts left is queued again
  without its claim, one without attempts left fails, and every other job is unchanged. So no
  job is stale afterwards.
\<close>

theorem recover_stale_exact:
  assumes "ids_distinct db"
  shows "snd (recover_stale_running_jobs threshold clock db) = length (filter (stale threshold) (jobs db))
    \<and> filter (stale threshold) (jobs (fst (recover_stale_running_jobs threshold clock db))) = []
    \<and> map j_id (jobs (fst (recover_stale_running_jobs threshold clock db))) = map j_id (jobs db)
    \<and> list_all (\<lambda>j. \<exists>k. get_job (fst (recover_stale_running_jobs threshold clock db)) (j_id j) =
        Some (if stale threshold j then recovered_job (clock k) j else j)) (jobs db)"
proof -
  let ?db' = "fst (recover_stale_running_jobs threshold clock db)"
  have ids: "ids_distinct ?db'" using assms by (simp add: ids_distinct_def)
  have rows: "\<exists>k. get_job ?db' (j_id j) = Some (if stale threshold j then recovered_job (clock k) j else j)"
    if "j \<in> set (jobs db)" for j
    using recover_lookup [OF assms get_job_mem [OF assms that]] .
  have "\<not> stale threshold j'" if j': "j' \<in> set (jobs ?db')" for j'
  proof -
    from j' have "j_id j' \<in> set (map j_id (jobs db))" by (metis image_eqI list.set_map recover_ids)
    then obtain j where j: "j \<in> set (jobs db)" "j_id j = j_id j'" by auto
    obtain k where "get_job ?db' (j_id j) = Some (if stale threshold j then recovered_job (clock k) j else j)"
      using rows [OF j(1)] by blast
    with get_job_mem [OF ids j'] j(2) have
      "j' = (if stale threshold j then recovered_job (clock k) j else j)" by (metis option.inject)
    then show ?thesis by (simp only: recovered_not_stale) simp
  qed
  then have "filter (stale threshold) (jobs ?db') = []" by (simp only: filter_empty_conv) blast
  moreover have "snd (recover_stale_running_jobs threshold clock db) = length (filter (stale threshold) (jobs db))"
    by (simp add: recover_stale_running_jobs_def recover_rows_count)
  ultimately show ?thesis
    using rows unfolding list_all_iff by (intro conjI ballI recover_ids)
qed

theorem recover_stale_exact_witness:
  "ids_distinct (example_db\<lparr>jobs := [set_claimed ''t1'' ''w'' None None example_job]\<rparr>)
   \<and> snd (recover_stale_running_jobs ''t5'' (\<lambda>_. ''t6'') (example_db\<lparr>jobs := [set_claimed ''t1'' ''w'' None None example_job]\<rparr>)) = 1"
proof -
  let ?db = "example_db\<lparr>jobs := [set_claimed ''t1'' ''w'' None None example_job]\<rparr>"
  have d: "ids_distinct ?db" by (simp add: ids_distinct_def)
  have "stale ''t5'' (set_claimed ''t1'' ''w'' None None example_job)"
    by (simp add: stale_def last_sign_def set_claimed_def less_char_def)
  with recover_stale_exact [OF d, of "''t5''" "\<lambda>_. ''t6''"] d show ?thesis by simp
qed

text \<open>
  A queued job that has used all its attempts is stranded: as long as nobody applies one of
  the operations without ownership check to it, no sequence of claims, heartbeats, releases,
  completions, recoveries and new jobs ever changes its row again, so it is neither run nor failed.
\<close>

theorem exhausted_job_stranded:
  assumes "qtrace db es db'" and "ids_distinct db" and "get_job db i = Some j"
    and "j_status j = Queued" and "j_max_attempts j \<le> j_attempts j" and "Unowned i \<notin> set es"
  shows "get_job db' i = Some j \<and> Claimed i \<notin> set es"
proof -
  have "ids_distinct db' \<and> get_job db' i = Some j \<and> Claimed i \<notin> set es"
    using assms
  proof (induction rule: qtrace.induct)
    case (more db es db' e db'')
    then have IH: "ids_distinct db'" "get_job db' i = Some j" "Claimed i \<notin> set es" by auto
    from qstep_jobs(1) [OF more.hyps(2) IH(1), of i] qstep_jobs(2) [OF more.hyps(2) IH(1)] IH(2) obtain j' where
      j': "get_job db'' i = Some j'" "job_step e j j'" "ids_distinct db''" by (auto simp: row_follows_def)
    from j'(2) have "j' = j \<and> e \<noteq> Claimed i"
      by (rule job_stepE) (use more.prems get_job_Some [OF IH(2)] in auto)
    with j' IH show ?case by auto
  qed simp
  then show ?thesis by simp
qed

theorem exhausted_job_stranded_witness:
  "get_job (example_db\<lparr>jobs := [example_job\<lparr>j_attempts := 2\<rparr>]\<rparr>) ''j1'' = Some (example_job\<lparr>j_attempts := 2\<rparr>)
   \<and> Claimed ''j1'' \<notin> set ([] :: qevent list)"
proof -
  let ?db = "example_db\<lparr>jobs := [example_job\<lparr>j_attempts := 2\<rparr>]\<rparr>"
  have "get_job ?db ''j1'' = Some (example_job\<lparr>j_attempts := 2\<rparr>)" "ids_distinct ?db"
    by (simp_all add: get_job_def example_job_def new_job_def ids_distinct_def)
  then show ?thesis
    using exhausted_job_stranded [OF qtrace.start, of ?db "''j1''" "example_job\<lparr>j_attempts := 2\<rparr>"]
    by (simp add: example_job_def new_job_def example_request_def)
qed

text \<open>
  \<open>initialize\<close> gives a table every column the queue uses however old the table was, keeps
  the columns it had, and run a second time changes nothing.
\<close>

theorem initialize_migrates:
  "set missing_columns \<subseteq> set (initialize table)
   \<and> initialize None = ddl_job_columns
   \<and> initialize (Some (initialize table)) = initialize table
   \<and> (case table of None \<Rightarrow> True | Some cols \<Rightarrow> take (length cols) (initialize table) = cols)"
proof -
  have "filter (\<lambda>c. c \<notin> set (xs @ filter (\<lambda>c. c \<notin> set xs) ys)) ys = []" for xs ys :: "string list"
    by (auto simp: filter_empty_conv)
  moreover have "set missing_columns \<subseteq> set ddl_job_columns"
    by (simp add: missing_columns_def ddl_job_columns_def)
  moreover from this have "filter (\<lambda>c. c \<notin> set ddl_job_columns) missing_columns = []"
    by (auto simp: filter_empty_conv)
  ultimately show ?thesis
    by (cases table) (auto simp: initialize_def Let_def)
qed

end
