(* ===== verification/Worker.thy ===== *)
theory Worker
  imports QueueProps
begin

text \<open>
  The queue side of the worker process of app/worker.py: claiming a job under a lease fence
  (\<open>claim_job_for_execution\<close>) and running it in a child process (\<open>handle_job\<close>). Every
  call on the queue is a point at which other processes may already have changed the stored
  tables; \<open>we_other\<close> gives those changes, so every interleaving of whole queue
  transactions with the worker's calls is an instance. The child process, the clock
  and the text of the last recorded phase are the rest of the environment. Paths go to the child
  unread, so resolving them is not modelled; the effects are the warnings of the log, the
  restart before a retry and the failure artifacts (the informational log lines are left out).
\<close>

section \<open>Environment\<close>

datatype call_point = AtLease | AtRelease | AtStart | AfterChild | AfterRetry | AtSuccess | AtRead | AtSettle

text \<open>
  One run of the child: it exits with a return code, its captured output and whether the
  output file exists afterwards; it exceeds the time limit; or launching it raises.
\<close>

datatype child_run = Exited int string string bool | TimedOut | LaunchError string

datatype failure = Timeout | Failure string

datatype worker_error = QueueError queue_error | PathTypeError

datatype effect =
    Warning string
  | ColdRestart string
  | FailureArtifacts string

record worker_env =
  we_now :: "call_point \<Rightarrow> string"
  we_other :: "call_point \<Rightarrow> qdb \<Rightarrow> qdb"
  we_child :: "bool \<Rightarrow> child_run"
  we_last_phase :: "string option"
  we_traceback :: string
  we_timeout_seconds :: int
  we_max_attempts :: int

section \<open>Claiming under the lease fence\<close>

definition lease_replaced_text :: string where
  "lease_replaced_text = ''Worker lease was replaced before native execution started.''"

definition token_of :: "string \<Rightarrow> string \<Rightarrow> string \<Rightarrow> string \<Rightarrow> claim_token" where
  "token_of jid w r g = \<lparr>ct_job_id = jid, ct_worker = w, ct_run_id = r, ct_generation = g\<rparr>"

text \<open>The changes of others come in before the claim, before the lease check and before the release.\<close>

definition claim_job_for_execution ::
  "worker_env \<Rightarrow> string \<Rightarrow> string \<Rightarrow> string \<Rightarrow> qdb \<Rightarrow> queue_error + (qdb \<times> job option)" where
  "claim_job_for_execution E w r g db =
    (case claim_next_job (we_now E AtStart) w (Some r) (Some g) (we_other E AtStart db) of
       Inl e \<Rightarrow> Inl e
     | Inr (db1, None) \<Rightarrow> Inr (db1, None)
     | Inr (db1, Some j) \<Rightarrow>
         let db2 = we_other E AtLease db1 in
         if worker_lease_matches db2 w r g then Inr (db2, Some j)
         else case requeue_claimed_job_if_owned (we_now E AtRelease) (token_of (j_id j) w r g)
                     lease_replaced_text (we_other E AtRelease db2) of
                Inl e \<Rightarrow> Inl e
              | Inr (db3, _) \<Rightarrow> Inr (db3, None))"

section \<open>Running the child\<close>

definition effective_task :: "job \<Rightarrow> string" where
  "effective_task j = or_str (j_task_type j) ''convert''"

definition path_given :: "string option \<Rightarrow> bool" where
  "path_given p = (case p of None \<Rightarrow> False | Some s \<Rightarrow> s \<noteq> [])"

definition run_child :: "worker_env \<Rightarrow> job \<Rightarrow> bool \<Rightarrow> child_run" where
  "run_child E j retry =
    (if effective_task j = ''convert'' then we_child E retry
     else if effective_task j = ''edit_and_convert'' then
       (if \<not> path_given (j_edited_output_path j) \<or> \<not> path_given (j_instructions_path j)
        then LaunchError ''Edit job is missing edited_output_path or instructions_path.''
        else we_child E retry)
     else LaunchError (''Unsupported task_type: '' @ effective_task j))"

definition error_text :: "string \<Rightarrow> string \<Rightarrow> string \<Rightarrow> string" where
  "error_text err out fallback = py_strip (or_str err (or_str out fallback))"

definition retryable :: "int \<Rightarrow> bool \<Rightarrow> string \<Rightarrow> bool" where
  "retryable rc exists text \<longleftrightarrow> rc \<noteq> 0 \<and> \<not> exists
    \<and> (contains ''native_preflight_failed:'' text \<or> contains ''com_error('' text \<or> contains ''-2147417851'' text)"

text \<open>
  The body of the \<open>try\<close>: it either returns with the stored tables and the effects so far
  or raises a failure that the handlers below settle.
\<close>

datatype body_result = Returned qdb "effect list" | Raised failure qdb "effect list"

definition finish_run :: "worker_env \<Rightarrow> claim_token \<Rightarrow> int \<Rightarrow> bool \<Rightarrow> string \<Rightarrow> qdb \<Rightarrow> effect list \<Rightarrow> body_result" where
  "finish_run E t rc exists text db fx =
    (if rc = 0 \<and> exists then
       (let db' = we_other E AtSuccess db in
        case mark_succeeded_if_owned (we_now E AtSuccess) t db' of
          Inl (ValueError m) \<Rightarrow> Raised (Failure m) db' fx
        | Inl IntegrityError \<Rightarrow> Raised (Failure ''IntegrityError'') db' fx
        | Inr (db2, True) \<Rightarrow> Returned db2 fx
        | Inr (db2, False) \<Rightarrow> Returned db2 (fx @ [Warning (''Job '' @ ct_job_id t @ '' claim changed before success was recorded.'')]))
     else Raised (Failure text) db fx)"

definition retry_run :: "worker_env \<Rightarrow> job \<Rightarrow> claim_token \<Rightarrow> string \<Rightarrow> qdb \<Rightarrow> effect list \<Rightarrow> body_result" where
  "retry_run E j t text db fx =
    (case run_child E j True of
       TimedOut \<Rightarrow> Raised Timeout db fx
     | LaunchError m \<Rightarrow> Raised (Failure m) db fx
     | Exited rc out err exists \<Rightarrow>
         let db' = we_other E AfterRetry db in
         case touch_heartbeat_if_owned (we_now E AfterRetry) t db' of
           Inl (ValueError m) \<Rightarrow> Raised (Failure m) db' fx
         | Inl IntegrityError \<Rightarrow> Raised (Failure ''IntegrityError'') db' fx
         | Inr (db2, False) \<Rightarrow> Returned db2 (fx @ [Warning (''Job '' @ ct_job_id t @ '' claim changed during retry; result was discarded.'')])
         | Inr (db2, True) \<Rightarrow> finish_run E t rc exists (error_text err out text) db2 fx)"

definition try_body :: "worker_env \<Rightarrow> job \<Rightarrow> claim_token \<Rightarrow> qdb \<Rightarrow> body_result" where
  "try_body E j t db =
    (case run_child E j False of
       TimedOut \<Rightarrow> Raised Timeout db []
     | LaunchError m \<Rightarrow> Raised (Failure m) db []
     | Exited rc out err exists \<Rightarrow>
         let db' = we_other E AfterChild db in
         case touch_heartbeat_if_owned (we_now E AfterChild) t db' of
           Inl (ValueError m) \<Rightarrow> Raised (Failure m) db' []
         | Inl IntegrityError \<Rightarrow> Raised (Failure ''IntegrityError'') db' []
         | Inr (db2, False) \<Rightarrow> Returned db2 [Warning (''Job '' @ ct_job_id t @ '' claim changed while native execution was running; result was discarded.'')]
         | Inr (db2, True) \<Rightarrow>
             let text = error_text err out ''Unknown conversion failure'' in
             if retryable rc exists text then retry_run E j t text db2 [ColdRestart (take 1000 text)]
             else finish_run E t rc exists text db2 [])"

section \<open>Settling a failure\<close>

definition timeout_message :: "worker_env \<Rightarrow> string" where
  "timeout_message E =
    ''Conversion subprocess timed out after '' @ str_int (we_timeout_seconds E) @ '' seconds. '' @
    ''The last completed phase was recorded; the configured bounded retry policy will handle this attempt. '' @
    ''Inspect the failure artifact before starting a manual retry.'' @
    (case we_last_phase E of None \<Rightarrow> [] | Some p \<Rightarrow> if p = [] then [] else '' '' @ p)"

text \<open>The text written to the failure artifacts and the text recorded in the queue.\<close>

definition artifact_message :: "worker_env \<Rightarrow> failure \<Rightarrow> string" where
  "artifact_message E f =
    (case f of
       Timeout \<Rightarrow> timeout_message E
     | Failure m \<Rightarrow> m @ [CHR 0x0A, CHR 0x0A] @ we_traceback E @
         (case we_last_phase E of None \<Rightarrow> [] | Some p \<Rightarrow> if p = [] then [] else [CHR 0x0A, CHR 0x0A] @ p))"

definition queue_message :: "worker_env \<Rightarrow> failure \<Rightarrow> string" where
  "queue_message E f = (case f of Timeout \<Rightarrow> timeout_message E | Failure m \<Rightarrow> m)"

definition settle_warning :: "failure \<Rightarrow> bool \<Rightarrow> string \<Rightarrow> string" where
  "settle_warning f retried jid =
    ''Job '' @ jid @ '' claim changed before '' @ (case f of Timeout \<Rightarrow> ''timeout '' | Failure _ \<Rightarrow> ''failure '') @
    (if retried then ''recovery was recorded.''
     else (case f of Timeout \<Rightarrow> ''failure was recorded.'' | Failure _ \<Rightarrow> ''was recorded.''))"

definition settle_failure ::
  "worker_env \<Rightarrow> claim_token \<Rightarrow> failure \<Rightarrow> qdb \<Rightarrow> effect list \<Rightarrow> worker_error option \<times> qdb \<times> effect list" where
  "settle_failure E t f db fx =
    (let fx1 = fx @ [FailureArtifacts (artifact_message E f)];
         db1 = we_other E AtRead db;
         current = get_job db1 (ct_job_id t);
         attempts = (case current of None \<Rightarrow> 1 | Some j \<Rightarrow> j_attempts j);
         limit = (case current of None \<Rightarrow> we_max_attempts E | Some j \<Rightarrow> j_max_attempts j);
         db2 = we_other E AtSettle db1
     in case (if attempts < limit
              then requeue_claimed_job_if_owned (we_now E AtSettle) t (queue_message E f) db2
              else mark_failed_if_owned (we_now E AtSettle) t (queue_message E f) db2) of
          Inl e \<Rightarrow> (Some (QueueError e), db2, fx1)
        | Inr (db3, True) \<Rightarrow> (None, db3, fx1)
        | Inr (db3, False) \<Rightarrow> (None, db3, fx1 @ [Warning (settle_warning f (attempts < limit) (ct_job_id t))]))"

section \<open>handle\_job\<close>

definition handle_job ::
  "worker_env \<Rightarrow> job \<Rightarrow> string \<Rightarrow> string \<Rightarrow> string \<Rightarrow> qdb \<Rightarrow> worker_error option \<times> qdb \<times> effect list" where
  "handle_job E j w r g db =
    (if j_output_path j = None then (Some PathTypeError, db, [])
     else
       let t = token_of (j_id j) w r g; db1 = we_other E AtLease db in
       if \<not> worker_lease_matches db1 w r g then
         (let db2 = we_other E AtRelease db1 in
          case requeue_claimed_job_if_owned (we_now E AtRelease) t lease_replaced_text db2 of
            Inl e \<Rightarrow> (Some (QueueError e), db2, [])
          | Inr (db3, _) \<Rightarrow> (None, db3, [Warning (''Job '' @ j_id j @ '' lease was replaced before native execution started.'')]))
       else
         (let db2 = we_other E AtStart db1 in
          case touch_heartbeat_if_owned (we_now E AtStart) t db2 of
            Inl e \<Rightarrow> (Some (QueueError e), db2, [])
          | Inr (db3, False) \<Rightarrow> (None, db3, [Warning (''Job '' @ j_id j @ '' is no longer owned by the claimed worker; native execution was not started.'')])
          | Inr (db3, True) \<Rightarrow>
              (case try_body E j t db3 of
                 Returned db4 fx \<Rightarrow> (None, db4, fx)
               | Raised f db4 fx \<Rightarrow> settle_failure E t f db4 fx)))"

end
