(* ===== verification/WorkerProps.thy ===== *)
theory WorkerProps
  imports Worker
begin

text \<open>
  What the worker of \<open>Worker\<close> guarantees on top of the queue: a claim is always settled,
  a lost claim is never written to, and a job in other hands is left alone whatever the
  interleaving. The lemmas use the owner operations only through the contract
  \<open>claim_operation\<close> of \<open>QueueDB\<close>.
\<close>

section \<open>Rows the worker does not own\<close>

lemma owned_update_keeps:
  assumes "\<And>j. j_id (f j) = j_id j" and "\<And>k. get_job db i = Some k \<Longrightarrow> \<not> owns t k"
  shows "get_job (fst (owned_update t f db)) i = get_job db i"
  using assms by (cases "get_job db i") (auto simp: owned_update_def get_job_sql_update)

lemma owner_call_keeps:
  assumes "\<And>k. get_job db i = Some k \<Longrightarrow> \<not> owns t k"
  shows "touch_heartbeat_if_owned now t db = Inr (db', b) \<Longrightarrow> get_job db' i = get_job db i"
    and "mark_succeeded_if_owned now t db = Inr (db', b) \<Longrightarrow> get_job db' i = get_job db i"
    and "mark_failed_if_owned now t err db = Inr (db', b) \<Longrightarrow> get_job db' i = get_job db i"
    and "requeue_claimed_job_if_owned now t err db = Inr (db', b) \<Longrightarrow> get_job db' i = get_job db i"
  using owned_update_keeps [OF _ assms, of "set_heartbeat now"] owned_update_keeps [OF _ assms, of "set_succeeded now"]
    owned_update_keeps [OF _ assms, of "set_failed now err"] owned_update_keeps [OF _ assms, of "set_released now err"]
  by (auto simp: touch_heartbeat_if_owned_def mark_succeeded_if_owned_def mark_failed_if_owned_def
      requeue_claimed_job_if_owned_def split: if_splits) (metis fst_conv)+

definition body_db :: "body_result \<Rightarrow> qdb" where
  "body_db b = (case b of Returned db _ \<Rightarrow> db | Raised _ db _ \<Rightarrow> db)"

text \<open>
  \<open>preserved E Q i t\<close>: the others keep \<open>Q\<close> of row \<open>i\<close>, and \<open>Q\<close> says the row is not
  under the claim \<open>t\<close>.
\<close>

definition preserved :: "worker_env \<Rightarrow> (job option \<Rightarrow> bool) \<Rightarrow> string \<Rightarrow> claim_token \<Rightarrow> bool" where
  "preserved E Q i t \<longleftrightarrow>
    (\<forall>p db. Q (get_job db i) \<longrightarrow> Q (get_job (we_other E p db) i)) \<and> (\<forall>k. Q (Some k) \<longrightarrow> \<not> owns t k)"

lemma preserved_other: "preserved E Q i t \<Longrightarrow> Q (get_job db i) \<Longrightarrow> Q (get_job (we_other E p db) i)"
  by (simp add: preserved_def)

lemma preserved_unowned: "preserved E Q i t \<Longrightarrow> Q (get_job db i) \<Longrightarrow> get_job db i = Some k \<Longrightarrow> \<not> owns t k"
  by (metis preserved_def)

lemma preserved_calls:
  assumes "preserved E Q i t" and "Q (get_job db i)"
  shows "touch_heartbeat_if_owned now t db = Inr (db', b) \<Longrightarrow> Q (get_job db' i)"
    and "mark_succeeded_if_owned now t db = Inr (db', b) \<Longrightarrow> Q (get_job db' i)"
    and "mark_failed_if_owned now t err db = Inr (db', b) \<Longrightarrow> Q (get_job db' i)"
    and "requeue_claimed_job_if_owned now t err db = Inr (db', b) \<Longrightarrow> Q (get_job db' i)"
  using owner_call_keeps [OF preserved_unowned [OF assms]] assms(2) by metis+

lemma finish_run_preserves:
  assumes "preserved E Q i t" and "Q (get_job db i)"
  shows "Q (get_job (body_db (finish_run E t rc ex msg db fx)) i)"
  using preserved_other [OF assms, of AtSuccess] assms
  by (auto simp: finish_run_def Let_def body_db_def dest: preserved_calls(2) [OF assms(1)]
      split: sum.splits queue_error.splits bool.splits prod.splits)

lemma retry_run_preserves:
  assumes "preserved E Q i t" and "Q (get_job db i)"
  shows "Q (get_job (body_db (retry_run E j t msg db fx)) i)"
proof (cases "run_child E j True")
  case (Exited rc out err ex)
  from preserved_other [OF assms] have o: "Q (get_job (we_other E AfterRetry db) i)" .
  show ?thesis
  proof (cases "touch_heartbeat_if_owned (we_now E AfterRetry) t (we_other E AfterRetry db)")
    case (Inl e)
    with Exited o show ?thesis by (cases e) (simp_all add: retry_run_def body_db_def)
  next
    case (Inr res)
    obtain db2 b where res: "res = (db2, b)" by force
    from preserved_calls(1) [OF assms(1) o Inr [unfolded res]] have q: "Q (get_job db2 i)" .
    with finish_run_preserves [OF assms(1) q] Exited Inr res show ?thesis
      by (cases b) (simp_all add: retry_run_def body_db_def)
  qed
qed (use assms in \<open>simp_all add: retry_run_def body_db_def\<close>)

lemma try_body_preserves:
  assumes "preserved E Q i t" and "Q (get_job db i)"
  shows "Q (get_job (body_db (try_body E j t db)) i)"
proof (cases "run_child E j False")
  case (Exited rc out err ex)
  from preserved_other [OF assms] have o: "Q (get_job (we_other E AfterChild db) i)" .
  show ?thesis
  proof (cases "touch_heartbeat_if_owned (we_now E AfterChild) t (we_other E AfterChild db)")
    case (Inl e)
    with Exited o show ?thesis by (cases e) (simp_all add: try_body_def body_db_def)
  next
    case (Inr res)
    obtain db2 b where res: "res = (db2, b)" by force
    from preserved_calls(1) [OF assms(1) o Inr [unfolded res]] have q: "Q (get_job db2 i)" .
    with finish_run_preserves [OF assms(1) q] retry_run_preserves [OF assms(1) q] Exited Inr res show ?thesis
      by (cases b) (simp_all add: try_body_def Let_def, simp add: body_db_def)
  qed
qed (use assms in \<open>simp_all add: try_body_def body_db_def\<close>)

lemma settle_failure_preserves:
  assumes "preserved E Q i t" and "Q (get_job db i)"
  shows "Q (get_job (fst (snd (settle_failure E t f db fx))) i)"
proof -
  let ?db2 = "we_other E AtSettle (we_other E AtRead db)"
  have q: "Q (get_job ?db2 i)" using preserved_other [OF assms(1)] assms(2) by blast
  show ?thesis
    using q by (auto simp: settle_failure_def Let_def dest: preserved_calls(3,4) [OF assms(1) q]
        split: sum.splits prod.splits bool.splits)
qed

text \<open>
  C15. Whatever other processes do between the worker's calls, \<open>handle_job\<close> never changes a job
  that is not running under its own claim: any property of a job's row that the others keep and
  that rules out the worker's claim (another job, a job its successor has claimed, a job already
  completed or released) still holds after \<open>handle_job\<close>, on every path, errors included.
\<close>

theorem handle_job_leaves_others_alone:
  assumes "\<forall>p db. Q (get_job db i) \<longrightarrow> Q (get_job (we_other E p db) i)"
    and "\<forall>k. Q (Some k) \<longrightarrow> \<not> owns (token_of (j_id j) w r g) k" and "Q (get_job db i)"
  shows "Q (get_job (fst (snd (handle_job E j w r g db))) i)"
proof -
  let ?t = "token_of (j_id j) w r g"
  have p: "preserved E Q i ?t" using assms(1,2) by (simp add: preserved_def)
  note o = preserved_other [OF p]
  have l: "Q (get_job (we_other E AtLease db) i)" by (rule o) (rule assms(3))
  have start: "Q (get_job (we_other E AtStart (we_other E AtLease db)) i)" by (rule o) (rule l)
  have rel: "Q (get_job (we_other E AtRelease (we_other E AtLease db)) i)" by (rule o) (rule l)
  have body: "Q (get_job (fst (snd (case try_body E j ?t db3 of Returned db4 fx \<Rightarrow> (None, db4, fx)
      | Raised f db4 fx \<Rightarrow> settle_failure E ?t f db4 fx))) i)" if "Q (get_job db3 i)" for db3
    using try_body_preserves [OF p that, of j] settle_failure_preserves [OF p]
    by (auto simp: body_db_def split: body_result.splits)
  show ?thesis
  proof (cases "j_output_path j = None")
    case True
    with assms(3) show ?thesis by (simp add: handle_job_def)
  next
    case False
    then obtain out where path: "j_output_path j = Some out" by blast
    show ?thesis
    proof (cases "worker_lease_matches (we_other E AtLease db) w r g")
      case True
      let ?c = "touch_heartbeat_if_owned (we_now E AtStart) ?t (we_other E AtStart (we_other E AtLease db))"
      show ?thesis
      proof (cases ?c)
        case (Inl e)
        with path True start show ?thesis by (simp add: handle_job_def Let_def)
      next
        case (Inr res)
        obtain db3 b where res: "res = (db3, b)" by force
        from preserved_calls(1) [OF p start Inr [unfolded res]] have "Q (get_job db3 i)" .
        with body [OF this] path True Inr res show ?thesis by (cases b) (simp_all add: handle_job_def Let_def)
      qed
    next
      case False
      let ?c = "requeue_claimed_job_if_owned (we_now E AtRelease) ?t lease_replaced_text
        (we_other E AtRelease (we_other E AtLease db))"
      show ?thesis
      proof (cases ?c)
        case (Inl e)
        with path False rel show ?thesis by (simp add: handle_job_def Let_def)
      next
        case (Inr res)
        obtain db3 b where res: "res = (db3, b)" by force
        from preserved_calls(4) [OF p rel Inr [unfolded res]] have "Q (get_job db3 i)" .
        with path False Inr res show ?thesis by (simp add: handle_job_def Let_def)
      qed
    qed
  qed
qed

definition quiet_env :: "child_run \<Rightarrow> worker_env" where
  "quiet_env c = \<lparr>we_now = (\<lambda>_. ''t7''), we_other = (\<lambda>_ db. db), we_child = (\<lambda>_. c),
     we_last_phase = None, we_traceback = ''tb'', we_timeout_seconds = 60, we_max_attempts = 2\<rparr>"

theorem handle_job_leaves_others_alone_witness:
  "get_job (fst (snd (handle_job (quiet_env TimedOut) example_job ''w'' ''r1'' ''g1'' example_db))) ''j1'' = Some example_job"
proof -
  let ?Q = "\<lambda>row. row = Some example_job"
  have h3: "?Q (get_job example_db ''j1'')" by (simp add: get_job_def example_db_def example_job_def new_job_def)
  have h2: "\<forall>k. ?Q (Some k) \<longrightarrow> \<not> owns (token_of (j_id example_job) ''w'' ''r1'' ''g1'') k"
    by (simp add: owns_def example_job_def new_job_def)
  have h1: "\<forall>p db. ?Q (get_job db ''j1'') \<longrightarrow> ?Q (get_job (we_other (quiet_env TimedOut) p db) ''j1'')"
    by (simp add: quiet_env_def)
  show ?thesis by (rule handle_job_leaves_others_alone [where Q = ?Q, OF h1 h2 h3])
qed

section \<open>Every claim is settled\<close>

text \<open>
  \<open>quiet E\<close>: nobody else touches the queue meanwhile. \<open>under_claim\<close> and \<open>settled\<close> describe
  the stored tables while the claim stands and after it ended: other rows and the leases are
  as they were.
\<close>

definition quiet :: "worker_env \<Rightarrow> bool" where
  "quiet E \<longleftrightarrow> we_other E = (\<lambda>_ db. db)"

definition rest_same :: "claim_token \<Rightarrow> qdb \<Rightarrow> qdb \<Rightarrow> bool" where
  "rest_same t db db' \<longleftrightarrow> ids_distinct db' \<and> leases db' = leases db
    \<and> (\<forall>i. i \<noteq> ct_job_id t \<longrightarrow> get_job db' i = get_job db i)"

definition under_claim :: "claim_token \<Rightarrow> qdb \<Rightarrow> qdb \<Rightarrow> bool" where
  "under_claim t db db' \<longleftrightarrow> rest_same t db db' \<and> holds_claim t db'"

definition settled :: "claim_token \<Rightarrow> qdb \<Rightarrow> qdb \<Rightarrow> bool" where
  "settled t db db' \<longleftrightarrow> rest_same t db db' \<and>
    (case get_job db' (ct_job_id t) of None \<Rightarrow> False | Some j \<Rightarrow> j_status j \<noteq> Running)"

lemma rest_same_trans: "rest_same t db db' \<Longrightarrow> rest_same t db' db'' \<Longrightarrow> rest_same t db db''"
  by (simp add: rest_same_def)

lemma owned_update_rest:
  assumes "ids_distinct db" and "\<And>j. j_id (f j) = j_id j" and "holds_claim t db"
  shows "rest_same t db (fst (owned_update t f db))"
  using owned_update_lookup [OF assms] assms
  by (auto simp: rest_same_def owned_update_def ids_distinct_sql_update)

lemma release_settles:
  assumes "ids_distinct db" and "\<And>j. j_id (f j) = j_id j" and "\<And>j. j_status (f j) \<noteq> Running"
    and "holds_claim t db"
  shows "owned_update t f db = (fst (owned_update t f db), True)" and "settled t db (fst (owned_update t f db))"
  using owned_update_result [OF assms(1), of t f] owned_update_rest [OF assms(1,2,4)]
    owned_update_lookup [OF assms(1,2,4)] assms(3,4)
  by (auto simp: settled_def prod_eq_iff)

lemma owns_heartbeat [simp]: "owns t (set_heartbeat now j) = owns t j"
  by (simp add: owns_def set_heartbeat_def)

lemma heartbeat_keeps:
  assumes "under_claim t db db'" and "token_fields_ok t"
  shows "\<exists>db''. touch_heartbeat_if_owned now t db' = Inr (db'', True) \<and> under_claim t db db''"
proof -
  from assms(1) have h: "ids_distinct db'" "holds_claim t db'" by (simp_all add: under_claim_def rest_same_def)
  let ?r = "owned_update t (set_heartbeat now) db'"
  have id: "j_id (set_heartbeat now j) = j_id j" for j by simp
  from owned_update_lookup [OF h(1) id h(2)] h(2) have "holds_claim t (fst ?r)"
    by (auto simp: holds_claim_def split: option.splits)
  with owned_update_rest [OF h(1) id h(2)] assms(1) have "under_claim t db (fst ?r)"
    by (auto simp: under_claim_def intro: rest_same_trans)
  moreover have "?r = (fst ?r, True)" using owned_update_result [OF h(1), of t] h(2) by (auto simp: prod_eq_iff)
  ultimately show ?thesis using assms(2) by (simp add: touch_heartbeat_if_owned_def) (metis fst_conv)
qed

lemma settled_trans: "under_claim t db db' \<Longrightarrow> settled t db' db'' \<Longrightarrow> settled t db db''"
  by (auto simp: under_claim_def settled_def intro: rest_same_trans)

lemma success_settles:
  assumes "under_claim t db db'" and "token_fields_ok t"
  shows "\<exists>db''. mark_succeeded_if_owned now t db' = Inr (db'', True) \<and> settled t db db''"
proof -
  from assms(1) have h: "ids_distinct db'" "holds_claim t db'" by (simp_all add: under_claim_def rest_same_def)
  have r: "owned_update t (set_succeeded now) db' = (fst (owned_update t (set_succeeded now) db'), True)"
    "settled t db' (fst (owned_update t (set_succeeded now) db'))" by (rule release_settles; use h in simp)+
  show ?thesis using r settled_trans [OF assms(1) r(2)] assms(2)
    unfolding mark_succeeded_if_owned_def by (intro exI conjI) simp_all
qed

lemma failure_settles:
  assumes "quiet E" and "under_claim t db db'" and "token_fields_ok t" and "nonblank (queue_message E f)"
  shows "\<exists>db'' fx'. settle_failure E t f db' fx = (None, db'', fx') \<and> settled t db db''"
proof -
  from assms(2) have h: "ids_distinct db'" "holds_claim t db'" by (simp_all add: under_claim_def rest_same_def)
  let ?m = "queue_message E f" and ?n = "we_now E AtSettle"
  have r: "owned_update t (set_released ?n ?m) db' = (fst (owned_update t (set_released ?n ?m) db'), True)"
    "settled t db' (fst (owned_update t (set_released ?n ?m) db'))" by (rule release_settles; use h in simp)+
  have s: "owned_update t (set_failed ?n ?m) db' = (fst (owned_update t (set_failed ?n ?m) db'), True)"
    "settled t db' (fst (owned_update t (set_failed ?n ?m) db'))" by (rule release_settles; use h in simp)+
  have q: "requeue_claimed_job_if_owned ?n t ?m db' = Inr (fst (owned_update t (set_released ?n ?m) db'), True)"
    "mark_failed_if_owned ?n t ?m db' = Inr (fst (owned_update t (set_failed ?n ?m) db'), True)"
    using r(1) s(1) assms(3,4) by (simp_all add: requeue_claimed_job_if_owned_def mark_failed_if_owned_def)
  show ?thesis
    using assms(1) settled_trans [OF assms(2) r(2)] settled_trans [OF assms(2) s(2)]
    by (auto simp: settle_failure_def Let_def quiet_def q)
qed

text \<open>The child leaves a readable trace: no output stream is blank without being empty.\<close>

definition readable_child :: "child_run \<Rightarrow> bool" where
  "readable_child c = (case c of
     Exited rc out err ex \<Rightarrow> (out = [] \<or> nonblank out) \<and> (err = [] \<or> nonblank err)
   | TimedOut \<Rightarrow> True | LaunchError m \<Rightarrow> nonblank m)"

lemma nonblank_strip [simp]: "nonblank (py_strip s) = nonblank s"
proof -
  have sub: "set (py_strip s) \<subseteq> set s" by (auto simp: py_strip_def dest!: set_dropWhileD)
  have "nonblank (py_strip s)" if "nonblank s"
  proof -
    from that have ne: "py_strip s \<noteq> []" by (simp add: nonblank_def)
    let ?u = "rev (dropWhile py_space s)"
    from ne have "dropWhile py_space ?u \<noteq> []" by (simp add: py_strip_def)
    then have "hd (dropWhile py_space ?u) \<in> set (py_strip s)" "\<not> py_space (hd (dropWhile py_space ?u))"
      by (simp_all add: py_strip_def hd_dropWhile)
    then show ?thesis by (auto simp: nonblank_iff)
  qed
  with sub show ?thesis by (auto simp: nonblank_iff)
qed

lemma error_text_nonblank:
  "(out = [] \<or> nonblank out) \<Longrightarrow> (err = [] \<or> nonblank err) \<Longrightarrow> nonblank fallback \<Longrightarrow>
    nonblank (error_text err out fallback)"
  by (auto simp: error_text_def or_str_def)

lemma timeout_message_nonblank: "nonblank (timeout_message E)"
  by (simp add: timeout_message_def nonblank_iff py_space_def)

text \<open>How the body ends: settled, or a failure with a readable text while the claim stands.\<close>

definition body_ends :: "worker_env \<Rightarrow> claim_token \<Rightarrow> qdb \<Rightarrow> body_result \<Rightarrow> bool" where
  "body_ends E t db b = (case b of Returned db' _ \<Rightarrow> settled t db db'
     | Raised f db' _ \<Rightarrow> under_claim t db db' \<and> nonblank (queue_message E f))"

lemma finish_run_ends:
  assumes "quiet E" and "under_claim t db db'" and "token_fields_ok t" and "nonblank msg"
  shows "body_ends E t db (finish_run E t rc ex msg db' fx)"
proof (cases "rc = 0 \<and> ex")
  case True
  from success_settles [OF assms(2,3), of "we_now E AtSuccess"] obtain db'' where
    "mark_succeeded_if_owned (we_now E AtSuccess) t db' = Inr (db'', True)" "settled t db db''" by blast
  with True assms(1) show ?thesis by (simp add: finish_run_def quiet_def body_ends_def)
next
  case False
  with assms show ?thesis by (auto simp: finish_run_def body_ends_def queue_message_def)
qed

lemma raised_ends:
  "under_claim t db db' \<Longrightarrow> body_ends E t db (Raised Timeout db' fx)"
  "under_claim t db db' \<Longrightarrow> nonblank m \<Longrightarrow> body_ends E t db (Raised (Failure m) db' fx)"
  by (simp_all add: body_ends_def queue_message_def timeout_message_nonblank)

lemma retry_run_ends:
  assumes "quiet E" and "under_claim t db db'" and "token_fields_ok t" and "nonblank msg"
    and "readable_child (run_child E j True)"
  shows "body_ends E t db (retry_run E j t msg db' fx)"
proof (cases "run_child E j True")
  case (Exited rc out err ex)
  from heartbeat_keeps [OF assms(2,3), of "we_now E AfterRetry"] obtain db'' where
    db'': "touch_heartbeat_if_owned (we_now E AfterRetry) t db' = Inr (db'', True)" "under_claim t db db''" by blast
  from Exited assms(4,5) have "nonblank (error_text err out msg)"
    by (intro error_text_nonblank) (simp_all add: readable_child_def)
  with finish_run_ends [OF assms(1) db''(2) assms(3)] db''(1) Exited assms(1) show ?thesis
    by (simp add: retry_run_def quiet_def)
qed (use assms raised_ends [OF assms(2)] in \<open>simp_all add: retry_run_def readable_child_def\<close>)

lemma try_body_ends:
  assumes "quiet E" and "under_claim t db db'" and "token_fields_ok t"
    and "readable_child (run_child E j False)" and "readable_child (run_child E j True)"
  shows "body_ends E t db (try_body E j t db')"
proof (cases "run_child E j False")
  case (Exited rc out err ex)
  from heartbeat_keeps [OF assms(2,3), of "we_now E AfterChild"] obtain db'' where
    db'': "touch_heartbeat_if_owned (we_now E AfterChild) t db' = Inr (db'', True)" "under_claim t db db''" by blast
  have "nonblank ''Unknown conversion failure''" by (simp add: nonblank_iff py_space_def)
  with Exited assms(4) have msg: "nonblank (error_text err out ''Unknown conversion failure'')"
    by (intro error_text_nonblank) (simp_all add: readable_child_def)
  with finish_run_ends [OF assms(1) db''(2) assms(3)] retry_run_ends [OF assms(1) db''(2) assms(3) msg assms(5)]
    db''(1) Exited assms(1) show ?thesis
    by (simp add: try_body_def quiet_def Let_def)
qed (use assms raised_ends [OF assms(2)] in \<open>simp_all add: try_body_def readable_child_def\<close>)



text \<open>A worker that has claimed the example job and a store that still shows it.\<close>

definition claimed_job :: "int \<Rightarrow> job" where
  "claimed_job n = (set_claimed ''t1'' ''w'' (Some ''r1'') (Some ''g1'') example_job)\<lparr>j_attempts := n\<rparr>"

definition claimed_db :: "int \<Rightarrow> qdb" where
  "claimed_db n = \<lparr>jobs = [claimed_job n], leases = [''w'' \<mapsto> example_lease]\<rparr>"

lemma claimed_facts:
  "ids_distinct (claimed_db n)" "token_fields_ok (token_of (j_id (claimed_job n)) ''w'' ''r1'' ''g1'')"
  "holds_claim (token_of (j_id (claimed_job n)) ''w'' ''r1'' ''g1'') (claimed_db n)"
  "j_output_path (claimed_job n) = Some ''/out/a.pdf''"
  "worker_lease_matches (claimed_db n) ''w'' ''r1'' ''g1''" "effective_task (claimed_job n) = ''convert''"
  by (simp_all add: ids_distinct_def claimed_db_def claimed_job_def set_claimed_def example_job_def new_job_def
      example_request_def token_of_def token_fields_ok_def nonblank_iff py_space_def holds_claim_def get_job_def
      owns_def worker_lease_matches_def example_lease_def effective_task_def or_str_def)


section \<open>A lost claim is never written to\<close>

text \<open>
  When the claim is lost while the child runs, its result is discarded: whatever the child did,
  \<open>handle_job\<close> returns normally with one warning and the stored tables exactly as the others left them,
  without a retry and without failure artifacts.
\<close>

theorem lost_claim_discards_result:
  assumes "j_output_path j \<noteq> None" and "run_child E j False = Exited rc out err ex"
    and "worker_lease_matches (we_other E AtLease db) w r g"
    and "touch_heartbeat_if_owned (we_now E AtStart) (token_of (j_id j) w r g)
      (we_other E AtStart (we_other E AtLease db)) = Inr (db3, True)"
    and "ids_distinct (we_other E AfterChild db3)"
    and "\<not> holds_claim (token_of (j_id j) w r g) (we_other E AfterChild db3)"
  shows "handle_job E j w r g db = (None, we_other E AfterChild db3,
    [Warning (''Job '' @ j_id j @ '' claim changed while native execution was running; result was discarded.'')])"
proof -
  let ?t = "token_of (j_id j) w r g"
  have "token_fields_ok ?t" using assms(4) by (auto simp: touch_heartbeat_if_owned_def split: if_splits)
  with owned_update_stale [OF assms(5,6)]
  have "touch_heartbeat_if_owned (we_now E AfterChild) ?t (we_other E AfterChild db3) = Inr (we_other E AfterChild db3, False)"
    by (simp add: touch_heartbeat_if_owned_def)
  with assms(1-4) show ?thesis by (auto simp: handle_job_def Let_def try_body_def token_of_def)
qed

text \<open>Others that release the claim while the child runs.\<close>

definition thief_env :: "child_run \<Rightarrow> worker_env" where
  "thief_env c = (quiet_env c)\<lparr>we_other := (\<lambda>p db. if p = AfterChild then requeue_job ''t8'' ''j1'' ''lost'' db else db)\<rparr>"

theorem lost_claim_discards_result_witness:
  "fst (handle_job (thief_env (Exited 0 [] [] True)) (claimed_job 1) ''w'' ''r1'' ''g1'' (claimed_db 1)) = None
   \<and> snd (snd (handle_job (thief_env (Exited 0 [] [] True)) (claimed_job 1) ''w'' ''r1'' ''g1'' (claimed_db 1)))
     = [Warning ''Job j1 claim changed while native execution was running; result was discarded.'']"
proof -
  let ?E = "thief_env (Exited 0 [] [] True)" and ?t = "token_of (j_id (claimed_job 1)) ''w'' ''r1'' ''g1''"
  let ?db3 = "fst (owned_update ?t (set_heartbeat ''t7'') (claimed_db 1))"
  have run: "run_child ?E (claimed_job 1) False = Exited 0 [] [] True"
    by (simp add: run_child_def claimed_facts(6) thief_env_def quiet_env_def)
  have lease: "worker_lease_matches (we_other ?E AtLease (claimed_db 1)) ''w'' ''r1'' ''g1''"
    by (simp add: thief_env_def claimed_facts(5))
  have touch: "touch_heartbeat_if_owned (we_now ?E AtStart) ?t (we_other ?E AtStart (we_other ?E AtLease (claimed_db 1)))
      = Inr (?db3, True)"
    using owned_update_result [OF claimed_facts(1), of ?t "set_heartbeat ''t7''" 1] claimed_facts(2,3) [of 1]
    by (simp add: thief_env_def quiet_env_def touch_heartbeat_if_owned_def prod_eq_iff)
  have lost: "ids_distinct (we_other ?E AfterChild ?db3)" "\<not> holds_claim ?t (we_other ?E AfterChild ?db3)"
    by (simp_all add: thief_env_def requeue_job_def update_by_id_def ids_distinct_def owned_update_def sql_update_def
        claimed_db_def claimed_job_def set_claimed_def example_job_def new_job_def holds_claim_def get_job_def owns_def
        token_of_def set_released_def set_heartbeat_def)
  show ?thesis
    using lost_claim_discards_result [OF _ run lease touch lost] claimed_facts(4)
    by (simp add: claimed_job_def example_job_def new_job_def example_request_def set_claimed_def)
qed

section \<open>Two gaps\<close>

text \<open>
  C17. A child that fails with a non-empty but blank error stream (a single line break, say) is not
  settled: the failure text is stripped to the empty string, recording it is refused as a
  \<open>ValueError\<close>, the error leaves \<open>handle_job\<close>, and the job stays running under the claim with only
  its heartbeat renewed.
\<close>

theorem blank_error_stream_strands_claim:
  assumes "quiet E" and "ids_distinct db" and "token_fields_ok (token_of (j_id j) w r g)"
    and "holds_claim (token_of (j_id j) w r g) db" and "j_output_path j \<noteq> None"
    and "worker_lease_matches db w r g"
    and "run_child E j False = Exited rc out err ex" and "rc \<noteq> 0" and "err \<noteq> []" and "\<not> nonblank err"
  shows "\<exists>db' fx e. handle_job E j w r g db = (Some (QueueError (ValueError e)), db', fx)
    \<and> under_claim (token_of (j_id j) w r g) db db'"
proof -
  let ?t = "token_of (j_id j) w r g"
  have u: "under_claim ?t db db" using assms(2,4) by (simp add: under_claim_def rest_same_def)
  from heartbeat_keeps [OF u assms(3), of "we_now E AtStart"] obtain db3 where
    db3: "touch_heartbeat_if_owned (we_now E AtStart) ?t db = Inr (db3, True)" "under_claim ?t db db3" by blast
  from heartbeat_keeps [OF db3(2) assms(3), of "we_now E AfterChild"] obtain db4 where
    db4: "touch_heartbeat_if_owned (we_now E AfterChild) ?t db3 = Inr (db4, True)" "under_claim ?t db db4" by blast
  have empty: "error_text err out ''Unknown conversion failure'' = []"
    using assms(9,10) by (simp add: error_text_def or_str_def nonblank_def)
  have "try_body E j ?t db3 = Raised (Failure []) db4 []"
    using assms(1,7,8) db4(1) by (simp add: try_body_def quiet_def empty retryable_def finish_run_def)
  moreover have "\<exists>e fx. settle_failure E ?t (Failure []) db4 [] = (Some (QueueError (ValueError e)), db4, fx)"
    using assms(1) by (auto simp: settle_failure_def Let_def quiet_def queue_message_def nonblank_def
        requeue_claimed_job_if_owned_def mark_failed_if_owned_def)
  ultimately show ?thesis
    using assms(1,5,6) db3(1) db4(2) by (auto simp: handle_job_def Let_def quiet_def)
qed

theorem blank_error_stream_strands_claim_witness:
  "\<exists>db' fx e. handle_job (quiet_env (Exited 1 [] [CHR 0x0A] False)) (claimed_job 1) ''w'' ''r1'' ''g1'' (claimed_db 1)
     = (Some (QueueError (ValueError e)), db', fx)
   \<and> under_claim (token_of (j_id (claimed_job 1)) ''w'' ''r1'' ''g1'') (claimed_db 1) db'"
proof -
  let ?E = "quiet_env (Exited 1 [] [CHR 0x0A] False)"
  have run: "run_child ?E (claimed_job 1) False = Exited 1 [] [CHR 0x0A] False"
    by (simp add: run_child_def claimed_facts(6) quiet_env_def)
  have q: "quiet ?E" by (simp add: quiet_def quiet_env_def)
  have b: "\<not> nonblank [CHR 0x0A]" by (simp add: nonblank_iff py_space_def)
  show ?thesis
    using blank_error_stream_strands_claim [OF q claimed_facts(1-3) _ claimed_facts(5) run] claimed_facts(4) b by simp
qed

text \<open>
  \<open>claim_job_for_execution\<close> hands a job out only under a lease that still stands: when it returns a
  job, the lease named the caller after the claim; when the lease was replaced in between, it returns
  no job and the claimed row is queued again without an owner, but the attempt stays counted, so a
  job claimed for its last attempt is left queued with no attempt left.
\<close>

theorem claim_for_execution_fenced:
  assumes "claim_next_job (we_now E AtStart) w (Some r) (Some g) (we_other E AtStart db) = Inr (db1, Some j)"
    and "claim_job_for_execution E w r g db = Inr (db', res)"
    and "ids_distinct (we_other E AtRelease (we_other E AtLease db1))"
    and "get_job (we_other E AtRelease (we_other E AtLease db1)) (j_id j) = Some j"
    and "owns (token_of (j_id j) w r g) j"
  shows "(res = Some j \<and> worker_lease_matches db' w r g)
    \<or> (res = None \<and> \<not> worker_lease_matches (we_other E AtLease db1) w r g
       \<and> get_job db' (j_id j) = Some (set_released (we_now E AtRelease) lease_replaced_text j)
       \<and> (j_attempts j = j_max_attempts j \<longrightarrow> (case get_job db' (j_id j) of None \<Rightarrow> False
            | Some k \<Rightarrow> j_status k = Queued \<and> j_max_attempts k \<le> j_attempts k)))"
proof -
  let ?t = "token_of (j_id j) w r g" and ?db2 = "we_other E AtLease db1"
  let ?db3 = "we_other E AtRelease ?db2" and ?f = "set_released (we_now E AtRelease) lease_replaced_text"
  show ?thesis
  proof (cases "worker_lease_matches ?db2 w r g")
    case True
    with assms(1,2) show ?thesis by (simp add: claim_job_for_execution_def Let_def)
  next
    case False
    have h: "holds_claim ?t ?db3" using assms(4,5) by (simp add: holds_claim_def token_of_def)
    obtain db'' b where o: "owned_update ?t ?f ?db3 = (db'', b)" by force
    from False assms(1,2) have "res = None" "db' = db''"
      by (simp_all add: claim_job_for_execution_def Let_def requeue_claimed_job_if_owned_def o split: if_split_asm)
    with o have "db' = fst (owned_update ?t ?f ?db3)" by simp
    with owned_update_lookup [OF assms(3) _ h, of ?f] assms(4)
    have g: "get_job db' (j_id j) = Some (?f j)" by (simp add: token_of_def)
    have "j_attempts (?f j) = j_attempts j" "j_max_attempts (?f j) = j_max_attempts j" by (simp_all add: set_released_def)
    with False \<open>res = None\<close> g show ?thesis by simp
  qed
qed

text \<open>Others that replace the lease between the claim and the lease check.\<close>

definition usurper_env :: worker_env where
  "usurper_env = (quiet_env TimedOut)\<lparr>we_now := (\<lambda>_. ''t1''),
     we_other := (\<lambda>p db. if p = AtLease then db\<lparr>leases := Map.empty\<rparr> else db)\<rparr>"

theorem claim_for_execution_fenced_witness:
  "claim_job_for_execution usurper_env ''w'' ''r1'' ''g1'' (example_db\<lparr>leases := [''w'' \<mapsto> example_lease]\<rparr>)
     = Inr (\<lparr>jobs = [set_released ''t1'' lease_replaced_text (claimed_job 1)], leases = Map.empty\<rparr>, None)
   \<and> get_job \<lparr>jobs = [set_released ''t1'' lease_replaced_text (claimed_job 1)], leases = Map.empty\<rparr> ''j1''
     = Some (set_released ''t1'' lease_replaced_text (claimed_job 1))"
proof -
  let ?db = "example_db\<lparr>leases := [''w'' \<mapsto> example_lease]\<rparr>"
  let ?j = "set_claimed ''t1'' ''w'' (Some ''r1'') (Some ''g1'') example_job"
  let ?db1 = "\<lparr>jobs = [?j], leases = [''w'' \<mapsto> example_lease]\<rparr>"
  let ?db' = "\<lparr>jobs = [set_released ''t1'' lease_replaced_text (claimed_job 1)], leases = Map.empty\<rparr>"
  have att: "claimed_job 1 = ?j" by (simp add: claimed_job_def set_claimed_def example_job_def new_job_def)
  have id: "j_id ?j = ''j1''" by (simp add: example_job_def new_job_def example_request_def)
  have claim: "claim_next_job (we_now usurper_env AtStart) ''w'' (Some ''r1'') (Some ''g1'') (we_other usurper_env AtStart ?db)
      = Inr (?db1, Some ?j)"
    using example_claim by (simp add: usurper_env_def quiet_env_def example_db_def)
  have lease: "\<not> worker_lease_matches (?db1\<lparr>leases := Map.empty\<rparr>) ''w'' ''r1'' ''g1''"
    by (simp add: worker_lease_matches_def)
  have tok: "token_fields_ok (token_of ''j1'' ''w'' ''r1'' ''g1'')" "nonblank lease_replaced_text"
    by (simp_all add: token_fields_ok_def token_of_def nonblank_iff py_space_def lease_replaced_text_def)
  have own: "owns (token_of (j_id ?j) ''w'' ''r1'' ''g1'') ?j" by (simp add: owns_def token_of_def id set_claimed_def)
  have exec: "claim_job_for_execution usurper_env ''w'' ''r1'' ''g1'' ?db = Inr (?db', None)"
    using claim lease tok own id att
    by (simp add: claim_job_for_execution_def Let_def usurper_env_def requeue_claimed_job_if_owned_def owned_update_def
        sql_update_def quiet_env_def)
  have "get_job (we_other usurper_env AtRelease (we_other usurper_env AtLease ?db1)) (j_id ?j) = Some ?j"
    by (simp add: usurper_env_def get_job_def)
  from claim_for_execution_fenced [OF claim exec _ this own] exec att id show ?thesis
    by (simp add: usurper_env_def quiet_env_def ids_distinct_def)
qed

end
