(* ===== verification/PyText.thy ===== *)
theory PyText
  imports Prelude "HOL-Library.Product_Lexorder"
begin

text \<open>
  Python's text functions beyond those of \<open>Prelude\<close>: splitting, joining, stripping of a
  character set, \<open>repr\<close>, the decimal reading of \<open>int(text)\<close> (without CPython's limit
  on the number of digits) and their round trips. All of it for code points below 256, where the only
  decimal digits are those of ASCII.
\<close>

section \<open>Decimal numbers\<close>

definition is_digit :: "char \<Rightarrow> bool" where
  "is_digit c \<longleftrightarrow> 48 \<le> (of_char c :: nat) \<and> (of_char c :: nat) \<le> 57"

definition digit_value :: "char \<Rightarrow> nat" where
  "digit_value c = of_char c - 48"

definition digits_value :: "string \<Rightarrow> nat" where
  "digits_value s = foldl (\<lambda>n c. 10 * n + digit_value c) 0 s"

definition all_digits :: "string \<Rightarrow> bool" where
  "all_digits s \<longleftrightarrow> s \<noteq> [] \<and> list_all is_digit s"

text \<open>\<open>int(text)\<close>: blanks around, one sign, single underscores between digits.\<close>

fun digit_groups :: "bool \<Rightarrow> string \<Rightarrow> string option" where
  "digit_groups after_digit [] = (if after_digit then Some [] else None)"
| "digit_groups after_digit (c # s) =
    (if is_digit c then map_option ((#) c) (digit_groups True s)
     else if c = CHR ''_'' \<and> after_digit then digit_groups False s
     else None)"

definition unsigned_int :: "string \<Rightarrow> int option" where
  "unsigned_int s = map_option (\<lambda>ds. int (digits_value ds)) (digit_groups False s)"

definition py_int :: "string \<Rightarrow> int option" where
  "py_int s =
    (case py_strip s of
       [] \<Rightarrow> None
     | c # t \<Rightarrow> if c = CHR ''-'' then map_option uminus (unsigned_int t)
                else if c = CHR ''+'' then unsigned_int t else unsigned_int (c # t))"

lemma digit_char [simp]: "n < 10 \<Longrightarrow> is_digit (char_of (48 + n))" "n < 10 \<Longrightarrow> digit_value (char_of (48 + n)) = n"
  by (simp_all add: is_digit_def digit_value_def)

lemma digits_value_snoc [simp]: "digits_value (s @ [c]) = 10 * digits_value s + digit_value c"
  by (simp add: digits_value_def)

lemma nat_digits_digits: "all_digits (nat_digits n)"
  by (induction n rule: nat_digits.induct) (subst nat_digits.simps, auto simp: all_digits_def)

lemma digits_value_nat_digits [simp]: "digits_value (nat_digits n) = n"
proof (induction n rule: nat_digits.induct)
  case (1 n)
  show ?case
  proof (cases "n < 10")
    case True
    then show ?thesis by (subst nat_digits.simps) (simp add: digits_value_def)
  next
    case False
    with 1 show ?thesis by (subst nat_digits.simps) simp
  qed
qed

lemma digit_groups_digits: "list_all is_digit s \<Longrightarrow> s \<noteq> [] \<or> b \<Longrightarrow> digit_groups b s = Some s"
  by (induction s arbitrary: b) auto

lemma not_space_digit: "is_digit c \<Longrightarrow> \<not> py_space c"
  by (auto simp: is_digit_def py_space_def)

lemma py_strip_id:
  assumes "s \<noteq> []" and "\<not> py_space (hd s)" and "\<not> py_space (last s)"
  shows "py_strip s = s"
proof -
  from assms(1,2) have "dropWhile py_space s = s" by (cases s) simp_all
  moreover from assms(1,3) have "dropWhile py_space (rev s) = rev s" by (cases s rule: rev_cases) simp_all
  ultimately show ?thesis by (simp add: py_strip_def)
qed

lemma all_digits_hd_last:
  "all_digits s \<Longrightarrow> is_digit (hd s)" "all_digits s \<Longrightarrow> is_digit (last s)"
  by (auto simp: all_digits_def list_all_iff)

lemma minus_not_space: "\<not> py_space CHR ''-''" by (simp add: py_space_def)

lemma minus_not_digit: "\<not> is_digit CHR ''-''" "\<not> is_digit CHR ''+''"
  by (simp_all add: is_digit_def)

lemma unsigned_int_digits: "all_digits s \<Longrightarrow> unsigned_int s = Some (int (digits_value s))"
  by (simp add: unsigned_int_def all_digits_def digit_groups_digits)

lemma py_int_str_int [simp]: "py_int (str_int i) = Some i"
proof (cases "i < 0")
  case True
  let ?d = "nat_digits (nat (- i))"
  have d: "all_digits ?d" by (rule nat_digits_digits)
  then have "?d \<noteq> []" "is_digit (last ?d)" by (simp_all add: all_digits_def all_digits_hd_last)
  then have "py_strip (CHR ''-'' # ?d) = CHR ''-'' # ?d"
    by (intro py_strip_id) (simp_all add: minus_not_space not_space_digit)
  with True d show ?thesis by (simp add: str_int_def py_int_def unsigned_int_digits)
next
  case False
  let ?d = "nat_digits (nat i)"
  have d: "all_digits ?d" by (rule nat_digits_digits)
  then have ne: "?d \<noteq> []" by (simp add: all_digits_def)
  from d have "py_strip ?d = ?d" by (intro py_strip_id) (simp_all add: ne all_digits_hd_last not_space_digit)
  moreover obtain c t where ct: "?d = c # t" using ne by (cases ?d) auto
  moreover have "is_digit c" using all_digits_hd_last(1) [OF d] ct by simp
  moreover have "digits_value (c # t) = nat i" using digits_value_nat_digits [of "nat i"] ct by simp
  ultimately show ?thesis using False d by (auto simp: str_int_def py_int_def minus_not_digit unsigned_int_digits)
qed

section \<open>Splitting and joining\<close>

fun py_join :: "string \<Rightarrow> string list \<Rightarrow> string" where
  "py_join sep [] = []"
| "py_join sep [x] = x"
| "py_join sep (x # y # xs) = x @ sep @ py_join sep (y # xs)"

text \<open>\<open>text.split()\<close>: the maximal runs of non-blanks; \<open>text.split(c)\<close> for one character.\<close>

fun words_from :: "string \<Rightarrow> string \<Rightarrow> string list" where
  "words_from w [] = (if w = [] then [] else [w])"
| "words_from w (c # s) =
    (if py_space c then (if w = [] then words_from [] s else w # words_from [] s)
     else words_from (w @ [c]) s)"

definition py_words :: "string \<Rightarrow> string list" where
  "py_words s = words_from [] s"

fun split_from :: "char \<Rightarrow> string \<Rightarrow> string \<Rightarrow> string list" where
  "split_from sep w [] = [w]"
| "split_from sep w (c # s) = (if c = sep then w # split_from sep [] s else split_from sep (w @ [c]) s)"

definition py_split :: "char \<Rightarrow> string \<Rightarrow> string list" where
  "py_split sep s = split_from sep [] s"

lemma split_from_no_sep: "sep \<notin> set s \<Longrightarrow> split_from sep w s = [w @ s]"
  by (induction s arbitrary: w) auto

lemma split_from_sep: "sep \<notin> set s \<Longrightarrow> split_from sep w (s @ sep # t) = (w @ s) # split_from sep [] t"
  by (induction s arbitrary: w) auto

lemma py_split_one: "sep \<notin> set s \<Longrightarrow> py_split sep s = [s]"
  by (simp add: py_split_def split_from_no_sep)

lemma py_split_two: "sep \<notin> set s \<Longrightarrow> sep \<notin> set t \<Longrightarrow> py_split sep (s @ sep # t) = [s, t]"
  by (simp add: py_split_def split_from_sep split_from_no_sep)

section \<open>Letters and \<open>repr\<close>\<close>

definition is_ascii_upper :: "char \<Rightarrow> bool" where
  "is_ascii_upper c \<longleftrightarrow> 65 \<le> (of_char c :: nat) \<and> (of_char c :: nat) \<le> 90"

definition is_ascii_letter :: "char \<Rightarrow> bool" where
  "is_ascii_letter c \<longleftrightarrow> is_ascii_upper c \<or> (97 \<le> (of_char c :: nat) \<and> (of_char c :: nat) \<le> 122)"

definition ascii_upper :: "char \<Rightarrow> char" where
  "ascii_upper c = (if 97 \<le> (of_char c :: nat) \<and> (of_char c :: nat) \<le> 122 then char_of (of_char c - (32 :: nat)) else c)"

definition hex_digit :: "nat \<Rightarrow> char" where
  "hex_digit n = char_of (if n < 10 then 48 + n else 87 + n)"

definition repr_char :: "char \<Rightarrow> char \<Rightarrow> string" where
  "repr_char quote c =
    (let n = (of_char c :: nat) in
     if c = quote \<or> c = CHR 0x5C then [CHR 0x5C, c]
     else if n = 9 then [CHR 0x5C, CHR ''t'']
     else if n = 10 then [CHR 0x5C, CHR ''n'']
     else if n = 13 then [CHR 0x5C, CHR ''r'']
     else if n < 32 \<or> (127 \<le> n \<and> n \<le> 160) \<or> n = 173
     then [CHR 0x5C, CHR ''x'', hex_digit (n div 16), hex_digit (n mod 16)]
     else [c])"

definition py_repr :: "string \<Rightarrow> string" where
  "py_repr s =
    (let quote = (if CHR 0x27 \<in> set s \<and> CHR 0x22 \<notin> set s then CHR 0x22 else CHR 0x27)
     in quote # concat (map (repr_char quote) s) @ [quote])"

end
