(* ===== verification/Xml.thy ===== *)
theory Xml
  imports PyText
begin

text \<open>
  Elements of \<open>xml.etree.ElementTree\<close>, as far as the repository reads them: tag, attributes in
  document order (names are unique), text, children and tail. An absent text or tail is the
  empty string, which the code never distinguishes from it. Parsing text into elements is the
  standard library's and a parameter of the models that read XML text.
\<close>

datatype xml =
  Elem (tag: string) (attrib: "(string \<times> string) list") (xtext: string) (children: "xml list") (tail: string)

text \<open>\<open>element.get(name)\<close> and \<open>element.findall(tag)\<close>.\<close>

definition get_attr :: "xml \<Rightarrow> string \<Rightarrow> string option" where
  "get_attr e name = map_of (attrib e) name"

definition findall :: "xml \<Rightarrow> string \<Rightarrow> xml list" where
  "findall e t = filter (\<lambda>c. tag c = t) (children e)"

text \<open>All elements in document order, the element itself first (\<open>element.iter()\<close>).\<close>

fun iter_all :: "xml \<Rightarrow> xml list" where
  "iter_all (Elem t a x cs z) = Elem t a x cs z # concat (map iter_all cs)"

definition iter_tag :: "xml \<Rightarrow> string \<Rightarrow> xml list" where
  "iter_tag e t = filter (\<lambda>d. tag d = t) (iter_all e)"

text \<open>\<open>element.find('.//tag')\<close>: the first proper descendant with the tag.\<close>

definition find_below :: "xml \<Rightarrow> string \<Rightarrow> xml option" where
  "find_below e t = find (\<lambda>d. tag d = t) (tl (iter_all e))"

text \<open>\<open>''.join(element.itertext())\<close>: the text inside the element, its own tail left out.\<close>

fun inner_text :: "xml \<Rightarrow> string" where
  "inner_text (Elem t a x cs z) = x @ concat (map (\<lambda>c. inner_text c @ tail c) cs)"

end
