(* ===== verification/TableStructure.thy ===== *)
theory TableStructure
  imports Xml "HOL-Library.Multiset"
begin

text \<open>
  Exact edits of a table's structure, app/table_structure.py: reading the grid of a table out
  of its markup, deciding whether an edit may run (\<open>check_plan\<close>), the grid it must produce
  (\<open>expected_layout\<close>) and the comparison with the grid observed afterwards
  (\<open>evaluate_change\<close>). Every \<open>raise TableStructureError(..)\<close> is a constructor that carries the
  values its message shows; the message texts are not modelled, the entries of \<open>reasons\<close> are
  constructors likewise. \<open>parse\<close> (the XML reader) and \<open>digest\<close> (sha256, as hex) are parameters.
\<close>

section \<open>Addresses\<close>

datatype structure_error =
    BadColumn int
  | NoHwpml | NotWellFormed | NoTable | NoPositiveCounts
  | GridMismatch int int int int
  | TargetOutside int int int int
  | NoCellReadback
  | TooManyLines int
  | RunsPastLast int int int
  | DeletesEverything
  | TouchesMerged bool "(int \<times> int) option" "int \<times> int"
  | HoldsControls "int \<times> int" "string list"
  | IdenticalLines int int
  | EmptyNeighbour int
  | BadMergeRange int int int int
  | MergeTooSmall
  | MergeHitsMerged "int \<times> int"
  | SplitTooSmall
  | SplitCovered "int \<times> int" "(int \<times> int) option"
  | SplitMerged "int \<times> int"
  | SplitTooLarge
  | NoneIterated

function letters_of :: "int \<Rightarrow> string \<Rightarrow> string" where
  "letters_of col letters =
    (if col \<le> 0 then letters
     else letters_of ((col - 1) div 26) (char_of (65 + nat ((col - 1) mod 26)) # letters))"
  by auto
termination by (relation "measure (\<lambda>(c, _). nat c)") (auto simp: nat_less_iff intro: le_less_trans)

declare letters_of.simps [simp del]

definition column_letters :: "int \<Rightarrow> structure_error + string" where
  "column_letters col = (if col < 1 then Inl (BadColumn col) else Inr (letters_of col []))"

definition cell_address :: "int \<Rightarrow> int \<Rightarrow> structure_error + string" where
  "cell_address row col = (case column_letters col of Inl e \<Rightarrow> Inl e | Inr l \<Rightarrow> Inr (l @ str_int row))"

text \<open>
  The pattern \<open>\s*([A-Za-z]+)(\d+)\s*\<close> matched against the whole text: a run of blanks, letters
  and digits each, in this order, with nothing left over.
\<close>

definition letters_number :: "string \<Rightarrow> int" where
  "letters_number s = foldl (\<lambda>n c. n * 26 + (int (of_char (ascii_upper c)) - 65 + 1)) 0 s"

lemma letters_number_snoc [simp]:
  "letters_number (s @ [c]) = letters_number s * 26 + (int (of_char (ascii_upper c)) - 65 + 1)"
  by (simp add: letters_number_def)

definition parse_cell_address :: "string \<Rightarrow> (int \<times> int) option" where
  "parse_cell_address v =
    (let body = dropWhile py_space v;
         ls = takeWhile is_ascii_letter body; rest = dropWhile is_ascii_letter body;
         ds = takeWhile is_digit rest; blank = dropWhile is_digit rest
     in if ls = [] \<or> ds = [] \<or> \<not> list_all py_space blank then None
        else let col = letters_number ls; row = int (digits_value ds)
             in if row < 1 \<or> col < 1 then None else Some (row, col))"

definition rect_cells :: "int \<times> int \<Rightarrow> int \<times> int \<Rightarrow> (int \<times> int) list" where
  "rect_cells s e =
    concat (map (\<lambda>r. map (\<lambda>c. (r, c)) [min (snd s) (snd e)..max (snd s) (snd e)])
      [min (fst s) (fst e)..max (fst s) (fst e)])"

definition parse_token :: "string \<Rightarrow> (int \<times> int) list option" where
  "parse_token t =
    (case py_split (CHR '':'') t of
       [a] \<Rightarrow> map_option (\<lambda>p. [p]) (parse_cell_address a)
     | [a, b] \<Rightarrow> (case (parse_cell_address a, parse_cell_address b) of
         (Some s, Some e) \<Rightarrow> Some (rect_cells s e) | _ \<Rightarrow> None)
     | _ \<Rightarrow> None)"

text \<open>The set of cells is returned as a list; one text counts as a list of one.\<close>

fun parse_tokens :: "string list \<Rightarrow> (int \<times> int) list option" where
  "parse_tokens [] = Some []"
| "parse_tokens (t # ts) =
    (case parse_token t of None \<Rightarrow> None
     | Some cells \<Rightarrow> map_option ((@) cells) (parse_tokens ts))"

definition parse_cell_range :: "string list \<Rightarrow> (int \<times> int) list option" where
  "parse_cell_range tokens = (if tokens = [] then None else parse_tokens tokens)"

section \<open>Reading the grid\<close>

record tcell =
  c_row :: int
  c_col :: int
  c_row_span :: int
  c_col_span :: int
  c_text :: string
  c_controls :: "string list"
  c_fingerprint :: string

record grid =
  g_rows :: int
  g_cols :: int
  g_cells :: "tcell list option"

definition cell_key :: "tcell \<Rightarrow> int \<times> int" where
  "cell_key c = (c_row c, c_col c)"

definition cell_count :: "grid \<Rightarrow> nat option" where
  "cell_count g = map_option length (g_cells g)"

definition int_attr :: "xml \<Rightarrow> string \<Rightarrow> int option" where
  "int_attr e name = (case get_attr e name of None \<Rightarrow> None | Some raw \<Rightarrow> py_int raw)"

definition volatile_attrs :: "string set" where
  "volatile_attrs = {''RowAddr'', ''ColAddr'', ''RowSpan'', ''ColSpan'', ''Width'', ''Height'', ''Dirty'', ''InstId'', ''InstID''}"

fun canonical :: "xml \<Rightarrow> string" where
  "canonical (Elem t a x cs z) =
    ''<'' @ t @ concat (map (\<lambda>(k, v). '' '' @ k @ ''='' @ py_repr v)
        (filter (\<lambda>(k, _). k \<notin> volatile_attrs) (sort_key fst a)))
      @ ''>'' @ py_strip x @ concat (map canonical cs) @ ''</'' @ t @ ''>'' @ py_strip z"

definition cell_controls :: "xml \<Rightarrow> string list" where
  "cell_controls cell =
    sort (concat (map (\<lambda>t. map tag (filter (\<lambda>c. tag c \<noteq> ''CHAR'') (children t))) (iter_tag cell ''TEXT'')))"

definition one_if_falsy :: "int option \<Rightarrow> int" where
  "one_if_falsy v = (case v of None \<Rightarrow> 1 | Some n \<Rightarrow> if n = 0 then 1 else n)"

definition read_cell :: "(string \<Rightarrow> string) \<Rightarrow> xml \<Rightarrow> tcell option" where
  "read_cell digest e =
    (case (int_attr e ''RowAddr'', int_attr e ''ColAddr'') of
       (Some r, Some c) \<Rightarrow> Some \<lparr>c_row = r + 1, c_col = c + 1,
         c_row_span = one_if_falsy (int_attr e ''RowSpan''), c_col_span = one_if_falsy (int_attr e ''ColSpan''),
         c_text = py_join '' '' (py_words (inner_text e)), c_controls = cell_controls e,
         c_fingerprint = digest (canonical e)\<rparr>
     | _ \<Rightarrow> None)"

fun read_cells :: "(string \<Rightarrow> string) \<Rightarrow> xml list \<Rightarrow> tcell list option" where
  "read_cells digest [] = Some []"
| "read_cells digest (e # es) =
    (case read_cell digest e of None \<Rightarrow> None | Some c \<Rightarrow> map_option ((#) c) (read_cells digest es))"

definition parse_table_grid_xml ::
  "(string \<Rightarrow> xml option) \<Rightarrow> (string \<Rightarrow> string) \<Rightarrow> string option \<Rightarrow> structure_error + grid" where
  "parse_table_grid_xml parse digest xml_text =
    (case xml_text of
       None \<Rightarrow> Inl NoHwpml
     | Some s \<Rightarrow>
       if \<not> nonblank s then Inl NoHwpml
       else case parse s of
         None \<Rightarrow> Inl NotWellFormed
       | Some root \<Rightarrow>
         (case (if tag root = ''TABLE'' then Some root else find_below root ''TABLE'') of
            None \<Rightarrow> Inl NoTable
          | Some table \<Rightarrow>
            (case (int_attr table ''RowCount'', int_attr table ''ColCount'') of
               (Some rows, Some cols) \<Rightarrow>
                 if rows < 1 \<or> cols < 1 then Inl NoPositiveCounts
                 else Inr \<lparr>g_rows = rows, g_cols = cols,
                   g_cells = map_option (sort_key cell_key)
                     (read_cells digest (concat (map (\<lambda>r. findall r ''CELL'') (findall table ''ROW''))))\<rparr>
             | _ \<Rightarrow> Inl NoPositiveCounts)))"

text \<open>The grid as responses and logs show it: no text, a short fingerprint.\<close>

definition public_cell :: "tcell \<Rightarrow> (int \<times> int \<times> int \<times> int) \<times> string list \<times> string \<times> nat" where
  "public_cell c = ((c_row c, c_col c, c_row_span c, c_col_span c), c_controls c, take 16 (c_fingerprint c), length (c_text c))"

definition public_grid ::
  "grid \<Rightarrow> int \<times> int \<times> nat option \<times> ((int \<times> int \<times> int \<times> int) \<times> string list \<times> string \<times> nat) list option" where
  "public_grid g = (g_rows g, g_cols g, cell_count g, map_option (map public_cell) (g_cells g))"

section \<open>Lines and cells\<close>

definition is_empty_cell :: "tcell \<Rightarrow> bool" where
  "is_empty_cell c \<longleftrightarrow> c_text c = [] \<and> c_controls c = []"

definition cells_or_empty :: "grid \<Rightarrow> tcell list" where
  "cells_or_empty g = (case g_cells g of None \<Rightarrow> [] | Some cs \<Rightarrow> cs)"

definition cell_at :: "grid \<Rightarrow> int \<Rightarrow> int \<Rightarrow> tcell option" where
  "cell_at g row col = find (\<lambda>c. c_row c = row \<and> c_col c = col) (cells_or_empty g)"

definition covers :: "tcell \<Rightarrow> int \<Rightarrow> int \<Rightarrow> bool" where
  "covers c row col \<longleftrightarrow> c_row c \<le> row \<and> row < c_row c + c_row_span c \<and> c_col c \<le> col \<and> col < c_col c + c_col_span c"

definition covering_cell :: "grid \<Rightarrow> int \<Rightarrow> int \<Rightarrow> tcell option" where
  "covering_cell g row col = find (\<lambda>c. covers c row col) (cells_or_empty g)"

definition line_of :: "bool \<Rightarrow> tcell \<Rightarrow> int" where
  "line_of on_rows c = (if on_rows then c_row c else c_col c)"

definition line_cells :: "grid \<Rightarrow> bool \<Rightarrow> int \<Rightarrow> tcell list" where
  "line_cells g on_rows index =
    sort_key (line_of (\<not> on_rows)) (filter (\<lambda>c. line_of on_rows c = index) (cells_or_empty g))"

definition line_signature :: "grid \<Rightarrow> bool \<Rightarrow> int \<Rightarrow> string list" where
  "line_signature g on_rows index = map c_fingerprint (line_cells g on_rows index)"

definition line_is_empty :: "grid \<Rightarrow> bool \<Rightarrow> int \<Rightarrow> bool" where
  "line_is_empty g on_rows index \<longleftrightarrow> list_all is_empty_cell (line_cells g on_rows index)"


section \<open>Checking a plan\<close>

datatype line_action = InsertRowAbove | InsertRowBelow | InsertColLeft | InsertColRight | DeleteRow | DeleteCol

datatype table_action = LineAction line_action | MergeCells | SplitCell

definition hancom_action :: "line_action \<Rightarrow> string" where
  "hancom_action a = (case a of
     InsertRowAbove \<Rightarrow> ''TableInsertUpperRow'' | InsertRowBelow \<Rightarrow> ''TableInsertLowerRow''
   | InsertColLeft \<Rightarrow> ''TableInsertLeftColumn'' | InsertColRight \<Rightarrow> ''TableInsertRightColumn''
   | DeleteRow \<Rightarrow> ''TableDeleteRow'' | DeleteCol \<Rightarrow> ''TableDeleteColumn'')"

definition on_rows_of :: "line_action \<Rightarrow> bool" where
  "on_rows_of a \<longleftrightarrow> a \<in> {InsertRowAbove, InsertRowBelow, DeleteRow}"

definition is_delete :: "line_action \<Rightarrow> bool" where
  "is_delete a \<longleftrightarrow> a \<in> {DeleteRow, DeleteCol}"

definition inserts_before :: "line_action \<Rightarrow> bool" where
  "inserts_before a \<longleftrightarrow> a \<in> {InsertRowAbove, InsertColLeft}"

definition max_grid :: int where "max_grid = 500"

text \<open>A validated step: the end of a range is read for a merge only.\<close>

record table_step =
  ts_action :: table_action
  ts_expected_rows :: int
  ts_expected_cols :: int
  ts_row :: int
  ts_col :: int
  ts_count :: "int option"
  ts_end_row :: int
  ts_end_col :: int
  ts_split_rows :: "int option"
  ts_split_cols :: "int option"

datatype table_plan =
    LinePlan line_action int int int
  | MergePlan int int int int
  | SplitPlan int int int int

definition total_lines :: "grid \<Rightarrow> bool \<Rightarrow> int" where
  "total_lines g on_rows = (if on_rows then g_rows g else g_cols g)"

definition spot :: "bool \<Rightarrow> int \<Rightarrow> int \<Rightarrow> int \<times> int" where
  "spot on_rows line other = (if on_rows then (line, other) else (other, line))"

definition unmerged_problem :: "grid \<Rightarrow> bool \<Rightarrow> int list \<Rightarrow> structure_error option" where
  "unmerged_problem g on_rows lines =
    first_some (\<lambda>line. first_some (\<lambda>other.
      let rc = spot on_rows line other in
      case covering_cell g (fst rc) (snd rc) of
        None \<Rightarrow> Some (TouchesMerged on_rows None rc)
      | Some c \<Rightarrow> if c_row_span c \<noteq> 1 \<or> c_col_span c \<noteq> 1 then Some (TouchesMerged on_rows (Some (cell_key c)) rc) else None)
      [1..total_lines g (\<not> on_rows)]) lines"

definition control_problem :: "grid \<Rightarrow> bool \<Rightarrow> int list \<Rightarrow> structure_error option" where
  "control_problem g on_rows lines =
    first_some (\<lambda>line. first_some (\<lambda>c.
      if c_controls c \<noteq> [] then Some (HoldsControls (cell_key c) (c_controls c)) else None)
      (line_cells g on_rows line)) lines"

definition boundary_of :: "line_action \<Rightarrow> int \<Rightarrow> int" where
  "boundary_of a index = (if inserts_before a then index else index + 1)"

definition indistinguishable :: "grid \<Rightarrow> line_action \<Rightarrow> int \<Rightarrow> int \<Rightarrow> structure_error option" where
  "indistinguishable g a index n =
    (let on_rows = on_rows_of a; total = total_lines g on_rows in
     if is_delete a then
       (let first = index; last = index + n - 1 in
        first_some (\<lambda>(deleted, neighbour).
          if 1 \<le> neighbour \<and> neighbour \<le> total \<and> line_signature g on_rows deleted = line_signature g on_rows neighbour
          then Some (IdenticalLines deleted neighbour) else None)
          [(first, last + 1), (last, first - 1)])
     else
       first_some (\<lambda>side.
         if 1 \<le> side \<and> side \<le> total \<and> line_is_empty g on_rows side then Some (EmptyNeighbour side) else None)
         [boundary_of a index - 1, boundary_of a index])"

definition line_problem :: "grid \<Rightarrow> line_action \<Rightarrow> int \<Rightarrow> int \<Rightarrow> structure_error option" where
  "line_problem g a index n =
    (let on_rows = on_rows_of a; total = total_lines g on_rows;
         neighbour = (if inserts_before a then index - 1 else index + 1)
     in if \<not> is_delete a \<and> total + n > max_grid then Some (TooManyLines n)
        else if is_delete a \<and> index + n - 1 > total then Some (RunsPastLast n index total)
        else if is_delete a \<and> total - n < 1 then Some DeletesEverything
        else first_some id
          [unmerged_problem g on_rows [index..index + (if is_delete a then n else 1) - 1],
           if is_delete a then control_problem g on_rows [index..index + n - 1]
           else if 1 \<le> neighbour \<and> neighbour \<le> total then unmerged_problem g on_rows [neighbour]
           else None,
           indistinguishable g a index n])"

definition merge_problem :: "grid \<Rightarrow> int \<Rightarrow> int \<Rightarrow> int \<Rightarrow> int \<Rightarrow> structure_error option" where
  "merge_problem g row col end_row end_col =
    (if \<not> (row \<le> end_row \<and> end_row \<le> g_rows g \<and> col \<le> end_col \<and> end_col \<le> g_cols g)
     then Some (BadMergeRange row col end_row end_col)
     else if (end_row - row + 1) * (end_col - col + 1) < 2 then Some MergeTooSmall
     else first_some (\<lambda>(r, c).
       case cell_at g r c of
         None \<Rightarrow> Some (MergeHitsMerged (r, c))
       | Some x \<Rightarrow> if c_row_span x \<noteq> 1 \<or> c_col_span x \<noteq> 1 then Some (MergeHitsMerged (r, c)) else None)
       (rect_cells (row, col) (end_row, end_col)))"

definition split_problem :: "grid \<Rightarrow> int \<Rightarrow> int \<Rightarrow> int \<Rightarrow> int \<Rightarrow> structure_error option" where
  "split_problem g row col split_rows split_cols =
    (if split_rows * split_cols < 2 then Some SplitTooSmall
     else case cell_at g row col of
       None \<Rightarrow> Some (SplitCovered (row, col) (map_option cell_key (covering_cell g row col)))
     | Some c \<Rightarrow>
         if c_row_span c \<noteq> 1 \<or> c_col_span c \<noteq> 1 then Some (SplitMerged (row, col))
         else if g_rows g + split_rows - 1 > max_grid \<or> g_cols g + split_cols - 1 > max_grid then Some SplitTooLarge
         else None)"

definition or_error :: "structure_error option \<Rightarrow> table_plan \<Rightarrow> structure_error + table_plan" where
  "or_error e p = (case e of Some x \<Rightarrow> Inl x | None \<Rightarrow> Inr p)"

definition check_plan :: "table_step \<Rightarrow> grid \<Rightarrow> structure_error + table_plan" where
  "check_plan st g =
    (let row = ts_row st; col = ts_col st in
     if g_rows g \<noteq> ts_expected_rows st \<or> g_cols g \<noteq> ts_expected_cols st
     then Inl (GridMismatch (g_rows g) (g_cols g) (ts_expected_rows st) (ts_expected_cols st))
     else if \<not> (1 \<le> row \<and> row \<le> g_rows g \<and> 1 \<le> col \<and> col \<le> g_cols g)
     then Inl (TargetOutside row col (g_rows g) (g_cols g))
     else if g_cells g = None then Inl NoCellReadback
     else case ts_action st of
       LineAction a \<Rightarrow>
         (let n = one_if_falsy (ts_count st) in
          or_error (line_problem g a (if on_rows_of a then row else col) n) (LinePlan a row col n))
     | MergeCells \<Rightarrow>
         or_error (merge_problem g row col (ts_end_row st) (ts_end_col st)) (MergePlan row col (ts_end_row st) (ts_end_col st))
     | SplitCell \<Rightarrow>
         (let sr = one_if_falsy (ts_split_rows st); sc = one_if_falsy (ts_split_cols st) in
          or_error (split_problem g row col sr sc) (SplitPlan row col sr sc)))"

text \<open>The cells a merge selects, in the order of the plan.\<close>

definition merge_selection :: "table_plan \<Rightarrow> (int \<times> int) list" where
  "merge_selection p = (case p of MergePlan r c er ec \<Rightarrow> sort (rect_cells (r, c) (er, ec)) | _ \<Rightarrow> [])"

section \<open>The layout an edit must produce\<close>

datatype expect = Same string | Empty | Derived

record want =
  w_row :: int
  w_col :: int
  w_row_span :: int
  w_col_span :: int
  w_expect :: expect

definition want_key :: "want \<Rightarrow> int \<times> int" where
  "want_key w = (w_row w, w_col w)"

record layout =
  y_rows :: int
  y_cols :: int
  y_cells :: "want list"
  y_merge_sources :: "tcell list option"
  y_split_source :: "tcell option option"

definition keep :: "tcell \<Rightarrow> want" where
  "keep c = \<lparr>w_row = c_row c, w_col = c_col c, w_row_span = c_row_span c, w_col_span = c_col_span c,
    w_expect = Same (c_fingerprint c)\<rparr>"

definition shift :: "int \<Rightarrow> int \<Rightarrow> int \<Rightarrow> int" where
  "shift v at by' = (if v \<ge> at then v + by' else v)"

definition map_line :: "bool \<Rightarrow> (int \<Rightarrow> int) \<Rightarrow> want \<Rightarrow> want" where
  "map_line on_rows f w = (if on_rows then w\<lparr>w_row := f (w_row w)\<rparr> else w\<lparr>w_col := f (w_col w)\<rparr>)"

definition new_want :: "int \<times> int \<Rightarrow> expect \<Rightarrow> want" where
  "new_want rc e = \<lparr>w_row = fst rc, w_col = snd rc, w_row_span = 1, w_col_span = 1, w_expect = e\<rparr>"

definition insert_wants :: "bool \<Rightarrow> int \<Rightarrow> int \<Rightarrow> int \<Rightarrow> tcell list \<Rightarrow> want list" where
  "insert_wants on_rows at n extent cs =
    map (\<lambda>c. map_line on_rows (\<lambda>v. shift v at n) (keep c)) cs
    @ concat (map (\<lambda>i. map (\<lambda>other. new_want (spot on_rows (at + i) other) Empty) [1..extent]) [0..n - 1])"

definition delete_wants :: "bool \<Rightarrow> int \<Rightarrow> int \<Rightarrow> tcell list \<Rightarrow> want list" where
  "delete_wants on_rows index n cs =
    map (\<lambda>c. map_line on_rows (\<lambda>v. if v \<ge> index + n then v - n else v) (keep c))
      (filter (\<lambda>c. \<not> (index \<le> line_of on_rows c \<and> line_of on_rows c < index + n)) cs)"

definition inside_range :: "int \<Rightarrow> int \<Rightarrow> int \<Rightarrow> int \<Rightarrow> tcell \<Rightarrow> bool" where
  "inside_range r c er ec x \<longleftrightarrow> r \<le> c_row x \<and> c_row x \<le> er \<and> c \<le> c_col x \<and> c_col x \<le> ec"

definition merge_wants :: "int \<Rightarrow> int \<Rightarrow> int \<Rightarrow> int \<Rightarrow> tcell list \<Rightarrow> want list" where
  "merge_wants r c er ec cs =
    map keep (filter (\<lambda>x. \<not> inside_range r c er ec x) cs)
    @ [\<lparr>w_row = r, w_col = c, w_row_span = er - r + 1, w_col_span = ec - c + 1, w_expect = Derived\<rparr>]"

definition split_moved :: "int \<Rightarrow> int \<Rightarrow> int \<Rightarrow> int \<Rightarrow> tcell \<Rightarrow> want" where
  "split_moved r c dr dc x =
    (keep x)\<lparr>w_row_span := c_row_span x + (if c_row x \<le> r \<and> r < c_row x + c_row_span x then dr else 0),
      w_col_span := c_col_span x + (if c_col x \<le> c \<and> c < c_col x + c_col_span x then dc else 0),
      w_row := shift (c_row x) (r + 1) dr, w_col := shift (c_col x) (c + 1) dc\<rparr>"

definition split_wants :: "int \<Rightarrow> int \<Rightarrow> int \<Rightarrow> int \<Rightarrow> tcell list \<Rightarrow> want list" where
  "split_wants r c dr dc cs =
    map (split_moved r c dr dc) (filter (\<lambda>x. cell_key x \<noteq> (r, c)) cs)
    @ concat (map (\<lambda>i. map (\<lambda>j. new_want (r + i, c + j) Derived) [0..dc]) [0..dr])"

definition expected_layout :: "table_plan \<Rightarrow> grid \<Rightarrow> structure_error + layout" where
  "expected_layout p g =
    (case g_cells g of
       None \<Rightarrow> Inl NoneIterated
     | Some cs \<Rightarrow> Inr (case p of
         LinePlan a row col n \<Rightarrow>
           (let on_rows = on_rows_of a; index = (if on_rows then row else col);
                extent = total_lines g (\<not> on_rows);
                wants = (if is_delete a then delete_wants on_rows index n cs
                         else insert_wants on_rows (boundary_of a index) n extent cs);
                d = (if is_delete a then - n else n)
            in \<lparr>y_rows = g_rows g + (if on_rows then d else 0), y_cols = g_cols g + (if on_rows then 0 else d),
                y_cells = sort_key want_key wants, y_merge_sources = None, y_split_source = None\<rparr>)
       | MergePlan r c er ec \<Rightarrow>
           \<lparr>y_rows = g_rows g, y_cols = g_cols g, y_cells = sort_key want_key (merge_wants r c er ec cs),
            y_merge_sources = Some (filter (inside_range r c er ec) cs), y_split_source = None\<rparr>
       | SplitPlan r c sr sc \<Rightarrow>
           \<lparr>y_rows = g_rows g + (sr - 1), y_cols = g_cols g + (sc - 1),
            y_cells = sort_key want_key (split_wants r c (sr - 1) (sc - 1) cs),
            y_merge_sources = None, y_split_source = Some (cell_at g r c)\<rparr>))"

section \<open>Comparing with the observed grid\<close>

datatype reason =
    DimensionIs string int int
  | NoCellData
  | ExpectedCell "int \<times> int" | UnexpectedCell "int \<times> int"
  | Spans "int \<times> int" int int int int
  | ContentChanged "int \<times> int" | NotEmpty "int \<times> int"
  | LostText nat | MergedControlsDiffer | SplitTextDiffers | SplitControlsDiffer

text \<open>A dictionary built by a loop: the last entry of a key stays.\<close>

definition by_key :: "('a \<Rightarrow> 'k) \<Rightarrow> 'a list \<Rightarrow> 'k \<Rightarrow> 'a option" where
  "by_key key xs k = find (\<lambda>x. key x = k) (rev xs)"

definition cell_reasons :: "int \<times> int \<Rightarrow> tcell option \<Rightarrow> want option \<Rightarrow> reason list" where
  "cell_reasons key got want =
    (case got of
       None \<Rightarrow> [ExpectedCell key]
     | Some x \<Rightarrow>
       (case want of
          None \<Rightarrow> [UnexpectedCell key]
        | Some w \<Rightarrow>
          if (c_row_span x, c_col_span x) \<noteq> (w_row_span w, w_col_span w)
          then [Spans key (c_row_span x) (c_col_span x) (w_row_span w) (w_col_span w)]
          else (case w_expect w of
                  Same f \<Rightarrow> if c_fingerprint x \<noteq> f then [ContentChanged key] else []
                | Empty \<Rightarrow> if \<not> is_empty_cell x then [NotEmpty key] else []
                | Derived \<Rightarrow> [])))"

definition all_keys :: "tcell list \<Rightarrow> want list \<Rightarrow> (int \<times> int) list" where
  "all_keys cs ws = sort (remdups (map cell_key cs @ map want_key ws))"

text \<open>The address of every key is formed first; a column below 1 has none.\<close>

fun keys_reasons :: "tcell list \<Rightarrow> want list \<Rightarrow> (int \<times> int) list \<Rightarrow> structure_error + reason list" where
  "keys_reasons cs ws [] = Inr []"
| "keys_reasons cs ws (k # ks) =
    (case cell_address (fst k) (snd k) of
       Inl e \<Rightarrow> Inl e
     | Inr _ \<Rightarrow>
       (case keys_reasons cs ws ks of
          Inl e \<Rightarrow> Inl e
        | Inr rs \<Rightarrow> Inr (cell_reasons k (by_key cell_key cs k) (by_key want_key ws k) @ rs)))"

definition merge_reasons :: "int \<times> int \<Rightarrow> tcell list \<Rightarrow> tcell list \<Rightarrow> reason list" where
  "merge_reasons key cs sources =
    (let merged = by_key cell_key cs key;
         missing = filter (\<lambda>s. c_text s \<noteq> [] \<and>
           (case merged of None \<Rightarrow> True | Some m \<Rightarrow> \<not> contains (c_text s) (c_text m))) sources;
         wanted = mset (concat (map c_controls sources))
     in (if missing \<noteq> [] then [LostText (length missing)] else [])
        @ (if (case merged of None \<Rightarrow> True | Some m \<Rightarrow> mset (c_controls m) \<noteq> wanted) then [MergedControlsDiffer] else []))"

fun all_present :: "'a option list \<Rightarrow> 'a list option" where
  "all_present [] = Some []"
| "all_present (x # xs) = (case x of None \<Rightarrow> None | Some a \<Rightarrow> map_option ((#) a) (all_present xs))"

definition split_reasons :: "tcell list \<Rightarrow> want list \<Rightarrow> tcell \<Rightarrow> reason list" where
  "split_reasons cs ws source =
    (case all_present (map (\<lambda>w. by_key cell_key cs (want_key w)) (filter (\<lambda>w. w_expect w = Derived) ws)) of
       None \<Rightarrow> []
     | Some parts \<Rightarrow>
       (if py_join '' '' (filter (\<lambda>t. t \<noteq> []) (map c_text parts)) \<noteq> c_text source then [SplitTextDiffers] else [])
       @ (if mset (concat (map c_controls parts)) \<noteq> mset (c_controls source) then [SplitControlsDiffer] else []))"

definition group_reasons :: "table_plan \<Rightarrow> layout \<Rightarrow> tcell list \<Rightarrow> structure_error + reason list" where
  "group_reasons p y cs =
    (case y_merge_sources y of
       Some sources \<Rightarrow> Inr (case p of MergePlan r c er ec \<Rightarrow> merge_reasons (r, c) cs sources | _ \<Rightarrow> [])
     | None \<Rightarrow>
       (case y_split_source y of
          None \<Rightarrow> Inr []
        | Some (Some source) \<Rightarrow> Inr (split_reasons cs (y_cells y) source)
        | Some None \<Rightarrow>
            if all_present (map (\<lambda>w. by_key cell_key cs (want_key w)) (filter (\<lambda>w. w_expect w = Derived) (y_cells y))) = None
            then Inr [] else Inl NoneIterated))"

record verdict =
  v_ok :: bool
  v_expected :: "int \<times> int \<times> nat"
  v_observed :: "int \<times> int \<times> nat option"
  v_reasons :: "reason list"

definition dimension_reasons :: "layout \<Rightarrow> grid \<Rightarrow> reason list" where
  "dimension_reasons y after =
    (if g_rows after \<noteq> y_rows y then [DimensionIs ''rows'' (g_rows after) (y_rows y)] else [])
    @ (if g_cols after \<noteq> y_cols y then [DimensionIs ''cols'' (g_cols after) (y_cols y)] else [])"

definition content_reasons :: "table_plan \<Rightarrow> layout \<Rightarrow> grid \<Rightarrow> structure_error + reason list" where
  "content_reasons p y after =
    (case g_cells after of
       None \<Rightarrow> Inr [NoCellData]
     | Some cs \<Rightarrow>
       (case keys_reasons cs (y_cells y) (all_keys cs (y_cells y)) of
          Inl e \<Rightarrow> Inl e
        | Inr rs \<Rightarrow> (case group_reasons p y cs of Inl e \<Rightarrow> Inl e | Inr qs \<Rightarrow> Inr (rs @ qs))))"

definition evaluate_change :: "table_plan \<Rightarrow> grid \<Rightarrow> grid \<Rightarrow> structure_error + verdict" where
  "evaluate_change p before after =
    (case expected_layout p before of
       Inl e \<Rightarrow> Inl e
     | Inr y \<Rightarrow>
       (case content_reasons p y after of
          Inl e \<Rightarrow> Inl e
        | Inr rs \<Rightarrow>
          (let all_reasons = dimension_reasons y after @ rs in
           Inr \<lparr>v_ok = (all_reasons = []), v_expected = (y_rows y, y_cols y, length (y_cells y)),
             v_observed = (g_rows after, g_cols after, cell_count after), v_reasons = take 10 all_reasons\<rparr>)))"

end
