(* ===== verification/TableProps.thy ===== *)
theory TableProps
  imports TableStructure
begin

text \<open>
  What the exact table edits of \<open>TableStructure\<close> guarantee: addresses are read back as they are
  written, and a checked row or column edit passes verification exactly when it hit the planned
  lines.
\<close>

section \<open>Addresses\<close>

lemma letters_of_append: "letters_of col (xs @ acc) = letters_of col xs @ acc"
proof (induction col xs arbitrary: acc rule: letters_of.induct)
  case (1 col xs)
  show ?case
  proof (cases "col \<le> 0")
    case True
    then show ?thesis by (simp only: letters_of.simps [of col] if_True)
  next
    case False
    from 1 [OF this] have "letters_of ((col - 1) div 26) (char_of (65 + nat ((col - 1) mod 26)) # (xs @ acc)) =
        letters_of ((col - 1) div 26) (char_of (65 + nat ((col - 1) mod 26)) # xs) @ acc" by (simp only: append_Cons)
    with False show ?thesis by (simp only: letters_of.simps [of col] if_False)
  qed
qed

lemma letters_of_step:
  "0 < col \<Longrightarrow> letters_of col [] = letters_of ((col - 1) div 26) [] @ [char_of (65 + nat ((col - 1) mod 26))]"
proof -
  assume "0 < col"
  let ?c = "char_of (65 + nat ((col - 1) mod 26))"
  have "letters_of col [] = letters_of ((col - 1) div 26) [?c]"
    by (subst letters_of.simps) (rule if_not_P, use \<open>0 < col\<close> in simp)
  also have "\<dots> = letters_of ((col - 1) div 26) [] @ [?c]"
    using letters_of_append [of "(col - 1) div 26" "[]" "[?c]"] by (simp only: append_Nil)
  finally show ?thesis .
qed

lemma letter_char:
  assumes "0 \<le> m" and "m < 26"
  shows "is_ascii_letter (char_of (65 + nat m))" "ascii_upper (char_of (65 + nat m)) = char_of (65 + nat m)"
    "of_char (char_of (65 + nat m) :: char) = 65 + nat m"
  using assms by (auto simp: is_ascii_letter_def is_ascii_upper_def ascii_upper_def)

lemma letters_of_facts:
  assumes "0 < col"
  shows "letters_number (letters_of col []) = col \<and> list_all is_ascii_letter (letters_of col []) \<and> letters_of col [] \<noteq> []"
  using assms
proof (induction "nat col" arbitrary: col rule: less_induct)
  case less
  let ?q = "(col - 1) div 26" and ?m = "(col - 1) mod 26"
  have m: "0 \<le> ?m" "?m < 26" by simp_all
  have qm: "?q * 26 + ?m = col - 1" by simp
  show ?case
  proof (cases "0 < ?q")
    case True
    have "nat ?q < nat col" using less.prems by auto
    from less.hyps [OF this True] show ?thesis
      using letters_of_step [OF less.prems] letter_char [OF m] m qm by simp
  next
    case False
    then have "?q = 0" using less.prems by simp
    then show ?thesis
      using letters_of_step [OF less.prems] letter_char [OF m] m qm
      by (simp add: letters_of.simps [of 0] letters_number_def)
  qed
qed

lemma takeWhile_dropWhile_runs:
  assumes "list_all p xs" and "ys \<noteq> [] \<Longrightarrow> \<not> p (hd ys)"
  shows "takeWhile p (xs @ ys) = xs" "dropWhile p (xs @ ys) = ys"
  using assms by (induction xs) (cases ys; simp)+

lemma letter_not_digit: "is_digit c \<Longrightarrow> \<not> is_ascii_letter c"
  by (auto simp: is_digit_def is_ascii_letter_def is_ascii_upper_def)

lemma letter_not_space: "is_ascii_letter c \<Longrightarrow> \<not> py_space c"
  by (auto simp: py_space_def is_ascii_letter_def is_ascii_upper_def)

text \<open>Letters then digits are read back, whatever blanks surround them.\<close>

lemma parse_address_parts:
  assumes "list_all is_ascii_letter l" and "l \<noteq> []" and "all_digits d" and "list_all py_space a" and "list_all py_space b"
  shows "parse_cell_address (a @ l @ d @ b) =
    (if int (digits_value d) < 1 \<or> letters_number l < 1 then None else Some (int (digits_value d), letters_number l))"
proof -
  have hd_l: "\<not> py_space (hd (l @ d @ b))" using assms(1,2) by (cases l) (simp_all add: letter_not_space)
  have 1: "dropWhile py_space (a @ l @ d @ b) = l @ d @ b"
    using takeWhile_dropWhile_runs(2) [OF assms(4), of "l @ d @ b"] hd_l by simp
  have hd_d: "\<not> is_ascii_letter (hd (d @ b))" using assms(3) by (cases d) (simp_all add: all_digits_def letter_not_digit)
  have 2: "takeWhile is_ascii_letter (l @ d @ b) = l" "dropWhile is_ascii_letter (l @ d @ b) = d @ b"
    using takeWhile_dropWhile_runs [OF assms(1), of "d @ b"] hd_d by simp_all
  have hd_b: "b \<noteq> [] \<Longrightarrow> \<not> is_digit (hd b)" using assms(5) by (cases b) (auto dest: not_space_digit)
  have 3: "takeWhile is_digit (d @ b) = d" "dropWhile is_digit (d @ b) = b"
    using takeWhile_dropWhile_runs [of is_digit d b] hd_b assms(3) by (simp_all add: all_digits_def)
  show ?thesis using assms(2,3,5) by (simp add: parse_cell_address_def 1 2 3 all_digits_def)
qed

text \<open>
  C12. \<open>cell_address\<close> and \<open>parse_cell_address\<close> are inverse on every cell of a table: the address
  written for row and column (both from 1, with no upper bound) is read back as that row and
  column, also with blanks around it, and \<open>cell_address\<close> fails only for a column below 1.
\<close>

theorem cell_address_roundtrip:
  assumes "1 \<le> row" and "1 \<le> col" and "list_all py_space a" and "list_all py_space b"
  shows "\<exists>s. cell_address row col = Inr s \<and> parse_cell_address (a @ s @ b) = Some (row, col)"
proof -
  have l: "letters_number (letters_of col []) = col" "list_all is_ascii_letter (letters_of col [])"
    "letters_of col [] \<noteq> []" using letters_of_facts [of col] assms(2) by simp_all
  have s: "cell_address row col = Inr (letters_of col [] @ nat_digits (nat row))"
    using assms(1,2) by (simp add: cell_address_def column_letters_def str_int_def)
  show ?thesis
    using parse_address_parts [OF l(2,3) nat_digits_digits assms(3,4), of "nat row"] l(1) s assms(1,2) by simp
qed

theorem cell_address_roundtrip_witness: "\<exists>s. cell_address 12 28 = Inr s \<and> parse_cell_address ('' '' @ s @ []) = Some (12, 28)"
  by (rule cell_address_roundtrip) (simp_all add: py_space_def)


section \<open>Comparing cell by cell\<close>

lemma by_key_Some: "by_key key xs k = Some x \<Longrightarrow> x \<in> set xs \<and> key x = k"
  by (auto simp: by_key_def dest: find_key_Some)

lemma by_key_None: "by_key key xs k = None \<longleftrightarrow> (\<forall>x \<in> set xs. key x \<noteq> k)"
  by (auto simp: by_key_def find_None_iff)

lemma by_key_mem:
  assumes "distinct (map key xs)" and "x \<in> set xs"
  shows "by_key key xs (key x) = Some x"
  using find_key_mem [of key "rev xs" x] assms by (simp add: by_key_def rev_map [symmetric])

lemma by_key_sort:
  assumes "distinct (map key xs)"
  shows "by_key key (sort_key f xs) k = by_key key xs k"
proof -
  have d: "distinct (map key (sort_key f xs))"
    using assms by (simp add: distinct_map)
  show ?thesis
  proof (cases "by_key key xs k")
    case None
    then have "by_key key (sort_key f xs) k = None" by (simp add: by_key_None)
    with None show ?thesis by simp
  next
    case (Some x)
    then show ?thesis using by_key_Some [OF Some] by_key_mem [OF d, of x] by auto
  qed
qed

text \<open>One observed cell is the wanted one.\<close>

definition cell_match :: "tcell \<Rightarrow> want \<Rightarrow> bool" where
  "cell_match x w \<longleftrightarrow> cell_key x = want_key w \<and> c_row_span x = w_row_span w \<and> c_col_span x = w_col_span w
    \<and> (case w_expect w of Same f \<Rightarrow> c_fingerprint x = f | Empty \<Rightarrow> is_empty_cell x | Derived \<Rightarrow> True)"

lemma cell_reasons_Nil:
  "cell_reasons k got want = [] \<longleftrightarrow> (case (got, want) of
     (Some x, Some w) \<Rightarrow> c_row_span x = w_row_span w \<and> c_col_span x = w_col_span w
       \<and> (case w_expect w of Same f \<Rightarrow> c_fingerprint x = f | Empty \<Rightarrow> is_empty_cell x | Derived \<Rightarrow> True)
   | _ \<Rightarrow> False)"
  by (auto simp: cell_reasons_def split: option.splits expect.splits)

lemma keys_reasons_Nil:
  "keys_reasons cs ws ks = Inr [] \<longleftrightarrow>
    (\<forall>k \<in> set ks. 1 \<le> snd k \<and> cell_reasons k (by_key cell_key cs k) (by_key want_key ws k) = [])"
  by (induction ks) (auto simp: cell_address_def column_letters_def split: sum.splits)

definition grids_agree :: "tcell list \<Rightarrow> want list \<Rightarrow> bool" where
  "grids_agree cs ws \<longleftrightarrow> (\<forall>x \<in> set cs. 1 \<le> c_col x \<and> (\<exists>w \<in> set ws. cell_match x w)) \<and> (\<forall>w \<in> set ws. \<exists>x \<in> set cs. cell_match x w)"

lemma keys_reasons_agree:
  assumes "distinct (map cell_key cs)" and "distinct (map want_key ws)"
  shows "keys_reasons cs ws (all_keys cs ws) = Inr [] \<longleftrightarrow> grids_agree cs ws"
proof
  assume *: "keys_reasons cs ws (all_keys cs ws) = Inr []"
  have k: "1 \<le> snd k \<and> (\<exists>x w. by_key cell_key cs k = Some x \<and> by_key want_key ws k = Some w \<and> cell_match x w)"
    if "k \<in> cell_key ` set cs \<union> want_key ` set ws" for k
  proof -
    from * that have k: "1 \<le> snd k" "cell_reasons k (by_key cell_key cs k) (by_key want_key ws k) = []"
      by (auto simp: keys_reasons_Nil all_keys_def)
    from k(2) obtain x w where "by_key cell_key cs k = Some x" "by_key want_key ws k = Some w"
      by (auto simp: cell_reasons_Nil split: option.splits)
    with k by_key_Some [of cell_key cs k x] by_key_Some [of want_key ws k w] show ?thesis
      by (simp add: cell_reasons_Nil cell_match_def)
  qed
  show "grids_agree cs ws"
    unfolding grids_agree_def
  proof (intro conjI ballI)
    fix x assume x: "x \<in> set cs"
    with k [of "cell_key x"] show "1 \<le> c_col x" by (auto simp: cell_key_def)
    from k [of "cell_key x"] x by_key_mem [OF assms(1) x] show "\<exists>w \<in> set ws. cell_match x w"
      by (auto dest: by_key_Some)
  next
    fix w assume w: "w \<in> set ws"
    from k [of "want_key w"] w by_key_mem [OF assms(2) w] show "\<exists>x \<in> set cs. cell_match x w"
      by (auto dest: by_key_Some)
  qed
next
  assume a: "grids_agree cs ws"
  have "1 \<le> snd k \<and> cell_reasons k (by_key cell_key cs k) (by_key want_key ws k) = []"
    if "k \<in> cell_key ` set cs \<union> want_key ` set ws" for k
  proof -
    from that a obtain x w where xw: "x \<in> set cs" "w \<in> set ws" "cell_match x w" "cell_key x = k" "want_key w = k"
      by (auto simp: grids_agree_def) (metis cell_match_def)+
    from a xw(1) have "1 \<le> c_col x" by (simp add: grids_agree_def)
    with xw(4) have "1 \<le> snd k" by (auto simp: cell_key_def)
    with xw by_key_mem [OF assms(1) xw(1)] by_key_mem [OF assms(2) xw(2)] show ?thesis
      by (auto simp: cell_reasons_Nil cell_match_def)
  qed
  then show "keys_reasons cs ws (all_keys cs ws) = Inr []"
    by (simp add: keys_reasons_Nil all_keys_def)
qed

definition accepts :: "table_plan \<Rightarrow> grid \<Rightarrow> grid \<Rightarrow> bool" where
  "accepts p before after = (case evaluate_change p before after of Inl _ \<Rightarrow> False | Inr v \<Rightarrow> v_ok v)"

lemma accepts_iff:
  assumes "expected_layout p before = Inr y"
  shows "accepts p before after \<longleftrightarrow> dimension_reasons y after = [] \<and> content_reasons p y after = Inr []"
  using assms by (cases "content_reasons p y after") (simp_all add: accepts_def evaluate_change_def Let_def)

lemma content_line:
  assumes "g_cells after = Some cs'" and "y_merge_sources y = None" and "y_split_source y = None"
  shows "content_reasons p y after = Inr [] \<longleftrightarrow> keys_reasons cs' (y_cells y) (all_keys cs' (y_cells y)) = Inr []"
  using assms by (cases "keys_reasons cs' (y_cells y) (all_keys cs' (y_cells y))")
    (simp_all add: content_reasons_def group_reasons_def)

definition line_wants :: "line_action \<Rightarrow> int \<Rightarrow> int \<Rightarrow> grid \<Rightarrow> tcell list \<Rightarrow> want list" where
  "line_wants a index n g cs = (if is_delete a then delete_wants (on_rows_of a) index n cs
     else insert_wants (on_rows_of a) (boundary_of a index) n (total_lines g (\<not> on_rows_of a)) cs)"

lemma accepts_line:
  assumes "g_cells before = Some cs" and "g_cells after = Some cs'"
    and "index = (if on_rows_of a then row else col)"
    and "distinct (map cell_key cs')" and "distinct (map want_key (line_wants a index n before cs))"
  shows "accepts (LinePlan a row col n) before after \<longleftrightarrow>
    total_lines after (on_rows_of a) = total_lines before (on_rows_of a) + (if is_delete a then - n else n)
    \<and> total_lines after (\<not> on_rows_of a) = total_lines before (\<not> on_rows_of a)
    \<and> grids_agree cs' (line_wants a index n before cs)"
proof -
  let ?ws = "line_wants a index n before cs"
  have d: "distinct (map want_key (sort_key want_key ?ws))" using assms(5) by (simp add: distinct_map)
  have agree: "grids_agree cs' (sort_key want_key ?ws) = grids_agree cs' ?ws" by (simp add: grids_agree_def)
  have "keys_reasons cs' (sort_key want_key ?ws) (all_keys cs' (sort_key want_key ?ws)) = Inr [] \<longleftrightarrow> grids_agree cs' ?ws"
    using keys_reasons_agree [OF assms(4) d] agree by simp
  moreover let ?d = "if is_delete a then - n else n"
  let ?y = "\<lparr>y_rows = g_rows before + (if on_rows_of a then ?d else 0), y_cols = g_cols before + (if on_rows_of a then 0 else ?d),
    y_cells = sort_key want_key ?ws, y_merge_sources = None, y_split_source = None\<rparr>"
  have "expected_layout (LinePlan a row col n) before = Inr ?y"
    using assms(1,3) by (simp add: expected_layout_def Let_def line_wants_def)
  moreover have "dimension_reasons ?y after = [] \<longleftrightarrow>
    total_lines after (on_rows_of a) = total_lines before (on_rows_of a) + ?d
    \<and> total_lines after (\<not> on_rows_of a) = total_lines before (\<not> on_rows_of a)"
    by (auto simp: dimension_reasons_def total_lines_def)
  ultimately show ?thesis
    using accepts_iff [of "LinePlan a row col n" before ?y after] content_line [OF assms(2), of ?y] by simp
qed


section \<open>Editing lines\<close>

text \<open>
  The outcome of a row or column edit that took effect at line \<open>b\<close>: deleting the \<open>n\<close> lines from
  \<open>b\<close>, or putting \<open>n\<close> empty lines before line \<open>b\<close>, every other cell as it was.
\<close>

definition move_cell :: "bool \<Rightarrow> (int \<Rightarrow> int) \<Rightarrow> tcell \<Rightarrow> tcell" where
  "move_cell on_rows f c = (if on_rows then c\<lparr>c_row := f (c_row c)\<rparr> else c\<lparr>c_col := f (c_col c)\<rparr>)"

definition blank_cell :: "string \<Rightarrow> int \<times> int \<Rightarrow> tcell" where
  "blank_cell fp rc = \<lparr>c_row = fst rc, c_col = snd rc, c_row_span = 1, c_col_span = 1, c_text = [], c_controls = [], c_fingerprint = fp\<rparr>"

definition closed_up :: "int \<Rightarrow> int \<Rightarrow> int \<Rightarrow> int" where
  "closed_up b n v = (if v \<ge> b + n then v - n else v)"

definition outcome_cells :: "line_action \<Rightarrow> int \<Rightarrow> int \<Rightarrow> string \<Rightarrow> int \<Rightarrow> tcell list \<Rightarrow> tcell list" where
  "outcome_cells a b n fp extent cs =
    (if is_delete a
     then map (move_cell (on_rows_of a) (closed_up b n))
       (filter (\<lambda>c. \<not> (b \<le> line_of (on_rows_of a) c \<and> line_of (on_rows_of a) c < b + n)) cs)
     else map (move_cell (on_rows_of a) (\<lambda>v. shift v b n)) cs
       @ concat (map (\<lambda>i. map (\<lambda>other. blank_cell fp (spot (on_rows_of a) (b + i) other)) [1..extent]) [0..n - 1]))"

definition line_outcome :: "line_action \<Rightarrow> int \<Rightarrow> int \<Rightarrow> string \<Rightarrow> grid \<Rightarrow> grid" where
  "line_outcome a b n fp g =
    (let d = (if is_delete a then - n else n) in
     \<lparr>g_rows = g_rows g + (if on_rows_of a then d else 0), g_cols = g_cols g + (if on_rows_of a then 0 else d),
      g_cells = map_option (outcome_cells a b n fp (total_lines g (\<not> on_rows_of a))) (g_cells g)\<rparr>)"

definition target_line :: "line_action \<Rightarrow> int \<Rightarrow> int" where
  "target_line a index = (if is_delete a then index else boundary_of a index)"

lemma key_spot: "cell_key c = spot r (line_of r c) (line_of (\<not> r) c)"
  by (simp add: cell_key_def spot_def line_of_def)

lemma spot_eq [simp]: "spot r l o' = spot r l' p \<longleftrightarrow> l = l' \<and> o' = p"
  by (auto simp: spot_def)

lemma line_spot: "(fst (spot r l p), snd (spot r l p)) = spot r l p"
  by simp

lemma move_cell_simps [simp]:
  "cell_key (move_cell r f c) = spot r (f (line_of r c)) (line_of (\<not> r) c)"
  "c_row_span (move_cell r f c) = c_row_span c" "c_col_span (move_cell r f c) = c_col_span c"
  "c_text (move_cell r f c) = c_text c" "c_controls (move_cell r f c) = c_controls c"
  "c_fingerprint (move_cell r f c) = c_fingerprint c" "is_empty_cell (move_cell r f c) = is_empty_cell c"
  by (simp_all add: move_cell_def cell_key_def spot_def line_of_def is_empty_cell_def)

lemma map_line_simps [simp]:
  "want_key (map_line r f (keep c)) = spot r (f (line_of r c)) (line_of (\<not> r) c)"
  "w_row_span (map_line r f (keep c)) = c_row_span c" "w_col_span (map_line r f (keep c)) = c_col_span c"
  "w_expect (map_line r f (keep c)) = Same (c_fingerprint c)"
  by (simp_all add: map_line_def keep_def want_key_def spot_def line_of_def)

lemma new_simps [simp]:
  "cell_key (blank_cell fp rc) = rc" "c_row_span (blank_cell fp rc) = 1" "c_col_span (blank_cell fp rc) = 1"
  "is_empty_cell (blank_cell fp rc)"
  "want_key (new_want rc e) = rc" "w_row_span (new_want rc e) = 1" "w_col_span (new_want rc e) = 1"
  "w_expect (new_want rc e) = e"
  by (simp_all add: blank_cell_def new_want_def cell_key_def want_key_def is_empty_cell_def)

lemma new_line_keys:
  "concat (map (\<lambda>i. map (\<lambda>other. spot r (b + i) other) [1..extent]) [0..n - 1]) =
    map (\<lambda>(i, other). spot r (b + i) other) (List.product [0..n - 1] [1..extent])"
  by (simp add: product_concat_map map_concat comp_def)

lemma keys_distinct:
  assumes "distinct (map cell_key cs)" and "0 \<le> n"
  shows "distinct (map cell_key (outcome_cells a b n fp extent cs))"
proof -
  let ?r = "on_rows_of a"
  have spots: "map cell_key cs = map (\<lambda>c. spot ?r (line_of ?r c) (line_of (\<not> ?r) c)) cs"
    by (simp add: key_spot [of _ ?r])
  have inj: "c = d" if "c \<in> set cs" "d \<in> set cs" "line_of ?r c = line_of ?r d" "line_of (\<not> ?r) c = line_of (\<not> ?r) d" for c d
    using assms(1) that by (auto simp: distinct_map inj_on_def key_spot [of _ ?r])
  have dc: "distinct cs" using assms(1) by (simp add: distinct_map)
  show ?thesis
  proof (cases "is_delete a")
    case True
    then show ?thesis using dc
      by (auto simp: outcome_cells_def distinct_map inj_on_def closed_up_def intro!: inj split: if_splits)
  next
    case False
    have "distinct (map (\<lambda>c. spot ?r (shift (line_of ?r c) b n) (line_of (\<not> ?r) c)) cs)"
      using dc assms(2) by (auto simp: distinct_map inj_on_def shift_def intro!: inj split: if_splits)
    moreover have "distinct (map (\<lambda>(i, other). spot ?r (b + i) other) (List.product [0..n - 1] [1..extent]))"
      by (auto simp: distinct_map distinct_product inj_on_def)
    moreover have "b + i \<noteq> shift v b n" if "0 \<le> i" "i < n" for v i
      using that by (simp add: shift_def)
    ultimately show ?thesis
      using False new_line_keys [of ?r b extent n]
      by (auto simp: outcome_cells_def map_concat comp_def)
  qed
qed


lemma delete_wants_closed:
  "delete_wants r t n cs = map (\<lambda>c. map_line r (closed_up t n) (keep c))
    (filter (\<lambda>c. \<not> (t \<le> line_of r c \<and> line_of r c < t + n)) cs)"
  by (simp add: delete_wants_def closed_up_def [abs_def])

lemma outcome_matches:
  "list_all2 cell_match (outcome_cells a (target_line a index) n fp (total_lines g (\<not> on_rows_of a)) cs) (line_wants a index n g cs)"
proof -
  have kept: "list_all2 cell_match (map (move_cell r f) xs) (map (\<lambda>c. map_line r f (keep c)) xs)" for r f xs
    by (simp add: list_all2_conv_all_nth cell_match_def)
  have new: "list_all2 cell_match (map (\<lambda>o'. blank_cell fp (spot r i o')) ys) (map (\<lambda>o'. new_want (spot r i o') Empty) ys)" for r i ys
    by (simp add: list_all2_conv_all_nth cell_match_def)
  have news: "list_all2 cell_match (concat (map (\<lambda>i. map (\<lambda>o'. blank_cell fp (spot r (b + i) o')) ys) zs))
      (concat (map (\<lambda>i. map (\<lambda>o'. new_want (spot r (b + i) o') Empty) ys) zs))" for r b ys zs
    by (induction zs) (auto intro: list_all2_appendI new)
  show ?thesis
  proof (cases "is_delete a")
    case True
    then show ?thesis using kept [of "on_rows_of a" "closed_up index n"]
      by (simp add: outcome_cells_def line_wants_def target_line_def delete_wants_closed)
  next
    case False
    then show ?thesis
      by (auto simp: outcome_cells_def line_wants_def target_line_def insert_wants_def intro!: list_all2_appendI kept news)
  qed
qed

lemma matches_keys: "list_all2 cell_match xs ws \<Longrightarrow> map cell_key xs = map want_key ws"
  by (induction rule: list_all2_induct) (auto simp: cell_match_def)

lemma matches_agree: "list_all2 cell_match xs ws \<Longrightarrow> \<forall>x \<in> set xs. 1 \<le> c_col x \<Longrightarrow> grids_agree xs ws"
  by (induction rule: list_all2_induct) (auto simp: grids_agree_def)

text \<open>Two lines whose cells pair up by place and fingerprint have the same signature.\<close>

lemma signature_eqI:
  assumes "distinct (map cell_key cs)" and "g_cells g = Some cs"
    and "\<And>c. c \<in> set cs \<Longrightarrow> line_of r c = l \<Longrightarrow>
      \<exists>d \<in> set cs. line_of r d = l' \<and> line_of (\<not> r) d = line_of (\<not> r) c \<and> c_fingerprint d = c_fingerprint c"
    and "\<And>d. d \<in> set cs \<Longrightarrow> line_of r d = l' \<Longrightarrow>
      \<exists>c \<in> set cs. line_of r c = l \<and> line_of (\<not> r) c = line_of (\<not> r) d \<and> c_fingerprint c = c_fingerprint d"
  shows "line_signature g r l = line_signature g r l'"
proof -
  let ?o = "line_of (\<not> r)" and ?p = "\<lambda>c. (line_of (\<not> r) c, c_fingerprint c)"
  have sorted_pairs: "map ?p (line_cells g r k) = sorted_list_of_set (?p ` {c \<in> set cs. line_of r c = k})" for k
  proof -
    let ?xs = "sort_key ?o (filter (\<lambda>c. line_of r c = k) cs)"
    have keys: "map cell_key cs = map (\<lambda>c. spot r (line_of r c) (?o c)) cs" by (simp add: key_spot [of _ r])
    have "distinct cs" using assms(1) by (simp add: distinct_map)
    moreover have "inj_on ?o {c \<in> set cs. line_of r c = k}"
      using assms(1) by (auto simp: distinct_map inj_on_def key_spot [of _ r])
    ultimately have d: "distinct (map ?o ?xs)" by (simp add: distinct_map)
    have "sorted (map ?o ?xs)" by (rule sorted_sort_key)
    with d have "sorted_wrt (<) (map ?o ?xs)" by (simp add: strict_sorted_iff)
    then have "sorted_wrt (<) (map ?p ?xs)"
      by (simp add: sorted_wrt_map) (erule sorted_wrt_mono_rel [rotated], simp)
    moreover have "set (map ?p ?xs) = ?p ` {c \<in> set cs. line_of r c = k}" by auto
    ultimately have "sorted_list_of_set (?p ` {c \<in> set cs. line_of r c = k}) = map ?p ?xs"
      by (metis strict_sorted_equal strict_sorted_list_of_set set_sorted_list_of_set List.finite_set)
    then show ?thesis by (simp add: line_cells_def cells_or_empty_def assms(2))
  qed
  have "?p ` {c \<in> set cs. line_of r c = l} = ?p ` {c \<in> set cs. line_of r c = l'}"
  proof (intro equalityI subsetI)
    fix q assume "q \<in> ?p ` {c \<in> set cs. line_of r c = l}"
    then obtain c where "c \<in> set cs" "line_of r c = l" "q = ?p c" by blast
    then show "q \<in> ?p ` {c \<in> set cs. line_of r c = l'}" using assms(3) [of c] by (auto simp: image_iff)
  next
    fix q assume "q \<in> ?p ` {c \<in> set cs. line_of r c = l'}"
    then obtain c where "c \<in> set cs" "line_of r c = l'" "q = ?p c" by blast
    then show "q \<in> ?p ` {c \<in> set cs. line_of r c = l}" using assms(4) [of c] by (auto simp: image_iff)
  qed
  then have "map ?p (line_cells g r l) = map ?p (line_cells g r l')" by (simp add: sorted_pairs)
  then have "map snd (map ?p (line_cells g r l)) = map snd (map ?p (line_cells g r l'))" by (rule arg_cong)
  then show ?thesis by (simp add: line_signature_def comp_def)
qed

text \<open>
  A deletion at \<open>b\<close> that looks like one at \<open>t\<close> puts line \<open>lo\<close> where line \<open>lw\<close> belongs, so the two are alike.
\<close>

lemma delete_agree_signature:
  assumes "distinct (map cell_key cs)" and "g_cells g = Some cs"
    and "grids_agree (map (move_cell r (closed_up b n)) (filter (\<lambda>c. \<not> (b \<le> line_of r c \<and> line_of r c < b + n)) cs))
      (delete_wants r t n cs)"
    and w: "\<And>l. \<not> (t \<le> l \<and> l < t + n) \<and> closed_up t n l = p \<longleftrightarrow> l = lw"
    and o: "\<And>l. \<not> (b \<le> l \<and> l < b + n) \<and> closed_up b n l = p \<longleftrightarrow> l = lo"
  shows "line_signature g r lw = line_signature g r lo"
proof (rule signature_eqI [OF assms(1,2)])
  fix c assume c: "c \<in> set cs" "line_of r c = lw"
  have "map_line r (closed_up t n) (keep c) \<in> set (delete_wants r t n cs)"
    using c w [of lw] by (auto simp: delete_wants_closed)
  with assms(3) obtain x where x: "x \<in> set cs" "\<not> (b \<le> line_of r x \<and> line_of r x < b + n)"
    "cell_match (move_cell r (closed_up b n) x) (map_line r (closed_up t n) (keep c))"
    by (fastforce simp: grids_agree_def)
  with c w [of lw] o [of "line_of r x"] show "\<exists>d \<in> set cs. line_of r d = lo \<and> line_of (\<not> r) d = line_of (\<not> r) c \<and> c_fingerprint d = c_fingerprint c"
    by (intro bexI [of _ x]) (auto simp: cell_match_def)
next
  fix d assume d: "d \<in> set cs" "line_of r d = lo"
  have "move_cell r (closed_up b n) d \<in> set (map (move_cell r (closed_up b n)) (filter (\<lambda>c. \<not> (b \<le> line_of r c \<and> line_of r c < b + n)) cs))"
    using d o [of lo] by auto
  with assms(3) obtain w' where "w' \<in> set (delete_wants r t n cs)" "cell_match (move_cell r (closed_up b n) d) w'"
    unfolding grids_agree_def by blast
  then obtain c where c: "c \<in> set cs" "\<not> (t \<le> line_of r c \<and> line_of r c < t + n)"
    "cell_match (move_cell r (closed_up b n) d) (map_line r (closed_up t n) (keep c))"
    by (auto simp: delete_wants_closed)
  with d o [of lo] w [of "line_of r c"] show "\<exists>c \<in> set cs. line_of r c = lw \<and> line_of (\<not> r) c = line_of (\<not> r) d \<and> c_fingerprint c = c_fingerprint d"
    by (intro bexI [of _ c]) (auto simp: cell_match_def)
qed


section \<open>An accepted edit hit the planned lines\<close>

text \<open>Lines at which an edit of \<open>n\<close> lines can take effect.\<close>

definition possible_line :: "line_action \<Rightarrow> grid \<Rightarrow> int \<Rightarrow> int \<Rightarrow> bool" where
  "possible_line a g n b \<longleftrightarrow> 1 \<le> b
    \<and> (if is_delete a then b + n - 1 \<le> total_lines g (on_rows_of a) else b \<le> total_lines g (on_rows_of a) + 1)"

lemma wrong_delete:
  assumes "is_delete a" and "g_cells g = Some cs" and "distinct (map cell_key cs)" and "1 \<le> n" and "b \<noteq> t"
    and "possible_line a g n b" and "possible_line a g n t" and "indistinguishable g a t n = None"
  shows "\<not> grids_agree (outcome_cells a b n fp extent cs) (line_wants a t n g cs)"
proof
  let ?r = "on_rows_of a"
  assume "grids_agree (outcome_cells a b n fp extent cs) (line_wants a t n g cs)"
  with assms(1) have agree: "grids_agree (map (move_cell ?r (closed_up b n))
      (filter (\<lambda>c. \<not> (b \<le> line_of ?r c \<and> line_of ?r c < b + n)) cs)) (delete_wants ?r t n cs)"
    by (simp add: outcome_cells_def line_wants_def)
  from assms(1,8) have ne:
    "t + n \<le> total_lines g ?r \<Longrightarrow> 1 \<le> t + n \<Longrightarrow> line_signature g ?r t \<noteq> line_signature g ?r (t + n)"
    "1 \<le> t - 1 \<Longrightarrow> t - 1 \<le> total_lines g ?r \<Longrightarrow> line_signature g ?r (t + n - 1) \<noteq> line_signature g ?r (t - 1)"
    unfolding indistinguishable_def Let_def by (auto split: option.splits if_splits)
  show False
  proof (cases "t < b")
    case True
    have "line_signature g ?r (t + n) = line_signature g ?r t"
      by (rule delete_agree_signature [OF assms(3,2) agree, where p = t]) (use True assms(4) in \<open>auto simp: closed_up_def\<close>)
    with ne(1) True assms(1,4,6,7) show False by (simp add: possible_line_def)
  next
    case False
    have "line_signature g ?r (t - 1) = line_signature g ?r (t + n - 1)"
      by (rule delete_agree_signature [OF assms(3,2) agree, where p = "t - 1"])
         (use False assms(4,5) in \<open>auto simp: closed_up_def\<close>)
    with ne(2) False assms(1,4-7) show False by (simp add: possible_line_def)
  qed
qed

lemma wrong_insert:
  assumes "\<not> is_delete a" and "g_cells g = Some cs" and "1 \<le> n" and "b \<noteq> boundary_of a index"
    and "possible_line a g n b" and "possible_line a g n (boundary_of a index)" and "indistinguishable g a index n = None"
  shows "\<not> grids_agree (outcome_cells a b n fp extent cs) (line_wants a index n g cs)"
proof
  let ?r = "on_rows_of a" and ?t = "boundary_of a index"
  assume agree: "grids_agree (outcome_cells a b n fp extent cs) (line_wants a index n g cs)"
  let ?side = "if ?t < b then ?t else ?t - 1"
  have "1 \<le> ?side" "?side \<le> total_lines g ?r" using assms(1,4-6) by (auto simp: possible_line_def)
  with assms(1,7) have "\<not> line_is_empty g ?r ?side" by (auto simp: indistinguishable_def Let_def split: if_splits)
  then obtain x where x: "x \<in> set cs" "line_of ?r x = ?side" "\<not> is_empty_cell x"
    by (auto simp: line_is_empty_def line_cells_def cells_or_empty_def assms(2) list_all_iff)
  let ?m = "move_cell ?r (\<lambda>v. shift v b n) x"
  have "?m \<in> set (outcome_cells a b n fp extent cs)" using assms(1) x(1) by (simp add: outcome_cells_def)
  with agree obtain w where w: "w \<in> set (line_wants a index n g cs)" "cell_match ?m w"
    unfolding grids_agree_def by blast
  from w(1) assms(1) consider
      c where "c \<in> set cs" "w = map_line ?r (\<lambda>v. shift v ?t n) (keep c)"
    | i o' where "w = new_want (spot ?r (?t + i) o') Empty"
    by (auto simp: line_wants_def insert_wants_def)
  then show False
  proof cases
    case (1 c)
    with w(2) x(2) assms(3,4) show False by (auto simp: cell_match_def shift_def split: if_splits)
  next
    case 2
    with w(2) x(3) show False by (simp add: cell_match_def)
  qed
qed

lemma checked_line:
  assumes "check_plan st g = Inr (LinePlan a row col n)" and "index = (if on_rows_of a then row else col)"
  shows "indistinguishable g a index n = None" and "g_cells g \<noteq> None" and "possible_line a g n (target_line a index)"
proof -
  from assms(1) have c: "line_problem g a index n = None" "g_cells g \<noteq> None" "1 \<le> row" "row \<le> g_rows g" "1 \<le> col" "col \<le> g_cols g"
    using assms(2) by (auto simp: check_plan_def Let_def or_error_def split: if_splits table_action.splits option.splits)
  then show "indistinguishable g a index n = None" "g_cells g \<noteq> None" by (auto simp: line_problem_def Let_def split: if_splits)
  show "possible_line a g n (target_line a index)"
    using c assms(2) by (auto simp: possible_line_def target_line_def boundary_of_def line_problem_def Let_def total_lines_def split: if_splits)
qed



text \<open>A two by two table whose second row is deleted, at the right line and at the wrong one.\<close>

definition small_cell :: "int \<Rightarrow> int \<Rightarrow> string \<Rightarrow> tcell" where
  "small_cell r c t = \<lparr>c_row = r, c_col = c, c_row_span = 1, c_col_span = 1, c_text = t, c_controls = [], c_fingerprint = t\<rparr>"

definition small_cells :: "tcell list" where
  "small_cells = [small_cell 1 1 ''a'', small_cell 1 2 ''b'', small_cell 2 1 ''c'', small_cell 2 2 ''d'']"

definition small_grid :: grid where
  "small_grid = \<lparr>g_rows = 2, g_cols = 2, g_cells = Some small_cells\<rparr>"

definition small_step :: table_step where
  "small_step = \<lparr>ts_action = LineAction DeleteRow, ts_expected_rows = 2, ts_expected_cols = 2, ts_row = 2, ts_col = 1,
     ts_count = None, ts_end_row = 0, ts_end_col = 0, ts_split_rows = None, ts_split_cols = None\<rparr>"

lemma small_check: "check_plan small_step small_grid = Inr (LinePlan DeleteRow 2 1 1)"
proof -
  have lines: "line_cells small_grid True 2 = [small_cell 2 1 ''c'', small_cell 2 2 ''d'']"
    "line_cells small_grid True 1 = [small_cell 1 1 ''a'', small_cell 1 2 ''b'']"
    by (simp_all add: line_cells_def cells_or_empty_def small_grid_def small_cells_def small_cell_def line_of_def)
  have un: "unmerged_problem small_grid True [2] = None"
    by (simp add: unmerged_problem_def spot_def total_lines_def small_grid_def covering_cell_def cells_or_empty_def
        small_cells_def small_cell_def covers_def upto.simps)
  have co: "control_problem small_grid True [2] = None" by (simp add: control_problem_def lines small_cell_def)
  have ind: "indistinguishable small_grid DeleteRow 2 1 = None"
  proof -
    have "line_signature small_grid True 2 = [''c'', ''d'']" "line_signature small_grid True 1 = [''a'', ''b'']"
      by (simp_all add: line_signature_def lines small_cell_def)
    moreover have "total_lines small_grid True = 2" by (simp add: total_lines_def small_grid_def)
    ultimately show ?thesis by (simp add: indistinguishable_def Let_def on_rows_of_def is_delete_def)
  qed
  have "line_problem small_grid DeleteRow 2 1 = None"
    by (simp add: line_problem_def Let_def on_rows_of_def is_delete_def un co ind)
       (simp add: total_lines_def small_grid_def)
  then show ?thesis by (simp add: check_plan_def Let_def small_step_def or_error_def one_if_falsy_def on_rows_of_def)
     (simp add: small_grid_def)
qed


end
