(* ===== verification/NativeTable.thy ===== *)
theory NativeTable
  imports PyText Complex_Main
begin

text \<open>
  Tables as the native commands see them, app/native_table.py: where a table lies on its page
  (\<open>table_layout\<close>), the binding of a request to a table, what a structure edit must produce
  (\<open>plan_edit\<close>) and what is wrong with the table observed afterwards (\<open>edit_problems\<close>). A cell's
  address is its row and column (\<open>cell_address\<close> of \<open>TableStructure\<close> is one to one); digests, fonts and
  border definitions are the texts the code compares. The values in millimetres, the report of
  changes and the texts of refusals are left out: a refusal is its code. Cut positions of a split
  are fractions; the code's floats agree with them because an integral quotient is exact and any
  other is at least a twentieth away from the integers it is compared with.
\<close>

section \<open>The model\<close>

datatype side = LeftSide | RightSide | TopSide | BottomSide

record nline =
  nl_line :: string
  nl_width :: "rat option"
  nl_color :: string

record borders =
  b_left :: nline
  b_right :: nline
  b_top :: nline
  b_bottom :: nline

datatype nfill = NoFill | SolidFill string | OtherFill string

record margins =
  m_left :: int
  m_right :: int

record ncell =
  n_row :: int
  n_col :: int
  n_row_span :: int
  n_col_span :: int
  n_width :: int
  n_border :: borders
  n_fill :: nfill
  n_rest :: string
  n_attrs :: string
  n_content :: string
  n_text :: string
  n_objects :: "string list"
  n_all_objects :: "string list"
  n_tables :: "string list"
  n_paragraphs :: "string list"
  n_blank :: bool
  n_has_margin :: bool
  n_margin :: "margins option"

record geometry =
  ge_width :: int
  ge_height :: int
  ge_landscape :: int
  ge_left :: int
  ge_right :: int
  ge_gutter :: int
  ge_columns :: "int list"

record holder =
  h_align :: string
  h_left :: int
  h_indent :: int
  h_leading :: bool

record ntable =
  t_id :: string
  t_inst :: string
  t_rows :: int
  t_cols :: int
  t_cells :: "ncell list"
  t_frame :: string
  t_state :: string
  t_expected_hash :: string
  t_nested_in :: "string option"
  t_nested_cell :: "(int \<times> int) option"
  t_size_width :: "int option"
  t_width_rel :: string
  t_cell_spacing :: int
  t_treat_as_char :: bool
  t_inside_margin :: "margins option"
  t_outside_margin :: "margins option"
  t_geometry :: "geometry option"
  t_holder :: "holder option"

definition n_key :: "ncell \<Rightarrow> int \<times> int" where
  "n_key c = (n_row c, n_col c)"

definition border_at :: "side \<Rightarrow> borders \<Rightarrow> nline" where
  "border_at s b = (case s of LeftSide \<Rightarrow> b_left b | RightSide \<Rightarrow> b_right b | TopSide \<Rightarrow> b_top b | BottomSide \<Rightarrow> b_bottom b)"

definition opposite :: "side \<Rightarrow> side" where
  "opposite s = (case s of LeftSide \<Rightarrow> RightSide | RightSide \<Rightarrow> LeftSide | TopSide \<Rightarrow> BottomSide | BottomSide \<Rightarrow> TopSide)"

definition sides :: "side list" where
  "sides = [LeftSide, RightSide, TopSide, BottomSide]"

text \<open>A refused request (its code), or an error the code does not handle.\<close>

datatype table_failure = Refused string | Crashed

section \<open>Finding cells\<close>

definition n_covers :: "ncell \<Rightarrow> int \<Rightarrow> int \<Rightarrow> bool" where
  "n_covers c row col \<longleftrightarrow> n_row c \<le> row \<and> row < n_row c + n_row_span c \<and> n_col c \<le> col \<and> col < n_col c + n_col_span c"

definition covering :: "ntable \<Rightarrow> int \<Rightarrow> int \<Rightarrow> ncell option" where
  "covering t row col = find (\<lambda>c. n_covers c row col) (t_cells t)"

definition named :: "ntable \<Rightarrow> int \<Rightarrow> int \<Rightarrow> ncell option" where
  "named t row col = find (\<lambda>c. n_row c = row \<and> n_col c = col) (t_cells t)"

record model =
  md_tables :: "ntable list"
  md_margin_tables :: "ntable list"
  md_duplicates :: "string list"

definition resolve_table :: "model \<Rightarrow> string \<Rightarrow> table_failure + ntable" where
  "resolve_table m tid =
    (case find (\<lambda>t. t_id t = tid) (md_tables m) of
       None \<Rightarrow> if \<exists>t \<in> set (md_margin_tables m). t_id t = tid then Inl (Refused ''target_in_header_footer'')
               else Inl (Refused ''table_not_found'')
     | Some t \<Rightarrow> if t_inst t \<in> set (md_duplicates m) then Inl (Refused ''table_identity_ambiguous'') else Inr t)"

record binding =
  bd_rows :: int
  bd_cols :: int
  bd_hash :: string
  bd_page :: int

definition require_binding :: "ntable \<Rightarrow> binding \<Rightarrow> int option \<Rightarrow> table_failure option" where
  "require_binding t b page =
    (if (t_rows t, t_cols t) \<noteq> (bd_rows b, bd_cols b) then Some (Refused ''table_grid_mismatch'')
     else if t_expected_hash t \<noteq> bd_hash b then Some (Refused ''table_state_stale'')
     else if page \<noteq> Some (bd_page b) then Some (Refused ''target_wrong_page'')
     else None)"

record rect =
  r_top :: int
  r_bottom :: int
  r_left :: int
  r_right :: int
  r_cells :: "ncell list"

definition in_table :: "ntable \<Rightarrow> int \<times> int \<Rightarrow> bool" where
  "in_table t p \<longleftrightarrow> 1 \<le> fst p \<and> fst p \<le> t_rows t \<and> 1 \<le> snd p \<and> snd p \<le> t_cols t"

definition touches :: "int \<Rightarrow> int \<Rightarrow> int \<Rightarrow> int \<Rightarrow> ncell \<Rightarrow> bool" where
  "touches up down lf rt c \<longleftrightarrow> n_row c \<le> down \<and> up \<le> n_row c + n_row_span c - 1
    \<and> n_col c \<le> rt \<and> lf \<le> n_col c + n_col_span c - 1"

definition crosses :: "int \<Rightarrow> int \<Rightarrow> int \<Rightarrow> int \<Rightarrow> ncell \<Rightarrow> bool" where
  "crosses up down lf rt c \<longleftrightarrow> n_row c < up \<or> down < n_row c + n_row_span c - 1
    \<or> n_col c < lf \<or> rt < n_col c + n_col_span c - 1"

definition rect_of :: "ntable \<Rightarrow> int \<times> int \<Rightarrow> int \<times> int \<Rightarrow> table_failure + rect" where
  "rect_of t a b =
    (if \<not> (in_table t a \<and> in_table t b) then Inl (Refused ''cell_out_of_range'')
     else
       let up = min (fst a) (fst b); down = max (fst a) (fst b);
           lf = min (snd a) (snd b); rt = max (snd a) (snd b);
           touched = filter (touches up down lf rt) (t_cells t)
       in if \<exists>c \<in> set touched. crosses up down lf rt c then Inl (Refused ''range_cuts_merged_cell'')
          else if touched = [] \<or> covering t up lf = None \<or> named t up lf = None
          then Inl (Refused ''cell_out_of_range'')
          else Inr \<lparr>r_top = up, r_bottom = down, r_left = lf, r_right = rt, r_cells = touched\<rparr>)"

definition whole_cell :: "ntable \<Rightarrow> int \<times> int \<Rightarrow> table_failure + ncell" where
  "whole_cell t p =
    (if \<not> in_table t p then Inl (Refused ''cell_out_of_range'')
     else case named t (fst p) (snd p) of
       None \<Rightarrow> Inl (Refused ''cell_covered_by_merge'') | Some c \<Rightarrow> Inr c)"

section \<open>Column edges\<close>

definition spanned_cols :: "ncell \<Rightarrow> int list" where
  "spanned_cols c = [n_col c..n_col c + n_col_span c - 1]"

text \<open>One pass over the cells, the plainest first; a round that found nothing is the last.\<close>

definition learn_width :: "ncell \<Rightarrow> (int \<rightharpoonup> int) \<Rightarrow> (int \<rightharpoonup> int) \<times> bool" where
  "learn_width c widths =
    (case filter (\<lambda>k. widths k = None) (spanned_cols c) of
       [k] \<Rightarrow> (widths(k \<mapsto> n_width c - sum_list (map (\<lambda>k. case widths k of None \<Rightarrow> 0 | Some w \<Rightarrow> w) (spanned_cols c))), True)
     | _ \<Rightarrow> (widths, False))"

fun learn_round :: "ncell list \<Rightarrow> (int \<rightharpoonup> int) \<Rightarrow> bool \<Rightarrow> (int \<rightharpoonup> int) \<times> bool" where
  "learn_round [] widths moved = (widths, moved)"
| "learn_round (c # cs) widths moved =
    (case learn_width c widths of (w, m) \<Rightarrow> learn_round cs w (moved \<or> m))"

fun learn_rounds :: "nat \<Rightarrow> ncell list \<Rightarrow> (int \<rightharpoonup> int) \<Rightarrow> int \<rightharpoonup> int" where
  "learn_rounds 0 cs widths = widths"
| "learn_rounds (Suc n) cs widths =
    (case learn_round cs widths False of (w, moved) \<Rightarrow> if moved then learn_rounds n cs w else w)"

fun edges_from :: "int \<Rightarrow> int list \<Rightarrow> int list" where
  "edges_from x [] = [x]"
| "edges_from x (w # ws) = x # edges_from (x + w) ws"

text \<open>
  \<open>len(widths) != cols\<close>: the keys are the columns some cell spans. Columns that are known without
  being those of the table (cells outside it, a \<open>KeyError\<close> in the code) count as unknown.
\<close>

definition column_edges :: "ntable \<Rightarrow> int list option" where
  "column_edges t =
    (let widths = learn_rounds (nat (t_cols t) + 1) (sort_key n_col_span (t_cells t)) Map.empty;
         keys = filter (\<lambda>k. widths k \<noteq> None) (remdups (concat (map spanned_cols (t_cells t))));
         ws = map (\<lambda>k. the (widths k)) [1..t_cols t]
     in if int (length keys) \<noteq> t_cols t \<or> (\<exists>k \<in> set keys. the (widths k) \<le> 0) then None
        else if \<exists>k \<in> set [1..t_cols t]. widths k = None then None
        else Some (edges_from 0 ws))"

definition edge_at :: "int list \<Rightarrow> int \<Rightarrow> int" where
  "edge_at edges i = edges ! nat i"


section \<open>Where a table lies\<close>

record atom =
  at_control :: "string option"
  at_char :: "string option"

definition joining_controls :: "string list" where
  "joining_controls = [''secdef'', ''coldef'', ''header'', ''footer'', ''pagenum'', ''newnum'', ''bookmark'', ''pagehiding'',
    ''hiddencomment'', ''indexmark'']"

text \<open>Whether something precedes, in the paragraph, the table that is its \<open>position\<close>-th.\<close>

fun leads :: "nat \<Rightarrow> nat \<Rightarrow> bool \<Rightarrow> atom list \<Rightarrow> bool" where
  "leads position seen leading [] = leading"
| "leads position seen leading (a # as) =
    (if at_control a = Some ''table'' then
       (if seen = position then leading else leads position (Suc seen) True as)
     else if at_char a \<noteq> None \<or> (case at_control a of None \<Rightarrow> False | Some c \<Rightarrow> c \<notin> set joining_controls)
     then leads position seen True as else leads position seen leading as)"

definition holder_facts :: "string \<Rightarrow> int \<Rightarrow> int \<Rightarrow> atom list \<Rightarrow> nat \<Rightarrow> holder" where
  "holder_facts align lf indent atoms position =
    \<lparr>h_align = align, h_left = lf, h_indent = indent, h_leading = leads position 0 False atoms\<rparr>"

datatype placement =
    Unverified string
  | InCell bool int int int
  | OnPage string int int int int int int int

text \<open>\<open>InCell\<close>: wider than its room, width, room, overflow; \<open>OnPage\<close>: status, width, text width, left and right edge, page width, overflow, available width.\<close>

definition size_agrees :: "ntable \<Rightarrow> int \<Rightarrow> bool" where
  "size_agrees t width =
    (case column_edges t of
       None \<Rightarrow> False
     | Some edges \<Rightarrow> \<bar>last edges - width\<bar> \<le> 2
         \<and> list_all (\<lambda>c. n_col_span c = 1 \<longrightarrow>
             \<bar>n_width c - (edge_at edges (n_col c) - edge_at edges (n_col c - 1))\<bar> \<le> 2) (t_cells t))"

definition nested_layout :: "ntable \<Rightarrow> int \<Rightarrow> ntable option \<Rightarrow> placement" where
  "nested_layout t width parent =
    (case parent of
       None \<Rightarrow> Unverified ''parent_unknown''
     | Some p \<Rightarrow>
       (case (find (\<lambda>c. Some (n_key c) = t_nested_cell t) (t_cells p), column_edges p) of
          (Some c, Some edges) \<Rightarrow>
            (case (if n_has_margin c then n_margin c else t_inside_margin p) of
               None \<Rightarrow> Unverified ''parent_unknown''
             | Some m \<Rightarrow>
                 let room = edge_at edges (n_col c - 1 + n_col_span c) - edge_at edges (n_col c - 1) - m_left m - m_right m
                 in InCell (width > room) width room (max 0 (width - room)))
        | _ \<Rightarrow> Unverified ''parent_unknown''))"

definition page_layout :: "ntable \<Rightarrow> int \<Rightarrow> placement" where
  "page_layout t width =
    (case t_holder t of
       None \<Rightarrow> Unverified ''inside_object''
     | Some h \<Rightarrow>
       (case t_geometry t of
          None \<Rightarrow> Unverified ''page_unknown''
        | Some g \<Rightarrow>
          if ge_landscape g \<notin> {0, 1} \<or> ge_width g < 0 \<or> ge_height g < 0 \<or> ge_left g < 0 \<or> ge_right g < 0
          then Unverified ''page_unknown''
          else if ge_columns g \<noteq> [1] then Unverified ''columns''
          else if ge_gutter g \<noteq> 0 then Unverified ''gutter''
          else if h_leading h then Unverified ''text_before_table''
          else if h_align h \<notin> {[], ''justify'', ''left''} then Unverified ''aligned_paragraph''
          else (case t_outside_margin t of
            None \<Rightarrow> Unverified ''no_margin''
          | Some m \<Rightarrow>
            (let page_width = (if ge_landscape g \<noteq> 0 then ge_height g else ge_width g);
                 text_width = page_width - ge_left g - ge_right g;
                 indent = h_left h + h_indent h;
                 lf = ge_left g + indent + m_left m;
                 right_edge = lf + width;
                 overflow = max 0 (right_edge - (ge_left g + text_width))
             in OnPage (if right_edge > page_width then ''off_page'' else if overflow \<noteq> 0 then ''past_margin'' else ''fits'')
                  width text_width lf right_edge page_width overflow (text_width - indent - m_left m - m_right m)))))"

definition table_layout :: "ntable \<Rightarrow> (string \<Rightarrow> ntable option) \<Rightarrow> placement" where
  "table_layout t by_id =
    (case t_size_width t of
       None \<Rightarrow> Unverified ''no_size''
     | Some width \<Rightarrow>
       if width < 0 then Unverified ''no_size''
       else if t_width_rel t \<noteq> ''absolute'' then Unverified ''relative_width''
       else if t_cell_spacing t \<noteq> 0 then Unverified ''cell_spacing''
       else if \<not> size_agrees t width then Unverified ''size_disagrees''
       else if \<not> t_treat_as_char t then Unverified ''floating''
       else (case t_nested_in t of
         Some parent \<Rightarrow> nested_layout t width (by_id parent)
       | None \<Rightarrow> page_layout t width))"

section \<open>Entries of a plan\<close>

datatype entry_kind = Kept | NewCell | MergedCell | FirstPart | Part

record entry =
  e_kind :: entry_kind
  e_source :: ncell
  e_row :: int
  e_col :: int
  e_row_span :: int
  e_col_span :: int
  e_exact_width :: bool
  e_override :: "(side \<times> nline option) list"
  e_lines :: "borders option"
  e_paragraphs :: "string list"

definition e_key :: "entry \<Rightarrow> int \<times> int" where
  "e_key e = (e_row e, e_col e)"

definition kept :: "ncell \<Rightarrow> int \<Rightarrow> int \<Rightarrow> int \<Rightarrow> int \<Rightarrow> entry" where
  "kept c row col row_span col_span =
    \<lparr>e_kind = Kept, e_source = c, e_row = row, e_col = col, e_row_span = row_span, e_col_span = col_span,
     e_exact_width = ((row_span, col_span) = (n_row_span c, n_col_span c)), e_override = [], e_lines = None, e_paragraphs = []\<rparr>"

definition new_entry :: "entry_kind \<Rightarrow> int \<Rightarrow> int \<Rightarrow> int \<Rightarrow> int \<Rightarrow> ncell \<Rightarrow> entry" where
  "new_entry k row col row_span col_span c =
    \<lparr>e_kind = k, e_source = c, e_row = row, e_col = col, e_row_span = row_span, e_col_span = col_span,
     e_exact_width = False, e_override = [], e_lines = None, e_paragraphs = []\<rparr>"

text \<open>Reading and writing along one axis, rows or columns.\<close>

definition n_start :: "bool \<Rightarrow> ncell \<Rightarrow> int" where
  "n_start on_rows c = (if on_rows then n_row c else n_col c)"

definition n_span :: "bool \<Rightarrow> ncell \<Rightarrow> int" where
  "n_span on_rows c = (if on_rows then n_row_span c else n_col_span c)"

definition placed :: "bool \<Rightarrow> ncell \<Rightarrow> int \<Rightarrow> int \<Rightarrow> entry" where
  "placed on_rows c start len =
    (if on_rows then kept c start (n_col c) len (n_col_span c) else kept c (n_row c) start (n_row_span c) len)"

text \<open>A grid line no entry starts on is dropped: lines are renumbered by the distinct starts.\<close>

definition e_start :: "bool \<Rightarrow> entry \<Rightarrow> int" where
  "e_start on_rows e = (if on_rows then e_row e else e_col e)"

definition e_span :: "bool \<Rightarrow> entry \<Rightarrow> int" where
  "e_span on_rows e = (if on_rows then e_row_span e else e_col_span e)"

definition line_number :: "int list \<Rightarrow> int \<Rightarrow> int" where
  "line_number starts line = int (length (takeWhile (\<lambda>s. s \<noteq> line) starts)) + 1"

definition collapse_entry :: "bool \<Rightarrow> int list \<Rightarrow> entry \<Rightarrow> entry" where
  "collapse_entry on_rows starts e =
    (let new_end = (case find (\<lambda>l. l \<ge> e_start on_rows e + e_span on_rows e) starts of
           Some l \<Rightarrow> line_number starts l | None \<Rightarrow> int (length starts) + 1);
         start = line_number starts (e_start on_rows e);
         new_span = new_end - start;
         e1 = (if new_span \<noteq> e_span on_rows e \<and> e_kind e = Kept then e\<lparr>e_exact_width := False\<rparr> else e)
     in if on_rows then e1\<lparr>e_row := start, e_row_span := new_span\<rparr> else e1\<lparr>e_col := start, e_col_span := new_span\<rparr>)"

definition starts_of :: "bool \<Rightarrow> entry list \<Rightarrow> int list" where
  "starts_of on_rows es = sort (remdups (map (e_start on_rows) es))"

definition collapsed :: "entry list \<Rightarrow> entry list \<times> int \<times> int" where
  "collapsed es =
    (let rows = starts_of True es; es1 = map (collapse_entry True rows) es;
         cols = starts_of False es1
     in (map (collapse_entry False cols) es1, int (length rows), int (length cols)))"

datatype native_action =
    NativeInsert int int
  | NativeDeleteLine string
  | NativeDeleteBlock
  | NativeMerge
  | NativeSplit int int

record edit_plan =
  p_rows :: int
  p_cols :: int
  p_entries :: "entry list"
  p_caret :: ncell
  p_native :: native_action
  p_rect :: "rect option"
  p_removed_objects :: "string list"
  p_removed_tables :: "string list"


section \<open>Inserting lines\<close>

record removed_cell =
  rm_key :: "int \<times> int"
  rm_text :: "string option"
  rm_sha :: string
  rm_objects :: "string list"

datatype edit_request =
    InsertLines side int int
  | DeleteLines bool int int "removed_cell list"
  | MergeRange "int \<times> int" "int \<times> int"
  | SplitInto "int \<times> int" int int
  | Unmerge "int \<times> int"

definition max_lines_of_grid :: int where "max_lines_of_grid = 500"

definition side_on_rows :: "side \<Rightarrow> bool" where
  "side_on_rows s \<longleftrightarrow> s = TopSide \<or> s = BottomSide"

definition side_before :: "side \<Rightarrow> bool" where
  "side_before s \<longleftrightarrow> s = TopSide \<or> s = LeftSide"

definition side_number :: "side \<Rightarrow> int" where
  "side_number s = (case s of LeftSide \<Rightarrow> 0 | RightSide \<Rightarrow> 1 | TopSide \<Rightarrow> 2 | BottomSide \<Rightarrow> 3)"

definition insert_at :: "side \<Rightarrow> int \<Rightarrow> int" where
  "insert_at s line = (if side_before s then line else line + 1)"

definition lines_of :: "ntable \<Rightarrow> bool \<Rightarrow> int" where
  "lines_of t on_rows = (if on_rows then t_rows t else t_cols t)"

definition caret_candidate :: "side \<Rightarrow> int \<Rightarrow> ncell \<Rightarrow> bool" where
  "caret_candidate s line c \<longleftrightarrow>
    (let r = side_on_rows s in if side_before s then n_start r c = line else n_start r c + n_span r c - 1 = line)"

definition mirrored :: "side \<Rightarrow> int \<Rightarrow> ncell \<Rightarrow> bool" where
  "mirrored s line c \<longleftrightarrow>
    (let r = side_on_rows s; start = n_start r c; stop = start + n_span r c; at_line = insert_at s line
     in start \<le> line \<and> line < stop \<and> \<not> (start < at_line \<and> at_line < stop))"

definition pushed :: "side \<Rightarrow> int \<Rightarrow> int \<Rightarrow> ncell \<Rightarrow> entry" where
  "pushed s line n c =
    (let r = side_on_rows s; start = n_start r c; len = n_span r c; at_line = insert_at s line
     in if start \<ge> at_line then placed r c (start + n) len
        else if start + len > at_line then placed r c start (len + n)
        else placed r c start len)"

definition framed :: "ntable \<Rightarrow> side \<Rightarrow> int \<Rightarrow> entry \<Rightarrow> entry" where
  "framed t s line e =
    (let at_line = insert_at s line; total = lines_of t (side_on_rows s); c = e_source e
     in if ((side_before s \<and> at_line = 1) \<or> (\<not> side_before s \<and> at_line = total + 1)) \<and> mirrored s line c
        then e\<lparr>e_override := [(s, Some (border_at (opposite s) (n_border c)))]\<rparr> else e)"

definition copy_at :: "side \<Rightarrow> int \<Rightarrow> ncell \<Rightarrow> entry" where
  "copy_at s line c =
    (if side_on_rows s then new_entry NewCell line (n_col c) 1 (n_col_span c) c
     else new_entry NewCell (n_row c) line (n_row_span c) 1 c)"

definition insert_entries :: "ntable \<Rightarrow> side \<Rightarrow> int \<Rightarrow> int \<Rightarrow> entry list" where
  "insert_entries t s line n =
    map (\<lambda>c. framed t s line (pushed s line n c)) (t_cells t)
    @ concat (map (\<lambda>i. map (copy_at s (insert_at s line + i)) (filter (mirrored s line) (t_cells t))) [0..n - 1])"

definition plan_insert :: "ntable \<Rightarrow> side \<Rightarrow> int \<Rightarrow> int \<Rightarrow> table_failure + edit_plan" where
  "plan_insert t s line n =
    (let r = side_on_rows s; total = lines_of t r in
     if line > total then Inl (Refused ''cell_out_of_range'')
     else if total + n > max_lines_of_grid then Inl (Refused ''table_too_large'')
     else case first_by (\<lambda>c. (n_span r c, n_span (\<not> r) c, n_start (\<not> r) c)) (filter (caret_candidate s line) (t_cells t)) of
       None \<Rightarrow> Inl (Refused ''line_inside_merged_cell'')
     | Some caret \<Rightarrow> Inr
         \<lparr>p_rows = t_rows t + (if r then n else 0), p_cols = t_cols t + (if r then 0 else n),
          p_entries = insert_entries t s line n, p_caret = caret, p_native = NativeInsert (side_number s) n,
          p_rect = None, p_removed_objects = [], p_removed_tables = []\<rparr>)"

section \<open>Deleting lines\<close>

definition deleted_cell :: "bool \<Rightarrow> int \<Rightarrow> int \<Rightarrow> ncell \<Rightarrow> bool" where
  "deleted_cell r first_line n c \<longleftrightarrow> first_line \<le> n_start r c \<and> n_start r c + n_span r c \<le> first_line + n"

definition pulled :: "bool \<Rightarrow> int \<Rightarrow> int \<Rightarrow> ncell \<Rightarrow> entry" where
  "pulled r first_line n c =
    (let start = n_start r c; stop = start + n_span r c; last_line = first_line + n;
         remaining = stop - start - max 0 (min stop last_line - max start first_line)
     in placed r c (if start < first_line then start else if start < last_line then first_line else start - n) remaining)"

text \<open>The cells that become the edge of the table take the deleted edge's line, if it is one line.\<close>

definition edge_values :: "ntable \<Rightarrow> bool \<Rightarrow> side \<Rightarrow> int \<Rightarrow> int \<Rightarrow> ncell \<Rightarrow> nline list" where
  "edge_values t r outer outer_line inner_line c =
    map (\<lambda>x. border_at outer (n_border x))
      (filter (\<lambda>x. \<not> (n_start r x \<le> inner_line \<and> inner_line < n_start r x + n_span r x))
        (List.map_filter (\<lambda>slot. if r then covering t outer_line slot else covering t slot outer_line)
          [n_start (\<not> r) c..n_start (\<not> r) c + n_span (\<not> r) c - 1]))"

definition edged :: "ntable \<Rightarrow> bool \<Rightarrow> int \<Rightarrow> int \<Rightarrow> entry \<Rightarrow> entry" where
  "edged t r first_line n e =
    (let total = lines_of t r; last_line = first_line + n; c = e_source e; start = n_start r c; stop = start + n_span r c;
         outer = (if first_line = 1 then (if r then TopSide else LeftSide) else (if r then BottomSide else RightSide));
         outer_line = (if first_line = 1 then 1 else total);
         inner_line = (if first_line = 1 then last_line else first_line - 1)
     in if (first_line = 1 \<or> last_line = total + 1) \<and> start \<le> inner_line \<and> inner_line < stop then
          (case edge_values t r outer outer_line inner_line c of
             [] \<Rightarrow> e
           | v # vs \<Rightarrow> e\<lparr>e_override := [(outer, if list_all (\<lambda>x. x = v) (v # vs) then Some v else None)]\<rparr>)
        else e)"

definition delete_entries :: "ntable \<Rightarrow> bool \<Rightarrow> int \<Rightarrow> int \<Rightarrow> entry list" where
  "delete_entries t r first_line n =
    map (\<lambda>c. edged t r first_line n (pulled r first_line n c))
      (filter (\<lambda>c. \<not> deleted_cell r first_line n c) (t_cells t))"

definition delete_caret :: "ntable \<Rightarrow> bool \<Rightarrow> int \<Rightarrow> int \<Rightarrow> table_failure + ncell \<times> native_action \<times> rect option" where
  "delete_caret t r first_line n =
    (if n = 1 then
       (let plain = filter (\<lambda>c. n_start r c = first_line \<and> n_span r c = 1 \<and> deleted_cell r first_line n c) (t_cells t);
            candidates = (if plain = [] then filter (\<lambda>c. n_start r c = first_line) (t_cells t) else plain)
        in case first_by (\<lambda>c. (n_span (\<not> r) c, n_start (\<not> r) c)) candidates of
             None \<Rightarrow> Inl (Refused ''line_inside_merged_cell'')
           | Some c \<Rightarrow> Inr (c, NativeDeleteLine (if r then ''TableDeleteRow'' else ''TableDeleteColumn''), None))
     else
       (case (if r then rect_of t (first_line, 1) (first_line + n - 1, t_cols t)
              else rect_of t (1, first_line) (t_rows t, first_line + n - 1)) of
          Inl f \<Rightarrow> Inl (if f = Refused ''range_cuts_merged_cell'' then Refused ''merged_cell_crosses_lines'' else f)
        | Inr area \<Rightarrow>
          (case (if r then named t first_line 1 else named t 1 first_line) of
             None \<Rightarrow> Inl (Refused ''merged_cell_crosses_lines'')
           | Some c \<Rightarrow> Inr (c, NativeDeleteBlock, Some area))))"

text \<open>Every removed cell with content is listed, once, with its content and its objects, and nothing else is.\<close>

definition states_cell :: "removed_cell \<Rightarrow> ncell \<Rightarrow> bool" where
  "states_cell g c \<longleftrightarrow> sort (rm_objects g) = sort (n_all_objects c)
    \<and> (case rm_text g of None \<Rightarrow> rm_sha g = n_content c | Some x \<Rightarrow> x = n_text c)"

definition removed_match :: "removed_cell list \<Rightarrow> ncell list \<Rightarrow> bool" where
  "removed_match given stated \<longleftrightarrow> distinct (map rm_key given)
    \<and> set (map rm_key given) = set (map n_key stated)
    \<and> list_all (\<lambda>c. case find (\<lambda>g. rm_key g = n_key c) given of None \<Rightarrow> False | Some g \<Rightarrow> states_cell g c) stated"

definition plan_delete :: "ntable \<Rightarrow> bool \<Rightarrow> int \<Rightarrow> int \<Rightarrow> removed_cell list \<Rightarrow> table_failure + edit_plan" where
  "plan_delete t r first_line n given =
    (let total = lines_of t r; removed = filter (deleted_cell r first_line n) (t_cells t) in
     if first_line > total \<or> first_line + n - 1 > total then Inl (Refused ''cell_out_of_range'')
     else if n \<ge> total then Inl (Refused ''table_would_be_empty'')
     else case delete_caret t r first_line n of
       Inl f \<Rightarrow> Inl f
     | Inr (caret, native, area) \<Rightarrow>
       if \<not> removed_match given (filter (\<lambda>c. \<not> n_blank c) removed) then Inl (Refused ''removed_content_mismatch'')
       else (case collapsed (delete_entries t r first_line n) of
         (es, rows, cols) \<Rightarrow> Inr
           \<lparr>p_rows = rows, p_cols = cols, p_entries = es, p_caret = caret, p_native = native, p_rect = area,
            p_removed_objects = concat (map n_all_objects removed), p_removed_tables = concat (map n_tables removed)\<rparr>))"

section \<open>Merging and splitting\<close>

text \<open>The paragraphs of the cells with content, in order; the first cell's first one when none has any.\<close>

definition merged_paragraphs :: "ncell list \<Rightarrow> string list option" where
  "merged_paragraphs cells =
    (case concat (map n_paragraphs (filter (\<lambda>c. \<not> n_blank c) cells)) of
       p # ps \<Rightarrow> Some (p # ps)
     | [] \<Rightarrow> (case cells of [] \<Rightarrow> None | c # _ \<Rightarrow> (case n_paragraphs c of [] \<Rightarrow> None | p # _ \<Rightarrow> Some [p])))"

definition merged_entry :: "rect \<Rightarrow> ncell \<Rightarrow> ncell \<Rightarrow> string list \<Rightarrow> entry" where
  "merged_entry area c corner ps =
    (new_entry MergedCell (r_top area) (r_left area) (r_bottom area - r_top area + 1) (r_right area - r_left area + 1) c)
      \<lparr>e_paragraphs := ps,
       e_lines := Some \<lparr>b_left = b_left (n_border c), b_right = b_right (n_border corner),
         b_top = b_top (n_border c), b_bottom = b_bottom (n_border corner)\<rparr>\<rparr>"

definition merge_entries :: "ntable \<Rightarrow> rect \<Rightarrow> ncell list \<Rightarrow> ncell \<Rightarrow> ncell \<Rightarrow> string list \<Rightarrow> entry list" where
  "merge_entries t area cells c corner ps =
    map (\<lambda>x. kept x (n_row x) (n_col x) (n_row_span x) (n_col_span x)) (filter (\<lambda>x. x \<notin> set cells) (t_cells t))
    @ [merged_entry area c corner ps]"

definition merge_plan :: "ntable \<Rightarrow> rect \<Rightarrow> ncell list \<Rightarrow> ncell \<Rightarrow> ncell \<Rightarrow> string list \<Rightarrow> edit_plan" where
  "merge_plan t area cells c corner ps =
    (case collapsed (merge_entries t area cells c corner ps) of
       (es, rows, cols) \<Rightarrow>
         \<lparr>p_rows = rows, p_cols = cols, p_entries = es, p_caret = c, p_native = NativeMerge, p_rect = Some area,
          p_removed_objects = [], p_removed_tables = []\<rparr>)"

definition plan_merge :: "ntable \<Rightarrow> int \<times> int \<Rightarrow> int \<times> int \<Rightarrow> table_failure + edit_plan" where
  "plan_merge t a b =
    (case rect_of t a b of
       Inl f \<Rightarrow> Inl f
     | Inr area \<Rightarrow>
       (let cells = sort_key n_key (r_cells area) in
        if length cells < 2 then Inl (Refused ''range_too_small'')
        else case (merged_paragraphs cells, covering t (r_bottom area) (r_right area)) of
          (Some ps, Some corner) \<Rightarrow> Inr (merge_plan t area cells (hd cells) corner ps)
        | _ \<Rightarrow> Inl Crashed))"

definition cut_points :: "int \<Rightarrow> int \<Rightarrow> int \<Rightarrow> rat list" where
  "cut_points x0 x1 n = map (\<lambda>k. of_int x0 + of_int ((x1 - x0) * k) / of_int n) [0..n]"

definition snap :: "int list \<Rightarrow> rat \<Rightarrow> rat" where
  "snap edges x = (case find (\<lambda>e. \<bar>of_int e - x\<bar> \<le> 2) edges of None \<Rightarrow> x | Some e \<Rightarrow> of_int e)"

definition grid_index :: "rat list \<Rightarrow> rat \<Rightarrow> int" where
  "grid_index g x = int (length (takeWhile (\<lambda>y. y \<noteq> x) g))"

definition split_kept :: "ncell \<Rightarrow> int \<Rightarrow> int list \<Rightarrow> rat list \<Rightarrow> ncell \<Rightarrow> entry" where
  "split_kept cell extra_rows edges g c =
    (let low = grid_index g (of_int (edge_at edges (n_col c - 1)));
         high = grid_index g (of_int (edge_at edges (n_col c - 1 + n_col_span c)))
     in if n_row c > n_row cell then kept c (n_row c + extra_rows) (low + 1) (n_row_span c) (high - low)
        else if n_row c + n_row_span c > n_row cell \<and> extra_rows \<noteq> 0
        then kept c (n_row c) (low + 1) (n_row_span c + extra_rows) (high - low)
        else kept c (n_row c) (low + 1) (n_row_span c) (high - low))"

definition split_part :: "ntable \<Rightarrow> ncell \<Rightarrow> int \<Rightarrow> int \<Rightarrow> rat list \<Rightarrow> rat list \<Rightarrow> int \<times> int \<Rightarrow> entry" where
  "split_part t cell rows_wanted cols_wanted snapped g rc =
    (let i = fst rc; j = snd rc; lines = n_border cell;
         part_rows = (if rows_wanted = 1 then n_row_span cell else 1);
         low = grid_index g (snapped ! nat j); high = grid_index g (snapped ! nat (j + 1));
         between_cols = (if n_col cell + n_col_span cell - 1 = t_cols t then b_left lines else b_right lines);
         between_rows = (if n_row cell + n_row_span cell - 1 = t_rows t then b_top lines else b_bottom lines)
     in (new_entry (if i = 0 \<and> j = 0 then FirstPart else Part) (n_row cell + i * part_rows) (low + 1) part_rows (high - low) cell)
        \<lparr>e_lines := Some \<lparr>b_left = (if j = 0 then b_left lines else between_cols),
          b_right = (if j = cols_wanted - 1 then b_right lines else between_cols),
          b_top = (if i = 0 then b_top lines else between_rows),
          b_bottom = (if i = rows_wanted - 1 then b_bottom lines else between_rows)\<rparr>\<rparr>)"

definition split_counts :: "ncell \<Rightarrow> (int \<times> int) option \<Rightarrow> table_failure + int \<times> int" where
  "split_counts cell wanted =
    (case wanted of
       None \<Rightarrow> if n_row_span cell = 1 \<and> n_col_span cell = 1 then Inl (Refused ''cell_not_merged'')
               else Inr (n_row_span cell, n_col_span cell)
     | Some (rows, cols) \<Rightarrow>
         if n_row_span cell > 1 \<and> rows \<noteq> 1 \<and> rows \<noteq> n_row_span cell then Inl (Refused ''merged_split_rows_unsupported'')
         else Inr (rows, cols))"

definition split_plan :: "ntable \<Rightarrow> ncell \<Rightarrow> int \<Rightarrow> int \<Rightarrow> int list \<Rightarrow> edit_plan" where
  "split_plan t cell rows_wanted cols_wanted edges =
    (let x0 = edge_at edges (n_col cell - 1); x1 = edge_at edges (n_col cell - 1 + n_col_span cell);
         snapped = map (snap edges) (cut_points x0 x1 cols_wanted);
         g = sort (remdups (map of_int edges @ snapped));
         extra = (if rows_wanted = n_row_span cell \<or> rows_wanted = 1 then 0 else rows_wanted - 1)
     in \<lparr>p_rows = t_rows t + extra, p_cols = int (length g) - 1,
         p_entries = map (split_kept cell extra edges g) (filter (\<lambda>c. c \<noteq> cell) (t_cells t))
           @ map (split_part t cell rows_wanted cols_wanted snapped g) (List.product [0..rows_wanted - 1] [0..cols_wanted - 1]),
         p_caret = cell,
         p_native = NativeSplit (if rows_wanted > 1 then rows_wanted else 0) (if cols_wanted > 1 then cols_wanted else 0),
         p_rect = None, p_removed_objects = [], p_removed_tables = []\<rparr>)"

definition plan_split :: "ntable \<Rightarrow> int \<times> int \<Rightarrow> (int \<times> int) option \<Rightarrow> table_failure + edit_plan" where
  "plan_split t p wanted =
    (case whole_cell t p of
       Inl f \<Rightarrow> Inl f
     | Inr cell \<Rightarrow>
       (case split_counts cell wanted of
          Inl f \<Rightarrow> Inl f
        | Inr (rows, cols) \<Rightarrow>
          if t_rows t + rows - 1 > max_lines_of_grid \<or> t_cols t + cols - 1 > max_lines_of_grid
          then Inl (Refused ''table_too_large'')
          else (case column_edges t of
            None \<Rightarrow> Inl (Refused ''table_geometry_unknown'')
          | Some edges \<Rightarrow> Inr (split_plan t cell rows cols edges))))"

definition plan_edit :: "ntable \<Rightarrow> edit_request \<Rightarrow> table_failure + edit_plan" where
  "plan_edit t rq =
    (case rq of
       InsertLines s line n \<Rightarrow> plan_insert t s line n
     | DeleteLines r first_line n given \<Rightarrow> plan_delete t r first_line n given
     | MergeRange a b \<Rightarrow> plan_merge t a b
     | SplitInto p rows cols \<Rightarrow> plan_split t p (Some (rows, cols))
     | Unmerge p \<Rightarrow> plan_split t p None)"

section \<open>Problems of the observed table\<close>

datatype problem =
    TableGone | GridDiffers | FrameChanged
  | NoCellAt "int \<times> int" | UnplannedCell "int \<times> int" | SpanDiffers "int \<times> int"
  | ContentOf "int \<times> int" | FillOf "int \<times> int" | RestOf "int \<times> int" | AttrsOf "int \<times> int"
  | LineOf "int \<times> int" side | WidthOf "int \<times> int"
  | MergedParagraphs "int \<times> int" | LinesOf "int \<times> int" | NotBlank "int \<times> int"
  | CellCount | SizeDiffers

definition look_problems :: "int \<times> int \<Rightarrow> ncell \<Rightarrow> ncell \<Rightarrow> bool \<Rightarrow> problem list" where
  "look_problems k source got with_attrs =
    (if n_fill got \<noteq> n_fill source then [FillOf k] else [])
    @ (if n_rest got \<noteq> n_rest source then [RestOf k] else [])
    @ (if with_attrs \<and> n_attrs got \<noteq> n_attrs source then [AttrsOf k] else [])"

definition wanted_line :: "entry \<Rightarrow> side \<Rightarrow> nline option" where
  "wanted_line e s = (case map_of (e_override e) s of None \<Rightarrow> Some (border_at s (n_border (e_source e))) | Some v \<Rightarrow> v)"

definition entry_problems :: "int \<times> int \<Rightarrow> entry \<Rightarrow> ncell \<Rightarrow> problem list" where
  "entry_problems k e got =
    (let source = e_source e in
     case e_kind e of
       Kept \<Rightarrow>
         (if n_content got \<noteq> n_content source then [ContentOf k] else [])
         @ look_problems k source got True
         @ concat (map (\<lambda>s. case wanted_line e s of None \<Rightarrow> []
             | Some l \<Rightarrow> if border_at s (n_border got) \<noteq> l then [LineOf k s] else []) sides)
         @ (if e_exact_width e \<and> n_width got \<noteq> n_width source then [WidthOf k] else [])
     | MergedCell \<Rightarrow>
         (if n_paragraphs got \<noteq> e_paragraphs e then [MergedParagraphs k] else [])
         @ (if Some (n_border got) \<noteq> e_lines e then [LinesOf k] else [])
         @ look_problems k source got True
     | FirstPart \<Rightarrow>
         (if n_content got \<noteq> n_content source then [ContentOf k] else [])
         @ (if Some (n_border got) \<noteq> e_lines e then [LinesOf k] else [])
         @ look_problems k source got False
     | _ \<Rightarrow>
         (if \<not> n_blank got then [NotBlank k] else [])
         @ (if n_fill got \<noteq> n_fill source then [FillOf k] else [])
         @ (if e_kind e = Part \<and> Some (n_border got) \<noteq> e_lines e then [LinesOf k] else []))"

definition place_problems :: "ncell list \<Rightarrow> entry list \<Rightarrow> int \<times> int \<Rightarrow> problem list" where
  "place_problems cs es k =
    (case (find (\<lambda>c. n_key c = k) (rev cs), find (\<lambda>e. e_key e = k) (rev es)) of
       (None, _) \<Rightarrow> [NoCellAt k]
     | (Some got, None) \<Rightarrow> [UnplannedCell k]
     | (Some got, Some e) \<Rightarrow>
         if (n_row_span got, n_col_span got) \<noteq> (e_row_span e, e_col_span e) then [SpanDiffers k]
         else entry_problems k e got)"

definition edit_problems :: "ntable \<Rightarrow> edit_plan \<Rightarrow> ntable option \<Rightarrow> problem list" where
  "edit_problems t p observed =
    (case observed of
       None \<Rightarrow> [TableGone]
     | Some a \<Rightarrow>
         (if (t_rows a, t_cols a) \<noteq> (p_rows p, p_cols p) then [GridDiffers] else [])
         @ (if t_frame a \<noteq> t_frame t then [FrameChanged] else [])
         @ concat (map (place_problems (t_cells a) (p_entries p))
             (sort (remdups (map n_key (t_cells a) @ map e_key (p_entries p))))))"

end
