(* ===== verification/NativeStyle.thy ===== *)
theory NativeStyle
  imports NativeTable
begin

text \<open>
  The rest of the planning of app/native_table.py: lines and fills of a range (\<open>plan_style\<close>,
  \<open>style_problems\<close>), column widths (\<open>plan_width\<close>, \<open>width_problems\<close>), and what may differ in the
  document around the edited table (\<open>document_problems\<close>). Widths asked for in millimetres enter as
  the products \<open>mm * HU_PER_MM\<close> the code forms; rounding is Python's, half to even. The reports for
  the caller are cut down to the values they list.
\<close>

section \<open>Lines of a range\<close>

datatype edge = Outer side | InnerHorizontal | InnerVertical

record border_group =
  gr_edges :: "edge list"
  gr_named_inner :: "edge list"
  gr_line :: string
  gr_width :: rat
  gr_color :: string

datatype scope = WholeTable | OneCell "int \<times> int" | CellRange "int \<times> int" "int \<times> int"

record style_request =
  sr_scope :: scope
  sr_borders :: "border_group list"
  sr_fill :: "string option"
  sr_over_wider :: bool

definition target_rect :: "ntable \<Rightarrow> scope \<Rightarrow> table_failure + rect" where
  "target_rect t sc =
    (case sc of
       WholeTable \<Rightarrow> rect_of t (1, 1) (t_rows t, t_cols t)
     | OneCell p \<Rightarrow>
         (case whole_cell t p of
            Inl f \<Rightarrow> Inl f
          | Inr c \<Rightarrow> Inr \<lparr>r_top = n_row c, r_bottom = n_row c + n_row_span c - 1, r_left = n_col c,
              r_right = n_col c + n_col_span c - 1, r_cells = [c]\<rparr>)
     | CellRange a b \<Rightarrow> rect_of t a b)"

definition after_line :: "nline \<Rightarrow> border_group \<Rightarrow> nline" where
  "after_line before g =
    (if gr_line g = ''none'' then before\<lparr>nl_line := ''none''\<rparr>
     else \<lparr>nl_line = gr_line g, nl_width = Some (gr_width g), nl_color = gr_color g\<rparr>)"

definition line_types :: "(string \<times> int) list" where
  "line_types = [(''none'', 0), (''solid'', 1), (''dash'', 2), (''dot'', 3), (''dash_dot'', 4), (''dash_dot_dot'', 5),
    (''long_dash'', 6), (''circle'', 7), (''double'', 8), (''slim_thick'', 9), (''thick_slim'', 10), (''slim_thick_slim'', 11)]"

definition line_widths :: "rat list" where
  "line_widths = [1/10, 12/100, 15/100, 2/10, 25/100, 3/10, 4/10, 5/10, 6/10, 7/10, 1, 15/10, 2, 3, 4, 5]"

definition hex_value :: "char \<Rightarrow> int" where
  "hex_value c = (let n = int (of_char c) in if n \<le> 57 then n - 48 else if n \<le> 70 then n - 55 else n - 87)"

text \<open>\<open>#RRGGBB\<close> to the native order of the bytes.\<close>

definition native_color :: "string \<Rightarrow> int" where
  "native_color s =
    (case map hex_value (drop 1 s) of
       [a, b, c, d, e, f] \<Rightarrow> (16 * a + b) + 256 * (16 * c + d) + 65536 * (16 * e + f)
     | _ \<Rightarrow> 0)"

definition side_name :: "side \<Rightarrow> string" where
  "side_name s = (case s of LeftSide \<Rightarrow> ''Left'' | RightSide \<Rightarrow> ''Right'' | TopSide \<Rightarrow> ''Top'' | BottomSide \<Rightarrow> ''Bottom'')"

definition item_names :: "edge \<Rightarrow> string \<times> string \<times> string" where
  "item_names e =
    (case e of
       Outer s \<Rightarrow> (''BorderType'' @ side_name s, ''BorderWidth'' @ side_name s,
          if s = LeftSide then ''BorderCorlorLeft'' else ''BorderColor'' @ side_name s)
     | InnerHorizontal \<Rightarrow> (''TypeHorz'', ''WidthHorz'', ''ColorHorz'')
     | InnerVertical \<Rightarrow> (''TypeVert'', ''WidthVert'', ''ColorVert''))"

definition index_of :: "'a \<Rightarrow> 'a list \<Rightarrow> int" where
  "index_of x xs = int (length (takeWhile (\<lambda>y. y \<noteq> x) xs))"

definition edge_items :: "border_group \<Rightarrow> edge \<Rightarrow> (string \<times> int) list" where
  "edge_items g e =
    (case item_names e of (ty, wd, co) \<Rightarrow>
       (ty, case map_of line_types (gr_line g) of None \<Rightarrow> 0 | Some n \<Rightarrow> n)
       # (if gr_line g = ''none'' then [] else [(wd, index_of (gr_width g) line_widths), (co, native_color (gr_color g))]))"

definition border_items :: "border_group list \<Rightarrow> (string \<times> int) list" where
  "border_items gs = concat (map (\<lambda>g. concat (map (edge_items g) (gr_edges g))) gs)"

text \<open>Both sides print: a wider neighbour's line shows unless it has none or a solid line at least as wide covers it.\<close>

definition shows_through :: "nline \<Rightarrow> border_group \<Rightarrow> bool" where
  "shows_through l g =
    (if nl_line l = ''none'' then False
     else \<not> (gr_line g = ''solid'' \<and> gr_width g \<ge> (case nl_width l of None \<Rightarrow> 0 | Some w \<Rightarrow> w)))"

definition faces :: "ncell \<Rightarrow> ncell \<Rightarrow> side \<Rightarrow> bool" where
  "faces c d s =
    (if s = TopSide \<or> s = BottomSide
     then n_col c \<le> n_col d + n_col_span d - 1 \<and> n_col d \<le> n_col c + n_col_span c - 1
     else n_row c \<le> n_row d + n_row_span d - 1 \<and> n_row d \<le> n_row c + n_row_span c - 1)"

definition has_inner :: "rect \<Rightarrow> edge \<Rightarrow> bool" where
  "has_inner area e =
    (case e of
       Outer _ \<Rightarrow> True
     | InnerHorizontal \<Rightarrow> \<exists>c \<in> set (r_cells area). n_row c + n_row_span c - 1 < r_bottom area
     | InnerVertical \<Rightarrow> \<exists>c \<in> set (r_cells area). n_col c + n_col_span c - 1 < r_right area)"

definition on_outer :: "rect \<Rightarrow> ncell \<Rightarrow> side \<Rightarrow> bool" where
  "on_outer area c s =
    (case s of
       LeftSide \<Rightarrow> n_col c = r_left area
     | RightSide \<Rightarrow> n_col c + n_col_span c - 1 = r_right area
     | TopSide \<Rightarrow> n_row c = r_top area
     | BottomSide \<Rightarrow> n_row c + n_row_span c - 1 = r_bottom area)"

text \<open>The edges left to a group, and the group of an edge (the last that names it).\<close>

definition kept_edges :: "rect \<Rightarrow> border_group \<Rightarrow> border_group" where
  "kept_edges area g = g\<lparr>gr_edges := filter (has_inner area) (gr_edges g)\<rparr>"

definition by_edge :: "border_group list \<Rightarrow> edge \<Rightarrow> border_group option" where
  "by_edge gs e = find (\<lambda>g. e \<in> set (gr_edges g)) (rev gs)"

definition cell_edge :: "rect \<Rightarrow> ncell \<Rightarrow> side \<Rightarrow> edge" where
  "cell_edge area c s =
    (if on_outer area c s then Outer s
     else if s = TopSide \<or> s = BottomSide then InnerHorizontal else InnerVertical)"

text \<open>Every write of a line: the cell, its side and the group.\<close>

type_synonym line_write = "ncell \<times> side \<times> border_group"

definition own_writes :: "rect \<Rightarrow> border_group list \<Rightarrow> ncell \<Rightarrow> line_write list" where
  "own_writes area gs c =
    List.map_filter (\<lambda>s. map_option (\<lambda>g. (c, s, g)) (by_edge gs (cell_edge area c s))) sides"

definition facing :: "rect \<Rightarrow> side \<Rightarrow> ncell \<Rightarrow> bool" where
  "facing area s d =
    ((case s of
        TopSide \<Rightarrow> n_row d + n_row_span d = r_top area
      | BottomSide \<Rightarrow> n_row d = r_bottom area + 1
      | LeftSide \<Rightarrow> n_col d + n_col_span d = r_left area
      | RightSide \<Rightarrow> n_col d = r_right area + 1)
     \<and> (if s = TopSide \<or> s = BottomSide
        then \<not> (n_col d + n_col_span d - 1 < r_left area \<or> n_col d > r_right area)
        else \<not> (n_row d + n_row_span d - 1 < r_top area \<or> n_row d > r_bottom area)))"

definition inside_edge :: "rect \<Rightarrow> side \<Rightarrow> ncell \<Rightarrow> bool" where
  "inside_edge area s d =
    (if s = TopSide \<or> s = BottomSide
     then r_left area \<le> n_col d \<and> n_col d + n_col_span d - 1 \<le> r_right area
     else r_top area \<le> n_row d \<and> n_row d + n_row_span d - 1 \<le> r_bottom area)"

definition neighbours :: "ntable \<Rightarrow> rect \<Rightarrow> border_group list \<Rightarrow> (side \<times> border_group \<times> ncell) list" where
  "neighbours t area gs =
    concat (map (\<lambda>s. case by_edge gs (Outer s) of None \<Rightarrow> []
      | Some g \<Rightarrow> map (\<lambda>d. (s, g, d)) (filter (\<lambda>d. d \<notin> set (r_cells area) \<and> facing area s d) (t_cells t))) sides)"

definition neighbour_writes :: "ntable \<Rightarrow> rect \<Rightarrow> border_group list \<Rightarrow> line_write list" where
  "neighbour_writes t area gs =
    map (\<lambda>(s, g, d). (d, opposite s, g)) (filter (\<lambda>(s, g, d). inside_edge area s d) (neighbours t area gs))"

definition wider_problem :: "bool \<Rightarrow> rect \<Rightarrow> side \<times> border_group \<times> ncell \<Rightarrow> table_failure option" where
  "wider_problem over area x =
    (case x of (s, g, d) \<Rightarrow>
      if \<not> inside_edge area s d \<and> shows_through (border_at (opposite s) (n_border d)) g \<and> (gr_line g = ''none'' \<or> \<not> over)
      then Some (Refused ''edge_held_by_wider_neighbour'') else None)"

definition set_border :: "side \<Rightarrow> nline \<Rightarrow> borders \<Rightarrow> borders" where
  "set_border s l b =
    (case s of LeftSide \<Rightarrow> b\<lparr>b_left := l\<rparr> | RightSide \<Rightarrow> b\<lparr>b_right := l\<rparr>
     | TopSide \<Rightarrow> b\<lparr>b_top := l\<rparr> | BottomSide \<Rightarrow> b\<lparr>b_bottom := l\<rparr>)"

definition write_line :: "line_write \<Rightarrow> nline" where
  "write_line w = (case w of (c, s, g) \<Rightarrow> after_line (border_at s (n_border c)) g)"

definition apply_write :: "line_write \<Rightarrow> (int \<times> int \<Rightarrow> borders) \<Rightarrow> int \<times> int \<Rightarrow> borders" where
  "apply_write w f = (case w of (c, s, g) \<Rightarrow> f(n_key c := set_border s (write_line w) (f (n_key c))))"

definition changes_line :: "line_write \<Rightarrow> bool" where
  "changes_line w = (case w of (c, s, g) \<Rightarrow> write_line w \<noteq> border_at s (n_border c))"

definition original_border :: "ntable \<Rightarrow> int \<times> int \<Rightarrow> borders" where
  "original_border t k =
    (case find (\<lambda>c. n_key c = k) (rev (t_cells t)) of
       Some c \<Rightarrow> n_border c
     | None \<Rightarrow> (let l = \<lparr>nl_line = [], nl_width = None, nl_color = []\<rparr> in \<lparr>b_left = l, b_right = l, b_top = l, b_bottom = l\<rparr>))"

record style_plan =
  sp_rect :: rect
  sp_border :: "int \<times> int \<Rightarrow> borders"
  sp_new_fill :: "nfill option"
  sp_writes :: "line_write list"
  sp_items :: "(string \<times> int) list"
  sp_fill :: "string option"

definition fill_of :: "string \<Rightarrow> nfill" where
  "fill_of s = (if s = ''none'' then NoFill else SolidFill s)"

definition is_other_fill :: "nfill \<Rightarrow> bool" where
  "is_other_fill f = (case f of OtherFill _ \<Rightarrow> True | _ \<Rightarrow> False)"

definition group_problem :: "rect \<Rightarrow> border_group list \<Rightarrow> table_failure option" where
  "group_problem area gs =
    (if (\<exists>g \<in> set gs. \<exists>e \<in> set (gr_named_inner g). \<not> has_inner area e)
        \<or> (\<exists>g \<in> set gs. gr_edges (kept_edges area g) = [])
     then Some (Refused ''edge_not_in_target'') else None)"

definition plan_style :: "ntable \<Rightarrow> style_request \<Rightarrow> table_failure + style_plan" where
  "plan_style t rq =
    (case target_rect t (sr_scope rq) of
       Inl f \<Rightarrow> Inl f
     | Inr area \<Rightarrow>
       (let cells = sort_key n_key (r_cells area); gs = map (kept_edges area) (sr_borders rq) in
        case group_problem area (sr_borders rq) of
          Some f \<Rightarrow> Inl f
        | None \<Rightarrow>
          (case first_some (wider_problem (sr_over_wider rq) area) (neighbours t area gs) of
             Some f \<Rightarrow> Inl f
           | None \<Rightarrow>
             if sr_fill rq \<noteq> None \<and> (\<exists>c \<in> set cells. is_other_fill (n_fill c)) then Inl (Refused ''fill_kind_unsupported'')
             else
               (let ws = concat (map (own_writes area gs) cells) @ neighbour_writes t area gs;
                    new_fill = map_option fill_of (sr_fill rq)
                in Inr \<lparr>sp_rect = area\<lparr>r_cells := cells\<rparr>, sp_border = fold apply_write ws (original_border t),
                     sp_new_fill = new_fill, sp_writes = ws,
                     sp_items = (if \<exists>w \<in> set ws. changes_line w then border_items gs else []),
                     sp_fill = (if \<exists>c \<in> set cells. new_fill \<noteq> None \<and> Some (n_fill c) \<noteq> new_fill then sr_fill rq else None)\<rparr>))))"

definition expected_fill :: "style_plan \<Rightarrow> ncell \<Rightarrow> nfill" where
  "expected_fill p c =
    (case sp_new_fill p of None \<Rightarrow> n_fill c | Some f \<Rightarrow> if c \<in> set (r_cells (sp_rect p)) then f else n_fill c)"

definition same_cell_problems :: "int \<times> int \<Rightarrow> ncell \<Rightarrow> ncell \<Rightarrow> problem list" where
  "same_cell_problems k c got =
    (if n_row_span got \<noteq> n_row_span c then [SpanDiffers k] else [])
    @ (if n_col_span got \<noteq> n_col_span c then [SpanDiffers k] else [])
    @ (if n_content got \<noteq> n_content c then [ContentOf k] else [])
    @ (if n_attrs got \<noteq> n_attrs c then [AttrsOf k] else [])
    @ (if n_rest got \<noteq> n_rest c then [RestOf k] else [])"

definition style_cell_problems :: "style_plan \<Rightarrow> ntable \<Rightarrow> ncell \<Rightarrow> problem list" where
  "style_cell_problems p a c =
    (case find (\<lambda>d. n_key d = n_key c) (rev (t_cells a)) of
       None \<Rightarrow> [NoCellAt (n_key c)]
     | Some got \<Rightarrow>
         same_cell_problems (n_key c) c got
         @ (if n_width got \<noteq> n_width c then [WidthOf (n_key c)] else [])
         @ (if n_border got \<noteq> sp_border p (n_key c) then [LinesOf (n_key c)] else [])
         @ (if n_fill got \<noteq> expected_fill p c then [FillOf (n_key c)] else []))"

definition style_problems :: "ntable \<Rightarrow> style_plan \<Rightarrow> ntable option \<Rightarrow> problem list" where
  "style_problems t p observed =
    (case observed of
       None \<Rightarrow> [TableGone]
     | Some a \<Rightarrow>
         (if (t_rows a, t_cols a, t_frame a) \<noteq> (t_rows t, t_cols t, t_frame t) then [GridDiffers] else [])
         @ concat (map (style_cell_problems p a) (t_cells t))
         @ (if length (t_cells a) \<noteq> length (t_cells t) then [CellCount] else []))"

section \<open>Column widths\<close>

datatype width_request = FitText | ColumnWidths "rat list"

definition round_half_even :: "rat \<Rightarrow> int" where
  "round_half_even x =
    (let f = floor x; d = x - of_int f in
     if d < 1/2 then f else if d > 1/2 then f + 1 else if even f then f else f + 1)"

definition min_column_hu :: int where "min_column_hu = 1418"
definition max_width_actions :: nat where "max_width_actions = 300"

record width_plan =
  wp_expected :: "ncell \<Rightarrow> int"
  wp_rects :: "(rect \<times> int) list"
  wp_total :: int

fun column_sizes :: "int list \<Rightarrow> int list" where
  "column_sizes (x # y # es) = (y - x) # column_sizes (y # es)"
| "column_sizes _ = []"

definition available_of :: "placement \<Rightarrow> int option" where
  "available_of l = (case l of OnPage _ _ _ _ _ _ _ room \<Rightarrow> Some room | _ \<Rightarrow> None)"

definition fitted :: "int \<Rightarrow> int list \<Rightarrow> int list" where
  "fitted room current =
    (let total = sum_list current;
         ws = map (\<lambda>w. round_half_even (of_int (w * room) / of_int total)) current
     in if ws = [] then [] else butlast ws @ [last ws + (room - sum_list ws)])"

definition wanted_widths :: "ntable \<Rightarrow> placement \<Rightarrow> width_request \<Rightarrow> int list \<Rightarrow> table_failure + int list" where
  "wanted_widths t place rq current =
    (case rq of
       FitText \<Rightarrow>
         (if t_nested_in t \<noteq> None then Inl (Refused ''table_geometry_unknown'')
          else case available_of place of
            None \<Rightarrow> Inl (Refused ''table_geometry_unknown'')
          | Some room \<Rightarrow> Inr (fitted room current))
     | ColumnWidths hus \<Rightarrow>
         (if int (length hus) \<noteq> t_cols t then Inl (Refused ''column_widths_mismatch'')
          else
            let ws = map2 (\<lambda>old hu. if \<bar>of_int old - hu\<bar> \<le> 1 then old else round_half_even hu) current hus in
            case available_of place of
              Some room \<Rightarrow> if sum_list ws > room then Inl (Refused ''table_would_overflow'') else Inr ws
            | None \<Rightarrow> Inr ws))"

definition cell_rect :: "ncell \<Rightarrow> rect" where
  "cell_rect c = \<lparr>r_top = n_row c, r_bottom = n_row c + n_row_span c - 1, r_left = n_col c,
    r_right = n_col c + n_col_span c - 1, r_cells = [c]\<rparr>"

fun column_rects :: "ntable \<Rightarrow> int \<Rightarrow> int list \<Rightarrow> int list \<Rightarrow> table_failure + (rect \<times> int) list" where
  "column_rects t k (old # olds) (new # news) =
    (if old = new then column_rects t (k + 1) olds news
     else case rect_of t (1, k) (t_rows t, k) of
       Inl f \<Rightarrow> Inl f
     | Inr area \<Rightarrow> (case column_rects t (k + 1) olds news of Inl f \<Rightarrow> Inl f | Inr rs \<Rightarrow> Inr ((area, new) # rs)))"
| "column_rects t k _ _ = Inr []"

definition width_rects :: "ntable \<Rightarrow> (ncell \<Rightarrow> int) \<Rightarrow> int list \<Rightarrow> int list \<Rightarrow> table_failure + (rect \<times> int) list" where
  "width_rects t expected current wanted =
    (if \<exists>c \<in> set (t_cells t). n_col_span c > 1
     then Inr (map (\<lambda>c. (cell_rect c, expected c)) (filter (\<lambda>c. n_width c \<noteq> expected c) (sort_key n_key (t_cells t))))
     else column_rects t 1 current wanted)"

definition plan_width :: "ntable \<Rightarrow> placement \<Rightarrow> width_request \<Rightarrow> table_failure + width_plan" where
  "plan_width t place rq =
    (case column_edges t of
       None \<Rightarrow> Inl (Refused ''table_geometry_unknown'')
     | Some edges \<Rightarrow>
       (let current = column_sizes edges in
        case wanted_widths t place rq current of
          Inl f \<Rightarrow> Inl f
        | Inr wanted \<Rightarrow>
          if \<exists>w \<in> set wanted. w < min_column_hu then Inl (Refused ''column_too_narrow'')
          else
            (let new_edges = edges_from 0 wanted;
                 expected = (\<lambda>c. edge_at new_edges (n_col c - 1 + n_col_span c) - edge_at new_edges (n_col c - 1))
             in case width_rects t expected current wanted of
                  Inl f \<Rightarrow> Inl f
                | Inr rs \<Rightarrow> if length rs > max_width_actions then Inl (Refused ''table_too_large'')
                    else Inr \<lparr>wp_expected = expected, wp_rects = rs, wp_total = last new_edges\<rparr>)))"

definition width_cell_problems :: "width_plan \<Rightarrow> ntable \<Rightarrow> ncell \<Rightarrow> problem list" where
  "width_cell_problems p a c =
    (case find (\<lambda>d. n_key d = n_key c) (rev (t_cells a)) of
       None \<Rightarrow> [NoCellAt (n_key c)]
     | Some got \<Rightarrow>
         same_cell_problems (n_key c) c got
         @ (if n_border got \<noteq> n_border c then [LinesOf (n_key c)] else [])
         @ (if n_fill got \<noteq> n_fill c then [FillOf (n_key c)] else [])
         @ (if n_width got \<noteq> wp_expected p c then [WidthOf (n_key c)] else []))"

definition width_problems :: "ntable \<Rightarrow> width_plan \<Rightarrow> ntable option \<Rightarrow> problem list" where
  "width_problems t p observed =
    (case observed of
       None \<Rightarrow> [TableGone]
     | Some a \<Rightarrow>
         (if (t_rows a, t_cols a, t_frame a) \<noteq> (t_rows t, t_cols t, t_frame t) then [GridDiffers] else [])
         @ concat (map (width_cell_problems p a) (t_cells t))
         @ (if length (t_cells a) \<noteq> length (t_cells t) then [CellCount] else [])
         @ (if (case t_size_width a of None \<Rightarrow> True | Some w \<Rightarrow> \<bar>w - wp_total p\<bar> > 2) then [SizeDiffers] else []))"

section \<open>The document around the table\<close>

record paragraph_row =
  pr_digest :: string
  pr_chain :: "string list"
  pr_text :: string
  pr_objects :: "string list"
  pr_body_index :: "int option"

record document =
  dc_census :: "string \<Rightarrow> string"
  dc_definitions :: "(string \<times> string list) list"
  dc_controls :: "string list"
  dc_tables :: "ntable list"
  dc_margin_tables :: "ntable list"
  dc_duplicates :: "string list"
  dc_paragraphs :: "paragraph_row list"
  dc_pictures :: "string option list"

datatype doc_problem =
    CensusChanged string | DefinitionsChanged string | ControlsDiffer | ControlsChanged
  | OutsideParagraph | OtherTable | PictureCount nat nat | PictureLost
  | NotItsOwnParagraphs | HolderNotAlone | FollowerNotBlank | OutsideNewTable

definition compared_fields :: "string list" where
  "compared_fields = [''header_footer'', ''styles_sha256'', ''numberings_sha256'', ''bindata_sha256'', ''media_sha256'',
    ''outline_shapes'', ''page_restarts'']"

definition structure_lists :: "string list" where
  "structure_lists = [''borderfilllist'', ''charshapelist'', ''parashapelist'', ''facenamelist'', ''tabdeflist'']"

definition surplus :: "string list \<Rightarrow> string list \<Rightarrow> string list" where
  "surplus xs ys = concat (map (\<lambda>x. replicate (count_list xs x - count_list ys x) x) (rev (remdups (rev xs))))"

definition multiset_delta :: "string list \<Rightarrow> string list \<Rightarrow> string list \<times> string list" where
  "multiset_delta before after = (surplus before after, surplus after before)"

text \<open>Tables with every table nested in them; a parent comes before what it holds.\<close>

fun add_nested :: "ntable list \<Rightarrow> string list \<Rightarrow> string list" where
  "add_nested [] found = found"
| "add_nested (t # ts) found =
    add_nested ts (case t_nested_in t of None \<Rightarrow> found | Some p \<Rightarrow> if p \<in> set found then t_id t # found else found)"

definition with_descendants :: "ntable list \<Rightarrow> string list \<Rightarrow> string list" where
  "with_descendants ts insts = add_nested ts (map (\<lambda>i. ''tbl:'' @ i) insts)"

fun picture_loop :: "string option list \<Rightarrow> string option list \<Rightarrow> doc_problem list" where
  "picture_loop old [] = []"
| "picture_loop old (p # ps) = (if p = None \<or> p \<notin> set old then [PictureLost] else picture_loop (remove1 p old) ps)"

definition kept_picture_problems :: "document \<Rightarrow> document \<Rightarrow> nat \<Rightarrow> doc_problem list" where
  "kept_picture_problems before after removed =
    (let old = dc_pictures before; new = dc_pictures after in
     if int (length new) \<noteq> int (length old) - int removed then [PictureCount (length old) (length new)]
     else picture_loop old new)"

definition definitions_of :: "document \<Rightarrow> string \<Rightarrow> string list" where
  "definitions_of d name = (case map_of (dc_definitions d) name of None \<Rightarrow> [] | Some xs \<Rightarrow> xs)"

definition definition_problems :: "document \<Rightarrow> document \<Rightarrow> string list \<Rightarrow> doc_problem list" where
  "definition_problems before after allowed =
    map DefinitionsChanged (filter (\<lambda>name.
        (case multiset_delta (definitions_of before name) (definitions_of after name) of
           (removed, added) \<Rightarrow> (removed \<noteq> [] \<or> added \<noteq> []) \<and> name \<notin> set allowed))
      (sort (remdups (map fst (dc_definitions before) @ map fst (dc_definitions after)))))"

definition states_of :: "ntable list \<Rightarrow> (string \<times> string) list" where
  "states_of ts = map (\<lambda>t. (t_id t, t_state t)) ts"

definition same_dict :: "('k \<times> 'v) list \<Rightarrow> ('k \<times> 'v) list \<Rightarrow> bool" where
  "same_dict xs ys \<longleftrightarrow> (\<forall>k \<in> set (map fst xs @ map fst ys). map_of (rev xs) k = map_of (rev ys) k)"

definition outside_rows :: "document \<Rightarrow> ntable option \<Rightarrow> paragraph_row list" where
  "outside_rows d target =
    filter (\<lambda>row. case target of None \<Rightarrow> True | Some t \<Rightarrow> t_inst t \<notin> set (pr_chain row)) (dc_paragraphs d)"

definition not_target :: "ntable option \<Rightarrow> ntable \<Rightarrow> bool" where
  "not_target target x \<longleftrightarrow> (case target of None \<Rightarrow> True | Some t \<Rightarrow> t_id x \<noteq> t_id t)"

definition document_problems ::
  "document \<Rightarrow> document \<Rightarrow> ntable option \<Rightarrow> string list \<Rightarrow> string list \<Rightarrow> string list \<Rightarrow> bool \<Rightarrow> bool \<Rightarrow> doc_problem list" where
  "document_problems before after target allowed removed_objects removed_tables new_paragraphs new_table =
    (let pic = ''picture'' \<in> set removed_objects;
         compared = filter (\<lambda>n. \<not> (pic \<and> n \<in> {''bindata_sha256'', ''media_sha256''}))
           (compared_fields @ (if new_paragraphs then [] else [''frame'']));
         gone = with_descendants (dc_tables before) removed_tables;
         others_before = states_of (filter (\<lambda>x. not_target target x \<and> t_id x \<notin> set gone) (dc_tables before));
         others_after = filter (\<lambda>(k, v). \<not> new_table \<or> k \<in> set (map fst others_before))
           (states_of (filter (not_target target) (dc_tables after)))
     in map CensusChanged (filter (\<lambda>n. dc_census before n \<noteq> dc_census after n) compared)
        @ (if pic then
             kept_picture_problems before after (count_list removed_objects ''picture'')
             @ (case multiset_delta (dc_controls before) (dc_controls after) of
                  (removed, added) \<Rightarrow>
                    if added \<noteq> [] \<or> length removed < length (filter (\<lambda>n. n \<in> {''table'', ''picture''}) removed_objects)
                    then [ControlsDiffer] else [])
           else [])
        @ definition_problems before after allowed
        @ (if sort (dc_controls before) \<noteq> sort (dc_controls after) \<and> removed_objects = [] \<and> \<not> new_table then [ControlsChanged] else [])
        @ (if \<not> new_table \<and> map pr_digest (outside_rows before target) \<noteq> map pr_digest (outside_rows after target)
           then [OutsideParagraph] else [])
        @ (if \<not> same_dict others_before others_after then [OtherTable] else []))"

text \<open>\<open>anchor\<close> is the position of the anchor paragraph among the paragraphs before, if it is one of them.\<close>

definition new_table_paragraph_problems :: "document \<Rightarrow> document \<Rightarrow> nat option \<Rightarrow> string \<Rightarrow> doc_problem list" where
  "new_table_paragraph_problems before after anchor new_inst =
    (let old = dc_paragraphs before; new = filter (\<lambda>row. new_inst \<notin> set (pr_chain row)) (dc_paragraphs after) in
     case anchor of
       None \<Rightarrow> [NotItsOwnParagraphs]
     | Some k \<Rightarrow>
       if length new \<noteq> length old + 2 then [NotItsOwnParagraphs]
       else
         (let holding = new ! (k + 1); blank = new ! (k + 2) in
          (if pr_objects holding \<noteq> [''table''] \<or> pr_text holding \<noteq> [] \<or> pr_body_index holding = None then [HolderNotAlone] else [])
          @ (if pr_objects blank \<noteq> [] \<or> pr_text blank \<noteq> [] \<or> pr_body_index blank = None then [FollowerNotBlank] else [])
          @ (if map pr_digest old \<noteq> map pr_digest (take (k + 1) new @ drop (k + 3) new) then [OutsideNewTable] else [])))"

end
