(* ===== verification/NativeCommand.thy ===== *)
theory NativeCommand
  imports NativeStyle
begin

text \<open>
  Running a table command against Hancom, app/native_table.py: aiming (\<open>enter_table\<close>, \<open>goto_cell\<close>,
  \<open>select_block\<close>), issuing the native call, reading back and judging (\<open>apply_edit\<close>, \<open>apply_style\<close>,
  \<open>apply_width\<close>) under \<open>_guarded\<close>. The Hancom object is a parameter: a record of operations on an
  unknown device state, each of which may fail with any error. \<open>s_reached\<close> is \<open>reach.reached\<close> and
  \<open>s_calls\<close> lists the mutating calls issued, in order.
\<close>

section \<open>Commands that can fail\<close>

text \<open>
  \<open>Refusal\<close> and \<open>ReadFailed\<close> are \<open>NativeNumberingRefusal\<close> and its subclass for a native read that
  raised, \<open>MutationUnproven\<close> is \<open>NativeNumberingMutationError\<close>, \<open>OtherError\<close> any other exception.
\<close>

datatype command_failure = Refusal string | ReadFailed string | MutationUnproven string | OtherError string

record 'd native_session =
  s_device :: 'd
  s_reached :: bool
  s_calls :: "string list"

type_synonym ('d, 'a) device_op = "'d \<Rightarrow> (command_failure + 'a) \<times> 'd"
type_synonym ('d, 'a) cmd = "'d native_session \<Rightarrow> (command_failure + 'a) \<times> 'd native_session"

definition ret :: "'a \<Rightarrow> ('d, 'a) cmd" where
  "ret x s = (Inr x, s)"

definition fail :: "command_failure \<Rightarrow> ('d, 'a) cmd" where
  "fail e s = (Inl e, s)"

definition bind_c :: "('d, 'a) cmd \<Rightarrow> ('a \<Rightarrow> ('d, 'b) cmd) \<Rightarrow> ('d, 'b) cmd" where
  "bind_c m f s = (case m s of (Inl e, s') \<Rightarrow> (Inl e, s') | (Inr x, s') \<Rightarrow> f x s')"

definition seq_c :: "('d, 'a) cmd \<Rightarrow> ('d, 'b) cmd \<Rightarrow> ('d, 'b) cmd" where
  "seq_c m n = bind_c m (\<lambda>_. n)"

definition on_device :: "('d, 'a) device_op \<Rightarrow> ('d, 'a) cmd" where
  "on_device f s = (case f (s_device s) of (r, d) \<Rightarrow> (r, s\<lparr>s_device := d\<rparr>))"

definition refuse_unless :: "bool \<Rightarrow> string \<Rightarrow> ('d, unit) cmd" where
  "refuse_unless b code = (if b then ret () else fail (Refusal code))"

definition of_table_failure :: "table_failure \<Rightarrow> command_failure" where
  "of_table_failure f = (case f of Refused c \<Rightarrow> Refusal c | Crashed \<Rightarrow> OtherError ''TypeError'')"

definition lift_sum :: "table_failure + 'a \<Rightarrow> ('d, 'a) cmd" where
  "lift_sum r = (case r of Inl f \<Rightarrow> fail (of_table_failure f) | Inr x \<Rightarrow> ret x)"

section \<open>The device\<close>

datatype native_call =
    MergeCall | DeleteBlockCall | DeleteLineCall string | InsertCall int int | SplitCall int int
  | BorderCall "(string \<times> int) list" | FillCall string | WidthCall int

definition call_name :: "native_call \<Rightarrow> string" where
  "call_name c =
    (case c of MergeCall \<Rightarrow> ''TableMergeCell'' | DeleteBlockCall \<Rightarrow> ''TableDeleteCell'' | DeleteLineCall n \<Rightarrow> n
     | InsertCall _ _ \<Rightarrow> ''TableInsertRowColumn'' | SplitCall _ _ \<Rightarrow> ''TableSplitCell'' | BorderCall _ \<Rightarrow> ''CellBorder''
     | FillCall _ \<Rightarrow> ''CellFill'' | WidthCall _ \<Rightarrow> ''TablePropertyDialog'')"

record 'd hancom =
  hw_read :: "('d, document) device_op"
  hw_page :: "string \<Rightarrow> ('d, int option) device_op"
  hw_run :: "string \<Rightarrow> ('d, bool) device_op"
  hw_goto_control :: "string \<Rightarrow> ('d, bool) device_op"
  hw_is_cell :: "('d, bool) device_op"
  hw_parent :: "('d, string option) device_op"
  hw_cell_addr :: "('d, (int \<times> int) option) device_op"
  hw_selection_mode :: "('d, int) device_op"
  hw_selected :: "('d, (int \<times> int) list option) device_op"
  hw_defaults :: "string \<Rightarrow> ('d, bool) device_op"
  hw_on_mutating :: "('d, unit) device_op"
  hw_native :: "native_call \<Rightarrow> ('d, bool) device_op"
  hw_restore :: "('d, unit) device_op"

text \<open>\<open>reach.issue()\<close> and then the call, which must be confirmed.\<close>

definition reach_issue :: "'d hancom \<Rightarrow> ('d, unit) cmd" where
  "reach_issue h s =
    (case hw_on_mutating h (s_device s) of
       (Inl e, d) \<Rightarrow> (Inl e, s\<lparr>s_device := d\<rparr>)
     | (Inr _, d) \<Rightarrow> (Inr (), s\<lparr>s_device := d, s_reached := True\<rparr>))"

definition log_call :: "native_call \<Rightarrow> ('d, unit) cmd" where
  "log_call c s = (Inr (), s\<lparr>s_calls := s_calls s @ [call_name c]\<rparr>)"

definition issue_call :: "'d hancom \<Rightarrow> native_call \<Rightarrow> ('d, unit) cmd" where
  "issue_call h c =
    seq_c (reach_issue h) (seq_c (log_call c)
      (bind_c (on_device (hw_native h c)) (\<lambda>ok. if ok then ret () else fail (MutationUnproven (call_name c)))))"

definition guarded :: "('d, 'a) cmd \<Rightarrow> ('d, 'a) cmd" where
  "guarded body s =
    (case body s of
       (Inr x, s') \<Rightarrow> (Inr x, s')
     | (Inl (MutationUnproven m), s') \<Rightarrow> (Inl (MutationUnproven m), s')
     | (Inl e, s') \<Rightarrow> if s_reached s' then (Inl (MutationUnproven ''exception''), s') else (Inl e, s'))"

section \<open>Aiming\<close>

definition run_action :: "'d hancom \<Rightarrow> string \<Rightarrow> ('d, bool) cmd" where
  "run_action h name = on_device (hw_run h name)"

definition in_table_now :: "'d hancom \<Rightarrow> string \<Rightarrow> ('d, bool) cmd" where
  "in_table_now h inst =
    bind_c (on_device (hw_is_cell h)) (\<lambda>c.
      if \<not> c then ret False else bind_c (on_device (hw_parent h)) (\<lambda>p. ret (p = Some inst)))"

text \<open>Short-circuit \<open>not in_table or selection != 0\<close>: the second value is read only when needed.\<close>

definition plain_in_table :: "'d hancom \<Rightarrow> string \<Rightarrow> ('d, bool) cmd" where
  "plain_in_table h inst =
    bind_c (in_table_now h inst) (\<lambda>b.
      if \<not> b then ret False else bind_c (on_device (hw_selection_mode h)) (\<lambda>m. ret (m = 0)))"

definition cancel_and_refuse :: "'d hancom \<Rightarrow> string \<Rightarrow> ('d, 'a) cmd" where
  "cancel_and_refuse h code = seq_c (run_action h ''Cancel'') (fail (Refusal code))"

definition enter_table :: "'d hancom \<Rightarrow> string \<Rightarrow> ('d, unit) cmd" where
  "enter_table h inst =
    seq_c (run_action h ''Cancel'')
      (bind_c (on_device (hw_goto_control h inst)) (\<lambda>found.
        if \<not> found then fail (Refusal ''target_table_not_entered'')
        else seq_c (run_action h ''ShapeObjTextBoxEdit'')
          (bind_c (plain_in_table h inst) (\<lambda>ok.
            if ok then ret () else cancel_and_refuse h ''target_table_not_entered''))))"

text \<open>The bounded walk of \<open>goto_cell\<close>, cell by cell.\<close>

fun walk_to :: "'d hancom \<Rightarrow> int \<times> int \<Rightarrow> nat \<Rightarrow> ('d, unit) cmd" where
  "walk_to h target 0 = fail (Refusal ''target_cell_unreachable'')"
| "walk_to h target (Suc n) =
    bind_c (on_device (hw_cell_addr h)) (\<lambda>a.
      if a = Some target then ret ()
      else bind_c (run_action h ''TableRightCell'') (\<lambda>ok.
        if ok then walk_to h target n else fail (Refusal ''target_cell_unreachable'')))"

definition goto_cell :: "'d hancom \<Rightarrow> string \<Rightarrow> int \<times> int \<Rightarrow> nat \<Rightarrow> ('d, unit) cmd" where
  "goto_cell h inst target cell_total =
    seq_c (run_action h ''TableColBegin'') (seq_c (run_action h ''TableColPageUp'')
      (seq_c (walk_to h target (cell_total * 2 + 500 + 2))
        (bind_c (in_table_now h inst) (\<lambda>b.
          if \<not> b then fail (Refusal ''target_cell_unreachable'')
          else bind_c (on_device (hw_cell_addr h)) (\<lambda>a.
            if a \<noteq> Some target then fail (Refusal ''target_cell_unreachable'')
            else bind_c (on_device (hw_selection_mode h)) (\<lambda>m.
              refuse_unless (m = 0) ''target_cell_unreachable''))))))"

text \<open>
  The moves from a block's first cell to its far corner. A position no cell covers is an error of
  the code (\<open>None\<close>).
\<close>

definition last_col :: "ncell \<Rightarrow> int" where "last_col c = n_col c + n_col_span c - 1"
definition last_row :: "ncell \<Rightarrow> int" where "last_row c = n_row c + n_row_span c - 1"

lemma covering_Some: "covering t r c = Some d \<Longrightarrow> d \<in> set (t_cells t) \<and> n_covers d r c"
  by (auto simp: covering_def find_Some_iff)

function right_moves :: "ntable \<Rightarrow> int \<Rightarrow> int \<Rightarrow> int \<Rightarrow> ncell \<Rightarrow> (nat \<times> int \<times> ncell) option" where
  "right_moves t rt row col c =
    (if last_col c < rt then
       (case covering t row (last_col c + 1) of
          None \<Rightarrow> None
        | Some d \<Rightarrow> map_option (\<lambda>(n, x). (Suc n, x)) (right_moves t rt row (last_col c + 1) d))
     else Some (0, col, c))"
  by pat_completeness auto
termination
  by (relation "measure (\<lambda>(t, rt, row, col, c). nat (rt - last_col c))")
     (auto dest!: covering_Some simp: n_covers_def last_col_def)

function lower_moves :: "ntable \<Rightarrow> int \<Rightarrow> int \<Rightarrow> ncell \<Rightarrow> (nat \<times> ncell) option" where
  "lower_moves t dn col c =
    (if last_row c < dn then
       (case covering t (last_row c + 1) col of
          None \<Rightarrow> None
        | Some d \<Rightarrow> map_option (\<lambda>(n, x). (Suc n, x)) (lower_moves t dn col d))
     else Some (0, c))"
  by pat_completeness auto
termination
  by (relation "measure (\<lambda>(t, dn, col, c). nat (dn - last_row c))")
     (auto dest!: covering_Some simp: n_covers_def last_row_def)

declare right_moves.simps [simp del] lower_moves.simps [simp del]

definition block_walk :: "ntable \<Rightarrow> ncell \<Rightarrow> rect \<Rightarrow> (nat \<times> nat \<times> ncell) option" where
  "block_walk t c area =
    (case right_moves t (r_right area) (n_row c) (n_col c) c of
       None \<Rightarrow> None
     | Some (m, col, d) \<Rightarrow>
         (case lower_moves t (r_bottom area) col d of None \<Rightarrow> None | Some (n, e) \<Rightarrow> Some (m, n, e)))"

definition block_moves :: "ntable \<Rightarrow> ncell \<Rightarrow> rect \<Rightarrow> string list option" where
  "block_moves t c area =
    map_option (\<lambda>(m, n, e). replicate m ''TableRightCell'' @ replicate n ''TableLowerCell'') (block_walk t c area)"

fun run_all :: "'d hancom \<Rightarrow> string list \<Rightarrow> ('d, unit) cmd" where
  "run_all h [] = ret ()"
| "run_all h (m # ms) = seq_c (run_action h m) (run_all h ms)"

definition check_selection :: "'d hancom \<Rightarrow> string \<Rightarrow> ncell list \<Rightarrow> ('d, unit) cmd" where
  "check_selection h inst cells =
    bind_c (on_device (hw_selected h)) (\<lambda>sel.
      if (case sel of None \<Rightarrow> True | Some xs \<Rightarrow> sort xs \<noteq> sort (map n_key cells))
      then cancel_and_refuse h ''selection_unverified''
      else bind_c (on_device (hw_selection_mode h)) (\<lambda>m.
        if m = 0 then cancel_and_refuse h ''selection_unverified''
        else bind_c (on_device (hw_parent h)) (\<lambda>p.
          if p \<noteq> Some inst then cancel_and_refuse h ''selection_unverified'' else ret ())))"

definition select_block :: "'d hancom \<Rightarrow> string \<Rightarrow> ntable \<Rightarrow> rect \<Rightarrow> ('d, unit) cmd" where
  "select_block h inst t area =
    (case sort_key n_key (r_cells area) of
       [] \<Rightarrow> fail (OtherError ''IndexError'')
     | c # cs \<Rightarrow>
       seq_c (goto_cell h inst (n_key c) (length (t_cells t)))
         (seq_c (run_action h ''TableCellBlock'') (seq_c (run_action h ''TableCellBlockExtend'')
           (case block_moves t c area of
              None \<Rightarrow> fail (OtherError ''TypeError'')
            | Some ms \<Rightarrow> seq_c (run_all h ms) (check_selection h inst (c # cs))))))"

section \<open>Issuing\<close>

definition execute_fill :: "'d hancom \<Rightarrow> string \<Rightarrow> ('d, unit) cmd" where
  "execute_fill h fill =
    bind_c (on_device (hw_defaults h ''CellFill'')) (\<lambda>ok.
      if \<not> ok then cancel_and_refuse h ''selection_unverified'' else issue_call h (FillCall fill))"

definition execute_width :: "'d hancom \<Rightarrow> int \<Rightarrow> ('d, unit) cmd" where
  "execute_width h width =
    bind_c (on_device (hw_defaults h ''TablePropertyDialog'')) (\<lambda>ok.
      if \<not> ok then cancel_and_refuse h ''selection_unverified'' else issue_call h (WidthCall width))"

definition plan_area :: "edit_plan \<Rightarrow> rect" where
  "plan_area p = (case p_rect p of Some area \<Rightarrow> area | None \<Rightarrow> \<lparr>r_top = 0, r_bottom = 0, r_left = 0, r_right = 0, r_cells = []\<rparr>)"

definition execute_edit :: "'d hancom \<Rightarrow> string \<Rightarrow> ntable \<Rightarrow> edit_plan \<Rightarrow> ('d, string list) cmd" where
  "execute_edit h inst t p =
    (case p_native p of
       NativeMerge \<Rightarrow> seq_c (select_block h inst t (plan_area p)) (seq_c (issue_call h MergeCall) (ret [''Run:TableMergeCell'']))
     | NativeDeleteBlock \<Rightarrow>
         seq_c (select_block h inst t (plan_area p)) (seq_c (issue_call h DeleteBlockCall) (ret [''Run:TableDeleteCell'']))
     | NativeDeleteLine name \<Rightarrow>
         seq_c (goto_cell h inst (n_key (p_caret p)) (length (t_cells t)))
           (seq_c (issue_call h (DeleteLineCall name)) (ret [''Run:'' @ name]))
     | NativeInsert sd n \<Rightarrow>
         seq_c (goto_cell h inst (n_key (p_caret p)) (length (t_cells t)))
           (bind_c (on_device (hw_defaults h ''TableInsertRowColumn'')) (\<lambda>ok.
             if \<not> ok then fail (Refusal ''selection_unverified'')
             else seq_c (issue_call h (InsertCall sd n)) (ret [''Execute:TableInsertRowColumn''])))
     | NativeSplit rows cols \<Rightarrow>
         seq_c (goto_cell h inst (n_key (p_caret p)) (length (t_cells t)))
           (seq_c (issue_call h (SplitCall rows cols)) (ret [''Execute:TableSplitCell''])))"

section \<open>Commands\<close>

record outcome =
  o_changed :: bool
  o_actions :: "string list"
  o_before :: document
  o_after :: document
  o_page :: "int option"

definition find_table :: "document \<Rightarrow> string \<Rightarrow> ntable option" where
  "find_table d tid = find (\<lambda>t. t_id t = tid) (dc_tables d)"

definition doc_model :: "document \<Rightarrow> model" where
  "doc_model d = \<lparr>md_tables = dc_tables d, md_margin_tables = dc_margin_tables d, md_duplicates = dc_duplicates d\<rparr>"

definition finish_command :: "'d hancom \<Rightarrow> ('d, unit) cmd" where
  "finish_command h =
    seq_c (run_action h ''Cancel'') (seq_c (on_device (hw_restore h))
      (bind_c (on_device (hw_selection_mode h)) (\<lambda>m.
        if m \<noteq> 0 then fail (MutationUnproven ''block left'') else ret ())))"

text \<open>The common beginning: read, find the table, read its page, check the binding.\<close>

definition bound_table :: "'d hancom \<Rightarrow> string \<Rightarrow> binding \<Rightarrow> ('d, document \<times> ntable \<times> int option) cmd" where
  "bound_table h tid b =
    bind_c (on_device (hw_read h)) (\<lambda>before.
      bind_c (lift_sum (resolve_table (doc_model before) tid)) (\<lambda>t.
        bind_c (on_device (hw_page h (t_inst t))) (\<lambda>page.
          case require_binding t b page of
            Some f \<Rightarrow> fail (of_table_failure f)
          | None \<Rightarrow> ret (before, t, page))))"

text \<open>The common end: read again, judge, give the caret back.\<close>

definition judged :: "'d hancom \<Rightarrow> (document \<Rightarrow> bool) \<Rightarrow> ('d, document) cmd" where
  "judged h good =
    bind_c (on_device (hw_read h)) (\<lambda>after.
      if good after then seq_c (finish_command h) (ret after) else fail (MutationUnproven ''outcome''))"

definition caret_after :: "edit_request \<Rightarrow> edit_plan \<Rightarrow> (int \<times> int) option" where
  "caret_after rq p =
    (case rq of
       InsertLines s line n \<Rightarrow>
         (let c = p_caret p in
          Some (if s = TopSide then (n_row c + n, n_col c) else if s = LeftSide then (n_row c, n_col c + n)
                else (n_row c, n_col c)))
     | _ \<Rightarrow> None)"

definition edit_good :: "document \<Rightarrow> ntable \<Rightarrow> edit_plan \<Rightarrow> edit_request \<Rightarrow> (int \<times> int) option \<Rightarrow> document \<Rightarrow> bool" where
  "edit_good before t p rq caret after \<longleftrightarrow>
    edit_problems t p (find_table after (t_id t)) = []
    \<and> document_problems before after (Some t)
        (structure_lists @ (if ''picture'' \<in> set (p_removed_objects p) then [''bindatalist''] else []))
        (p_removed_objects p) (p_removed_tables p) False False = []
    \<and> (case caret_after rq p of None \<Rightarrow> True | Some k \<Rightarrow> caret = Some k)"

definition apply_edit :: "'d hancom \<Rightarrow> string \<Rightarrow> binding \<Rightarrow> edit_request \<Rightarrow> ('d, outcome) cmd" where
  "apply_edit h tid b rq =
    guarded (bind_c (bound_table h tid b) (\<lambda>(before, t, page).
      bind_c (lift_sum (plan_edit t rq)) (\<lambda>p.
        seq_c (enter_table h (t_inst t))
          (bind_c (execute_edit h (t_inst t) t p) (\<lambda>actions.
            bind_c (if caret_after rq p = None then ret None else on_device (hw_cell_addr h)) (\<lambda>caret.
              bind_c (seq_c (run_action h ''Cancel'') (judged h (edit_good before t p rq caret))) (\<lambda>after.
                ret \<lparr>o_changed = True, o_actions = actions, o_before = before, o_after = after, o_page = page\<rparr>)))))))"

definition unchanged :: "document \<Rightarrow> int option \<Rightarrow> outcome" where
  "unchanged before page = \<lparr>o_changed = False, o_actions = [], o_before = before, o_after = before, o_page = page\<rparr>"

definition aim :: "'d hancom \<Rightarrow> ntable \<Rightarrow> rect \<Rightarrow> ('d, unit) cmd" where
  "aim h t area = seq_c (enter_table h (t_inst t)) (select_block h (t_inst t) t area)"

text \<open>A refusal while aiming a later action is no clean refusal once an action ran.\<close>

definition aim_again :: "('d, unit) cmd \<Rightarrow> ('d, unit) cmd" where
  "aim_again m s =
    (case m s of
       (Inl (Refusal c), s') \<Rightarrow> (Inl (MutationUnproven ''not aimed''), s')
     | (Inl (ReadFailed c), s') \<Rightarrow> (Inl (MutationUnproven ''not aimed''), s')
     | r \<Rightarrow> r)"

definition when_reached :: "('d, 'a) cmd \<Rightarrow> ('d, 'a) cmd \<Rightarrow> ('d, 'a) cmd" where
  "when_reached m n s = (if s_reached s then m s else n s)"

definition style_actions :: "'d hancom \<Rightarrow> ntable \<Rightarrow> style_plan \<Rightarrow> ('d, string list) cmd" where
  "style_actions h t p =
    bind_c (if sp_items p = [] then ret []
            else seq_c (aim h t (sp_rect p)) (seq_c (issue_call h (BorderCall (sp_items p))) (ret [''Execute:CellBorder''])))
      (\<lambda>first_actions.
        case sp_fill p of
          None \<Rightarrow> ret first_actions
        | Some fill \<Rightarrow>
            seq_c (when_reached (aim_again (seq_c (run_action h ''Cancel'') (aim h t (sp_rect p)))) (aim h t (sp_rect p)))
              (seq_c (execute_fill h fill) (ret (first_actions @ [''Execute:CellFill'']))))"

definition style_good :: "document \<Rightarrow> ntable \<Rightarrow> style_plan \<Rightarrow> document \<Rightarrow> bool" where
  "style_good before t p after \<longleftrightarrow> style_problems t p (find_table after (t_id t)) = []
    \<and> document_problems before after (Some t) [''borderfilllist''] [] [] False False = []"

definition apply_style :: "'d hancom \<Rightarrow> string \<Rightarrow> binding \<Rightarrow> style_request \<Rightarrow> ('d, outcome) cmd" where
  "apply_style h tid b rq =
    guarded (bind_c (bound_table h tid b) (\<lambda>(before, t, page).
      bind_c (lift_sum (plan_style t rq)) (\<lambda>p.
        if sp_items p = [] \<and> sp_fill p = None then ret (unchanged before page)
        else bind_c (style_actions h t p) (\<lambda>actions.
          bind_c (seq_c (run_action h ''Cancel'') (judged h (style_good before t p))) (\<lambda>after.
            ret \<lparr>o_changed = True, o_actions = actions, o_before = before, o_after = after, o_page = page\<rparr>)))))"

fun width_actions :: "'d hancom \<Rightarrow> ntable \<Rightarrow> (rect \<times> int) list \<Rightarrow> ('d, unit) cmd" where
  "width_actions h t [] = ret ()"
| "width_actions h t ((area, width) # rs) =
    seq_c (when_reached (aim_again (aim h t area)) (aim h t area))
      (seq_c (execute_width h width) (seq_c (run_action h ''Cancel'') (width_actions h t rs)))"

definition width_good :: "document \<Rightarrow> ntable \<Rightarrow> width_plan \<Rightarrow> document \<Rightarrow> bool" where
  "width_good before t p after \<longleftrightarrow> width_problems t p (find_table after (t_id t)) = []
    \<and> document_problems before after (Some t) [] [] [] False False = []"

text \<open>\<open>place\<close> is the table's layout as the model of the document gives it.\<close>

definition apply_width :: "'d hancom \<Rightarrow> (document \<Rightarrow> ntable \<Rightarrow> placement) \<Rightarrow> string \<Rightarrow> binding \<Rightarrow> width_request \<Rightarrow> ('d, outcome) cmd" where
  "apply_width h place tid b rq =
    guarded (bind_c (bound_table h tid b) (\<lambda>(before, t, page).
      bind_c (lift_sum (plan_width t (place before t) rq)) (\<lambda>p.
        if wp_rects p = [] then ret (unchanged before page)
        else seq_c (width_actions h t (wp_rects p))
          (bind_c (judged h (width_good before t p)) (\<lambda>after.
            ret \<lparr>o_changed = True, o_actions = replicate (length (wp_rects p)) ''Execute:TablePropertyDialog'',
              o_before = before, o_after = after, o_page = page\<rparr>)))))"

end
