(* ===== verification/Tiling.thy ===== *)
theory Tiling
  imports Main
begin

text \<open>
  Boxes that tile a grid of lines: the geometry of a table whose cells may span lines. A box is
  its extent over the rows and over the columns, an extent a first line and a number of lines.
  The table theories map their cells to boxes and use the lemmas on inserting, removing and
  renumbering lines.
\<close>

type_synonym extent = "int \<times> int"
type_synonym box = "extent \<times> extent"

definition reaches :: "extent \<Rightarrow> int \<Rightarrow> bool" where
  "reaches e x \<longleftrightarrow> fst e \<le> x \<and> x < fst e + snd e"

definition box_covers :: "int \<Rightarrow> int \<Rightarrow> box \<Rightarrow> bool" where
  "box_covers r c b \<longleftrightarrow> reaches (fst b) r \<and> reaches (snd b) c"

definition fits :: "int \<Rightarrow> extent \<Rightarrow> bool" where
  "fits n e \<longleftrightarrow> 1 \<le> fst e \<and> 1 \<le> snd e \<and> fst e + snd e - 1 \<le> n"

definition tiling :: "int \<Rightarrow> int \<Rightarrow> box list \<Rightarrow> bool" where
  "tiling rows cols bs \<longleftrightarrow> (\<forall>b \<in> set bs. fits rows (fst b) \<and> fits cols (snd b))
    \<and> (\<forall>r c. 1 \<le> r \<and> r \<le> rows \<and> 1 \<le> c \<and> c \<le> cols \<longrightarrow> length (filter (box_covers r c) bs) = 1)"

lemma tilingI:
  assumes "\<And>b. b \<in> set bs \<Longrightarrow> fits rows (fst b) \<and> fits cols (snd b)"
    and "\<And>r c. 1 \<le> r \<Longrightarrow> r \<le> rows \<Longrightarrow> 1 \<le> c \<Longrightarrow> c \<le> cols \<Longrightarrow> length (filter (box_covers r c) bs) = 1"
  shows "tiling rows cols bs"
  using assms by (simp add: tiling_def)

lemma tiling_count:
  "tiling rows cols bs \<Longrightarrow> 1 \<le> r \<Longrightarrow> r \<le> rows \<Longrightarrow> 1 \<le> c \<Longrightarrow> c \<le> cols \<Longrightarrow> length (filter (box_covers r c) bs) = 1"
  by (simp add: tiling_def)

lemma tiling_fits: "tiling rows cols bs \<Longrightarrow> b \<in> set bs \<Longrightarrow> fits rows (fst b) \<and> fits cols (snd b)"
  by (simp add: tiling_def)

text \<open>Rows and columns are interchangeable.\<close>

lemma tiling_swap: "tiling cols rows (map prod.swap bs) \<longleftrightarrow> tiling rows cols bs"
proof -
  have "filter (box_covers c r) (map prod.swap bs) = map prod.swap (filter (box_covers r c) bs)" for r c
    by (simp add: filter_map comp_def box_covers_def [abs_def] conj_commute)
  then show ?thesis by (auto simp: tiling_def)
qed

text \<open>A tiling has one box per position, so boxes that start at the same place are one.\<close>

lemma tiling_distinct_corners:
  assumes "tiling rows cols bs"
  shows "distinct (map (\<lambda>b. (fst (fst b), fst (snd b))) bs)"
proof (rule ccontr)
  assume "\<not> ?thesis"
  then obtain i j where ij: "i \<noteq> j" "i < length bs" "j < length bs" "fst (fst (bs ! i)) = fst (fst (bs ! j))"
    "fst (snd (bs ! i)) = fst (snd (bs ! j))" by (auto simp: distinct_conv_nth)
  let ?r = "fst (fst (bs ! j))" and ?c = "fst (snd (bs ! j))"
  have f: "fits rows (fst (bs ! k)) \<and> fits cols (snd (bs ! k))" if "k < length bs" for k
    using tiling_fits [OF assms] that by simp
  have cov: "box_covers ?r ?c (bs ! i)" "box_covers ?r ?c (bs ! j)"
    using f [of i] f [of j] ij by (auto simp: box_covers_def reaches_def fits_def)
  have "length (filter (box_covers ?r ?c) bs) = card {k. k < length bs \<and> box_covers ?r ?c (bs ! k)}"
    by (rule length_filter_conv_card)
  moreover have "card {i, j} \<le> card {k. k < length bs \<and> box_covers ?r ?c (bs ! k)}"
    using cov ij by (intro card_mono) auto
  ultimately have "2 \<le> length (filter (box_covers ?r ?c) bs)" using ij(1) by simp
  moreover have "length (filter (box_covers ?r ?c) bs) = 1"
    using f [OF ij(3)] by (intro tiling_count [OF assms]) (auto simp: fits_def)
  ultimately show False by simp
qed

text \<open>
  The common argument: when the boxes of a new grid correspond to those of an old one position by
  position, the new grid is tiled too.
\<close>

lemma tiling_transfer:
  assumes "tiling rows cols bs" and "\<And>b. b \<in> set bs' \<Longrightarrow> fits rows' (fst b) \<and> fits cols (snd b)"
    and "\<And>r c. 1 \<le> r \<Longrightarrow> r \<le> rows' \<Longrightarrow> 1 \<le> c \<Longrightarrow> c \<le> cols \<Longrightarrow>
      1 \<le> old r \<and> old r \<le> rows \<and> length (filter (box_covers r c) bs') = length (filter (box_covers (old r) c) bs)"
  shows "tiling rows' cols bs'"
proof (rule tilingI)
  fix r c assume "1 \<le> r" "r \<le> rows'" "1 \<le> c" "c \<le> cols"
  with assms(3) [of r c] tiling_count [OF assms(1), of "old r" c] show "length (filter (box_covers r c) bs') = 1" by simp
qed (use assms(2) in blast)

section \<open>Inserting rows\<close>

definition push_extent :: "int \<Rightarrow> int \<Rightarrow> extent \<Rightarrow> extent" where
  "push_extent p n e = (if fst e \<ge> p then (fst e + n, snd e) else if fst e + snd e > p then (fst e, snd e + n) else e)"

definition crosses_line :: "int \<Rightarrow> extent \<Rightarrow> bool" where
  "crosses_line p e \<longleftrightarrow> fst e < p \<and> p < fst e + snd e"

definition insert_boxes :: "int \<Rightarrow> int \<Rightarrow> int \<Rightarrow> box list \<Rightarrow> box list" where
  "insert_boxes line p n bs =
    map (\<lambda>b. (push_extent p n (fst b), snd b)) bs
    @ concat (map (\<lambda>i. map (\<lambda>b. ((p + i, 1), snd b)) (filter (\<lambda>b. reaches (fst b) line \<and> \<not> crosses_line p (fst b)) bs)) [0..n - 1])"

lemma concat_pick:
  assumes "distinct xs" and "k \<in> set xs" and "\<And>i. i \<in> set xs \<Longrightarrow> i \<noteq> k \<Longrightarrow> f i = []"
  shows "concat (map f xs) = f k"
  using assms
proof (induction xs)
  case (Cons a xs)
  show ?case
  proof (cases "a = k")
    case True
    with Cons.prems have "\<forall>i \<in> set xs. f i = []" by auto
    with True show ?thesis by (simp add: concat_eq_Nil_conv)
  next
    case False
    with Cons show ?thesis by simp
  qed
qed simp

lemma filter_split_count:
  "length (filter p xs) + length (filter q xs) = length (filter (\<lambda>x. p x \<or> q x) xs)" if "\<And>x. \<not> (p x \<and> q x)"
  using that by (induction xs) auto

lemma insert_tiling:
  assumes t: "tiling rows cols bs" and "0 \<le> n" and "1 \<le> line" and "line \<le> rows" and p: "p = line \<or> p = line + 1"
  shows "tiling (rows + n) cols (insert_boxes line p n bs)"
proof (rule tiling_transfer [OF t, where old = "\<lambda>r. if r < p then r else if r < p + n then line else r - n"])
  fix b assume "b \<in> set (insert_boxes line p n bs)"
  then show "fits (rows + n) (fst b) \<and> fits cols (snd b)"
    using assms(2-5) tiling_fits [OF t]
    by (auto simp: insert_boxes_def push_extent_def fits_def split: if_splits; fastforce)
next
  fix r c assume rc: "1 \<le> r" "r \<le> rows + n" "1 \<le> c" "c \<le> cols"
  let ?new = "\<lambda>i. map (\<lambda>b. ((p + i, 1 :: int), snd b)) (filter (\<lambda>b. reaches (fst b) line \<and> \<not> crosses_line p (fst b)) bs)"
  let ?old = "if r < p then r else if r < p + n then line else r - n"
  have fits1: "1 \<le> snd (fst b)" if "b \<in> set bs" for b using tiling_fits [OF t that] by (simp add: fits_def)
  have new: "filter (box_covers r c) (concat (map ?new [0..n - 1])) =
      (if p \<le> r \<and> r < p + n then filter (box_covers r c) (?new (r - p)) else [])"
  proof -
    have "filter (box_covers r c) (concat (map ?new [0..n - 1])) = concat (map (\<lambda>i. filter (box_covers r c) (?new i)) [0..n - 1])"
      by (simp add: filter_concat comp_def)
    moreover have empty: "filter (box_covers r c) (?new i) = []" if "i \<noteq> r - p" for i
      using that by (auto simp: filter_empty_conv box_covers_def reaches_def)
    ultimately show ?thesis
      using concat_pick [of "[0..n - 1]" "r - p" "\<lambda>i. filter (box_covers r c) (?new i)"]
      by (auto simp: concat_eq_Nil_conv)
  qed
  have kept: "filter (box_covers r c) (map (\<lambda>b. (push_extent p n (fst b), snd b)) bs) =
      map (\<lambda>b. (push_extent p n (fst b), snd b)) (filter (\<lambda>b. reaches (push_extent p n (fst b)) r \<and> reaches (snd b) c) bs)"
    by (simp add: filter_map comp_def box_covers_def)
  have count: "length (filter (box_covers r c) (insert_boxes line p n bs)) = length (filter (box_covers ?old c) bs)"
  proof (cases "p \<le> r \<and> r < p + n")
    case False
    have "filter (\<lambda>b. reaches (push_extent p n (fst b)) r \<and> reaches (snd b) c) bs = filter (box_covers ?old c) bs"
    proof (rule filter_cong [OF refl])
      fix b assume "b \<in> set bs"
      with fits1 [of b] False assms(2) show "(reaches (push_extent p n (fst b)) r \<and> reaches (snd b) c) = box_covers ?old c b"
        by (auto simp: reaches_def push_extent_def box_covers_def)
    qed
    then show ?thesis by (simp only: insert_boxes_def filter_append length_append new kept if_not_P [OF False] list.size add_0_right length_map)
  next
    case True
    have "filter (\<lambda>b. reaches (push_extent p n (fst b)) r \<and> reaches (snd b) c) bs
        = filter (\<lambda>b. crosses_line p (fst b) \<and> reaches (snd b) c) bs"
      using True by (intro filter_cong [OF refl]) (auto simp: reaches_def push_extent_def crosses_line_def)
    moreover have "filter (box_covers r c) (?new (r - p)) = map (\<lambda>b. ((r, 1), snd b))
        (filter (\<lambda>b. (reaches (fst b) line \<and> \<not> crosses_line p (fst b)) \<and> reaches (snd b) c) bs)"
      by (simp add: filter_map comp_def box_covers_def reaches_def conj_commute)
    moreover have "filter (\<lambda>b. crosses_line p (fst b) \<and> reaches (snd b) c \<or>
          (reaches (fst b) line \<and> \<not> crosses_line p (fst b)) \<and> reaches (snd b) c) bs = filter (box_covers line c) bs"
      using p by (intro filter_cong [OF refl]) (auto simp: box_covers_def reaches_def crosses_line_def)
    ultimately show ?thesis
      using True kept new
        filter_split_count [of "\<lambda>b. crosses_line p (fst b) \<and> reaches (snd b) c"
          "\<lambda>b. (reaches (fst b) line \<and> \<not> crosses_line p (fst b)) \<and> reaches (snd b) c" bs]
      by (simp add: insert_boxes_def)
  qed
  from rc assms(2-5) count show "1 \<le> ?old \<and> ?old \<le> rows \<and>
      length (filter (box_covers r c) (insert_boxes line p n bs)) = length (filter (box_covers ?old c) bs)" by auto
qed

section \<open>Removing rows\<close>

definition pull_extent :: "int \<Rightarrow> int \<Rightarrow> extent \<Rightarrow> extent" where
  "pull_extent first_line n e =
    (let stop = fst e + snd e; last_line = first_line + n in
     (if fst e < first_line then fst e else if fst e < last_line then first_line else fst e - n,
      stop - fst e - max 0 (min stop last_line - max (fst e) first_line)))"

definition removed_extent :: "int \<Rightarrow> int \<Rightarrow> extent \<Rightarrow> bool" where
  "removed_extent first_line n e \<longleftrightarrow> first_line \<le> fst e \<and> fst e + snd e \<le> first_line + n"

definition delete_boxes :: "int \<Rightarrow> int \<Rightarrow> box list \<Rightarrow> box list" where
  "delete_boxes first_line n bs =
    map (\<lambda>b. (pull_extent first_line n (fst b), snd b)) (filter (\<lambda>b. \<not> removed_extent first_line n (fst b)) bs)"

lemma delete_tiling:
  assumes t: "tiling rows cols bs" and "0 \<le> n" and "1 \<le> first_line" and "first_line + n - 1 \<le> rows"
  shows "tiling (rows - n) cols (delete_boxes first_line n bs)"
proof (rule tiling_transfer [OF t, where old = "\<lambda>r. if r < first_line then r else r + n"])
  fix b assume "b \<in> set (delete_boxes first_line n bs)"
  then show "fits (rows - n) (fst b) \<and> fits cols (snd b)"
    using assms(2-4) tiling_fits [OF t]
    by (auto simp: delete_boxes_def pull_extent_def removed_extent_def fits_def Let_def; fastforce)
next
  fix r c assume rc: "1 \<le> r" "r \<le> rows - n" "1 \<le> c" "c \<le> cols"
  let ?old = "if r < first_line then r else r + n"
  have "filter (\<lambda>b. \<not> removed_extent first_line n (fst b) \<and> reaches (pull_extent first_line n (fst b)) r \<and> reaches (snd b) c) bs
      = filter (box_covers ?old c) bs"
  proof (rule filter_cong [OF refl])
    fix b assume "b \<in> set bs"
    then have "1 \<le> snd (fst b)" using tiling_fits [OF t] by (simp add: fits_def)
    with assms(2) show "(\<not> removed_extent first_line n (fst b) \<and> reaches (pull_extent first_line n (fst b)) r \<and> reaches (snd b) c)
        = box_covers ?old c b"
      by (auto simp: reaches_def pull_extent_def removed_extent_def box_covers_def Let_def)
  qed
  then have "length (filter (box_covers r c) (delete_boxes first_line n bs)) = length (filter (box_covers ?old c) bs)"
    by (simp add: delete_boxes_def filter_map comp_def box_covers_def conj_ac)
  with rc assms(2,3) show "1 \<le> ?old \<and> ?old \<le> rows \<and>
      length (filter (box_covers r c) (delete_boxes first_line n bs)) = length (filter (box_covers ?old c) bs)" by auto
qed


section \<open>Renumbering rows\<close>

text \<open>Lines on which no box starts are dropped; the others are numbered in order.\<close>

definition count_below :: "int list \<Rightarrow> int \<Rightarrow> int" where
  "count_below ss x = int (length (filter (\<lambda>s. s < x) ss))"

definition renumber_extent :: "int list \<Rightarrow> extent \<Rightarrow> extent" where
  "renumber_extent ss e = (count_below ss (fst e) + 1, count_below ss (fst e + snd e) - count_below ss (fst e))"

lemma count_below_range: "0 \<le> count_below ss x" "count_below ss x \<le> int (length ss)"
  by (simp_all add: count_below_def)

lemma nth_less_count_below:
  assumes "sorted ss" and "k < length ss"
  shows "ss ! k < x \<longleftrightarrow> int k < count_below ss x"
  using assms
proof (induction ss arbitrary: k)
  case (Cons s ss)
  show ?case
  proof (cases "s < x")
    case True
    with Cons show ?thesis by (cases k) (auto simp: count_below_def)
  next
    case False
    with Cons.prems(1) have "\<forall>y \<in> set (s # ss). \<not> y < x" by auto
    then have "filter (\<lambda>y. y < x) (s # ss) = []" by (simp add: filter_empty_conv)
    moreover have "\<not> (s # ss) ! k < x" using \<open>\<forall>y \<in> set (s # ss). \<not> y < x\<close> Cons.prems(2) by (metis nth_mem)
    ultimately show ?thesis by (simp add: count_below_def)
  qed
qed simp

lemma renumber_tiling:
  assumes t: "tiling rows cols bs" and ss: "sorted ss" "set ss = (\<lambda>b. fst (fst b)) ` set bs"
  shows "tiling (int (length ss)) cols (map (\<lambda>b. (renumber_extent ss (fst b), snd b)) bs)"
proof (rule tiling_transfer [OF t, where old = "\<lambda>r. ss ! nat (r - 1)"])
  fix b' assume "b' \<in> set (map (\<lambda>b. (renumber_extent ss (fst b), snd b)) bs)"
  then obtain b where b: "b \<in> set bs" "b' = (renumber_extent ss (fst b), snd b)" by auto
  then obtain k where k: "k < length ss" "ss ! k = fst (fst b)" using ss(2) by (metis imageI in_set_conv_nth)
  have f: "1 \<le> snd (fst b)" using tiling_fits [OF t b(1)] by (simp add: fits_def)
  have "\<not> int k < count_below ss (fst (fst b))" "int k < count_below ss (fst (fst b) + snd (fst b))"
    using nth_less_count_below [OF ss(1) k(1), of "fst (fst b)"]
      nth_less_count_below [OF ss(1) k(1), of "fst (fst b) + snd (fst b)"] k(2) f by linarith+
  then have "fits (int (length ss)) (renumber_extent ss (fst b))"
    using count_below_range [of ss "fst (fst b)"] count_below_range [of ss "fst (fst b) + snd (fst b)"]
    unfolding fits_def renumber_extent_def fst_conv snd_conv by linarith
  then show "fits (int (length ss)) (fst b') \<and> fits cols (snd b')"
    using tiling_fits [OF t b(1)] by (simp add: b(2))
next
  fix r c assume rc: "1 \<le> r" "r \<le> int (length ss)" "1 \<le> c" "c \<le> cols"
  let ?k = "nat (r - 1)"
  have k: "?k < length ss" using rc by auto
  then have "ss ! ?k \<in> set ss" by simp
  then obtain b where "b \<in> set bs" "ss ! ?k = fst (fst b)" using ss(2) by auto
  then have "fits rows (fst b)" using tiling_fits [OF t] by blast
  with \<open>ss ! ?k = fst (fst b)\<close> have old: "1 \<le> ss ! ?k" "ss ! ?k \<le> rows" by (simp_all add: fits_def)
  have "reaches (renumber_extent ss (fst b)) r = reaches (fst b) (ss ! ?k)" for b :: box
  proof -
    have "(ss ! ?k < fst (fst b)) = (r - 1 < count_below ss (fst (fst b)))"
      "(ss ! ?k < fst (fst b) + snd (fst b)) = (r - 1 < count_below ss (fst (fst b) + snd (fst b)))"
      using nth_less_count_below [OF ss(1) k, of "fst (fst b)"]
        nth_less_count_below [OF ss(1) k, of "fst (fst b) + snd (fst b)"] rc(1) by simp_all
    then show ?thesis by (simp only: reaches_def renumber_extent_def fst_conv snd_conv) linarith
  qed
  then have "box_covers r c \<circ> (\<lambda>b. (renumber_extent ss (fst b), snd b)) = box_covers (ss ! ?k) c"
    by (simp add: fun_eq_iff box_covers_def)
  then have "filter (box_covers r c) (map (\<lambda>b. (renumber_extent ss (fst b), snd b)) bs) =
      map (\<lambda>b. (renumber_extent ss (fst b), snd b)) (filter (box_covers (ss ! ?k) c) bs)"
    by (simp only: filter_map)
  with old show "1 \<le> ss ! ?k \<and> ss ! ?k \<le> rows \<and>
      length (filter (box_covers r c) (map (\<lambda>b. (renumber_extent ss (fst b), snd b)) bs)) = length (filter (box_covers (ss ! ?k) c) bs)"
    by simp
qed

section \<open>Merging\<close>

definition extent_inside :: "extent \<Rightarrow> extent \<Rightarrow> bool" where
  "extent_inside e f \<longleftrightarrow> fst f \<le> fst e \<and> fst e + snd e \<le> fst f + snd f"

lemma merge_tiling:
  assumes t: "tiling rows cols bs" and x: "fits rows (fst x)" "fits cols (snd x)"
    and q: "\<And>b. b \<in> set bs \<Longrightarrow> q b \<Longrightarrow> extent_inside (fst b) (fst x) \<and> extent_inside (snd b) (snd x)"
    and touch: "\<And>b r c. b \<in> set bs \<Longrightarrow> box_covers r c b \<Longrightarrow> box_covers r c x \<Longrightarrow> q b"
  shows "tiling rows cols (filter (\<lambda>b. \<not> q b) bs @ [x])"
proof (rule tilingI)
  fix r c assume rc: "1 \<le> r" "r \<le> rows" "1 \<le> c" "c \<le> cols"
  have in_x: "box_covers r c x" if "b \<in> set bs" "q b" "box_covers r c b" for b
    using q [OF that(1,2)] that(3) by (auto simp: extent_inside_def box_covers_def reaches_def)
  show "length (filter (box_covers r c) (filter (\<lambda>b. \<not> q b) bs @ [x])) = 1"
  proof (cases "box_covers r c x")
    case True
    with touch have "filter (box_covers r c) (filter (\<lambda>b. \<not> q b) bs) = []" by (auto simp: filter_empty_conv)
    with True show ?thesis by simp
  next
    case False
    with in_x have "filter (\<lambda>b. \<not> q b \<and> box_covers r c b) bs = filter (box_covers r c) bs"
      by (intro filter_cong [OF refl]) blast
    with False tiling_count [OF t rc] show ?thesis by simp
  qed
qed (use t x in \<open>auto simp: tiling_def\<close>)

end
