(* ===== verification/NativeProps.thy ===== *)
theory NativeProps
  imports NativeTable Tiling
begin

text \<open>
  What the structure edits of \<open>NativeTable\<close> guarantee: a planned insertion, deletion or merge is a
  table again (its cells tile its grid), and an edit with no observed problem lost no content that
  the request did not name.
\<close>

section \<open>Cells and entries as boxes\<close>

definition n_box :: "ncell \<Rightarrow> box" where
  "n_box c = ((n_row c, n_row_span c), (n_col c, n_col_span c))"

definition e_box :: "entry \<Rightarrow> box" where
  "e_box e = ((e_row e, e_row_span e), (e_col e, e_col_span e))"

definition oriented :: "bool \<Rightarrow> box list \<Rightarrow> box list" where
  "oriented r bs = (if r then bs else map prod.swap bs)"

definition table_tiled :: "ntable \<Rightarrow> bool" where
  "table_tiled t \<longleftrightarrow> tiling (t_rows t) (t_cols t) (map n_box (t_cells t))"

definition plan_tiled :: "edit_plan \<Rightarrow> bool" where
  "plan_tiled p \<longleftrightarrow> tiling (p_rows p) (p_cols p) (map e_box (p_entries p))"

lemma tiling_oriented: "tiling (if r then a else b) (if r then b else a) (oriented r bs) \<longleftrightarrow> tiling a b bs"
  by (simp add: oriented_def tiling_swap)

lemma n_box_oriented: "oriented r [n_box c] = [((n_start r c, n_span r c), (n_start (\<not> r) c, n_span (\<not> r) c))]"
  by (simp add: oriented_def n_box_def n_start_def n_span_def)

lemma kept_box [simp]: "e_box (kept c a b m n) = ((a, m), (b, n))" "e_box (new_entry k a b m n c) = ((a, m), (b, n))"
  "e_source (kept c a b m n) = c" "e_kind (kept c a b m n) = Kept"
  by (simp_all add: kept_def new_entry_def e_box_def)

lemma placed_box: "oriented r [e_box (placed r c start len)] = [((start, len), (n_start (\<not> r) c, n_span (\<not> r) c))]"
  by (simp add: oriented_def placed_def n_start_def n_span_def)

lemma placed_source [simp]: "e_source (placed r c start len) = c" "e_kind (placed r c start len) = Kept"
  by (simp_all add: placed_def)

lemma oriented_map: "oriented r (map f xs) = map (\<lambda>x. if r then f x else prod.swap (f x)) xs"
  by (simp add: oriented_def)

lemma oriented_append: "oriented r (xs @ ys) = oriented r xs @ oriented r ys"
  by (simp add: oriented_def)

lemma oriented_concat: "oriented r (concat xss) = concat (map (oriented r) xss)"
  by (induction xss) (auto simp: oriented_def)

section \<open>Insertion\<close>

lemma framed_box [simp]: "e_box (framed t s line e) = e_box e"
  by (simp add: framed_def Let_def e_box_def)

lemma insert_entries_boxes:
  "oriented (side_on_rows s) (map e_box (insert_entries t s line n)) =
    insert_boxes line (insert_at s line) n (oriented (side_on_rows s) (map n_box (t_cells t)))"
proof -
  let ?r = "side_on_rows s" and ?p = "insert_at s line"
  let ?o = "\<lambda>b. if ?r then b else prod.swap b"
  have o: "?o (n_box c) = ((n_start ?r c, n_span ?r c), (n_start (\<not> ?r) c, n_span (\<not> ?r) c))" for c
    by (simp add: n_box_def n_start_def n_span_def)
  have pushed: "?o (e_box (pushed s line n c)) = (push_extent ?p n (fst (?o (n_box c))), snd (?o (n_box c)))" for c
    unfolding o by (simp add: pushed_def Let_def push_extent_def placed_def n_start_def n_span_def)
  have copy: "?o (e_box (copy_at s (?p + i) c)) = ((?p + i, 1), snd (?o (n_box c)))" for i c
    unfolding o by (simp add: copy_at_def n_start_def n_span_def)
  have mir: "mirrored s line c \<longleftrightarrow> reaches (fst (?o (n_box c))) line \<and> \<not> crosses_line ?p (fst (?o (n_box c)))" for c
    unfolding o by (simp add: mirrored_def Let_def reaches_def crosses_line_def conj_assoc)
  have cells: "oriented ?r (map n_box (t_cells t)) = map (\<lambda>c. ?o (n_box c)) (t_cells t)" by (rule oriented_map)
  have "map (\<lambda>b. ((?p + i, 1), snd b)) (filter (\<lambda>b. reaches (fst b) line \<and> \<not> crosses_line ?p (fst b)) (map (\<lambda>c. ?o (n_box c)) (t_cells t)))
      = map (\<lambda>c. ?o (e_box (copy_at s (?p + i) c))) (filter (mirrored s line) (t_cells t))" for i
    unfolding copy filter_map map_map comp_def mir by (rule refl)
  then show ?thesis
    unfolding cells insert_boxes_def insert_entries_def map_append oriented_append map_concat oriented_concat map_map comp_def
      framed_box oriented_map pushed
    by (simp only: map_map comp_def)
qed

lemma insert_plan_tiled:
  assumes "table_tiled t" and "plan_insert t s line n = Inr p" and "1 \<le> line" and "0 \<le> n"
  shows "plan_tiled p"
proof -
  let ?r = "side_on_rows s"
  from assms(2) have p: "p_rows p = t_rows t + (if ?r then n else 0)" "p_cols p = t_cols t + (if ?r then 0 else n)"
    "p_entries p = insert_entries t s line n" "line \<le> lines_of t ?r"
    by (auto simp: plan_insert_def Let_def split: if_splits option.splits)
  let ?bs = "oriented ?r (map n_box (t_cells t))"
  have "tiling (lines_of t ?r) (lines_of t (\<not> ?r)) ?bs"
    using assms(1) tiling_oriented [of ?r "t_rows t" "t_cols t"] by (cases ?r) (simp_all add: table_tiled_def lines_of_def)
  from insert_tiling [OF this assms(4,3) p(4), of "insert_at s line"]
  have "tiling (lines_of t ?r + n) (lines_of t (\<not> ?r)) (oriented ?r (map e_box (p_entries p)))"
    by (simp add: insert_entries_boxes p(3) insert_at_def)
  then show ?thesis
    using tiling_oriented [of ?r "p_rows p" "p_cols p"] p(1,2) by (cases ?r) (simp_all add: plan_tiled_def lines_of_def)
qed


section \<open>Collapsing\<close>

lemma line_number_count:
  assumes "sorted ss" and "distinct ss" and "x \<in> set ss"
  shows "line_number ss x = count_below ss x + 1"
proof -
  have "takeWhile (\<lambda>y. y \<noteq> x) ss = filter (\<lambda>y. y < x) ss"
    using assms
  proof (induction ss)
    case (Cons y ss)
    show ?case
    proof (cases "y = x")
      case True
      with Cons.prems have "\<forall>z \<in> set ss. \<not> z < x" by auto
      with True show ?thesis by (simp add: filter_empty_conv)
    next
      case False
      with Cons show ?thesis by auto
    qed
  qed simp
  then show ?thesis by (simp add: line_number_def count_below_def)
qed

lemma new_end_count:
  assumes "sorted ss" and "distinct ss"
  shows "(case find (\<lambda>l. l \<ge> x) ss of Some l \<Rightarrow> line_number ss l | None \<Rightarrow> int (length ss) + 1) = count_below ss x + 1"
proof (cases "find (\<lambda>l. l \<ge> x) ss")
  case None
  then have "\<forall>y \<in> set ss. y < x" by (auto simp: find_None_iff not_le)
  then have "filter (\<lambda>y. y < x) ss = ss" by (simp add: filter_id_conv)
  with None show ?thesis by (simp add: count_below_def)
next
  case (Some l)
  then have l: "l \<in> set ss" "x \<le> l" by (auto simp: find_Some_iff)
  have "y < x" if "y \<in> set ss" "y < l" for y
  proof (rule ccontr)
    assume "\<not> y < x"
    from Some obtain i where i: "i < length ss" "ss ! i = l" "\<forall>j < i. \<not> x \<le> ss ! j" by (auto simp: find_Some_iff)
    from that(1) obtain j where j: "j < length ss" "ss ! j = y" by (auto simp: in_set_conv_nth)
    with i that(2) \<open>\<not> y < x\<close> have "i < j" by (metis linorder_neqE_nat not_less order_less_irrefl)
    with assms(1) i j have "l \<le> y" by (metis sorted_iff_nth_mono less_imp_le)
    with that(2) show False by simp
  qed
  with l have "filter (\<lambda>y. y < x) ss = filter (\<lambda>y. y < l) ss" by (intro filter_cong [OF refl]) auto
  with Some line_number_count [OF assms l(1)] show ?thesis by (simp add: count_below_def)
qed

lemma starts_of_facts:
  "sorted (starts_of r es)" "distinct (starts_of r es)" "set (starts_of r es) = e_start r ` set es"
  by (simp_all add: starts_of_def)

lemma collapse_box:
  assumes "sorted ss" and "distinct ss" and "e_start r e \<in> set ss"
  shows "(if r then e_box (collapse_entry r ss e) else prod.swap (e_box (collapse_entry r ss e))) =
    (\<lambda>b. (renumber_extent ss (fst b), snd b)) (if r then e_box e else prod.swap (e_box e))"
  unfolding collapse_entry_def Let_def line_number_count [OF assms] new_end_count [OF assms(1,2)]
  by (simp add: e_box_def e_start_def e_span_def renumber_extent_def)

lemma collapse_boxes:
  assumes "tiling (if r then a else b) (if r then b else a) (oriented r (map e_box es))"
  shows "tiling (int (length (starts_of r es))) (if r then b else a)
    (oriented r (map e_box (map (collapse_entry r (starts_of r es)) es)))"
proof -
  let ?ss = "starts_of r es"
  have boxes: "oriented r (map e_box (map (collapse_entry r ?ss) es)) =
      map (\<lambda>b. (renumber_extent ?ss (fst b), snd b)) (oriented r (map e_box es))"
    unfolding oriented_map map_map comp_def
    by (intro map_cong [OF refl] collapse_box starts_of_facts(1,2)) (simp add: starts_of_facts(3))
  have "set ?ss = (\<lambda>b. fst (fst b)) ` set (oriented r (map e_box es))"
    by (auto simp: starts_of_facts(3) oriented_def e_box_def e_start_def image_image)
  from renumber_tiling [OF assms starts_of_facts(1) this] show ?thesis by (simp only: boxes)
qed

lemma collapsed_tiling:
  assumes "tiling a b (map e_box es)" and "collapsed es = (es', rows, cols)"
  shows "tiling rows cols (map e_box es')"
proof -
  let ?es1 = "map (collapse_entry True (starts_of True es)) es"
  have one: "tiling (int (length (starts_of True es))) b (map e_box ?es1)"
    using collapse_boxes [of True a b es] assms(1) by (simp add: oriented_def)
  have "tiling b (int (length (starts_of True es))) (oriented False (map e_box ?es1))"
    using one by (simp only: oriented_def if_False tiling_swap)
  then have "tiling (int (length (starts_of False ?es1))) (int (length (starts_of True es)))
      (oriented False (map e_box (map (collapse_entry False (starts_of False ?es1)) ?es1)))"
    using collapse_boxes [of False "int (length (starts_of True es))" b ?es1] by simp
  then have "tiling (int (length (starts_of True es))) (int (length (starts_of False ?es1)))
      (map e_box (map (collapse_entry False (starts_of False ?es1)) ?es1))"
    unfolding oriented_def if_False tiling_swap .
  with assms(2) show ?thesis by (simp add: collapsed_def Let_def)
qed

section \<open>Deletion and merge\<close>

lemma edged_box [simp]: "e_box (edged t r f n e) = e_box e" "e_source (edged t r f n e) = e_source e" "e_kind (edged t r f n e) = e_kind e"
  by (simp_all add: edged_def Let_def e_box_def split: list.split)

lemma delete_entries_boxes:
  "oriented r (map e_box (delete_entries t r f n)) = delete_boxes f n (oriented r (map n_box (t_cells t)))"
proof -
  let ?o = "\<lambda>b. if r then b else prod.swap b"
  have o: "?o (n_box c) = ((n_start r c, n_span r c), (n_start (\<not> r) c, n_span (\<not> r) c))" for c
    by (simp add: n_box_def n_start_def n_span_def)
  have pulled: "?o (e_box (pulled r f n c)) = (pull_extent f n (fst (?o (n_box c))), snd (?o (n_box c)))" for c
    unfolding o by (simp add: pulled_def Let_def pull_extent_def placed_def n_start_def n_span_def)
  have del: "deleted_cell r f n c \<longleftrightarrow> removed_extent f n (fst (?o (n_box c)))" for c
    unfolding o by (simp add: deleted_cell_def removed_extent_def)
  show ?thesis
    unfolding oriented_map delete_boxes_def delete_entries_def map_map filter_map comp_def edged_box pulled del by (rule refl)
qed

lemma delete_plan_tiled:
  assumes "table_tiled t" and "plan_delete t r f n given = Inr p" and "1 \<le> f" and "0 \<le> n"
  shows "plan_tiled p"
proof -
  from assms(2) have p: "f + n - 1 \<le> lines_of t r" "collapsed (delete_entries t r f n) = (p_entries p, p_rows p, p_cols p)"
    by (auto simp: plan_delete_def Let_def split: if_splits sum.splits prod.splits)
  have "tiling (lines_of t r) (lines_of t (\<not> r)) (oriented r (map n_box (t_cells t)))"
    using assms(1) tiling_oriented [of r "t_rows t" "t_cols t"] by (cases r) (simp_all add: table_tiled_def lines_of_def)
  from delete_tiling [OF this assms(4,3) p(1)]
  have "tiling (lines_of t r - n) (lines_of t (\<not> r)) (oriented r (map e_box (delete_entries t r f n)))"
    by (simp add: delete_entries_boxes)
  then have "tiling (if r then lines_of t r - n else lines_of t (\<not> r)) (if r then lines_of t (\<not> r) else lines_of t r - n)
      (map e_box (delete_entries t r f n))"
    using tiling_oriented [of r "if r then lines_of t r - n else lines_of t (\<not> r)" "if r then lines_of t (\<not> r) else lines_of t r - n"]
    by (cases r) simp_all
  from collapsed_tiling [OF this p(2)] show ?thesis by (simp add: plan_tiled_def)
qed


lemma rect_of_facts:
  assumes "rect_of t a b = Inr area"
  shows "r_cells area = filter (touches (r_top area) (r_bottom area) (r_left area) (r_right area)) (t_cells t)"
    and "1 \<le> r_top area" "r_top area \<le> r_bottom area" "r_bottom area \<le> t_rows t"
    and "1 \<le> r_left area" "r_left area \<le> r_right area" "r_right area \<le> t_cols t"
    and "c \<in> set (r_cells area) \<Longrightarrow> \<not> crosses (r_top area) (r_bottom area) (r_left area) (r_right area) c"
  using assms by (auto simp: rect_of_def Let_def in_table_def split: if_splits)

lemma tiled_distinct: "table_tiled t \<Longrightarrow> distinct (map n_key (t_cells t))"
  using tiling_distinct_corners [of "t_rows t" "t_cols t" "map n_box (t_cells t)"]
  by (simp add: table_tiled_def comp_def n_box_def n_key_def [abs_def])

lemma merge_plan_tiled:
  assumes "table_tiled t" and "plan_merge t a b = Inr p"
  shows "plan_tiled p"
proof -
  from assms(2) obtain area where area: "rect_of t a b = Inr area" by (auto simp: plan_merge_def split: sum.splits)
  note f = rect_of_facts [OF area]
  let ?x = "((r_top area, r_bottom area - r_top area + 1), (r_left area, r_right area - r_left area + 1))"
  let ?q = "\<lambda>c. c \<in> set (r_cells area)"
  from assms(2) area obtain c corner ps where p: "p = merge_plan t area (sort_key n_key (r_cells area)) c corner ps"
    by (auto simp: plan_merge_def Let_def split: if_splits option.splits)
  obtain es where es: "map e_box es = map n_box (filter (\<lambda>c. \<not> ?q c) (t_cells t)) @ [?x]"
    "collapsed es = (p_entries p, p_rows p, p_cols p)"
  proof
    let ?es = "merge_entries t area (sort_key n_key (r_cells area)) c corner ps"
    show "map e_box ?es = map n_box (filter (\<lambda>c. \<not> ?q c) (t_cells t)) @ [?x]"
      by (simp add: merge_entries_def merged_entry_def comp_def e_box_def n_box_def kept_def new_entry_def)
    show "collapsed ?es = (p_entries p, p_rows p, p_cols p)"
      by (cases "collapsed ?es") (simp add: p merge_plan_def)
  qed
  have t: "tiling (t_rows t) (t_cols t) (map n_box (t_cells t))" using assms(1) by (simp add: table_tiled_def)
  let ?Q = "\<lambda>b. b \<in> n_box ` set (r_cells area)"
  have inj: "c \<in> set (t_cells t) \<Longrightarrow> (?Q (n_box c)) = ?q c" for c
  proof
    assume "c \<in> set (t_cells t)" "?Q (n_box c)"
    then obtain d where d: "d \<in> set (r_cells area)" "n_box d = n_box c" by auto
    moreover from d(1) have "d \<in> set (t_cells t)" by (subst (asm) f(1)) simp
    moreover from d(2) have "n_key d = n_key c" by (simp add: n_box_def n_key_def)
    ultimately have "d = c" using tiled_distinct [OF assms(1)] \<open>c \<in> set (t_cells t)\<close> by (auto simp: distinct_map inj_on_def)
    with d show "?q c" by simp
  qed simp
  have "tiling (t_rows t) (t_cols t) (filter (\<lambda>b. \<not> ?Q b) (map n_box (t_cells t)) @ [?x])"
  proof (rule merge_tiling [OF t])
    show "fits (t_rows t) (fst ?x)" "fits (t_cols t) (snd ?x)" using f(2-7) by (simp_all add: fits_def)
  next
    fix b assume "b \<in> set (map n_box (t_cells t))" "?Q b"
    then obtain c where "c \<in> set (r_cells area)" "b = n_box c" by auto
    with f(8) [of c] show "extent_inside (fst b) (fst ?x) \<and> extent_inside (snd b) (snd ?x)"
      by (auto simp: crosses_def extent_inside_def n_box_def)
  next
    fix b r c assume "b \<in> set (map n_box (t_cells t))" "box_covers r c b" "box_covers r c ?x"
    moreover then obtain d where "d \<in> set (t_cells t)" "b = n_box d" by auto
    ultimately show "?Q b" unfolding f(1) by (auto simp: touches_def box_covers_def reaches_def n_box_def)
  qed
  moreover have "filter (\<lambda>b. \<not> ?Q b) (map n_box (t_cells t)) = map n_box (filter (\<lambda>c. \<not> ?q c) (t_cells t))"
    unfolding filter_map comp_def by (rule arg_cong [of _ _ "map n_box"], rule filter_cong [OF refl]) (simp add: inj)
  ultimately have "tiling (t_rows t) (t_cols t) (map e_box es)" by (simp only: es(1))
  from collapsed_tiling [OF this es(2)] show ?thesis by (simp add: plan_tiled_def)
qed


section \<open>Planned edits\<close>

text \<open>A validated request: lines and counts from one; splits are left out.\<close>

definition line_or_merge :: "edit_request \<Rightarrow> bool" where
  "line_or_merge rq = (case rq of InsertLines s line n \<Rightarrow> 1 \<le> line \<and> 1 \<le> n | DeleteLines r f n given \<Rightarrow> 1 \<le> f \<and> 1 \<le> n
     | MergeRange a b \<Rightarrow> True | _ \<Rightarrow> False)"

text \<open>
  C5. Whenever \<open>plan_edit\<close> accepts an insertion, a deletion or a merge on a table whose cells tile its
  grid (merged cells included), the planned cells tile the planned grid exactly: every position is
  covered by one planned cell, none reaches outside, also after the lines no cell starts on are dropped.
\<close>

theorem planned_edit_is_a_table:
  assumes "table_tiled t" and "plan_edit t rq = Inr p" and "line_or_merge rq"
  shows "tiling (p_rows p) (p_cols p) (map e_box (p_entries p))"
proof (cases rq)
  case (InsertLines s line n)
  with assms insert_plan_tiled [of t s line n p] show ?thesis by (simp add: plan_edit_def line_or_merge_def plan_tiled_def)
next
  case (DeleteLines r f n given)
  with assms delete_plan_tiled [of t r f n given p] show ?thesis by (simp add: plan_edit_def line_or_merge_def plan_tiled_def)
next
  case (MergeRange a b)
  with assms merge_plan_tiled [of t a b p] show ?thesis by (simp add: plan_edit_def plan_tiled_def)
qed (use assms(3) in \<open>simp_all add: line_or_merge_def\<close>)

text \<open>A table of two rows whose first row is one merged cell.\<close>

definition plain_line :: nline where
  "plain_line = \<lparr>nl_line = ''solid'', nl_width = None, nl_color = ''#000000''\<rparr>"

definition plain_cell :: "int \<Rightarrow> int \<Rightarrow> int \<Rightarrow> string \<Rightarrow> ncell" where
  "plain_cell r c cs t = \<lparr>n_row = r, n_col = c, n_row_span = 1, n_col_span = cs, n_width = 1000 * cs,
     n_border = \<lparr>b_left = plain_line, b_right = plain_line, b_top = plain_line, b_bottom = plain_line\<rparr>, n_fill = NoFill,
     n_rest = [], n_attrs = [], n_content = t, n_text = t, n_objects = [], n_all_objects = [], n_tables = [],
     n_paragraphs = [t], n_blank = False, n_has_margin = False, n_margin = None\<rparr>"

definition plain_table :: ntable where
  "plain_table = \<lparr>t_id = ''tbl:1'', t_inst = ''1'', t_rows = 2, t_cols = 2,
     t_cells = [plain_cell 1 1 2 ''head'', plain_cell 2 1 1 ''a'', plain_cell 2 2 1 ''b''], t_frame = [], t_state = [],
     t_expected_hash = [], t_nested_in = None, t_nested_cell = None, t_size_width = None, t_width_rel = [], t_cell_spacing = 0,
     t_treat_as_char = True, t_inside_margin = None, t_outside_margin = None, t_geometry = None, t_holder = None\<rparr>"

lemma plain_tiled: "table_tiled plain_table"
proof -
  have "r = 1 \<or> r = 2" if "1 \<le> r" "r \<le> 2" for r :: int using that by auto
  then show ?thesis
    by (auto simp: table_tiled_def tiling_def plain_table_def plain_cell_def n_box_def fits_def box_covers_def reaches_def)
qed

lemma plain_rows:
  "delete_caret plain_table True 2 1 = Inr (plain_cell 2 1 1 ''a'', NativeDeleteLine ''TableDeleteRow'', None)"
  "filter (deleted_cell True 2 1) (t_cells plain_table) = [plain_cell 2 1 1 ''a'', plain_cell 2 2 1 ''b'']"
  by (simp_all add: delete_caret_def plain_table_def plain_cell_def n_start_def n_span_def deleted_cell_def first_by_def)

definition plain_removed :: "removed_cell list" where
  "plain_removed = [\<lparr>rm_key = (2, 1), rm_text = Some ''a'', rm_sha = [], rm_objects = []\<rparr>,
     \<lparr>rm_key = (2, 2), rm_text = Some ''b'', rm_sha = [], rm_objects = []\<rparr>]"

lemma plain_delete: "\<exists>p. plan_edit plain_table (DeleteLines True 2 1 plain_removed) = Inr p"
proof -
  have "removed_match plain_removed [plain_cell 2 1 1 ''a'', plain_cell 2 2 1 ''b'']"
    by (simp add: removed_match_def plain_removed_def plain_cell_def n_key_def states_cell_def)
  moreover have "filter (\<lambda>c. \<not> n_blank c) [plain_cell 2 1 1 ''a'', plain_cell 2 2 1 ''b''] = [plain_cell 2 1 1 ''a'', plain_cell 2 2 1 ''b'']"
    by (simp add: plain_cell_def)
  ultimately show ?thesis
    by (simp add: plan_edit_def plan_delete_def plain_rows Let_def split: prod.split) (simp add: lines_of_def plain_table_def)
qed

theorem planned_edit_is_a_table_witness:
  "\<exists>p. plan_edit plain_table (DeleteLines True 2 1 plain_removed) = Inr p \<and> tiling (p_rows p) (p_cols p) (map e_box (p_entries p))"
  using plain_delete planned_edit_is_a_table [OF plain_tiled, of "DeleteLines True 2 1 plain_removed"]
  by (auto simp: line_or_merge_def)

section \<open>Content\<close>

lemma collapsed_sources:
  assumes "collapsed es = (es', rows, cols)" and "e \<in> set es"
  shows "\<exists>e' \<in> set es'. e_source e' = e_source e \<and> e_kind e' = e_kind e"
proof -
  have same: "e_source (collapse_entry r ss x) = e_source x \<and> e_kind (collapse_entry r ss x) = e_kind x" for r ss x
    by (simp add: collapse_entry_def Let_def)
  from assms(1) have "es' = map (\<lambda>x. collapse_entry False (starts_of False (map (collapse_entry True (starts_of True es)) es))
      (collapse_entry True (starts_of True es) x)) es" by (auto simp: collapsed_def Let_def)
  with assms(2) same show ?thesis by force
qed

text \<open>Where an edit has no problem, every kept entry is found with its content and look.\<close>

lemma no_problems_kept:
  assumes "edit_problems t p (Some a) = []" and "plan_tiled p" and "e \<in> set (p_entries p)" and "e_kind e = Kept"
  shows "\<exists>got \<in> set (t_cells a). n_key got = e_key e \<and> n_content got = n_content (e_source e)
    \<and> n_fill got = n_fill (e_source e) \<and> n_rest got = n_rest (e_source e) \<and> n_attrs got = n_attrs (e_source e)"
proof -
  have "distinct (map e_key (p_entries p))"
    using tiling_distinct_corners [of "p_rows p" "p_cols p" "map e_box (p_entries p)"] assms(2)
    by (simp add: plan_tiled_def comp_def e_box_def e_key_def [abs_def])
  then have found: "find (\<lambda>x. e_key x = e_key e) (rev (p_entries p)) = Some e"
    using find_key_mem [of e_key "rev (p_entries p)" e] assms(3) by (simp add: rev_map [symmetric])
  have "e_key e \<in> set (sort (remdups (map n_key (t_cells a) @ map e_key (p_entries p))))" using assms(3) by auto
  with assms(1) have "place_problems (t_cells a) (p_entries p) (e_key e) = []" by (auto simp: edit_problems_def)
  with found obtain got where got: "find (\<lambda>c. n_key c = e_key e) (rev (t_cells a)) = Some got"
    "entry_problems (e_key e) e got = []"
    by (auto simp: place_problems_def split: option.splits if_splits)
  with assms(4) find_key_Some [OF got(1)] show ?thesis
    by (intro bexI [of _ got]) (auto simp: entry_problems_def look_problems_def Let_def split: if_splits)
qed

text \<open>
  C2. Deleting rows or columns loses only content the request names: when the deletion was planned and
  the observed table shows no problem, every cell with content either was removed and is listed in
  \<open>expected_removed_cells\<close> with exactly its objects and its text or content hash, or is found in the
  observed table with its content, fill and attributes, also when the deletion shortened or moved it.
\<close>

theorem deletion_loses_only_named_content:
  assumes "table_tiled t" and "plan_edit t (DeleteLines r f n given) = Inr p" and "1 \<le> f" and "1 \<le> n"
    and "edit_problems t p (Some a) = []" and "c \<in> set (t_cells t)" and "\<not> n_blank c"
  shows "(deleted_cell r f n c \<and> (\<exists>g \<in> set given. rm_key g = n_key c \<and> states_cell g c))
    \<or> (\<exists>got \<in> set (t_cells a). n_content got = n_content c \<and> n_fill got = n_fill c \<and> n_rest got = n_rest c \<and> n_attrs got = n_attrs c)"
proof -
  have d: "plan_delete t r f n given = Inr p" using assms(2) by (simp add: plan_edit_def)
  then have p: "removed_match given (filter (\<lambda>c. \<not> n_blank c) (filter (deleted_cell r f n) (t_cells t)))"
    "collapsed (delete_entries t r f n) = (p_entries p, p_rows p, p_cols p)"
    by (auto simp: plan_delete_def Let_def split: if_splits sum.splits prod.splits)
  show ?thesis
  proof (cases "deleted_cell r f n c")
    case True
    with p(1) assms(6,7) obtain g where "find (\<lambda>g. rm_key g = n_key c) given = Some g" "states_cell g c"
      by (auto simp: removed_match_def list_all_iff split: option.splits)
    with True show ?thesis using find_key_Some [of rm_key "n_key c" given g] by blast
  next
    case False
    let ?e = "edged t r f n (pulled r f n c)"
    have "?e \<in> set (delete_entries t r f n)" using False assms(6) by (simp add: delete_entries_def)
    moreover have "e_source ?e = c" "e_kind ?e = Kept" by (simp_all add: pulled_def Let_def)
    ultimately obtain e' where e': "e' \<in> set (p_entries p)" "e_source e' = c" "e_kind e' = Kept"
      using collapsed_sources [OF p(2)] by metis
    have "plan_tiled p" using delete_plan_tiled [OF assms(1) d assms(3)] assms(4) by simp
    from no_problems_kept [OF assms(5) this e'(1,3)] e'(2) show ?thesis by auto
  qed
qed


text \<open>The example after the deletion: the head cell alone, over the one column left.\<close>

definition plain_after :: ntable where
  "plain_after = plain_table\<lparr>t_rows := 1, t_cols := 1, t_cells := [(plain_cell 1 1 1 ''head'')\<lparr>n_width := 2000\<rparr>]\<rparr>"

definition plain_entry :: entry where
  "plain_entry = \<lparr>e_kind = Kept, e_source = plain_cell 1 1 2 ''head'', e_row = 1, e_col = 1, e_row_span = 1, e_col_span = 1,
     e_exact_width = False, e_override = [(BottomSide, Some plain_line)], e_lines = None, e_paragraphs = []\<rparr>"

lemma plain_delete_entries:
  "delete_entries plain_table True 2 1 =
    [(kept (plain_cell 1 1 2 ''head'') 1 1 1 2)\<lparr>e_override := [(BottomSide, Some plain_line)]\<rparr>]"
proof -
  let ?c = "plain_cell 1 1 2 ''head''"
  have "filter (\<lambda>c. \<not> deleted_cell True 2 1 c) (t_cells plain_table) = [?c]"
    by (simp add: deleted_cell_def plain_table_def plain_cell_def n_start_def n_span_def)
  moreover have "edge_values plain_table True BottomSide 2 1 ?c = [plain_line, plain_line]"
    by (simp add: edge_values_def n_start_def n_span_def plain_cell_def covering_def plain_table_def n_covers_def upto.simps
        map_filter_simps border_at_def)
  moreover have "pulled True 2 1 ?c = kept ?c 1 1 1 2"
    by (simp add: pulled_def Let_def placed_def n_start_def n_span_def plain_cell_def)
  moreover have "lines_of plain_table True = 2" by (simp add: lines_of_def plain_table_def)
  moreover have "n_start True ?c = 1" "n_span True ?c = 1" by (simp_all add: n_start_def n_span_def plain_cell_def)
  ultimately show ?thesis by (simp add: delete_entries_def edged_def Let_def)
qed

lemma plain_collapsed: "collapsed (delete_entries plain_table True 2 1) = ([plain_entry], 1, 1)"
  by (simp add: plain_delete_entries collapsed_def Let_def starts_of_def e_start_def e_span_def kept_def collapse_entry_def
      line_number_def plain_entry_def plain_cell_def)

lemma plain_no_problems:
  assumes "p_rows p = 1" and "p_cols p = 1" and "p_entries p = [plain_entry]"
  shows "edit_problems plain_table p (Some plain_after) = []"
  using assms by (simp add: edit_problems_def plain_after_def plain_table_def plain_entry_def place_problems_def n_key_def e_key_def
      entry_problems_def look_problems_def wanted_line_def sides_def border_at_def plain_cell_def)

theorem deletion_loses_only_named_content_witness:
  "\<exists>got \<in> set (t_cells plain_after). n_content got = ''head''"
proof -
  obtain p where p: "plan_edit plain_table (DeleteLines True 2 1 plain_removed) = Inr p" using plain_delete by blast
  then have "p_rows p = 1 \<and> p_cols p = 1 \<and> p_entries p = [plain_entry]"
    by (auto simp: plan_edit_def plan_delete_def Let_def plain_collapsed split: if_splits sum.splits)
  then have "edit_problems plain_table p (Some plain_after) = []" by (intro plain_no_problems) simp_all
  from deletion_loses_only_named_content [OF plain_tiled p _ _ this, of "plain_cell 1 1 2 ''head''"] show ?thesis
    by (auto simp: plain_table_def plain_cell_def deleted_cell_def n_start_def)
qed

end
