(* ===== verification/StyleProps.thy ===== *)
theory StyleProps
  imports NativeStyle NativeProps
begin

text \<open>
  What the style and width commands of \<open>NativeStyle\<close> promise about the table read back: exactly the
  requested lines changed, and planned column widths fit the room they were planned for.
\<close>

section \<open>Writing lines\<close>

lemma border_set [simp]: "border_at s (set_border s' l b) = (if s = s' then l else border_at s b)"
  by (cases s; cases s') (simp_all add: border_at_def set_border_def)

lemma borders_eqI: "(\<And>s. border_at s a = border_at s b) \<Longrightarrow> a = (b :: borders)"
proof -
  assume eq: "\<And>s. border_at s a = border_at s b"
  show "a = b"
    using eq [of LeftSide] eq [of RightSide] eq [of TopSide] eq [of BottomSide]
    by (cases a; cases b) (simp add: border_at_def)
qed

text \<open>
  When all writes to a cell's side are by one group, the side ends as that group says; a side nobody
  writes keeps its value.
\<close>

lemma fold_writes_other:
  assumes "\<And>g. (c, s, g) \<notin> set ws" and "\<And>d s' g. (d, s', g) \<in> set ws \<Longrightarrow> n_key d = n_key c \<Longrightarrow> d = c"
  shows "border_at s (fold apply_write ws f (n_key c)) = border_at s (f (n_key c))"
  using assms
proof (induction ws arbitrary: f)
  case (Cons w ws)
  obtain d s' g where w: "w = (d, s', g)" by (cases w) auto
  have "border_at s (apply_write w f (n_key c)) = border_at s (f (n_key c))"
  proof (cases "n_key d = n_key c")
    case True
    with Cons.prems(2) [of d s' g] w have "d = c" by simp
    with Cons.prems(1) [of g] w have "s' \<noteq> s" by auto
    with True w show ?thesis by (simp add: apply_write_def)
  qed (simp add: w apply_write_def)
  moreover have "border_at s (fold apply_write ws (apply_write w f) (n_key c)) = border_at s (apply_write w f (n_key c))"
  proof (rule Cons.IH)
    show "(c, s, g) \<notin> set ws" for g using Cons.prems(1) [of g] by simp
    show "d = c" if "(d, s', g) \<in> set ws" "n_key d = n_key c" for d s' g using Cons.prems(2) [of d s' g] that by simp
  qed
  ultimately show ?case by simp
qed simp

lemma fold_writes_same:
  assumes "(c, s, g) \<in> set ws" and "\<And>g'. (c, s, g') \<in> set ws \<Longrightarrow> g' = g"
    and "\<And>d s' g. (d, s', g) \<in> set ws \<Longrightarrow> n_key d = n_key c \<Longrightarrow> d = c"
  shows "border_at s (fold apply_write ws f (n_key c)) = after_line (border_at s (n_border c)) g"
  using assms
proof (induction ws arbitrary: f)
  case (Cons w ws)
  have IHprems: "d = c" if "(d, s', g) \<in> set ws" "n_key d = n_key c" for d s' g
    using Cons.prems(3) [of d s' g] that by simp
  show ?case
  proof (cases "(c, s, g) \<in> set ws")
    case True
    have "g' = g" if "(c, s, g') \<in> set ws" for g' using Cons.prems(2) [of g'] that by simp
    from Cons.IH [OF True this IHprems] show ?thesis by simp
  next
    case False
    with Cons.prems(1) have w: "w = (c, s, g)" by simp
    have "(c, s, g') \<notin> set ws" for g' using Cons.prems(2) [of g'] False by auto
    from fold_writes_other [OF this IHprems, where f = "apply_write w f"]
    have "border_at s (fold apply_write (w # ws) f (n_key c)) = border_at s (apply_write w f (n_key c))" by simp
    also have "\<dots> = after_line (border_at s (n_border c)) g" unfolding w apply_write_def write_line_def by simp
    finally show ?thesis .
  qed
qed simp

section \<open>The requested lines\<close>

text \<open>
  The group that decides a side of a cell: for a cell of the range the group of its edge; for any
  other cell the group of the range's outer edge it lies along, when it does not reach past it.
\<close>

definition deciding_group :: "rect \<Rightarrow> border_group list \<Rightarrow> ncell \<Rightarrow> side \<Rightarrow> border_group option" where
  "deciding_group area gs c s =
    (if c \<in> set (r_cells area) then by_edge gs (cell_edge area c s)
     else if facing area (opposite s) c \<and> inside_edge area (opposite s) c then by_edge gs (Outer (opposite s))
     else None)"

lemma opposite_opposite [simp]: "opposite (opposite s) = s"
  by (cases s) (simp_all add: opposite_def)

lemma sides_set [simp]: "s \<in> set sides"
  by (cases s) (simp_all add: sides_def)

lemma writes_iff:
  assumes "set (r_cells area) \<subseteq> set (t_cells t)"
  shows "(c, s, g) \<in> set (concat (map (own_writes area gs) (r_cells area)) @ neighbour_writes t area gs)
    \<longleftrightarrow> c \<in> set (t_cells t) \<and> deciding_group area gs c s = Some g"
proof -
  have own: "(c, s, g) \<in> set (own_writes area gs d) \<longleftrightarrow> d = c \<and> by_edge gs (cell_edge area c s) = Some g" for d
    by (auto simp: own_writes_def List.map_filter_def image_iff)
  have nb: "(c, s, g) \<in> set (neighbour_writes t area gs) \<longleftrightarrow>
      c \<in> set (t_cells t) \<and> c \<notin> set (r_cells area) \<and> facing area (opposite s) c \<and> inside_edge area (opposite s) c
      \<and> by_edge gs (Outer (opposite s)) = Some g"
  proof
    assume "(c, s, g) \<in> set (neighbour_writes t area gs)"
    then show "c \<in> set (t_cells t) \<and> c \<notin> set (r_cells area) \<and> facing area (opposite s) c \<and> inside_edge area (opposite s) c
      \<and> by_edge gs (Outer (opposite s)) = Some g"
      by (auto simp: neighbour_writes_def neighbours_def split: option.splits)
  next
    assume r: "c \<in> set (t_cells t) \<and> c \<notin> set (r_cells area) \<and> facing area (opposite s) c \<and> inside_edge area (opposite s) c
      \<and> by_edge gs (Outer (opposite s)) = Some g"
    then have "(opposite s, g, c) \<in> set (neighbours t area gs)"
      by (auto simp: neighbours_def intro!: bexI [of _ "opposite s"])
    with r show "(c, s, g) \<in> set (neighbour_writes t area gs)"
      by (auto simp: neighbour_writes_def image_iff intro!: bexI [of _ "(opposite s, g, c)"])
  qed
  from assms own nb show ?thesis by (auto simp: deciding_group_def)
qed

lemma target_cells:
  assumes "target_rect t sc = Inr area"
  shows "set (r_cells area) \<subseteq> set (t_cells t)"
  using assms rect_of_facts(1)
  by (auto simp: target_rect_def whole_cell_def named_def find_Some_iff split: scope.splits sum.splits if_splits option.splits)

lemma plan_style_facts:
  assumes "plan_style t rq = Inr p"
  shows "\<exists>area. target_rect t (sr_scope rq) = Inr area
    \<and> sp_border p = fold apply_write (concat (map (own_writes area (map (kept_edges area) (sr_borders rq))) (sort_key n_key (r_cells area)))
        @ neighbour_writes t area (map (kept_edges area) (sr_borders rq))) (original_border t)
    \<and> set (r_cells (sp_rect p)) = set (r_cells area) \<and> sp_new_fill p = map_option fill_of (sr_fill rq)"
  using assms by (auto simp: plan_style_def Let_def split: sum.splits option.splits if_splits)



text \<open>An example: the right line of the last cell of the example table goes.\<close>

definition no_right :: style_request where
  "no_right = \<lparr>sr_scope = OneCell (2, 2), sr_borders = [\<lparr>gr_edges = [Outer RightSide], gr_named_inner = [], gr_line = ''none'',
     gr_width = 0, gr_color = []\<rparr>], sr_fill = None, sr_over_wider = False\<rparr>"

definition no_right_after :: ntable where
  "no_right_after = plain_table\<lparr>t_cells := [plain_cell 1 1 2 ''head'', plain_cell 2 1 1 ''a'',
     (plain_cell 2 2 1 ''b'')\<lparr>n_border := \<lparr>b_left = plain_line, b_right = plain_line\<lparr>nl_line := ''none''\<rparr>, b_top = plain_line,
       b_bottom = plain_line\<rparr>\<rparr>]\<rparr>"

lemma no_right_target: "target_rect plain_table (sr_scope no_right) =
    Inr \<lparr>r_top = 2, r_bottom = 2, r_left = 2, r_right = 2, r_cells = [plain_cell 2 2 1 ''b'']\<rparr>"
  by (simp add: target_rect_def no_right_def whole_cell_def named_def plain_table_def plain_cell_def n_key_def in_table_def)

lemma no_right_plan: "\<exists>p. plan_style plain_table no_right = Inr p \<and> style_problems plain_table p (Some no_right_after) = []"
  unfolding plan_style_def no_right_target
  by (simp add: Let_def no_right_def plain_table_def plain_cell_def group_problem_def kept_edges_def has_inner_def neighbours_def
      by_edge_def sides_def facing_def own_writes_def cell_edge_def on_outer_def map_filter_simps neighbour_writes_def
      style_problems_def no_right_after_def style_cell_problems_def same_cell_problems_def n_key_def original_border_def
      expected_fill_def apply_write_def set_border_def write_line_def after_line_def border_at_def)


section \<open>Column widths\<close>

lemma edges_from_nth: "n \<le> length ws \<Longrightarrow> edges_from x ws ! n = x + sum_list (take n ws)"
proof (induction ws arbitrary: x n)
  case (Cons w ws)
  then show ?case by (cases n) simp_all
qed simp

lemma edges_from_nonempty [simp]: "edges_from x ws \<noteq> []"
  by (cases ws) simp_all

lemma edges_from_last: "last (edges_from x ws) = x + sum_list ws"
  by (induction ws arbitrary: x) (simp_all add: ac_simps)

lemma edges_from_length [simp]: "length (edges_from x ws) = Suc (length ws)"
  by (induction ws arbitrary: x) simp_all

lemma column_sizes_edges: "column_sizes (edges_from x ws) = ws"
proof (induction ws arbitrary: x)
  case (Cons w ws)
  then show ?case by (cases ws) simp_all
qed simp

lemma fitted_length [simp]: "length (fitted room ws) = length ws"
  by (auto simp: fitted_def Let_def)

lemma fitted_sum:
  assumes "ws \<noteq> []"
  shows "sum_list (fitted room ws) = room"
proof -
  let ?f = "\<lambda>w. round_half_even (of_int (w * room) / of_int (sum_list ws))"
  have "sum_list (map ?f ws) = sum_list (butlast (map ?f ws)) + last (map ?f ws)"
    using assms by (subst append_butlast_last_id [symmetric]) (simp_all only: sum_list_append, simp_all)
  with assms show ?thesis by (simp add: fitted_def Let_def map_butlast)
qed

text \<open>The width between two edges is what the columns between them add up to.\<close>

lemma take_sum_diff:
  assumes "a \<le> b" and "b \<le> length (ws :: int list)"
  shows "sum_list (take b ws) - sum_list (take a ws) = (\<Sum>k<length ws. if a \<le> k \<and> k < b then ws ! k else 0)"
proof -
  have t: "sum_list (take n ws) = (\<Sum>k<length ws. if k < n then ws ! k else 0)" if "n \<le> length ws" for n
  proof -
    have "sum_list (take n ws) = (\<Sum>k<n. ws ! k)"
      using that by (simp add: sum_list_sum_nth atLeast0LessThan)
    also have "\<dots> = (\<Sum>k \<in> {..<length ws} \<inter> {k. k < n}. ws ! k)" using that by (intro sum.cong) auto
    finally show ?thesis by (simp add: sum.inter_restrict)
  qed
  have "sum_list (take b ws) - sum_list (take a ws)
      = (\<Sum>k<length ws. (if k < b then ws ! k else 0) - (if k < a then ws ! k else 0))"
    using assms by (simp add: t sum_subtractf)
  also have "\<dots> = (\<Sum>k<length ws. if a \<le> k \<and> k < b then ws ! k else 0)" using assms(1) by (intro sum.cong) auto
  finally show ?thesis .
qed

lemma plan_width_facts:
  assumes "plan_width t place rq = Inr p" and "1 \<le> t_cols t"
  shows "\<exists>ws. int (length ws) = t_cols t \<and> (\<forall>w \<in> set ws. min_column_hu \<le> w) \<and> wp_total p = sum_list ws
    \<and> (\<forall>room. available_of place = Some room \<longrightarrow> sum_list ws \<le> room)
    \<and> (rq = FitText \<longrightarrow> available_of place = Some (sum_list ws))
    \<and> (\<forall>c. wp_expected p c = edge_at (edges_from 0 ws) (n_col c - 1 + n_col_span c) - edge_at (edges_from 0 ws) (n_col c - 1))"
proof -
  from assms(1) obtain edges wanted where e: "column_edges t = Some edges"
    and w: "wanted_widths t place rq (column_sizes edges) = Inr wanted"
    and rest: "\<forall>w \<in> set wanted. min_column_hu \<le> w" "wp_total p = last (edges_from 0 wanted)"
      "wp_expected p = (\<lambda>c. edge_at (edges_from 0 wanted) (n_col c - 1 + n_col_span c) - edge_at (edges_from 0 wanted) (n_col c - 1))"
    by (auto simp: plan_width_def Let_def not_less split: option.splits sum.splits if_splits)
  from e obtain ws where "edges = edges_from 0 ws" "int (length ws) = t_cols t"
    using assms(2) by (auto simp: column_edges_def Let_def split: if_splits)
  then have cur: "int (length (column_sizes edges)) = t_cols t" by (simp add: column_sizes_edges)
  then have ne: "column_sizes edges \<noteq> []" using assms(2) by auto
  have "int (length wanted) = t_cols t \<and> (\<forall>room. available_of place = Some room \<longrightarrow> sum_list wanted \<le> room)
      \<and> (rq = FitText \<longrightarrow> available_of place = Some (sum_list wanted))"
    using w cur fitted_sum [OF ne]
    by (auto simp: wanted_widths_def Let_def split: width_request.splits option.splits if_splits)
  with rest show ?thesis by (intro exI [of _ wanted]) (simp add: edges_from_last)
qed

lemma sum_list_swap: "sum_list (map (\<lambda>c. \<Sum>k \<in> A. g k c) cs) = (\<Sum>k \<in> A. sum_list (map (g k) cs))"
  for g :: "'k \<Rightarrow> 'c \<Rightarrow> int"
  by (induction cs) (simp_all add: sum.distrib)

text \<open>In a tiled table the columns under the cells of a row are all columns, each once.\<close>

lemma width_of_row:
  assumes "table_tiled t" and "int (length ws) = t_cols t"
    and "\<And>c. c \<in> set (t_cells t) \<Longrightarrow> f c = (\<Sum>k<length ws. if reaches (n_col c, n_col_span c) (int k + 1) then ws ! k else (0 :: int))"
    and "1 \<le> r" and "r \<le> t_rows t"
  shows "sum_list (map f (filter (\<lambda>c. n_row c \<le> r \<and> r < n_row c + n_row_span c) (t_cells t))) = sum_list ws"
proof -
  let ?row = "filter (\<lambda>c. n_row c \<le> r \<and> r < n_row c + n_row_span c) (t_cells t)"
  let ?g = "\<lambda>k c. if reaches (n_col c, n_col_span c) (int k + 1) then ws ! k else 0"
  have one: "sum_list (map (?g k) ?row) = ws ! k" if "k < length ws" for k
  proof -
    have "length (filter (box_covers r (int k + 1)) (map n_box (t_cells t))) = 1"
      using assms(1,2,4,5) that by (intro tiling_count [where rows = "t_rows t" and cols = "t_cols t"]) (auto simp: table_tiled_def)
    then have "length (filter (\<lambda>c. reaches (n_col c, n_col_span c) (int k + 1)) ?row) = 1"
      by (simp add: filter_map comp_def box_covers_def n_box_def reaches_def conj_ac)
    then have n: "int (length (filter (\<lambda>c. reaches (n_col c, n_col_span c) (int k + 1)) ?row)) = 1" by (simp only: of_nat_1)
    have "sum_list (map (?g k) cs) = ws ! k * int (length (filter (\<lambda>c. reaches (n_col c, n_col_span c) (int k + 1)) cs))" for cs
      by (induction cs) (simp_all add: algebra_simps)
    from this [of ?row] show ?thesis unfolding n by (simp only: mult_1_right)
  qed
  have "sum_list (map f ?row) = sum_list (map (\<lambda>c. \<Sum>k<length ws. ?g k c) ?row)"
    using assms(3) by (intro arg_cong [where f = sum_list] map_cong) auto
  also have "\<dots> = (\<Sum>k<length ws. sum_list (map (?g k) ?row))" by (rule sum_list_swap)
  also have "\<dots> = (\<Sum>k<length ws. ws ! k)" by (intro sum.cong refl) (simp add: one)
  also have "\<dots> = sum_list ws" by (simp add: sum_list_sum_nth atLeast0LessThan)
  finally show ?thesis .
qed

text \<open>
  C8. Planned column widths fit: the columns of the new table add up to no more than the room where the
  table lies (to exactly that room when the table is fitted to its text area), no cell gets less than
  the smallest width Hancom keeps for each column it spans, and in every row the planned widths of its
  cells add up to the width of the table.
\<close>

theorem planned_widths_fit:
  assumes "table_tiled t" and "1 \<le> t_cols t" and "plan_width t place rq = Inr p"
  shows "(\<forall>room. available_of place = Some room \<longrightarrow> wp_total p \<le> room)
    \<and> (rq = FitText \<longrightarrow> available_of place = Some (wp_total p))
    \<and> (\<forall>c \<in> set (t_cells t). min_column_hu * n_col_span c \<le> wp_expected p c)
    \<and> (\<forall>r. 1 \<le> r \<and> r \<le> t_rows t \<longrightarrow>
        sum_list (map (wp_expected p) (filter (\<lambda>c. n_row c \<le> r \<and> r < n_row c + n_row_span c) (t_cells t))) = wp_total p)"
proof -
  obtain ws where len: "int (length ws) = t_cols t" and low: "\<forall>w \<in> set ws. min_column_hu \<le> w"
    and tot: "wp_total p = sum_list ws" "\<forall>room. available_of place = Some room \<longrightarrow> sum_list ws \<le> room"
      "rq = FitText \<longrightarrow> available_of place = Some (sum_list ws)"
    and ex: "\<And>c. wp_expected p c = edge_at (edges_from 0 ws) (n_col c - 1 + n_col_span c) - edge_at (edges_from 0 ws) (n_col c - 1)"
    using plan_width_facts [OF assms(3,2)] by blast
  have fit: "fits (t_cols t) (n_col c, n_col_span c)" if "c \<in> set (t_cells t)" for c
    using tiling_fits [of "t_rows t" "t_cols t" "map n_box (t_cells t)" "n_box c"] assms(1) that
    by (simp add: table_tiled_def n_box_def)
  have cell: "wp_expected p c = (\<Sum>k<length ws. if reaches (n_col c, n_col_span c) (int k + 1) then ws ! k else 0)"
    if "c \<in> set (t_cells t)" for c
  proof -
    have b: "1 \<le> n_col c" "1 \<le> n_col_span c" "n_col c - 1 + n_col_span c \<le> int (length ws)"
      using fit [OF that] len by (auto simp: fits_def)
    have "wp_expected p c = sum_list (take (nat (n_col c - 1 + n_col_span c)) ws) - sum_list (take (nat (n_col c - 1)) ws)"
      using b by (simp add: ex edge_at_def edges_from_nth nat_le_iff)
    also have "\<dots> = (\<Sum>k<length ws. if nat (n_col c - 1) \<le> k \<and> k < nat (n_col c - 1 + n_col_span c) then ws ! k else 0)"
      using b by (intro take_sum_diff) (simp_all add: nat_le_iff)
    also have "\<dots> = (\<Sum>k<length ws. if reaches (n_col c, n_col_span c) (int k + 1) then ws ! k else 0)"
      using b by (intro sum.cong refl if_cong) (auto simp: reaches_def nat_le_iff zless_nat_eq_int_zless)
    finally show ?thesis .
  qed
  have "min_column_hu * n_col_span c \<le> wp_expected p c" if "c \<in> set (t_cells t)" for c
  proof -
    let ?S = "{k. k < length ws \<and> reaches (n_col c, n_col_span c) (int k + 1)}"
    have b: "1 \<le> n_col c" "1 \<le> n_col_span c" "n_col c - 1 + n_col_span c \<le> int (length ws)"
      using fit [OF that] len by (auto simp: fits_def)
    have "?S = {nat (n_col c - 1) ..< nat (n_col c - 1 + n_col_span c)}"
      using b by (auto simp: reaches_def nat_le_iff zless_nat_eq_int_zless)
    then have card: "int (card ?S) = n_col_span c" using b by simp
    have "min_column_hu * n_col_span c = (\<Sum>k \<in> ?S. min_column_hu)" using card by (simp add: mult.commute)
    also have "\<dots> \<le> (\<Sum>k \<in> ?S. ws ! k)" using low by (intro sum_mono) simp
    also have "\<dots> = wp_expected p c" using cell [OF that] by (simp add: sum.If_cases Int_def lessThan_def conj_commute)
    finally show ?thesis .
  qed
  moreover have "sum_list (map (wp_expected p) (filter (\<lambda>c. n_row c \<le> r \<and> r < n_row c + n_row_span c) (t_cells t))) = wp_total p"
    if r: "1 \<le> r" "r \<le> t_rows t" for r
    using r tot(1) width_of_row [OF assms(1) len cell] by simp
  ultimately show ?thesis using tot by auto
qed

text \<open>The example table with columns of 1500 and 2500 units.\<close>

definition wide_table :: ntable where
  "wide_table = plain_table\<lparr>t_cells := [(plain_cell 1 1 2 ''head'')\<lparr>n_width := 4000\<rparr>, (plain_cell 2 1 1 ''a'')\<lparr>n_width := 1500\<rparr>,
     (plain_cell 2 2 1 ''b'')\<lparr>n_width := 2500\<rparr>]\<rparr>"

definition wide_place :: placement where
  "wide_place = OnPage ''fits'' 4000 8000 0 4000 9000 0 8000"

lemma wide_tiled: "table_tiled wide_table"
  using plain_tiled by (simp add: table_tiled_def wide_table_def plain_table_def n_box_def)

lemma wide_edges: "column_edges wide_table = Some [0, 1500, 4000]"
proof -
  let ?cs = "[(plain_cell 2 1 1 ''a'')\<lparr>n_width := 1500\<rparr>, (plain_cell 2 2 1 ''b'')\<lparr>n_width := 2500\<rparr>,
     (plain_cell 1 1 2 ''head'')\<lparr>n_width := 4000\<rparr>]"
  have s: "sort_key n_col_span (t_cells wide_table) = ?cs" by (simp add: wide_table_def plain_cell_def)
  have span: "spanned_cols ((plain_cell r c 1 x)\<lparr>n_width := w\<rparr>) = [c]" "spanned_cols ((plain_cell 1 1 2 x)\<lparr>n_width := w\<rparr>) = [1, 2]"
    for r c x w by (simp_all add: spanned_cols_def plain_cell_def upto.simps)
  have "nat (t_cols wide_table) + 1 = Suc (Suc (Suc 0))" by (simp add: wide_table_def plain_table_def)
  then have "learn_rounds (nat (t_cols wide_table) + 1) ?cs Map.empty = [1 \<mapsto> 1500, 2 \<mapsto> 2500]"
    by (simp add: learn_width_def span)
  moreover have "remdups (concat (map spanned_cols (t_cells wide_table))) = [1, 2]" by (simp add: wide_table_def span)
  moreover have "[1..t_cols wide_table] = [1, 2]" by (simp add: wide_table_def plain_table_def upto.simps)
  moreover have "t_cols wide_table = 2" by (simp add: wide_table_def plain_table_def)
  ultimately show ?thesis by (simp add: column_edges_def s)
qed

theorem planned_widths_fit_witness:
  "\<exists>p. plan_width wide_table wide_place FitText = Inr p \<and> wp_total p = 8000"
proof -
  have p: "\<exists>p. plan_width wide_table wide_place FitText = Inr p"
    unfolding plan_width_def wide_edges
    by (simp add: Let_def wanted_widths_def wide_place_def available_of_def fitted_def round_half_even_def min_column_hu_def
        width_rects_def wide_table_def plain_table_def plain_cell_def max_width_actions_def)
  have "1 \<le> t_cols wide_table" by (simp add: wide_table_def plain_table_def)
  with p planned_widths_fit [OF wide_tiled] show ?thesis by (fastforce simp: wide_place_def available_of_def)
qed

end
