(* ===== verification/CommandProps.thy ===== *)
theory CommandProps
  imports NativeCommand NativeProps StyleProps
begin

text \<open>
  What a caller of the table commands may rely on: a refusal means that no mutating call was issued,
  a success that exactly the planned calls were issued and the document read back afterwards has no
  problem, and everything else is reported as unproven.
\<close>

section \<open>The discipline of commands\<close>

text \<open>
  A command never forgets that a mutating call was issued, and lists calls only after that.
  \<open>harmless\<close> commands issue none.
\<close>

definition disciplined :: "('d, 'a) cmd \<Rightarrow> bool" where
  "disciplined m \<longleftrightarrow> (\<forall>s r s'. m s = (r, s') \<longrightarrow> (s_reached s \<longrightarrow> s_reached s') \<and> (\<not> s_reached s' \<longrightarrow> s_calls s' = s_calls s))"

definition harmless :: "('d, 'a) cmd \<Rightarrow> bool" where
  "harmless m \<longleftrightarrow> (\<forall>s r s'. m s = (r, s') \<longrightarrow> s_reached s' = s_reached s \<and> s_calls s' = s_calls s)"

named_theorems command_rules \<open>discipline of the command combinators\<close>

lemma harmless_disciplined: "harmless m \<Longrightarrow> disciplined m"
  unfolding harmless_def disciplined_def by metis

lemma harmless_basic [command_rules]:
  "harmless (ret x)" "harmless (fail e)" "harmless (refuse_unless b c)" "harmless (lift_sum r)"
  by (auto simp: harmless_def ret_def fail_def refuse_unless_def lift_sum_def split: sum.splits)

lemma harmless_device [command_rules]: "harmless (on_device f)"
  by (auto simp: harmless_def on_device_def split: prod.splits)

lemma harmless_bind [command_rules]:
  assumes "harmless m" and "\<And>x. harmless (f x)"
  shows "harmless (bind_c m f)"
  unfolding harmless_def
proof (intro allI impI)
  fix s r s' assume run: "bind_c m f s = (r, s')"
  obtain q s1 where m: "m s = (q, s1)" by force
  show "s_reached s' = s_reached s \<and> s_calls s' = s_calls s"
  proof (cases q)
    case (Inl e)
    with run m assms(1) show ?thesis by (auto simp: bind_c_def harmless_def)
  next
    case (Inr x)
    with run m have "f x s1 = (r, s')" by (simp add: bind_c_def)
    with m assms show ?thesis unfolding harmless_def by metis
  qed
qed

lemma disciplined_bind [command_rules]:
  assumes "disciplined m" and "\<And>x. disciplined (f x)"
  shows "disciplined (bind_c m f)"
  unfolding disciplined_def
proof (intro allI impI)
  fix s r s' assume run: "bind_c m f s = (r, s')"
  obtain q s1 where m: "m s = (q, s1)" by force
  show "(s_reached s \<longrightarrow> s_reached s') \<and> (\<not> s_reached s' \<longrightarrow> s_calls s' = s_calls s)"
  proof (cases q)
    case (Inl e)
    with run m assms(1) show ?thesis by (auto simp: bind_c_def disciplined_def)
  next
    case (Inr x)
    with run m have "f x s1 = (r, s')" by (simp add: bind_c_def)
    with m assms show ?thesis unfolding disciplined_def by metis
  qed
qed

lemma seq_rules [command_rules]:
  "harmless m \<Longrightarrow> harmless n \<Longrightarrow> harmless (seq_c m n)"
  "disciplined m \<Longrightarrow> disciplined n \<Longrightarrow> disciplined (seq_c m n)"
  unfolding seq_c_def by (intro command_rules; assumption)+

lemma if_rules [command_rules]:
  "harmless m \<Longrightarrow> harmless n \<Longrightarrow> harmless (if b then m else n)"
  "disciplined m \<Longrightarrow> disciplined n \<Longrightarrow> disciplined (if b then m else n)"
  by simp_all

lemma harmless_run [command_rules]: "harmless (run_action h a)" "harmless (cancel_and_refuse h c)" "harmless (plain_in_table h i)"
  "harmless (in_table_now h i)"
  unfolding run_action_def cancel_and_refuse_def plain_in_table_def in_table_now_def by (intro command_rules)+

lemma harmless_enter [command_rules]: "harmless (enter_table h i)"
  unfolding enter_table_def by (intro command_rules)

lemma harmless_walk [command_rules]: "harmless (walk_to h k n)"
  by (induction n) (simp_all, (intro command_rules | assumption)+)

lemma harmless_goto [command_rules]: "harmless (goto_cell h i k n)"
  unfolding goto_cell_def by (intro command_rules)

lemma harmless_run_all [command_rules]: "harmless (run_all h ms)"
  by (induction ms) (simp_all, (intro command_rules | assumption)+)

lemma harmless_check [command_rules]: "harmless (check_selection h i cs)"
  unfolding check_selection_def by (intro command_rules)

lemma harmless_select [command_rules]: "harmless (select_block h i t area)"
  by (auto simp: select_block_def intro!: command_rules split: list.split option.split)

lemma harmless_aim [command_rules]: "harmless (aim h t area)"
  unfolding aim_def by (intro command_rules)

lemma harmless_finish [command_rules]: "harmless (finish_command h)"
  unfolding finish_command_def by (intro command_rules)

lemma harmless_judged [command_rules]: "harmless (judged h good)"
  unfolding judged_def by (intro command_rules)

lemma harmless_bound [command_rules]: "harmless (bound_table h tid b)"
  unfolding bound_table_def by (intro command_rules) (auto intro!: command_rules split: option.split)

lemma issue_after_reach:
  "issue_call h c s = (r, s') \<Longrightarrow> (s_reached s' \<and> s_calls s' = s_calls s @ [call_name c])
    \<or> (s_reached s' = s_reached s \<and> s_calls s' = s_calls s \<and> isl r)"
  by (auto simp: issue_call_def seq_c_def bind_c_def reach_issue_def log_call_def on_device_def ret_def fail_def
      split: prod.splits sum.splits if_splits)

lemma disciplined_issue [command_rules]: "disciplined (issue_call h c)"
  unfolding disciplined_def using issue_after_reach by metis

lemmas harmless_ones = harmless_basic harmless_device harmless_run harmless_enter harmless_goto harmless_select harmless_aim
  harmless_finish harmless_judged harmless_bound

lemmas disciplined_ones [command_rules] = harmless_ones [THEN harmless_disciplined]

lemma disciplined_execute [command_rules]: "disciplined (execute_edit h i t p)" "disciplined (execute_fill h x)" "disciplined (execute_width h w)"
  unfolding execute_edit_def execute_fill_def execute_width_def
  by (auto intro!: command_rules split: native_action.split)

lemma disciplined_aiming [command_rules]:
  "disciplined m \<Longrightarrow> disciplined (aim_again m)"
  "disciplined m \<Longrightarrow> disciplined n \<Longrightarrow> disciplined (when_reached m n)"
  unfolding disciplined_def aim_again_def when_reached_def
  by (auto split: prod.splits sum.splits command_failure.splits if_splits)

lemma disciplined_style [command_rules]: "disciplined (style_actions h t p)"
  unfolding style_actions_def by (auto intro!: command_rules split: option.split)

lemma disciplined_width [command_rules]: "disciplined (width_actions h t rs)"
  by (induction h t rs rule: width_actions.induct) (auto intro!: command_rules)

text \<open>Every outcome of a guarded command is one of: success, unproven, or refused with nothing issued.\<close>

lemma guarded_outcome:
  assumes "disciplined m" and "\<not> s_reached s" and "guarded m s = (Inl e, s')"
  shows "(\<exists>x. e = MutationUnproven x) \<or> (\<not> s_reached s' \<and> s_calls s' = s_calls s)"
proof -
  obtain r s1 where m: "m s = (r, s1)" by force
  with assms(3) show ?thesis
    using assms(1) unfolding disciplined_def
    by (cases r) (auto simp: guarded_def split: command_failure.splits if_splits)
qed

lemma guarded_success: "guarded m s = (Inr x, s') \<longleftrightarrow> m s = (Inr x, s')"
  by (auto simp: guarded_def split: prod.splits sum.splits command_failure.splits if_splits)

section \<open>Counting the calls of a success\<close>

definition issues :: "nat \<Rightarrow> ('d, 'a) cmd \<Rightarrow> bool" where
  "issues k m \<longleftrightarrow> (\<forall>s x s'. m s = (Inr x, s') \<longrightarrow> length (s_calls s') = length (s_calls s) + k)"

lemma bind_success: "bind_c m f s = (Inr y, s') \<longleftrightarrow> (\<exists>x s1. m s = (Inr x, s1) \<and> f x s1 = (Inr y, s'))"
  by (auto simp: bind_c_def split: prod.splits sum.splits)

lemma seq_success: "seq_c m n s = (Inr y, s') \<longleftrightarrow> (\<exists>x s1. m s = (Inr x, s1) \<and> n s1 = (Inr y, s'))"
  by (simp add: seq_c_def bind_success)

lemma issues_bind:
  assumes "issues j m" and "\<And>x. issues k (f x)"
  shows "issues (j + k) (bind_c m f)"
  using assms unfolding issues_def bind_success by (metis add.assoc)

lemma issues_seq: "issues j m \<Longrightarrow> issues k n \<Longrightarrow> issues (j + k) (seq_c m n)"
  unfolding seq_c_def by (rule issues_bind)

lemma harmless_issues: "harmless m \<Longrightarrow> issues 0 m"
  unfolding harmless_def issues_def by auto

lemma issues_after: "harmless m \<Longrightarrow> issues k n \<Longrightarrow> issues k (seq_c m n)"
  using issues_seq [OF harmless_issues] by fastforce

lemma issues_before: "issues k m \<Longrightarrow> harmless n \<Longrightarrow> issues k (seq_c m n)"
  using issues_seq [OF _ harmless_issues, of k m n] by simp

lemma issues_fail [simp]: "issues k (fail e)"
  by (simp add: issues_def fail_def)

lemma issues_call: "issues 1 (issue_call h c)"
  unfolding issues_def using issue_after_reach by fastforce

lemma issues_refuse: "issues k (cancel_and_refuse h c)"
  by (auto simp: issues_def cancel_and_refuse_def seq_success fail_def)

lemma issues_one_of_defaults:
  assumes "issues 1 m" and "\<And>k. issues k n"
  shows "issues 1 (bind_c (on_device f) (\<lambda>ok. if \<not> ok then n else m))"
  using issues_bind [OF harmless_issues [OF harmless_device], of 1 "\<lambda>ok. if \<not> ok then n else m" f] assms by simp

lemma issues_then_ret: "issues 1 (seq_c (issue_call h c) (ret x))"
  by (rule issues_before [OF issues_call harmless_basic(1)])

lemma issues_default_then_ret:
  "issues 1 (bind_c (on_device f) (\<lambda>ok. if \<not> ok then fail e else seq_c (issue_call h c) (ret x)))"
  by (rule issues_one_of_defaults [OF issues_then_ret issues_fail])

lemma issues_execute: "issues 1 (execute_edit h i t p)" "issues 1 (execute_fill h x)" "issues 1 (execute_width h w)"
proof -
  show "issues 1 (execute_edit h i t p)"
    by (cases "p_native p")
      (simp_all only: execute_edit_def native_action.case,
        (rule issues_after, intro command_rules, rule issues_then_ret issues_default_then_ret)+)
  show "issues 1 (execute_fill h x)" "issues 1 (execute_width h w)"
    unfolding execute_fill_def execute_width_def by (rule issues_one_of_defaults [OF issues_call issues_refuse])+
qed

lemma issues_width: "issues (length rs) (width_actions h t rs)"
proof (induction h t rs rule: width_actions.induct)
  case (2 h t area width rs)
  have "issues 0 (when_reached (aim_again (aim h t area)) (aim h t area))"
  proof -
    have "issues 0 (aim h t area)" by (intro harmless_issues command_rules)
    then show ?thesis
      unfolding issues_def when_reached_def aim_again_def
      by (auto split: prod.splits sum.splits command_failure.splits if_splits)
  qed
  from issues_seq [OF this issues_seq [OF issues_execute(3) issues_after [OF harmless_run(1) 2]]] show ?case
    by simp
qed (simp add: issues_def ret_def)

section \<open>Outcomes\<close>

lemma basic_success [simp]:
  "lift_sum r s = (Inr x, s') \<longleftrightarrow> r = Inr x \<and> s' = s" "ret x s = (Inr y, s') \<longleftrightarrow> y = x \<and> s' = s"
  "fail e s \<noteq> (Inr y, s')"
  by (auto simp: lift_sum_def ret_def fail_def split: sum.splits)

lemma bound_success:
  assumes "bound_table h tid b s = (Inr (before, t, page), s')"
  shows "resolve_table (doc_model before) tid = Inr t \<and> require_binding t b page = None"
  using assms by (auto simp: bound_table_def bind_success split: option.splits)

lemma judged_success:
  assumes "judged h good s = (Inr after, s')"
  shows "good after"
  using assms by (auto simp: judged_def bind_success seq_success split: if_splits)

text \<open>
  C1. \<open>apply_edit\<close> has three kinds of outcome whatever Hancom does: it succeeds, having issued exactly
  one mutating call for the plan of the very table whose hash, grid and page the request named, and the
  document read back afterwards has no problem; or it reports the outcome as unproven; or it fails with
  another error and no mutating call was issued at all.
\<close>

theorem apply_edit_outcomes:
  assumes "\<not> s_reached s" and "apply_edit h tid b rq s = (r, s')"
  shows "case r of
      Inl e \<Rightarrow> (\<exists>m. e = MutationUnproven m) \<or> (\<not> s_reached s' \<and> s_calls s' = s_calls s)
    | Inr out \<Rightarrow> length (s_calls s') = length (s_calls s) + 1 \<and> (\<exists>t p caret.
        resolve_table (doc_model (o_before out)) tid = Inr t \<and> require_binding t b (o_page out) = None
        \<and> plan_edit t rq = Inr p \<and> edit_good (o_before out) t p rq caret (o_after out))"
proof -
  let ?body = "bind_c (bound_table h tid b) (\<lambda>(before, t, page).
      bind_c (lift_sum (plan_edit t rq)) (\<lambda>p.
        seq_c (enter_table h (t_inst t))
          (bind_c (execute_edit h (t_inst t) t p) (\<lambda>actions.
            bind_c (if caret_after rq p = None then ret None else on_device (hw_cell_addr h)) (\<lambda>caret.
              bind_c (seq_c (run_action h ''Cancel'') (judged h (edit_good before t p rq caret))) (\<lambda>after.
                ret \<lparr>o_changed = True, o_actions = actions, o_before = before, o_after = after, o_page = page\<rparr>))))))"
  have run: "guarded ?body s = (r, s')" using assms(2) by (simp add: apply_edit_def)
  have disc: "disciplined ?body" by (auto intro!: command_rules split: prod.splits)
  show ?thesis
  proof (cases r)
    case (Inl e)
    with guarded_outcome [OF disc assms(1)] run show ?thesis by auto
  next
    case (Inr out)
    with run have "?body s = (Inr out, s')" by (simp add: guarded_success)
    then obtain before t page s1 p s2 s3 x s4 actions s5 caret s6 y s7 after s8 where
      steps: "bound_table h tid b s = (Inr (before, t, page), s1)" "lift_sum (plan_edit t rq) s1 = (Inr p, s2)"
        "enter_table h (t_inst t) s2 = (Inr x, s3)" "execute_edit h (t_inst t) t p s3 = (Inr actions, s4)"
        "(if caret_after rq p = None then ret None else on_device (hw_cell_addr h)) s4 = (Inr caret, s5)"
        "run_action h ''Cancel'' s5 = (Inr y, s6)" "judged h (edit_good before t p rq caret) s6 = (Inr after, s')"
        "out = \<lparr>o_changed = True, o_actions = actions, o_before = before, o_after = after, o_page = page\<rparr>"
      by (auto simp: bind_success seq_success split: prod.splits)
    have same: "s_calls s1 = s_calls s" "s_calls s2 = s_calls s1" "s_calls s3 = s_calls s2" "s_calls s5 = s_calls s4"
      "s_calls s6 = s_calls s5" "s_calls s' = s_calls s6"
      using harmless_bound [of h tid b] harmless_basic(4) [of "plan_edit t rq"] harmless_enter [of h "t_inst t"]
        if_rules(1) [OF harmless_basic(1) harmless_device, of "caret_after rq p = None" None "hw_cell_addr h"]
        harmless_run(1) [of h "''Cancel''"] harmless_judged [of h "edit_good before t p rq caret"] steps
      unfolding harmless_def by blast+
    have one: "length (s_calls s4) = length (s_calls s3) + 1"
      using issues_execute(1) [of h "t_inst t" t p] steps(4) unfolding issues_def by blast
    have "plan_edit t rq = Inr p" using steps(2) by simp
    with bound_success [OF steps(1)] judged_success [OF steps(7)] same one Inr steps(8) show ?thesis by auto
  qed
qed


text \<open>A device that is obedient: its state is whether the one edit has run.\<close>

definition plain_document :: "ntable \<Rightarrow> document" where
  "plain_document t = \<lparr>dc_census = (\<lambda>_. []), dc_definitions = [], dc_controls = [''tbl''], dc_tables = [t], dc_margin_tables = [],
     dc_duplicates = [], dc_paragraphs = [], dc_pictures = []\<rparr>"

definition obedient :: "int \<times> int \<Rightarrow> bool hancom" where
  "obedient k = \<lparr>hw_read = (\<lambda>d. (Inr (plain_document (if d then plain_after else plain_table)), d)), hw_page = (\<lambda>i d. (Inr (Some 1), d)),
     hw_run = (\<lambda>a d. (Inr True, d)), hw_goto_control = (\<lambda>i d. (Inr True, d)), hw_is_cell = (\<lambda>d. (Inr True, d)),
     hw_parent = (\<lambda>d. (Inr (Some ''1''), d)), hw_cell_addr = (\<lambda>d. (Inr (Some k), d)), hw_selection_mode = (\<lambda>d. (Inr 0, d)),
     hw_selected = (\<lambda>d. (Inr None, d)), hw_defaults = (\<lambda>n d. (Inr True, d)), hw_on_mutating = (\<lambda>d. (Inr (), d)),
     hw_native = (\<lambda>c d. (Inr True, True)), hw_restore = (\<lambda>d. (Inr (), d))\<rparr>"

definition fresh_session :: "bool native_session" where
  "fresh_session = \<lparr>s_device = False, s_reached = False, s_calls = []\<rparr>"

definition plain_binding :: binding where
  "plain_binding = \<lparr>bd_rows = 2, bd_cols = 2, bd_hash = [], bd_page = 1\<rparr>"

lemma obedient_device [simp]:
  "on_device (hw_read (obedient k)) s = (Inr (plain_document (if s_device s then plain_after else plain_table)), s)"
  "on_device (hw_page (obedient k) i) s = (Inr (Some 1), s)" "run_action (obedient k) a s = (Inr True, s)"
  "on_device (hw_goto_control (obedient k) i) s = (Inr True, s)" "on_device (hw_cell_addr (obedient k)) s = (Inr (Some k), s)"
  "on_device (hw_selection_mode (obedient k)) s = (Inr 0, s)" "on_device (hw_restore (obedient k)) s = (Inr (), s)"
  "in_table_now (obedient k) ''1'' s = (Inr True, s)"
  by (simp_all add: on_device_def obedient_def run_action_def in_table_now_def bind_c_def ret_def)

lemma obedient_issue [simp]:
  "issue_call (obedient k) c s = (Inr (), s\<lparr>s_device := True, s_reached := True, s_calls := s_calls s @ [call_name c]\<rparr>)"
  by (simp add: issue_call_def seq_c_def bind_c_def reach_issue_def log_call_def on_device_def ret_def obedient_def)

lemma obedient_run: "\<exists>out. apply_edit (obedient (2, 1)) ''tbl:1'' plain_binding (DeleteLines True 2 1 plain_removed) fresh_session
    = (Inr out, \<lparr>s_device = True, s_reached = True, s_calls = [''TableDeleteRow'']\<rparr>)"
proof -
  obtain p where p: "plan_edit plain_table (DeleteLines True 2 1 plain_removed) = Inr p" using plain_delete by blast
  then have f: "p_rows p = 1" "p_cols p = 1" "p_entries p = [plain_entry]" "p_removed_objects p = []" "p_removed_tables p = []"
    "p_caret p = plain_cell 2 1 1 ''a''" "p_native p = NativeDeleteLine ''TableDeleteRow''"
    by (auto simp: plan_edit_def plan_delete_def Let_def plain_collapsed plain_rows plain_cell_def split: if_splits sum.splits)
  have k: "n_key (p_caret p) = (2, 1)" by (simp add: f(6) n_key_def plain_cell_def)
  have bound: "bound_table (obedient (2, 1)) ''tbl:1'' plain_binding fresh_session
      = (Inr (plain_document plain_table, plain_table, Some 1), fresh_session)"
    by (simp add: bound_table_def bind_c_def fresh_session_def lift_sum_def resolve_table_def doc_model_def plain_document_def
        plain_table_def ret_def require_binding_def plain_binding_def)
  have inst: "t_inst plain_table = ''1''" "t_id plain_table = ''tbl:1''" by (simp_all add: plain_table_def)
  have enter: "enter_table (obedient (2, 1)) ''1'' s = (Inr (), s)" for s
    by (simp add: enter_table_def seq_c_def bind_c_def plain_in_table_def ret_def)
  have walk: "walk_to (obedient (2, 1)) (2, 1) (Suc n) s = (Inr (), s)" for n s by (simp add: bind_c_def ret_def)
  have goto: "goto_cell (obedient (2, 1)) ''1'' (2, 1) n s = (Inr (), s)" for n s
    using walk [of "n * 2 + 501"] by (simp add: goto_cell_def seq_c_def bind_c_def refuse_unless_def ret_def)
  have found: "find_table (plain_document plain_after) ''tbl:1'' = Some plain_after"
    by (simp add: find_table_def plain_document_def plain_after_def plain_table_def)
  have "document_problems (plain_document plain_table) (plain_document plain_after) (Some plain_table) structure_lists [] [] False False = []"
    by (simp add: document_problems_def Let_def plain_document_def compared_fields_def definition_problems_def outside_rows_def
        states_of_def not_target_def plain_after_def plain_table_def same_dict_def with_descendants_def)
  then have good: "edit_good (plain_document plain_table) plain_table p (DeleteLines True 2 1 plain_removed) None (plain_document plain_after)"
    using plain_no_problems [OF f(1-3)] by (simp add: edit_good_def inst found f(4,5) caret_after_def)
  have end_state: "\<lparr>s_device = True, s_reached = True, s_calls = [''TableDeleteRow'']\<rparr>
      = fresh_session\<lparr>s_device := True, s_reached := True, s_calls := s_calls fresh_session @ [''TableDeleteRow'']\<rparr>"
    by (simp add: fresh_session_def)
  show ?thesis
    unfolding end_state
    by (simp add: apply_edit_def guarded_def bind_c_def bound lift_sum_def p seq_c_def inst enter execute_edit_def f(7) k goto
        caret_after_def ret_def judged_def good finish_command_def call_name_def)
qed

theorem apply_edit_outcomes_witness:
  "\<exists>out. length [''TableDeleteRow''] = length ([] :: string list) + 1
    \<and> apply_edit (obedient (2, 1)) ''tbl:1'' plain_binding (DeleteLines True 2 1 plain_removed) fresh_session
      = (Inr out, \<lparr>s_device = True, s_reached = True, s_calls = [''TableDeleteRow'']\<rparr>)
    \<and> require_binding plain_table plain_binding (o_page out) = None"
proof -
  obtain out where out: "apply_edit (obedient (2, 1)) ''tbl:1'' plain_binding (DeleteLines True 2 1 plain_removed) fresh_session
    = (Inr out, \<lparr>s_device = True, s_reached = True, s_calls = [''TableDeleteRow'']\<rparr>)" using obedient_run by blast
  from apply_edit_outcomes [OF _ out] obtain t where
    t: "resolve_table (doc_model (o_before out)) ''tbl:1'' = Inr t" "require_binding t plain_binding (o_page out) = None"
    by (auto simp: fresh_session_def)
  have "require_binding plain_table plain_binding (o_page out) = None" using t(2)
    by (auto simp: require_binding_def plain_binding_def plain_table_def split: if_splits)
  with out show ?thesis by simp
qed

text \<open>
  \<open>apply_width\<close> sets widths completely or says so: it succeeds without touching anything when no
  cell needs another width; it succeeds having issued exactly one native call per planned block for the
  very table the request named, and the table read back has every planned width and the document around
  it is as it was; or it reports the outcome as unproven; or it fails and no mutating call was issued.
\<close>

theorem apply_width_outcomes:
  assumes "\<not> s_reached s" and "apply_width h place tid b rq s = (r, s')"
  shows "case r of
      Inl e \<Rightarrow> (\<exists>m. e = MutationUnproven m) \<or> (\<not> s_reached s' \<and> s_calls s' = s_calls s)
    | Inr out \<Rightarrow> (\<exists>t p. resolve_table (doc_model (o_before out)) tid = Inr t \<and> require_binding t b (o_page out) = None
        \<and> plan_width t (place (o_before out) t) rq = Inr p
        \<and> length (s_calls s') = length (s_calls s) + length (wp_rects p)
        \<and> (if wp_rects p = [] then o_after out = o_before out else width_good (o_before out) t p (o_after out)))"
proof -
  let ?rest = "\<lambda>before t page p. if wp_rects p = [] then ret (unchanged before page)
      else seq_c (width_actions h t (wp_rects p))
        (bind_c (judged h (width_good before t p)) (\<lambda>after.
          ret \<lparr>o_changed = True, o_actions = replicate (length (wp_rects p)) ''Execute:TablePropertyDialog'',
            o_before = before, o_after = after, o_page = page\<rparr>))"
  let ?body = "bind_c (bound_table h tid b) (\<lambda>(before, t, page).
      bind_c (lift_sum (plan_width t (place before t) rq)) (?rest before t page))"
  have run: "guarded ?body s = (r, s')" using assms(2) by (simp add: apply_width_def)
  have disc: "disciplined ?body" by (auto intro!: command_rules split: prod.splits)
  show ?thesis
  proof (cases r)
    case (Inl e)
    with guarded_outcome [OF disc assms(1)] run show ?thesis by auto
  next
    case (Inr out)
    with run have "?body s = (Inr out, s')" by (simp add: guarded_success)
    then obtain before t page s1 p where steps: "bound_table h tid b s = (Inr (before, t, page), s1)"
      "plan_width t (place before t) rq = Inr p" "?rest before t page p s1 = (Inr out, s')"
      by (auto simp: bind_success split: prod.splits)
    have c1: "s_calls s1 = s_calls s" using harmless_bound [of h tid b] steps(1) unfolding harmless_def by blast
    have "o_before out = before \<and> o_page out = page \<and> length (s_calls s') = length (s_calls s) + length (wp_rects p)
      \<and> (if wp_rects p = [] then o_after out = before else width_good before t p (o_after out))"
    proof (cases "wp_rects p = []")
      case True
      with steps(3) c1 show ?thesis by (simp add: unchanged_def)
    next
      case False
      with steps(3) obtain x s2 after where w: "width_actions h t (wp_rects p) s1 = (Inr x, s2)"
        "judged h (width_good before t p) s2 = (Inr after, s')"
        "out = \<lparr>o_changed = True, o_actions = replicate (length (wp_rects p)) ''Execute:TablePropertyDialog'',
            o_before = before, o_after = after, o_page = page\<rparr>"
        by (auto simp: bind_success seq_success)
      have "length (s_calls s2) = length (s_calls s1) + length (wp_rects p)"
        using issues_width [of "wp_rects p" h t] w(1) unfolding issues_def by blast
      moreover have "s_calls s' = s_calls s2"
        using harmless_judged [of h "width_good before t p"] w(2) unfolding harmless_def by blast
      ultimately show ?thesis using judged_success [OF w(2)] w(3) c1 False by simp
    qed
    with bound_success [OF steps(1)] steps(2) Inr show ?thesis by auto
  qed
qed

text \<open>The table of given widths, asked for these widths.\<close>

definition wide_device :: "bool hancom" where
  "wide_device = (obedient (1, 1))\<lparr>hw_read := (\<lambda>d. (Inr (plain_document wide_table), d))\<rparr>"

lemma wide_bound: "bound_table wide_device ''tbl:1'' plain_binding fresh_session
    = (Inr (plain_document wide_table, wide_table, Some 1), fresh_session)"
  by (simp add: bound_table_def bind_c_def fresh_session_def lift_sum_def resolve_table_def doc_model_def plain_document_def
      wide_device_def obedient_def on_device_def wide_table_def plain_table_def ret_def require_binding_def plain_binding_def)

lemma wide_plan: "\<exists>p. plan_width wide_table place (ColumnWidths [1500, 2500]) = Inr p \<and> wp_rects p = []"
  if "available_of place = None"
  using that unfolding plan_width_def wide_edges
  by (simp add: Let_def wanted_widths_def min_column_hu_def max_width_actions_def width_rects_def)
     (simp add: wide_table_def plain_table_def plain_cell_def edge_at_def)

lemma wide_run: "\<exists>out. apply_width wide_device (\<lambda>_ _. Unverified []) ''tbl:1'' plain_binding (ColumnWidths [1500, 2500]) fresh_session
    = (Inr out, fresh_session)"
proof -
  obtain p where p: "plan_width wide_table (Unverified []) (ColumnWidths [1500, 2500]) = Inr p" "wp_rects p = []"
    using wide_plan [of "Unverified []"] by (auto simp: available_of_def)
  then show ?thesis by (simp add: apply_width_def guarded_def bind_c_def wide_bound lift_sum_def ret_def)
qed

theorem apply_width_outcomes_witness:
  "\<exists>out t. apply_width wide_device (\<lambda>_ _. Unverified []) ''tbl:1'' plain_binding (ColumnWidths [1500, 2500]) fresh_session
      = (Inr out, fresh_session) \<and> resolve_table (doc_model (o_before out)) ''tbl:1'' = Inr t
    \<and> require_binding t plain_binding (o_page out) = None"
proof -
  obtain out where out: "apply_width wide_device (\<lambda>_ _. Unverified []) ''tbl:1'' plain_binding (ColumnWidths [1500, 2500])
      fresh_session = (Inr out, fresh_session)" using wide_run by blast
  from apply_width_outcomes [OF _ out] show ?thesis using out by (auto simp: fresh_session_def)
qed

end
