(* ===== verification/Json.thy ===== *)
theory Json
  imports PyText Complex_Main
begin

text \<open>
  Values as \<open>json.loads\<close> makes them. An object is the association list of its items in order, each
  name once; \<open>payload.get(name)\<close> of a missing name is \<open>None\<close> as in Python. Finite floats are rationals;
  \<open>NaN\<close> and the infinities are one value that equals nothing else here.
\<close>

datatype json =
    JNull | JBool bool | JInt int | JReal rat | JNonFinite | JStr string | JList "json list"
  | JObj "(string \<times> json) list"

type_synonym fields = "(string \<times> json) list"

definition get :: "fields \<Rightarrow> string \<Rightarrow> json" where
  "get kvs name = (case map_of kvs name of None \<Rightarrow> JNull | Some v \<Rightarrow> v)"

definition has :: "fields \<Rightarrow> string \<Rightarrow> bool" where
  "has kvs name \<longleftrightarrow> name \<in> fst ` set kvs"

text \<open>\<open>d[name] = value\<close> and \<open>d.update(e)\<close>: an existing name keeps its position.\<close>

fun put :: "string \<Rightarrow> json \<Rightarrow> fields \<Rightarrow> fields" where
  "put name v [] = [(name, v)]"
| "put name v ((k, x) # kvs) = (if k = name then (k, v) # kvs else (k, x) # put name v kvs)"

definition put_all :: "fields \<Rightarrow> fields \<Rightarrow> fields" where
  "put_all kvs new = fold (\<lambda>(k, v). put k v) new kvs"

definition truthy :: "json \<Rightarrow> bool" where
  "truthy v =
    (case v of JNull \<Rightarrow> False | JBool b \<Rightarrow> b | JInt n \<Rightarrow> n \<noteq> 0 | JReal x \<Rightarrow> x \<noteq> 0 | JNonFinite \<Rightarrow> True
     | JStr s \<Rightarrow> s \<noteq> [] | JList xs \<Rightarrow> xs \<noteq> [] | JObj kvs \<Rightarrow> kvs \<noteq> [])"

text \<open>\<open>isinstance(value, dict)\<close> with the empty object for anything else, likewise for text.\<close>

definition as_obj :: "json \<Rightarrow> fields" where
  "as_obj v = (case v of JObj kvs \<Rightarrow> kvs | _ \<Rightarrow> [])"

definition as_text :: "json \<Rightarrow> string option" where
  "as_text v = (case v of JStr s \<Rightarrow> Some s | _ \<Rightarrow> None)"

lemma get_put [simp]: "get (put name v kvs) k = (if k = name then v else get kvs k)"
  by (induction kvs) (auto simp: get_def)

lemma put_names: "fst ` set (put name v kvs) = insert name (fst ` set kvs)"
  by (induction name v kvs rule: put.induct) auto

lemma has_put [simp]: "has (put name v kvs) k \<longleftrightarrow> k = name \<or> has kvs k"
  by (simp add: has_def put_names)

lemma keys_put: "distinct (map fst kvs) \<Longrightarrow> distinct (map fst (put name v kvs))"
  by (induction name v kvs rule: put.induct) (auto simp: put_names)

lemma put_all_simps [simp]: "put_all kvs [] = kvs" "put_all kvs ((k, v) # new) = put_all (put k v kvs) new"
  by (simp_all add: put_all_def)

lemma get_put_all: "distinct (map fst new) \<Longrightarrow> get (put_all kvs new) k = (if has new k then get new k else get kvs k)"
proof (induction new arbitrary: kvs)
  case (Cons kv new)
  obtain a b where kv: "kv = (a, b)" by force
  show ?case
  proof (cases "k = a")
    case True
    with Cons.prems kv have "\<not> has new k" by (auto simp: has_def)
    with Cons True show ?thesis by (simp add: kv has_def) (simp add: get_def)
  next
    case False
    with Cons show ?thesis by (simp add: kv has_def) (simp add: get_def)
  qed
qed (simp add: has_def)

lemma get_absent: "\<not> has kvs k \<Longrightarrow> get kvs k = JNull"
proof -
  assume "\<not> has kvs k"
  then have "map_of kvs k = None" by (simp add: has_def map_of_eq_None_iff)
  then show ?thesis by (simp add: get_def)
qed

section \<open>Equality\<close>

text \<open>\<open>==\<close>: numbers by value (\<open>True == 1 == 1.0\<close>), objects without their order.\<close>

fun py_eq :: "json \<Rightarrow> json \<Rightarrow> bool"
  and py_list_eq :: "json list \<Rightarrow> json list \<Rightarrow> bool"
  and py_items_in :: "(string \<times> json) list \<Rightarrow> (string \<times> json) list \<Rightarrow> bool" where
  "py_eq JNull w = (w = JNull)"
| "py_eq (JBool b) w = (case w of JBool c \<Rightarrow> b = c | JInt n \<Rightarrow> n = of_bool b | JReal x \<Rightarrow> x = of_bool b | _ \<Rightarrow> False)"
| "py_eq (JInt n) w = (case w of JBool c \<Rightarrow> n = of_bool c | JInt m \<Rightarrow> n = m | JReal x \<Rightarrow> x = of_int n | _ \<Rightarrow> False)"
| "py_eq (JReal x) w = (case w of JBool c \<Rightarrow> x = of_bool c | JInt m \<Rightarrow> x = of_int m | JReal y \<Rightarrow> x = y | _ \<Rightarrow> False)"
| "py_eq JNonFinite w = False"
| "py_eq (JStr s) w = (w = JStr s)"
| "py_eq (JList xs) w = (case w of JList ys \<Rightarrow> py_list_eq xs ys | _ \<Rightarrow> False)"
| "py_eq (JObj xs) w = (case w of JObj ys \<Rightarrow> length xs = length ys \<and> py_items_in xs ys | _ \<Rightarrow> False)"
| "py_list_eq [] ys = (ys = [])"
| "py_list_eq (x # xs) ys = (case ys of [] \<Rightarrow> False | y # ys' \<Rightarrow> py_eq x y \<and> py_list_eq xs ys')"
| "py_items_in [] ys = True"
| "py_items_in ((k, v) # xs) ys =
    ((case map_of ys k of None \<Rightarrow> False | Some w \<Rightarrow> py_eq v w) \<and> py_items_in xs ys)"

lemma items_in_get: "py_items_in xs ys \<Longrightarrow> has xs k \<Longrightarrow> has ys k \<and> py_eq (get xs k) (get ys k)"
proof (induction xs)
  case (Cons kv xs)
  obtain a v where kv: "kv = (a, v)" by force
  show ?case
  proof (cases "k = a")
    case True
    with Cons.prems kv obtain w where "map_of ys k = Some w" "py_eq v w" by (auto split: option.split_asm)
    then show ?thesis using True kv by (force simp: get_def has_def dest: map_of_SomeD)
  next
    case False
    with Cons kv show ?thesis by (auto simp: has_def get_def)
  qed
qed (simp add: has_def)

lemma obj_eq_get: "py_eq (JObj xs) (JObj ys) \<Longrightarrow> has xs k \<Longrightarrow> has ys k \<and> py_eq (get xs k) (get ys k)"
  using items_in_get [of xs ys k] by simp

end
