(* ===== verification/Requests.thy ===== *)
theory Requests
  imports NativeStyle TableStructure Json
begin

text \<open>
  The validators of app/native_table.py: a bundle step, an object with any fields, becomes the request
  the planners take, or is refused with the field that is wrong (\<open>NativeNumberingInputError\<close>; its texts
  are not modelled). An address that passes \<open>_ADDRESS\<close> is always parsed, so the branch in which
  \<open>parse_cell_address\<close> gives \<open>None\<close> is never taken (\<open>address_parsed\<close> in \<open>RequestProps\<close>).
\<close>

datatype input_error = UnknownFields "string list" | NotConfirmed | BadField string | StrayFields "string list"

definition step_envelope_keys :: "string list" where
  "step_envelope_keys = [''op'', ''operation'', ''label'', ''confirm_layout'']"

definition bound_fields :: "string list" where
  "bound_fields = [''table_id'', ''expected_hash'', ''expected_page'', ''expected_rows'', ''expected_cols'']"

definition edit_fields :: "string list" where
  "edit_fields = [''row'', ''col'', ''count'', ''cell'', ''end_cell'', ''split_rows'', ''split_cols'', ''expected_removed_cells'']"

definition style_fields :: "string list" where
  "style_fields = [''scope'', ''cell'', ''end_cell'', ''borders'', ''fill'', ''over_wider_neighbour'']"

definition width_fields :: "string list" where
  "width_fields = [''fit'', ''column_widths_mm'']"

definition create_fields :: "string list" where
  "create_fields = [''match'', ''expected_page'', ''rows'', ''cols'', ''cells'']"

definition max_lines :: int where "max_lines = 50"
definition max_split :: int where "max_split = 20"
definition max_read_cells :: int where "max_read_cells = 2000"

type_synonym 'a checked = "input_error + 'a"

definition reject_unknown_keys :: "fields \<Rightarrow> string list \<Rightarrow> unit checked" where
  "reject_unknown_keys step allowed =
    (let unknown = sort (filter (\<lambda>k. k \<notin> set allowed) (map fst step))
     in if unknown \<noteq> [] then Inl (UnknownFields unknown) else Inr ())"

definition require_confirm_layout :: "fields \<Rightarrow> unit checked" where
  "require_confirm_layout step = (if get step ''confirm_layout'' = JBool True then Inr () else Inl NotConfirmed)"

definition and_then :: "'a checked \<Rightarrow> ('a \<Rightarrow> 'b checked) \<Rightarrow> 'b checked" where
  "and_then m f = (case m of Inl e \<Rightarrow> Inl e | Inr x \<Rightarrow> f x)"

lemma and_then_Inr: "and_then m f = Inr y \<longleftrightarrow> (\<exists>x. m = Inr x \<and> f x = Inr y)"
  by (cases m) (simp_all add: and_then_def)

section \<open>Patterns\<close>

text \<open>\<open>_TABLE_ID\<close>, \<open>_HASH\<close>, \<open>_CONTENT_HASH\<close>, \<open>_COLOR\<close> and \<open>_ADDRESS\<close> matched against the whole text.\<close>

definition is_lower_hex :: "char \<Rightarrow> bool" where
  "is_lower_hex c \<longleftrightarrow> is_digit c \<or> (97 \<le> (of_char c :: nat) \<and> (of_char c :: nat) \<le> 102)"

definition is_hex :: "char \<Rightarrow> bool" where
  "is_hex c \<longleftrightarrow> is_lower_hex c \<or> (65 \<le> (of_char c :: nat) \<and> (of_char c :: nat) \<le> 70)"

definition is_table_id :: "string \<Rightarrow> bool" where
  "is_table_id s \<longleftrightarrow> starts_with ''tbl:'' s \<and> 1 \<le> length (drop 4 s) \<and> length (drop 4 s) \<le> 20 \<and> list_all is_digit (drop 4 s)"

definition is_hash :: "string \<Rightarrow> bool" where
  "is_hash s \<longleftrightarrow> starts_with ''sha256:'' s \<and> length (drop 7 s) = 24 \<and> list_all is_lower_hex (drop 7 s)"

definition is_content_hash :: "string \<Rightarrow> bool" where
  "is_content_hash s \<longleftrightarrow> length s = 24 \<and> list_all is_lower_hex s"

definition is_color :: "string \<Rightarrow> bool" where
  "is_color s \<longleftrightarrow> length s = 7 \<and> hd s = CHR ''#'' \<and> list_all is_hex (tl s)"

definition is_address :: "string \<Rightarrow> bool" where
  "is_address s \<longleftrightarrow>
    (let ls = takeWhile is_ascii_upper s; ds = dropWhile is_ascii_upper s
     in 1 \<le> length ls \<and> length ls \<le> 3 \<and> 1 \<le> length ds \<and> length ds \<le> 4 \<and> list_all is_digit ds \<and> hd ds \<noteq> CHR ''0'')"

section \<open>Fields\<close>

definition table_id_of :: "json \<Rightarrow> string checked" where
  "table_id_of v = (case v of JStr s \<Rightarrow> if is_table_id s then Inr s else Inl (BadField ''table_id'') | _ \<Rightarrow> Inl (BadField ''table_id''))"

definition positive :: "fields \<Rightarrow> string \<Rightarrow> int option \<Rightarrow> int checked" where
  "positive step name high =
    (case get step name of
       JInt n \<Rightarrow> if n < 1 \<or> (case high of None \<Rightarrow> False | Some h \<Rightarrow> n > h) then Inl (BadField name) else Inr n
     | _ \<Rightarrow> Inl (BadField name))"

definition positive_or :: "int \<Rightarrow> fields \<Rightarrow> string \<Rightarrow> int \<Rightarrow> int checked" where
  "positive_or d step name high = (if get step name = JNull then Inr d else positive step name (Some high))"

definition validated_binding :: "fields \<Rightarrow> (string \<times> binding) checked" where
  "validated_binding step =
    and_then (require_confirm_layout step) (\<lambda>_.
      case get step ''expected_hash'' of
        JStr h \<Rightarrow>
          if \<not> is_hash h then Inl (BadField ''expected_hash'')
          else and_then (table_id_of (get step ''table_id'')) (\<lambda>tid.
            and_then (positive step ''expected_page'' None) (\<lambda>page.
            and_then (positive step ''expected_rows'' (Some max_lines_of_grid)) (\<lambda>rows.
            and_then (positive step ''expected_cols'' (Some max_lines_of_grid)) (\<lambda>cols.
              Inr (tid, \<lparr>bd_rows = rows, bd_cols = cols, bd_hash = h, bd_page = page\<rparr>)))))
      | _ \<Rightarrow> Inl (BadField ''expected_hash''))"

definition address :: "fields \<Rightarrow> string \<Rightarrow> (int \<times> int) checked" where
  "address step name =
    (case get step name of
       JStr s \<Rightarrow>
         if is_address s then (case parse_cell_address s of Some p \<Rightarrow> Inr p | None \<Rightarrow> Inl (BadField name))
         else Inl (BadField name)
     | _ \<Rightarrow> Inl (BadField name))"

definition refuse_fields :: "fields \<Rightarrow> string list \<Rightarrow> string list \<Rightarrow> unit checked" where
  "refuse_fields step allowed fs =
    (let stray = filter (\<lambda>n. n \<notin> set allowed \<and> get step n \<noteq> JNull) fs
     in if stray \<noteq> [] then Inl (StrayFields stray) else Inr ())"

section \<open>Reading steps\<close>

definition validate_read_step :: "fields \<Rightarrow> (string \<times> int) checked" where
  "validate_read_step step =
    and_then (reject_unknown_keys step ([''table_id'', ''max_cells''] @ step_envelope_keys)) (\<lambda>_.
      and_then (table_id_of (get step ''table_id'')) (\<lambda>tid.
        and_then (positive_or max_read_cells step ''max_cells'' max_read_cells) (\<lambda>n. Inr (tid, n))))"

definition validate_inventory_step :: "fields \<Rightarrow> unit checked" where
  "validate_inventory_step step = reject_unknown_keys step step_envelope_keys"

section \<open>Edit steps\<close>

fun text_list :: "json list \<Rightarrow> string list option" where
  "text_list [] = Some []"
| "text_list (JStr s # vs) = map_option ((#) s) (text_list vs)"
| "text_list (_ # vs) = None"

definition removed_content :: "fields \<Rightarrow> (string option \<times> string) checked" where
  "removed_content item =
    (case (get item ''text'', get item ''content_sha256'') of
       (JStr x, JNull) \<Rightarrow> Inr (Some x, [])
     | (JNull, JStr h) \<Rightarrow> if is_content_hash h then Inr (None, h) else Inl (BadField ''text'')
     | _ \<Rightarrow> Inl (BadField ''text''))"

definition removed_names :: "fields \<Rightarrow> string list checked" where
  "removed_names item =
    (case (if has item ''objects'' then get item ''objects'' else JList []) of
       JList vs \<Rightarrow> (case text_list vs of None \<Rightarrow> Inl (BadField ''objects'') | Some names \<Rightarrow> Inr names)
     | _ \<Rightarrow> Inl (BadField ''objects''))"

definition removed_item :: "fields \<Rightarrow> removed_cell checked" where
  "removed_item item =
    (if \<exists>k \<in> fst ` set item. k \<notin> {''address'', ''text'', ''content_sha256'', ''objects''} then Inl (BadField ''address'')
     else and_then (address item ''address'') (\<lambda>key.
       and_then (removed_content item) (\<lambda>(x, h).
         and_then (removed_names item) (\<lambda>names. Inr \<lparr>rm_key = key, rm_text = x, rm_sha = h, rm_objects = names\<rparr>))))"

fun removed_items :: "json list \<Rightarrow> removed_cell list checked" where
  "removed_items [] = Inr []"
| "removed_items (v # vs) =
    (case v of JObj item \<Rightarrow> and_then (removed_item item) (\<lambda>x. and_then (removed_items vs) (\<lambda>xs. Inr (x # xs)))
     | _ \<Rightarrow> Inl (BadField ''address''))"

definition validated_removed :: "json \<Rightarrow> removed_cell list checked" where
  "validated_removed v =
    (case v of JNull \<Rightarrow> Inr []
     | JList vs \<Rightarrow> if int (length vs) > max_read_cells then Inl (BadField ''expected_removed_cells'') else removed_items vs
     | _ \<Rightarrow> Inl (BadField ''expected_removed_cells''))"

definition insert_sides :: "(string \<times> side) list" where
  "insert_sides = [(''insert_row_above'', TopSide), (''insert_row_below'', BottomSide),
    (''insert_col_left'', LeftSide), (''insert_col_right'', RightSide)]"

definition edit_actions :: "string list" where
  "edit_actions = map fst insert_sides @ [''delete_row'', ''delete_col'', ''merge_cells'', ''split_cell'', ''unmerge_cell'']"

definition line_request :: "fields \<Rightarrow> bool \<Rightarrow> string list \<Rightarrow> (int \<times> int) checked" where
  "line_request step on_rows more_fields =
    (let line = (if on_rows then ''row'' else ''col'') in
     and_then (refuse_fields step ([line, ''count''] @ more_fields) edit_fields) (\<lambda>_.
       and_then (positive step line (Some max_lines_of_grid)) (\<lambda>n.
         and_then (positive_or 1 step ''count'' max_lines) (\<lambda>k. Inr (n, k)))))"

definition delete_request :: "fields \<Rightarrow> bool \<Rightarrow> edit_request checked" where
  "delete_request step on_rows =
    and_then (line_request step on_rows [''expected_removed_cells'']) (\<lambda>(line, n).
      and_then (validated_removed (get step ''expected_removed_cells'')) (\<lambda>given. Inr (DeleteLines on_rows line n given)))"

definition split_request :: "fields \<Rightarrow> edit_request checked" where
  "split_request step =
    and_then (refuse_fields step [''cell'', ''split_rows'', ''split_cols''] edit_fields) (\<lambda>_.
      and_then (positive_or 1 step ''split_rows'' max_split) (\<lambda>rows.
        and_then (positive_or 1 step ''split_cols'' max_split) (\<lambda>cols.
          if rows * cols < 2 then Inl (BadField ''split_rows'')
          else and_then (address step ''cell'') (\<lambda>p. Inr (SplitInto p rows cols)))))"

definition edit_of :: "fields \<Rightarrow> string \<Rightarrow> edit_request checked" where
  "edit_of step action =
    (case map_of insert_sides action of
       Some s \<Rightarrow> and_then (line_request step (side_on_rows s) []) (\<lambda>(line, n). Inr (InsertLines s line n))
     | None \<Rightarrow>
       if action = ''delete_row'' then delete_request step True
       else if action = ''delete_col'' then delete_request step False
       else if action = ''merge_cells'' then
         and_then (refuse_fields step [''cell'', ''end_cell''] edit_fields) (\<lambda>_.
           and_then (address step ''cell'') (\<lambda>a. and_then (address step ''end_cell'') (\<lambda>b. Inr (MergeRange a b))))
       else if action = ''split_cell'' then split_request step
       else and_then (refuse_fields step [''cell''] edit_fields) (\<lambda>_. and_then (address step ''cell'') (\<lambda>p. Inr (Unmerge p))))"

definition validate_edit_step :: "fields \<Rightarrow> (string \<times> binding \<times> edit_request) checked" where
  "validate_edit_step step =
    and_then (reject_unknown_keys step (bound_fields @ ''action'' # edit_fields @ step_envelope_keys)) (\<lambda>_.
      and_then (validated_binding step) (\<lambda>(tid, b).
        case get step ''action'' of
          JStr action \<Rightarrow> if action \<notin> set edit_actions then Inl (BadField ''action'')
            else and_then (edit_of step action) (\<lambda>rq. Inr (tid, b, rq))
        | _ \<Rightarrow> Inl (BadField ''action'')))"

section \<open>Style steps\<close>

definition edge_groups :: "(string \<times> edge list) list" where
  "edge_groups =
    [(''top'', [Outer TopSide]), (''bottom'', [Outer BottomSide]), (''left'', [Outer LeftSide]), (''right'', [Outer RightSide]),
     (''outline'', map Outer sides), (''inner_horizontal'', [InnerHorizontal]), (''inner_vertical'', [InnerVertical]),
     (''inner'', [InnerHorizontal, InnerVertical]), (''all'', map Outer sides @ [InnerHorizontal, InnerVertical])]"

definition edge_names :: "json \<Rightarrow> string list checked" where
  "edge_names v =
    (case v of
       JList vs \<Rightarrow> (case text_list vs of
           Some names \<Rightarrow> if names = [] \<or> (\<exists>n \<in> set names. map_of edge_groups n = None) then Inl (BadField ''edges'') else Inr names
         | None \<Rightarrow> Inl (BadField ''edges''))
     | _ \<Rightarrow> Inl (BadField ''edges''))"

definition edge_parts :: "string list \<Rightarrow> edge list" where
  "edge_parts names = concat (map (\<lambda>n. case map_of edge_groups n of None \<Rightarrow> [] | Some es \<Rightarrow> es) names)"

definition named_inner :: "string list \<Rightarrow> edge list" where
  "named_inner names = concat (map (\<lambda>n. if n = ''inner_horizontal'' then [InnerHorizontal]
     else if n = ''inner_vertical'' then [InnerVertical] else []) names)"

text \<open>A finite number, not a truth value.\<close>

definition number :: "json \<Rightarrow> rat option" where
  "number v = (case v of JInt n \<Rightarrow> Some (of_int n) | JReal x \<Rightarrow> Some x | _ \<Rightarrow> None)"

definition line_values :: "fields \<Rightarrow> string \<Rightarrow> (rat \<times> string) checked" where
  "line_values item line =
    (if line = ''none'' then
       (if get item ''width_mm'' \<noteq> JNull \<or> get item ''color'' \<noteq> JNull then Inl (BadField ''width_mm'') else Inr (0, []))
     else case number (get item ''width_mm'') of
       None \<Rightarrow> Inl (BadField ''width_mm'')
     | Some w \<Rightarrow>
         if w \<notin> set line_widths then Inl (BadField ''width_mm'')
         else (case get item ''color'' of
             JStr c \<Rightarrow> if is_color c then Inr (w, map ascii_upper c) else Inl (BadField ''color'')
           | _ \<Rightarrow> Inl (BadField ''color'')))"

definition border_item :: "edge list \<Rightarrow> fields \<Rightarrow> border_group checked" where
  "border_item seen item =
    (if \<exists>k \<in> fst ` set item. k \<notin> {''edges'', ''line'', ''width_mm'', ''color''} then Inl (BadField ''borders'')
     else and_then (edge_names (get item ''edges'')) (\<lambda>names.
       let parts = edge_parts names in
       if \<not> distinct parts \<or> set seen \<inter> set parts \<noteq> {} then Inl (BadField ''edges'')
       else (case get item ''line'' of
           JStr line \<Rightarrow>
             if map_of line_types line = None then Inl (BadField ''line'')
             else and_then (line_values item line) (\<lambda>(w, c).
               Inr \<lparr>gr_edges = parts, gr_named_inner = named_inner names, gr_line = line, gr_width = w, gr_color = c\<rparr>)
         | _ \<Rightarrow> Inl (BadField ''line''))))"

fun border_groups :: "edge list \<Rightarrow> json list \<Rightarrow> border_group list checked" where
  "border_groups seen [] = Inr []"
| "border_groups seen (v # vs) =
    (case v of
       JObj item \<Rightarrow> and_then (border_item seen item) (\<lambda>g.
         and_then (border_groups (seen @ gr_edges g) vs) (\<lambda>gs. Inr (g # gs)))
     | _ \<Rightarrow> Inl (BadField ''borders''))"

definition validated_borders :: "json \<Rightarrow> border_group list checked" where
  "validated_borders v =
    (case v of JList vs \<Rightarrow> if vs = [] \<or> length vs > 7 then Inl (BadField ''borders'') else border_groups [] vs
     | _ \<Rightarrow> Inl (BadField ''borders''))"

definition scope_of :: "fields \<Rightarrow> scope checked" where
  "scope_of step =
    (case get step ''scope'' of
       JStr s \<Rightarrow>
         if s = ''table'' then
           (if get step ''cell'' \<noteq> JNull \<or> get step ''end_cell'' \<noteq> JNull then Inl (BadField ''cell'') else Inr WholeTable)
         else if s = ''cell'' then
           and_then (address step ''cell'') (\<lambda>p. if get step ''end_cell'' \<noteq> JNull then Inl (BadField ''end_cell'') else Inr (OneCell p))
         else if s = ''range'' then
           and_then (address step ''cell'') (\<lambda>a. and_then (address step ''end_cell'') (\<lambda>b. Inr (CellRange a b)))
         else Inl (BadField ''scope'')
     | _ \<Rightarrow> Inl (BadField ''scope''))"

definition over_wider :: "fields \<Rightarrow> bool checked" where
  "over_wider step =
    (let v = get step ''over_wider_neighbour'' in
     if v = JNull then Inr False
     else if v \<noteq> JBool True \<or> get step ''borders'' = JNull then Inl (BadField ''over_wider_neighbour'') else Inr True)"

definition fill_value :: "json \<Rightarrow> string option checked" where
  "fill_value v =
    (case v of
       JNull \<Rightarrow> Inr None
     | JStr s \<Rightarrow> if s = ''none'' then Inr (Some s) else if is_color s then Inr (Some (map ascii_upper s)) else Inl (BadField ''fill'')
     | _ \<Rightarrow> Inl (BadField ''fill''))"

definition validate_style_step :: "fields \<Rightarrow> (string \<times> binding \<times> style_request) checked" where
  "validate_style_step step =
    and_then (reject_unknown_keys step (bound_fields @ style_fields @ step_envelope_keys)) (\<lambda>_.
      and_then (validated_binding step) (\<lambda>(tid, b).
        and_then (scope_of step) (\<lambda>sc.
          if get step ''borders'' = JNull \<and> get step ''fill'' = JNull then Inl (BadField ''borders'')
          else and_then (if get step ''borders'' = JNull then Inr [] else validated_borders (get step ''borders'')) (\<lambda>gs.
            and_then (over_wider step) (\<lambda>over.
              and_then (fill_value (get step ''fill'')) (\<lambda>fill.
                Inr (tid, b, \<lparr>sr_scope = sc, sr_borders = gs, sr_fill = fill, sr_over_wider = over\<rparr>)))))))"

section \<open>Width and creation steps\<close>

datatype width_step = FitStep | WidthsMm "rat list"

fun widths_mm :: "json list \<Rightarrow> rat list checked" where
  "widths_mm [] = Inr []"
| "widths_mm (v # vs) =
    (case number v of
       None \<Rightarrow> Inl (BadField ''column_widths_mm'')
     | Some x \<Rightarrow> if x \<le> 0 \<or> x > 2000 then Inl (BadField ''column_widths_mm'')
         else and_then (widths_mm vs) (\<lambda>xs. Inr (x # xs)))"

definition width_of_step :: "fields \<Rightarrow> width_step checked" where
  "width_of_step step =
    (let fit = get step ''fit''; widths = get step ''column_widths_mm'' in
     if (fit = JNull) = (widths = JNull) then Inl (BadField ''fit'')
     else if fit \<noteq> JNull then (if fit \<noteq> JStr ''text_width'' then Inl (BadField ''fit'') else Inr FitStep)
     else (case widths of
         JList vs \<Rightarrow> if vs = [] \<or> int (length vs) > max_lines_of_grid then Inl (BadField ''column_widths_mm'')
           else and_then (widths_mm vs) (\<lambda>xs. Inr (WidthsMm xs))
       | _ \<Rightarrow> Inl (BadField ''column_widths_mm'')))"

definition validate_width_step :: "fields \<Rightarrow> (string \<times> binding \<times> width_step) checked" where
  "validate_width_step step =
    and_then (reject_unknown_keys step (bound_fields @ width_fields @ step_envelope_keys)) (\<lambda>_.
      and_then (validated_binding step) (\<lambda>(tid, b). and_then (width_of_step step) (\<lambda>w. Inr (tid, b, w))))"

text \<open>\<open>mm * HU_PER_MM\<close>; the exact product where the code multiplies doubles.\<close>

definition hu_per_mm :: rat where "hu_per_mm = 36000 / 127"

definition planned_width :: "width_step \<Rightarrow> width_request" where
  "planned_width w = (case w of FitStep \<Rightarrow> FitText | WidthsMm xs \<Rightarrow> ColumnWidths (map (\<lambda>x. x * hu_per_mm) xs))"

record create_request =
  cr_match :: string
  cr_page :: int
  cr_rows :: int
  cr_cols :: int
  cr_cells :: "string list list option"

fun text_rows :: "json list \<Rightarrow> string list list option" where
  "text_rows [] = Some []"
| "text_rows (v # vs) =
    (case v of
       JList xs \<Rightarrow>
         (case text_list xs of
            None \<Rightarrow> None
          | Some row \<Rightarrow> if \<exists>s \<in> set row. length s > 4000 then None else map_option ((#) row) (text_rows vs))
     | _ \<Rightarrow> None)"

definition create_cells :: "json \<Rightarrow> string list list option checked" where
  "create_cells v =
    (case v of
       JNull \<Rightarrow> Inr None
     | JList vs \<Rightarrow> (case text_rows vs of None \<Rightarrow> Inl (BadField ''cells'') | Some rows \<Rightarrow> Inr (Some rows))
     | _ \<Rightarrow> Inl (BadField ''cells''))"

definition validate_create_step :: "fields \<Rightarrow> create_request checked" where
  "validate_create_step step =
    and_then (reject_unknown_keys step (create_fields @ step_envelope_keys)) (\<lambda>_.
      and_then (require_confirm_layout step) (\<lambda>_.
        case get step ''match'' of
          JStr m \<Rightarrow>
            if \<not> nonblank m \<or> length m > 500 \<or> (\<exists>c \<in> set m. (of_char c :: nat) < 32) then Inl (BadField ''match'')
            else and_then (positive step ''expected_page'' None) (\<lambda>page.
              and_then (positive step ''rows'' (Some max_lines)) (\<lambda>rows.
                and_then (positive step ''cols'' (Some max_lines)) (\<lambda>cols.
                  and_then (create_cells (get step ''cells'')) (\<lambda>cells.
                    Inr \<lparr>cr_match = m, cr_page = page, cr_rows = rows, cr_cols = cols, cr_cells = cells\<rparr>))))
        | _ \<Rightarrow> Inl (BadField ''match'')))"

end
