(* ===== verification/RequestProps.thy ===== *)
theory RequestProps
  imports Requests NativeProps
begin

text \<open>
  What the validators of \<open>Requests\<close> guarantee the planners: addresses are canonical, every number is in
  its bounds, every edge has one group, and a validated edit of a well-formed table plans a table.
\<close>

section \<open>Accepted values\<close>

lemma accepted_case:
  "(case v of JStr s \<Rightarrow> f s | _ \<Rightarrow> Inl e) = Inr y \<longleftrightarrow> (\<exists>s. v = JStr s \<and> f s = Inr y)"
  "(case v of JObj kvs \<Rightarrow> g kvs | _ \<Rightarrow> Inl e) = Inr y \<longleftrightarrow> (\<exists>kvs. v = JObj kvs \<and> g kvs = Inr y)"
  "(case v of JList vs \<Rightarrow> h vs | _ \<Rightarrow> Inl e) = Inr y \<longleftrightarrow> (\<exists>vs. v = JList vs \<and> h vs = Inr y)"
  by (cases v; auto)+

lemma accepted_choice:
  "(case x of None \<Rightarrow> Inl e | Some z \<Rightarrow> f z) = Inr y \<longleftrightarrow> (\<exists>z. x = Some z \<and> f z = Inr y)"
  "(if b then Inl e else m) = Inr y \<longleftrightarrow> \<not> b \<and> m = Inr y" "(if b then m else Inl e) = Inr y \<longleftrightarrow> b \<and> m = Inr y"
  by (cases x; auto)+

lemmas accepted = and_then_Inr accepted_case accepted_choice

section \<open>Addresses\<close>

lemma upper_facts: "is_ascii_upper c \<Longrightarrow> ascii_upper c = c" "is_ascii_upper c \<Longrightarrow> is_ascii_letter c"
  "is_ascii_upper c \<Longrightarrow> \<not> py_space c" "is_ascii_upper c \<Longrightarrow> \<not> is_digit c"
  by (auto simp: is_ascii_upper_def ascii_upper_def is_ascii_letter_def py_space_def is_digit_def)

lemma letters_number_nonneg: "list_all is_ascii_upper s \<Longrightarrow> 0 \<le> letters_number s"
proof (induction s rule: rev_induct)
  case (snoc c s)
  then have "64 < (of_char c :: nat)" by (simp add: is_ascii_upper_def)
  with snoc show ?case by (simp add: letters_number_snoc upper_facts)
qed (simp add: letters_number_def)

lemma letters_of_number: "list_all is_ascii_upper s \<Longrightarrow> letters_of (letters_number s) acc = s @ acc"
proof (induction s arbitrary: acc rule: rev_induct)
  case Nil
  show ?case by (subst letters_of.simps) (simp add: letters_number_def)
next
  case (snoc c s)
  let ?k = "of_char c :: nat"
  have k: "65 \<le> ?k" "?k \<le> 90" "ascii_upper c = c" using snoc.prems upper_facts(1) [of c] by (auto simp: is_ascii_upper_def)
  have n: "0 \<le> letters_number s" using snoc.prems letters_number_nonneg by simp
  have split: "letters_number (s @ [c]) - 1 = letters_number s * 26 + int (?k - 65)"
    using k by (simp add: letters_number_snoc of_nat_diff)
  have dm: "(letters_number (s @ [c]) - 1) div 26 = letters_number s" "(letters_number (s @ [c]) - 1) mod 26 = int (?k - 65)"
    unfolding split using k by simp_all
  have "0 < letters_number (s @ [c])" using n split by linarith
  then have "letters_of (letters_number (s @ [c])) acc = letters_of (letters_number s) (char_of (65 + nat (int (?k - 65))) # acc)"
    by (subst letters_of.simps) (simp add: dm del: letters_number_snoc)
  also have "65 + nat (int (?k - 65)) = ?k" using k by simp
  finally show ?case using snoc by simp
qed

lemma digits_value_pos: "all_digits ds \<Longrightarrow> hd ds \<noteq> CHR ''0'' \<Longrightarrow> 0 < digits_value ds"
proof (induction ds rule: rev_induct)
  case (snoc c ds)
  show ?case
  proof (cases "ds = []")
    case True
    with snoc.prems have "is_digit c" "c \<noteq> CHR ''0''" by (auto simp: all_digits_def)
    have "(of_char c :: nat) \<noteq> 48"
    proof
      assume "(of_char c :: nat) = 48"
      then have "(of_char c :: nat) = of_char (CHR ''0'')" by simp
      then have "c = CHR ''0''" by (rule of_char_eq_iff [THEN iffD1])
      with \<open>c \<noteq> CHR ''0''\<close> show False by simp
    qed
    with \<open>is_digit c\<close> True show ?thesis by (simp add: digits_value_def digit_value_def is_digit_def)
  next
    case False
    with snoc show ?thesis by (simp add: all_digits_def)
  qed
qed (simp add: all_digits_def)

lemma nat_digits_value: "all_digits ds \<Longrightarrow> hd ds \<noteq> CHR ''0'' \<Longrightarrow> nat_digits (digits_value ds) = ds"
proof (induction ds rule: rev_induct)
  case (snoc c ds)
  then have c: "48 \<le> (of_char c :: nat)" "(of_char c :: nat) \<le> 57" by (auto simp: all_digits_def is_digit_def)
  then have chr: "char_of (48 + digit_value c) = c" "digit_value c < 10" by (simp_all add: digit_value_def)
  show ?case
  proof (cases "ds = []")
    case True
    with chr show ?thesis by (subst nat_digits.simps) (simp add: digits_value_def)
  next
    case False
    with snoc have ds: "all_digits ds" "hd ds \<noteq> CHR ''0''" "nat_digits (digits_value ds) = ds" by (auto simp: all_digits_def)
    with digits_value_pos [of ds] chr show ?thesis by (subst nat_digits.simps) simp
  qed
qed (simp add: all_digits_def)

lemma digits_value_bound: "list_all is_digit ds \<Longrightarrow> digits_value ds < 10 ^ length ds"
proof (induction ds rule: rev_induct)
  case (snoc c ds)
  then have "digit_value c < 10" by (simp add: is_digit_def digit_value_def) linarith
  with snoc show ?case by simp
qed (simp add: digits_value_def)

lemma letters_number_bound: "list_all is_ascii_upper s \<Longrightarrow> letters_number s < 27 ^ length s"
proof (induction s rule: rev_induct)
  case (snoc c s)
  then have "int (of_char c) - 64 \<le> 26" by (simp add: is_ascii_upper_def)
  moreover have "letters_number s < 27 ^ length s" using snoc by simp
  moreover have same: "ascii_upper c = c" using snoc.prems by (simp add: upper_facts)
  moreover have "(0 :: int) < 27 ^ length s" by simp
  ultimately show ?case unfolding letters_number_snoc length_append_singleton power_Suc same by linarith
qed (simp add: letters_number_def)

definition cell_position :: "int \<times> int \<Rightarrow> bool" where
  "cell_position p \<longleftrightarrow> 1 \<le> fst p \<and> fst p \<le> 9999 \<and> 1 \<le> snd p \<and> snd p < 27 ^ 3"

text \<open>An accepted address is parsed, and it is the one text \<open>cell_address\<close> writes for the position.\<close>

lemma address_parsed:
  assumes "is_address s"
  shows "\<exists>p. parse_cell_address s = Some p \<and> cell_address (fst p) (snd p) = Inr s \<and> cell_position p"
proof -
  define ls ds where "ls = takeWhile is_ascii_upper s" and "ds = dropWhile is_ascii_upper s"
  have s: "s = ls @ ds" by (simp add: ls_def ds_def)
  from assms have len: "ls \<noteq> []" "length ls \<le> 3" "ds \<noteq> []" "length ds \<le> 4" and dig: "list_all is_digit ds" and hd0: "hd ds \<noteq> CHR ''0''"
    unfolding is_address_def Let_def ls_def [symmetric] ds_def [symmetric] by auto
  have up: "list_all is_ascii_upper ls" by (auto simp: ls_def list_all_iff dest: set_takeWhileD)
  then have letters: "list_all is_ascii_letter ls" by (auto simp: list_all_iff upper_facts)
  have ad: "all_digits ds" using dig len(3) by (simp add: all_digits_def)
  have parse: "parse_cell_address s = (let col = letters_number ls; row = int (digits_value ds)
      in if row < 1 \<or> col < 1 then None else Some (row, col))"
  proof -
    have 1: "dropWhile py_space s = s" using up len(1) s by (cases ls) (auto simp: upper_facts)
    have "\<not> is_ascii_letter (hd ds)"
      using all_digits_hd_last(1) [OF ad] by (auto simp: is_digit_def is_ascii_letter_def is_ascii_upper_def)
    with letters len(3) have 2: "takeWhile is_ascii_letter s = ls" "dropWhile is_ascii_letter s = ds"
      unfolding s by (cases ds; auto simp: list_all_iff takeWhile_append dropWhile_append)+
    have 3: "takeWhile is_digit ds = ds" "dropWhile is_digit ds = []" using dig by (simp_all add: list_all_iff)
    show ?thesis unfolding parse_cell_address_def Let_def 1 2 3 using len by simp
  qed
  have row: "1 \<le> int (digits_value ds)" using digits_value_pos [OF ad hd0] by simp
  have "digits_value ds < 10 ^ 4"
    using digits_value_bound [OF dig] power_increasing [OF len(4), of "10 :: nat"] by linarith
  moreover have col: "1 \<le> letters_number ls"
  proof (rule ccontr)
    assume "\<not> 1 \<le> letters_number ls"
    with letters_of_number [OF up, of "[]"] have "letters_of (letters_number ls) [] = []" by (subst letters_of.simps) simp
    with letters_of_number [OF up, of "[]"] len(1) show False by simp
  qed
  moreover have "letters_number ls < 27 ^ 3"
    using letters_number_bound [OF up] power_increasing [OF len(2), of "27 :: int"] by linarith
  moreover have "cell_address (int (digits_value ds)) (letters_number ls) = Inr s"
    using row col letters_of_number [OF up, of "[]"] nat_digits_value [OF ad hd0]
    by (simp add: cell_address_def column_letters_def str_int_def s)
  ultimately show ?thesis using parse row by (simp add: cell_position_def)
qed

lemma address_accepted:
  "address step name = Inr p \<Longrightarrow> \<exists>s. get step name = JStr s \<and> cell_address (fst p) (snd p) = Inr s \<and> cell_position p"
  using address_parsed by (fastforce simp: address_def split: json.splits if_splits option.splits)

section \<open>Edit requests\<close>

lemma positive_accepted: "positive step name high = Inr n \<Longrightarrow> 1 \<le> n \<and> (\<forall>h. high = Some h \<longrightarrow> n \<le> h)"
  by (auto simp: positive_def split: json.splits if_splits option.splits)

lemma positive_or_accepted: "positive_or 1 step name h = Inr n \<Longrightarrow> 1 \<le> h \<Longrightarrow> 1 \<le> n \<and> n \<le> h"
  using positive_accepted [of step name "Some h" n] by (auto simp: positive_or_def split: if_splits)

definition request_in_bounds :: "edit_request \<Rightarrow> bool" where
  "request_in_bounds rq =
    (case rq of
       InsertLines s line n \<Rightarrow> 1 \<le> line \<and> line \<le> 500 \<and> 1 \<le> n \<and> n \<le> 50
     | DeleteLines r line n given \<Rightarrow> 1 \<le> line \<and> line \<le> 500 \<and> 1 \<le> n \<and> n \<le> 50 \<and> (\<forall>g \<in> set given. cell_position (rm_key g))
     | MergeRange a b \<Rightarrow> cell_position a \<and> cell_position b
     | SplitInto p rows cols \<Rightarrow> cell_position p \<and> 1 \<le> rows \<and> rows \<le> 20 \<and> 1 \<le> cols \<and> cols \<le> 20 \<and> 2 \<le> rows * cols
     | Unmerge p \<Rightarrow> cell_position p)"

lemma line_accepted: "line_request step r fs = Inr (line, n) \<Longrightarrow> 1 \<le> line \<and> line \<le> 500 \<and> 1 \<le> n \<and> n \<le> 50"
  using positive_accepted [of step _ "Some max_lines_of_grid" line] positive_or_accepted [of step "''count''" max_lines n]
  by (auto simp: line_request_def Let_def and_then_Inr max_lines_of_grid_def max_lines_def)

lemma removed_accepted: "removed_items vs = Inr gs \<Longrightarrow> g \<in> set gs \<Longrightarrow> cell_position (rm_key g)"
proof (induction vs arbitrary: gs)
  case (Cons v vs)
  then obtain item x xs where "v = JObj item" "removed_item item = Inr x" "removed_items vs = Inr xs" "gs = x # xs"
    by (auto simp: and_then_Inr split: json.splits)
  with Cons address_accepted show ?case
    by (force simp: removed_item_def and_then_Inr split: if_splits prod.splits)
qed simp

lemma edit_of_in_bounds:
  assumes "edit_of step action = Inr rq"
  shows "request_in_bounds rq"
proof (cases "map_of insert_sides action")
  case (Some s)
  with assms line_accepted show ?thesis by (fastforce simp: edit_of_def and_then_Inr request_in_bounds_def)
next
  case None
  have del: "request_in_bounds x" if "delete_request step r = Inr x" for r x
    using that line_accepted removed_accepted
    by (fastforce simp: delete_request_def and_then_Inr request_in_bounds_def validated_removed_def split: json.splits if_splits)
  have split: "request_in_bounds x" if "split_request step = Inr x" for x
    using that positive_or_accepted [of step _ max_split] address_accepted
    by (fastforce simp: split_request_def and_then_Inr request_in_bounds_def max_split_def not_less split: if_splits)
  from None assms del split address_accepted show ?thesis
    by (fastforce simp: edit_of_def and_then_Inr request_in_bounds_def split: if_splits)
qed

lemma reject_accepted: "reject_unknown_keys step allowed = Inr u \<longleftrightarrow> fst ` set step \<subseteq> set allowed"
proof -
  let ?u = "filter (\<lambda>k. k \<notin> set allowed) (map fst step)"
  have "sort ?u = [] \<longleftrightarrow> ?u = []" by (metis set_empty set_sort)
  also have "\<dots> \<longleftrightarrow> fst ` set step \<subseteq> set allowed" by (auto simp: filter_empty_conv)
  finally show ?thesis by (auto simp: reject_unknown_keys_def Let_def)
qed

lemma binding_accepted:
  assumes "validated_binding step = Inr (tid, b)"
  shows "get step ''confirm_layout'' = JBool True \<and> is_table_id tid \<and> is_hash (bd_hash b) \<and> 1 \<le> bd_page b
    \<and> 1 \<le> bd_rows b \<and> bd_rows b \<le> 500 \<and> 1 \<le> bd_cols b \<and> bd_cols b \<le> 500"
  using assms positive_accepted [of step "''expected_page''" None] positive_accepted [of step "''expected_rows''" "Some 500"]
    positive_accepted [of step "''expected_cols''" "Some 500"]
  by (auto simp: validated_binding_def accepted table_id_of_def require_confirm_layout_def max_lines_of_grid_def
      split: if_split_asm)

text \<open>
  C18. A table edit that passes validation is a typed request: it was confirmed and has only known fields,
  its table identity and hash have their exact form, page and grid are positive and the grid at most 500
  by 500, every line and count is in its bounds, every address is a cell position, a split makes at least
  two parts; so the planners only ever run on such requests.
\<close>

theorem validated_edit_request_in_bounds:
  assumes "validate_edit_step step = Inr (tid, b, rq)"
  shows "get step ''confirm_layout'' = JBool True
    \<and> fst ` set step \<subseteq> set (bound_fields @ ''action'' # edit_fields @ step_envelope_keys)
    \<and> is_table_id tid \<and> is_hash (bd_hash b) \<and> 1 \<le> bd_page b
    \<and> 1 \<le> bd_rows b \<and> bd_rows b \<le> 500 \<and> 1 \<le> bd_cols b \<and> bd_cols b \<le> 500
    \<and> request_in_bounds rq"
  using assms binding_accepted edit_of_in_bounds
  by (auto simp: validate_edit_step_def accepted reject_accepted split: if_split_asm)

definition insert_step :: fields where
  "insert_step = [(''op'', JStr ''table_edit_exact''), (''confirm_layout'', JBool True), (''table_id'', JStr ''tbl:1011''),
     (''expected_hash'', JStr ''sha256:0123456789abcdef01234567''), (''expected_page'', JInt 1), (''expected_rows'', JInt 2),
     (''expected_cols'', JInt 2), (''action'', JStr ''insert_row_below''), (''row'', JInt 2), (''count'', JInt 3)]"

lemma insert_step_valid: "validate_edit_step insert_step =
    Inr (''tbl:1011'', \<lparr>bd_rows = 2, bd_cols = 2, bd_hash = ''sha256:0123456789abcdef01234567'', bd_page = 1\<rparr>, InsertLines BottomSide 2 3)"
proof -
  have bind: "validated_binding insert_step = Inr (''tbl:1011'', \<lparr>bd_rows = 2, bd_cols = 2, bd_hash = ''sha256:0123456789abcdef01234567'', bd_page = 1\<rparr>)"
    by (simp add: insert_step_def validated_binding_def require_confirm_layout_def get_def and_then_def is_hash_def table_id_of_def
        is_table_id_def positive_def max_lines_of_grid_def is_lower_hex_def is_digit_def)
  have "line_request insert_step True [] = Inr (2, 3)"
    by (simp add: line_request_def refuse_fields_def edit_fields_def insert_step_def get_def and_then_def positive_def
        positive_or_def max_lines_of_grid_def max_lines_def)
  then have "edit_of insert_step ''insert_row_below'' = Inr (InsertLines BottomSide 2 3)"
    by (simp add: edit_of_def insert_sides_def side_on_rows_def and_then_def)
  moreover have "reject_unknown_keys insert_step (bound_fields @ ''action'' # edit_fields @ step_envelope_keys) = Inr ()"
    unfolding reject_accepted by (simp add: insert_step_def bound_fields_def edit_fields_def step_envelope_keys_def)
  moreover have "get insert_step ''action'' = JStr ''insert_row_below''" by (simp add: insert_step_def get_def)
  moreover have "''insert_row_below'' \<in> set edit_actions" by (simp add: edit_actions_def insert_sides_def)
  ultimately show ?thesis by (simp add: validate_edit_step_def and_then_def bind)
qed

theorem validated_edit_request_in_bounds_witness: "request_in_bounds (InsertLines BottomSide 2 3) \<and> is_table_id ''tbl:1011''"
  using validated_edit_request_in_bounds [OF insert_step_valid] by simp

section \<open>Style requests\<close>

lemma edge_names_accepted: "edge_names v = Inr names \<Longrightarrow> edge_parts names \<noteq> []"
proof -
  assume "edge_names v = Inr names"
  then have names: "names \<noteq> []" "\<forall>n \<in> set names. map_of edge_groups n \<noteq> None"
    by (auto simp: edge_names_def accepted)
  have some: "map_of edge_groups n \<noteq> Some []" for n by (auto simp: edge_groups_def sides_def)
  from names obtain n es where "n \<in> set names" "map_of edge_groups n = Some es" by (cases names) auto
  with some [of n] show ?thesis by (force simp: edge_parts_def)
qed

lemma border_groups_distinct:
  assumes "border_groups seen vs = Inr gs" and "distinct seen"
  shows "distinct (seen @ concat (map gr_edges gs)) \<and> length gs = length vs \<and> (\<forall>g \<in> set gs. gr_edges g \<noteq> [])"
  using assms
proof (induction seen vs arbitrary: gs rule: border_groups.induct)
  case (2 seen v vs)
  then obtain item g gs' where v: "v = JObj item" "border_item seen item = Inr g" "border_groups (seen @ gr_edges g) vs = Inr gs'"
    "gs = g # gs'" by (auto simp: accepted split: if_split_asm)
  then obtain names where names: "edge_names (get item ''edges'') = Inr names" "gr_edges g = edge_parts names"
    "distinct (edge_parts names)" "set seen \<inter> set (edge_parts names) = {}"
    by (auto simp: border_item_def accepted Let_def split: if_split_asm)
  have "gr_edges g \<noteq> []" using edge_names_accepted [OF names(1)] names(2) by simp
  moreover have d: "distinct (seen @ gr_edges g)" using names 2 by simp
  ultimately show ?case using "2.IH" [OF v(1) v(3) d] v(4) by auto
qed simp

lemma by_edge_unique:
  assumes "distinct (concat (map gr_edges gs))" and "g \<in> set gs" and "e \<in> set (gr_edges g)"
  shows "by_edge gs e = Some g"
proof -
  have one: "h = g" if "h \<in> set gs" "e \<in> set (gr_edges h)" for h
    using assms that by (induction gs) auto
  have "find (\<lambda>g. e \<in> set (gr_edges g)) (rev gs) \<noteq> None" using assms(2,3) by (auto simp: find_None_iff)
  then obtain h where h: "find (\<lambda>g. e \<in> set (gr_edges g)) (rev gs) = Some h" by blast
  then have "h \<in> set (rev gs) \<and> e \<in> set (gr_edges h)" by (metis (mono_tags, lifting) find_Some_iff nth_mem)
  with one h show ?thesis by (simp add: by_edge_def)
qed

lemma fill_asked: "fill_value v = Inr x \<Longrightarrow> v \<noteq> JNull \<Longrightarrow> x \<noteq> None"
  by (cases v) (auto simp: fill_value_def split: if_split_asm)

text \<open>
  In a style request that passes validation each edge belongs to one border group, and that group is
  the one the planner uses for it: no later group silently replaces an earlier one. Every group names an
  edge, and the request asks for borders or a fill.
\<close>

theorem validated_style_edges_unambiguous:
  assumes "validate_style_step step = Inr (tid, b, rq)"
  shows "(\<forall>g \<in> set (sr_borders rq). gr_edges g \<noteq> [] \<and> (\<forall>e \<in> set (gr_edges g). by_edge (sr_borders rq) e = Some g))
    \<and> (sr_borders rq \<noteq> [] \<or> sr_fill rq \<noteq> None) \<and> (sr_over_wider rq \<longrightarrow> sr_borders rq \<noteq> [])"
proof -
  from assms obtain gs where gs: "sr_borders rq = gs"
    "(if get step ''borders'' = JNull then Inr [] else validated_borders (get step ''borders'')) = Inr gs"
    and fill: "get step ''borders'' = JNull \<Longrightarrow> get step ''fill'' \<noteq> JNull" "fill_value (get step ''fill'') = Inr (sr_fill rq)"
    and over: "over_wider step = Inr (sr_over_wider rq)"
    by (auto simp: validate_style_step_def accepted split: if_split_asm)
  have "distinct (concat (map gr_edges gs)) \<and> (\<forall>g \<in> set gs. gr_edges g \<noteq> []) \<and> (get step ''borders'' \<noteq> JNull \<longrightarrow> gs \<noteq> [])"
  proof (cases "get step ''borders'' = JNull")
    case True
    with gs(2) show ?thesis by simp
  next
    case False
    with gs(2) obtain vs where "vs \<noteq> []" "border_groups [] vs = Inr gs"
      by (auto simp: validated_borders_def accepted split: if_split_asm)
    with border_groups_distinct [of "[]" vs gs] show ?thesis by auto
  qed
  moreover have "get step ''borders'' = JNull \<Longrightarrow> sr_fill rq \<noteq> None"
    using fill fill_asked by blast
  moreover have "sr_over_wider rq \<Longrightarrow> get step ''borders'' \<noteq> JNull"
    using over by (auto simp: over_wider_def Let_def split: if_split_asm)
  ultimately show ?thesis using by_edge_unique [of gs] gs(1) by blast
qed

definition outline_item :: fields where
  "outline_item = [(''edges'', JList [JStr ''top'', JStr ''inner'']), (''line'', JStr ''none'')]"

definition style_step :: fields where
  "style_step = [(''confirm_layout'', JBool True), (''table_id'', JStr ''tbl:1011''),
     (''expected_hash'', JStr ''sha256:0123456789abcdef01234567''), (''expected_page'', JInt 1), (''expected_rows'', JInt 2),
     (''expected_cols'', JInt 2), (''scope'', JStr ''table''), (''borders'', JList [JObj outline_item])]"

definition outline_group :: border_group where
  "outline_group = \<lparr>gr_edges = [Outer TopSide, InnerHorizontal, InnerVertical], gr_named_inner = [], gr_line = ''none'', gr_width = 0, gr_color = []\<rparr>"

lemma style_step_valid: "validate_style_step style_step =
    Inr (''tbl:1011'', \<lparr>bd_rows = 2, bd_cols = 2, bd_hash = ''sha256:0123456789abcdef01234567'', bd_page = 1\<rparr>,
      \<lparr>sr_scope = WholeTable, sr_borders = [outline_group], sr_fill = None, sr_over_wider = False\<rparr>)"
proof -
  have bind: "validated_binding style_step = Inr (''tbl:1011'', \<lparr>bd_rows = 2, bd_cols = 2, bd_hash = ''sha256:0123456789abcdef01234567'', bd_page = 1\<rparr>)"
    by (simp add: style_step_def validated_binding_def require_confirm_layout_def get_def and_then_def is_hash_def table_id_of_def
        is_table_id_def positive_def max_lines_of_grid_def is_lower_hex_def is_digit_def)
  have item: "border_item [] outline_item = Inr outline_group"
    by (simp add: border_item_def outline_item_def edge_names_def get_def edge_groups_def edge_parts_def and_then_def line_types_def
        line_values_def named_inner_def outline_group_def)
  have fields: "get style_step ''borders'' = JList [JObj outline_item]" "get style_step ''fill'' = JNull"
    "scope_of style_step = Inr WholeTable" "over_wider style_step = Inr False"
    by (simp_all add: style_step_def get_def scope_of_def over_wider_def)
  have "reject_unknown_keys style_step (bound_fields @ style_fields @ step_envelope_keys) = Inr ()"
    unfolding reject_accepted by (simp add: style_step_def bound_fields_def style_fields_def step_envelope_keys_def)
  then show ?thesis
    by (simp add: validate_style_step_def and_then_def bind fields validated_borders_def item fill_value_def)
qed

theorem validated_style_edges_unambiguous_witness: "by_edge [outline_group] InnerVertical = Some outline_group"
  using validated_style_edges_unambiguous [OF style_step_valid] by (simp add: outline_group_def)

end
