(* ===== verification/StateStore.thy ===== *)
theory StateStore
  imports Prelude
begin

text \<open>
  The contract of a shared state that calls change one at a time: whatever the interleaving, the calls
  that changed it form a sequence, each applied to what the one before left. Clients of a store prove
  their invariants, counters and compare-and-set rules from this contract alone.
\<close>

fun serial_runs :: "('p \<Rightarrow> 'f \<Rightarrow> 'f option) \<Rightarrow> 'f \<Rightarrow> ('p \<times> 'f) list \<Rightarrow> bool" where
  "serial_runs effect f [] = True"
| "serial_runs effect f ((p, g) # es) = (effect p f = Some g \<and> serial_runs effect g es)"

definition content_after :: "'f \<Rightarrow> ('p \<times> 'f) list \<Rightarrow> 'f" where
  "content_after f es = (if es = [] then f else snd (last es))"

lemma content_after_simps [simp]:
  "content_after f [] = f" "content_after f (es @ [(p, g)]) = g" "content_after f ((p, g) # es) = content_after g es"
  by (simp_all add: content_after_def)

lemma serial_runs_append [simp]:
  "serial_runs effect f (es @ ds) \<longleftrightarrow> serial_runs effect f es \<and> serial_runs effect (content_after f es) ds"
  by (induction es arbitrary: f) auto

locale state_store =
  fixes possible :: "'w \<Rightarrow> bool"
    and content :: "'w \<Rightarrow> 'f"
    and history :: "'w \<Rightarrow> ('p \<times> 'f) list"
    and start :: 'f
    and effect :: "'p \<Rightarrow> 'f \<Rightarrow> 'f option"
  assumes history_serial: "possible w \<Longrightarrow> serial_runs effect start (history w)"
    and content_last: "possible w \<Longrightarrow> content w = content_after start (history w)"
    and history_once: "possible w \<Longrightarrow> distinct (map fst (history w))"
begin

lemma serial_invariant:
  assumes "serial_runs effect f es" and "I f" and "\<And>p f g. I f \<Longrightarrow> effect p f = Some g \<Longrightarrow> I g"
  shows "I (content_after f es)"
  using assms(1,2)
proof (induction es arbitrary: f)
  case (Cons e es)
  obtain p g where e: "e = (p, g)" by force
  with Cons.prems have "effect p f = Some g" "serial_runs effect g es" by simp_all
  with Cons.IH [of g] assms(3) [of f p g] Cons.prems(2) e show ?case by simp
qed simp

lemma content_invariant:
  assumes "possible w" and "I start" and "\<And>p f g. I f \<Longrightarrow> effect p f = Some g \<Longrightarrow> I g"
  shows "I (content w)"
  using serial_invariant [where I = I, OF history_serial [OF assms(1)] assms(2)] assms(3) content_last [OF assms(1)] by simp

text \<open>A number every change moves on by one counts the changes.\<close>

lemma serial_counter:
  assumes "serial_runs effect f es" and "\<And>p f g. effect p f = Some g \<Longrightarrow> count f \<noteq> None \<and> count g = map_option (\<lambda>n. n + 1) (count f)"
    and "count f = Some (n :: int)"
  shows "count (content_after f es) = Some (n + int (length es))"
  using assms(1,3)
proof (induction es arbitrary: f n)
  case (Cons e es)
  obtain p g where e: "e = (p, g)" by force
  with Cons.prems have "effect p f = Some g" "serial_runs effect g es" by simp_all
  with assms(2) [of p f g] Cons.prems(2) have "count g = Some (n + 1)" by simp
  from Cons.IH [OF \<open>serial_runs effect g es\<close> this] e show ?case by simp
qed simp

lemma content_counter:
  assumes "possible w" and "\<And>p f g. effect p f = Some g \<Longrightarrow> count f \<noteq> None \<and> count g = map_option (\<lambda>n. n + 1) (count f)"
    and "count start = Some (n :: int)"
  shows "count (content w) = Some (n + int (length (history w)))"
  using serial_counter [where count = count, OF history_serial [OF assms(1)] _ assms(3)] assms(2) content_last [OF assms(1)] by simp

text \<open>Compare and set: of the changes that each require the same count, one happens.\<close>

lemma compare_and_set:
  assumes "possible w" and "\<And>p f g. effect p f = Some g \<Longrightarrow> count f \<noteq> None \<and> count g = map_option (\<lambda>n. n + 1) (count f)"
    and "count start = Some (n :: int)"
    and "\<And>f g. effect p f = Some g \<Longrightarrow> count f = Some e" and "\<And>f g. effect q f = Some g \<Longrightarrow> count f = Some e"
    and "p \<in> fst ` set (history w)" and "q \<in> fst ` set (history w)"
  shows "p = q"
proof -
  have at: "count (content_after start (take i (history w))) = Some (n + int i)"
    if "i < length (history w)" for i
  proof -
    have "serial_runs effect start (take i (history w) @ drop i (history w))" using history_serial [OF assms(1)] by simp
    then have "serial_runs effect start (take i (history w))" by (simp only: serial_runs_append)
    from serial_counter [where count = count, OF this _ assms(3)] assms(2) that show ?thesis by simp
  qed
  have applied: "\<exists>g. effect x (content_after start (take i (history w))) = Some g"
    if "i < length (history w)" "fst (history w ! i) = x" for i x
  proof -
    have "serial_runs effect start (take i (history w) @ history w ! i # drop (Suc i) (history w))"
      using history_serial [OF assms(1)] that(1) by (simp add: id_take_nth_drop [symmetric])
    with that(2) show ?thesis by (cases "history w ! i") (simp only: serial_runs_append serial_runs.simps, auto)
  qed
  obtain i where i: "i < length (history w)" "fst (history w ! i) = p" using assms(6) by (auto simp: in_set_conv_nth)
  obtain j where j: "j < length (history w)" "fst (history w ! j) = q" using assms(7) by (auto simp: in_set_conv_nth)
  have "n + int i = e" using applied [OF i] assms(4) at [OF i(1)] by fastforce
  moreover have "n + int j = e" using applied [OF j] assms(5) at [OF j(1)] by fastforce
  ultimately have "i = j" by simp
  with i j show ?thesis by simp
qed

end

end
