(* ===== verification/AtomicJson.thy ===== *)
theory AtomicJson
  imports Json StateStore
begin

text \<open>
  app/atomic_json.py: one JSON state file and the processes that read, replace, update or remove it.
  Each call is a process that moves step by step, any number of them interleaved: every native call may
  fail, and a process may die at any moment, which frees its lock (the operating system's) and leaves its
  temporary file behind. \<open>dumps\<close> and \<open>loads\<close> are \<open>json.dumps\<close> (\<open>None\<close> when it raises) and
  \<open>json.loads\<close> of the decoded bytes; nothing is assumed of them, because the code checks every round
  trip itself. \<open>os.replace\<close> is one step, as it is documented.
\<close>

type_synonym bytes = string

record codec =
  dumps :: "fields \<Rightarrow> bytes option"
  loads :: "bytes \<Rightarrow> json option"

definition encode_json_object :: "codec \<Rightarrow> fields \<Rightarrow> bytes option" where
  "encode_json_object c payload =
    (case dumps c payload of
       None \<Rightarrow> None
     | Some b \<Rightarrow>
       (case loads c b of
          Some (JObj readback) \<Rightarrow> if py_eq (JObj readback) (JObj payload) then Some b else None
        | _ \<Rightarrow> None))"

text \<open>The content of the file for a reader: nothing there, an object, or an error.\<close>

definition decode_file :: "codec \<Rightarrow> bytes \<Rightarrow> fields option" where
  "decode_file c b = (case loads c b of Some (JObj payload) \<Rightarrow> Some payload | _ \<Rightarrow> None)"

definition read_content :: "codec \<Rightarrow> bytes option \<Rightarrow> fields option option" where
  "read_content c file =
    (case file of None \<Rightarrow> Some None | Some b \<Rightarrow> (case decode_file c b of None \<Rightarrow> None | Some x \<Rightarrow> Some (Some x)))"

definition current_content :: "codec \<Rightarrow> fields \<Rightarrow> bytes option \<Rightarrow> fields option" where
  "current_content c dflt file = (case file of None \<Rightarrow> Some dflt | Some b \<Rightarrow> decode_file c b)"

section \<open>Calls\<close>

text \<open>
  \<open>atomic_write_json\<close>, \<open>update_json_object\<close> (the updater, \<open>None\<close> when it raises, and the default),
  \<open>read_json_object\<close>, and removing the file under its lock (\<open>clear_state\<close> of local_cli_v1/state.py).
\<close>

datatype file_call = WriteJob fields | UpdateJob "fields \<Rightarrow> fields option" fields | ReadJob | ClearJob

datatype file_result = Wrote fields | ReadValue "fields option" | Cleared

datatype phase =
    Starting
  | EncodedFirst fields bytes
  | HoldsLock
  | HasCurrent fields
  | HasBytes fields bytes
  | TempOpen fields bytes
  | TempWritten fields bytes
  | Replaced fields bytes
  | Finished file_result
  | Failing
  | Returned file_result
  | Raised
  | Died

text \<open>\<open>log\<close> lists what was put in place of the file, in order, with the process that did it; it is not in the code.\<close>

record world =
  w_file :: "bytes option"
  w_lock :: "nat option"
  w_temps :: "nat \<rightharpoonup> bytes"
  w_phase :: "nat \<Rightarrow> phase"
  w_log :: "(nat \<times> bytes option) list"

definition start_world :: "bytes option \<Rightarrow> world" where
  "start_world file = \<lparr>w_file = file, w_lock = None, w_temps = Map.empty, w_phase = (\<lambda>_. Starting), w_log = []\<rparr>"

definition go :: "nat \<Rightarrow> phase \<Rightarrow> world \<Rightarrow> world" where
  "go p ph w = w\<lparr>w_phase := (w_phase w)(p := ph)\<rparr>"

definition put_file :: "nat \<Rightarrow> bytes option \<Rightarrow> world \<Rightarrow> world" where
  "put_file p b w = w\<lparr>w_file := b, w_log := w_log w @ [(p, b)]\<rparr>"

definition set_temp :: "nat \<Rightarrow> bytes option \<Rightarrow> world \<Rightarrow> world" where
  "set_temp p b w = w\<lparr>w_temps := (w_temps w)(p := b)\<rparr>"

definition set_lock :: "nat option \<Rightarrow> world \<Rightarrow> world" where
  "set_lock l w = w\<lparr>w_lock := l\<rparr>"

text \<open>The phases inside \<open>with path_lock(destination)\<close>.\<close>

definition locked_phase :: "phase \<Rightarrow> bool" where
  "locked_phase ph =
    (case ph of
       HoldsLock \<Rightarrow> True | HasCurrent _ \<Rightarrow> True | HasBytes _ _ \<Rightarrow> True | TempOpen _ _ \<Rightarrow> True | TempWritten _ _ \<Rightarrow> True
     | Replaced _ _ \<Rightarrow> True | Finished _ \<Rightarrow> True | Failing \<Rightarrow> True | _ \<Rightarrow> False)"

definition readback_ok :: "codec \<Rightarrow> fields \<Rightarrow> bytes \<Rightarrow> bytes option \<Rightarrow> bool" where
  "readback_ok c payload b file \<longleftrightarrow>
    (case file of None \<Rightarrow> False
     | Some found \<Rightarrow> found = b \<and> (case decode_file c found of None \<Rightarrow> False | Some x \<Rightarrow> py_eq (JObj x) (JObj payload)))"

inductive step :: "codec \<Rightarrow> (nat \<Rightarrow> file_call) \<Rightarrow> world \<Rightarrow> world \<Rightarrow> bool" for c jobs where
  encode_first: "w_phase w p = Starting \<Longrightarrow> jobs p = WriteJob x \<Longrightarrow> encode_json_object c x = Some b
    \<Longrightarrow> step c jobs w (go p (EncodedFirst x b) w)"
| encode_fails: "w_phase w p = Starting \<Longrightarrow> jobs p = WriteJob x \<Longrightarrow> encode_json_object c x = None
    \<Longrightarrow> step c jobs w (go p Raised w)"
| no_directory: "w_phase w p = Starting \<Longrightarrow> jobs p = ReadJob \<Longrightarrow> w_file w = None
    \<Longrightarrow> step c jobs w (go p (Returned (ReadValue None)) w)"
| lock_write: "w_phase w p = EncodedFirst x b \<Longrightarrow> w_lock w = None
    \<Longrightarrow> step c jobs w (set_lock (Some p) (go p (HasBytes x b) w))"
| lock_other: "w_phase w p = Starting \<Longrightarrow> \<forall>x. jobs p \<noteq> WriteJob x \<Longrightarrow> w_lock w = None
    \<Longrightarrow> step c jobs w (set_lock (Some p) (go p HoldsLock w))"
| lock_fails: "w_phase w p = Starting \<or> w_phase w p = EncodedFirst x b \<Longrightarrow> step c jobs w (go p Raised w)"
| load_current: "w_phase w p = HoldsLock \<Longrightarrow> jobs p = UpdateJob f dflt \<Longrightarrow> current_content c dflt (w_file w) = Some x
    \<Longrightarrow> step c jobs w (go p (HasCurrent x) w)"
| run_updater: "w_phase w p = HasCurrent x \<Longrightarrow> jobs p = UpdateJob f dflt \<Longrightarrow> f x = Some y \<Longrightarrow> encode_json_object c y = Some b
    \<Longrightarrow> step c jobs w (go p (HasBytes y b) w)"
| read_it: "w_phase w p = HoldsLock \<Longrightarrow> jobs p = ReadJob \<Longrightarrow> read_content c (w_file w) = Some r
    \<Longrightarrow> step c jobs w (go p (Finished (ReadValue r)) w)"
| unlink_it: "w_phase w p = HoldsLock \<Longrightarrow> jobs p = ClearJob
    \<Longrightarrow> step c jobs w (go p (Finished Cleared) (put_file p None w))"
| open_temp: "w_phase w p = HasBytes x b \<Longrightarrow> step c jobs w (set_temp p (Some []) (go p (TempOpen x b) w))"
| write_temp: "w_phase w p = TempOpen x b \<Longrightarrow> step c jobs w (set_temp p (Some b) (go p (TempWritten x b) w))"
| write_partly: "w_phase w p = TempOpen x b \<Longrightarrow> step c jobs w (set_temp p (Some (take n b)) (go p Failing w))"
| replace: "w_phase w p = TempWritten x b \<Longrightarrow> w_temps w p = Some t
    \<Longrightarrow> step c jobs w (set_temp p None (go p (Replaced x b) (put_file p (Some t) w)))"
| verify: "w_phase w p = Replaced x b \<Longrightarrow> readback_ok c x b (w_file w)
    \<Longrightarrow> step c jobs w (go p (Finished (Wrote x)) w)"
| fault: "locked_phase (w_phase w p) \<Longrightarrow> w_phase w p \<noteq> Failing \<Longrightarrow> step c jobs w (go p Failing w)"
| clean_up: "w_phase w p = Failing
    \<Longrightarrow> step c jobs w (set_lock None (go p Raised (if b then set_temp p None w else w)))"
| finish: "w_phase w p = Finished r \<Longrightarrow> step c jobs w (set_lock None (go p (Returned r) w))"
| die: "locked_phase (w_phase w p) \<Longrightarrow> step c jobs w (set_lock None (go p Died w))"
| die_outside: "w_phase w p = Starting \<or> w_phase w p = EncodedFirst x b \<Longrightarrow> step c jobs w (go p Died w)"

inductive_cases step_cases: "step c jobs w w'"

inductive reachable :: "codec \<Rightarrow> (nat \<Rightarrow> file_call) \<Rightarrow> bytes option \<Rightarrow> world \<Rightarrow> bool" for c jobs start where
  initially: "reachable c jobs start (start_world start)"
| later: "reachable c jobs start w \<Longrightarrow> step c jobs w w' \<Longrightarrow> reachable c jobs start w'"

section \<open>The contract\<close>

text \<open>What one call does to the file when it runs alone: the new content, or nothing when it raises or only reads.\<close>

definition job_effect :: "codec \<Rightarrow> file_call \<Rightarrow> bytes option \<Rightarrow> bytes option option" where
  "job_effect c j file =
    (case j of
       WriteJob x \<Rightarrow> map_option Some (encode_json_object c x)
     | UpdateJob f dflt \<Rightarrow>
       (case current_content c dflt file of
          None \<Rightarrow> None
        | Some x \<Rightarrow> (case f x of None \<Rightarrow> None | Some y \<Rightarrow> map_option Some (encode_json_object c y)))
     | ReadJob \<Rightarrow> None
     | ClearJob \<Rightarrow> Some None)"

text \<open>Calls run one after the other, each on what the one before left.\<close>

abbreviation serial :: "codec \<Rightarrow> (nat \<Rightarrow> file_call) \<Rightarrow> bytes option \<Rightarrow> (nat \<times> bytes option) list \<Rightarrow> bool" where
  "serial c jobs \<equiv> serial_runs (\<lambda>p. job_effect c (jobs p))"

end
