(* ===== verification/AtomicProps.thy ===== *)
theory AtomicProps
  imports AtomicJson
begin

text \<open>
  Any interleaving of the calls of \<open>AtomicJson\<close>, with any faults, is a sequence of whole calls: the
  invariant of the step relation, and the properties that follow.
\<close>

section \<open>The invariant\<close>

definition committed_phase :: "phase \<Rightarrow> bool" where
  "committed_phase ph =
    (case ph of Replaced _ _ \<Rightarrow> True | Finished _ \<Rightarrow> True | Failing \<Rightarrow> True | Returned _ \<Rightarrow> True | Raised \<Rightarrow> True | Died \<Rightarrow> True
     | _ \<Rightarrow> False)"

definition temp_phase :: "phase \<Rightarrow> bool" where
  "temp_phase ph =
    (case ph of TempOpen _ _ \<Rightarrow> True | TempWritten _ _ \<Rightarrow> True | Failing \<Rightarrow> True | Raised \<Rightarrow> True | Died \<Rightarrow> True | _ \<Rightarrow> False)"

text \<open>What a returned value stands for.\<close>

definition outcome_ok :: "codec \<Rightarrow> bytes option \<Rightarrow> nat \<Rightarrow> (nat \<times> bytes option) list \<Rightarrow> file_result \<Rightarrow> bool" where
  "outcome_ok c start p es r =
    (case r of
       Wrote x \<Rightarrow> \<exists>b. (p, Some b) \<in> set es \<and> encode_json_object c x = Some b
     | ReadValue v \<Rightarrow> \<exists>before rest. es = before @ rest \<and> read_content c (content_after start before) = Some v
     | Cleared \<Rightarrow> (p, None) \<in> set es)"

definition phase_ok :: "codec \<Rightarrow> file_call \<Rightarrow> bytes option \<Rightarrow> nat \<Rightarrow> bytes option \<Rightarrow> (nat \<times> bytes option) list \<Rightarrow> bytes option \<Rightarrow> phase \<Rightarrow> bool" where
  "phase_ok c j start p now es temp ph =
    (case ph of
       EncodedFirst x b \<Rightarrow> j = WriteJob x \<and> encode_json_object c x = Some b
     | HasCurrent x \<Rightarrow> \<exists>f dflt. j = UpdateJob f dflt \<and> current_content c dflt now = Some x
     | HasBytes x b \<Rightarrow> job_effect c j now = Some (Some b) \<and> encode_json_object c x = Some b
     | TempOpen x b \<Rightarrow> job_effect c j now = Some (Some b) \<and> encode_json_object c x = Some b
     | TempWritten x b \<Rightarrow> job_effect c j now = Some (Some b) \<and> encode_json_object c x = Some b \<and> temp = Some b
     | Replaced x b \<Rightarrow> (p, Some b) \<in> set es \<and> encode_json_object c x = Some b
     | Finished r \<Rightarrow> outcome_ok c start p es r
     | Returned r \<Rightarrow> outcome_ok c start p es r
     | _ \<Rightarrow> True)"

definition world_ok :: "codec \<Rightarrow> (nat \<Rightarrow> file_call) \<Rightarrow> bytes option \<Rightarrow> world \<Rightarrow> bool" where
  "world_ok c jobs start w \<longleftrightarrow>
    (\<forall>p. locked_phase (w_phase w p) \<longleftrightarrow> w_lock w = Some p)
    \<and> serial c jobs start (w_log w) \<and> w_file w = content_after start (w_log w)
    \<and> distinct (map fst (w_log w)) \<and> (\<forall>p \<in> fst ` set (w_log w). committed_phase (w_phase w p))
    \<and> (\<forall>p. phase_ok c (jobs p) start p (w_file w) (w_log w) (w_temps w p) (w_phase w p))
    \<and> (\<forall>p. w_temps w p \<noteq> None \<longrightarrow> temp_phase (w_phase w p))"

lemma outcome_ok_read: "read_content c (content_after start es) = Some v \<Longrightarrow> outcome_ok c start p es (ReadValue v)"
  unfolding outcome_ok_def by (simp, intro exI [of _ es]) simp

lemma outcome_ok_later: "outcome_ok c start p es r \<Longrightarrow> outcome_ok c start p (es @ more_es) r"
  unfolding outcome_ok_def by (cases r) (auto, metis append.assoc)

lemma phase_ok_later:
  "phase_ok c j start p now es temp ph \<Longrightarrow> \<not> locked_phase ph \<Longrightarrow> phase_ok c j start p now' (es @ more_es) temp ph"
  by (cases ph) (auto simp: phase_ok_def locked_phase_def intro: outcome_ok_later)

text \<open>A step of \<open>p\<close> that leaves the file alone.\<close>

lemma world_ok_local:
  assumes "world_ok c jobs start w"
    and "w_file w' = w_file w" "w_log w' = w_log w"
    and "\<And>q. q \<noteq> p \<Longrightarrow> w_phase w' q = w_phase w q" "\<And>q. q \<noteq> p \<Longrightarrow> w_temps w' q = w_temps w q"
    and "\<And>q. q \<noteq> p \<Longrightarrow> (w_lock w' = Some q) = (w_lock w = Some q)" "locked_phase (w_phase w' p) \<longleftrightarrow> w_lock w' = Some p"
    and "committed_phase (w_phase w p) \<Longrightarrow> committed_phase (w_phase w' p)"
    and "phase_ok c (jobs p) start p (w_file w) (w_log w) (w_temps w' p) (w_phase w' p)"
    and "w_temps w' p \<noteq> None \<Longrightarrow> temp_phase (w_phase w' p)"
  shows "world_ok c jobs start w'"
proof -
  have old: "locked_phase (w_phase w q) \<longleftrightarrow> w_lock w = Some q" "q \<in> fst ` set (w_log w) \<Longrightarrow> committed_phase (w_phase w q)"
    "phase_ok c (jobs q) start q (w_file w) (w_log w) (w_temps w q) (w_phase w q)"
    "w_temps w q \<noteq> None \<Longrightarrow> temp_phase (w_phase w q)" for q
    using assms(1) unfolding world_ok_def by blast+
  have "(locked_phase (w_phase w' q) \<longleftrightarrow> w_lock w' = Some q)
      \<and> (q \<in> fst ` set (w_log w) \<longrightarrow> committed_phase (w_phase w' q))
      \<and> phase_ok c (jobs q) start q (w_file w) (w_log w) (w_temps w' q) (w_phase w' q)
      \<and> (w_temps w' q \<noteq> None \<longrightarrow> temp_phase (w_phase w' q))" for q
  proof (cases "q = p")
    case True
    with assms(7-10) old(2) show ?thesis by blast
  next
    case False
    with assms(4-6) old show ?thesis by simp
  qed
  then show ?thesis using assms(1-3) unfolding world_ok_def by simp
qed

text \<open>A step of the lock's holder that replaces the file.\<close>

lemma world_ok_commit:
  assumes ok: "world_ok c jobs start w"
    and files: "w_file w' = b" "w_log w' = w_log w @ [(p, b)]" "w_lock w' = w_lock w"
    and others: "\<And>q. q \<noteq> p \<Longrightarrow> w_phase w' q = w_phase w q" "\<And>q. q \<noteq> p \<Longrightarrow> w_temps w' q = w_temps w q"
    and p: "locked_phase (w_phase w p)" "locked_phase (w_phase w' p)" "\<not> committed_phase (w_phase w p)" "committed_phase (w_phase w' p)"
    and effect: "job_effect c (jobs p) (w_file w) = Some b"
    and new: "phase_ok c (jobs p) start p b (w_log w @ [(p, b)]) (w_temps w' p) (w_phase w' p)" "w_temps w' p = None"
  shows "world_ok c jobs start w'"
proof -
  have lock: "w_lock w = Some p" using ok p(1) unfolding world_ok_def by blast
  have free: "\<not> locked_phase (w_phase w q)" if "q \<noteq> p" for q using ok lock that unfolding world_ok_def by auto
  have "phase_ok c (jobs q) start q b (w_log w @ [(p, b)]) (w_temps w' q) (w_phase w' q)" for q
  proof (cases "q = p")
    case False
    have "phase_ok c (jobs q) start q (w_file w) (w_log w) (w_temps w q) (w_phase w q)" using ok unfolding world_ok_def by blast
    from phase_ok_later [OF this free [OF False]] others False show ?thesis by simp
  qed (use new in simp)
  moreover have "locked_phase (w_phase w' q) \<longleftrightarrow> w_lock w' = Some q" for q
    using free [of q] others(1) [of q] p(2) lock files(3) by (cases "q = p") auto
  moreover have "p \<notin> fst ` set (w_log w)" using ok p(3) unfolding world_ok_def by blast
  moreover have "committed_phase (w_phase w' q)" if "q \<in> fst ` set (w_log w')" for q
    using ok others(1) [of q] p(4) that files(2) unfolding world_ok_def by (cases "q = p") auto
  moreover have "w_temps w' q \<noteq> None \<longrightarrow> temp_phase (w_phase w' q)" for q
    using ok others [of q] new(2) unfolding world_ok_def by (cases "q = p") auto
  ultimately show ?thesis using ok effect files unfolding world_ok_def by simp
qed

lemmas world_steps = go_def set_lock_def set_temp_def put_file_def

lemmas world_phases = locked_phase_def committed_phase_def temp_phase_def phase_ok_def

lemma step_world_ok:
  assumes "step c jobs w w'" and ok: "world_ok c jobs start w"
  shows "world_ok c jobs start w'"
proof -
  have at: "phase_ok c (jobs p) start p (w_file w) (w_log w) (w_temps w p) (w_phase w p)"
    "w_temps w p \<noteq> None \<Longrightarrow> temp_phase (w_phase w p)" "locked_phase (w_phase w p) \<longleftrightarrow> w_lock w = Some p"
    "w_file w = content_after start (w_log w)" for p
    using ok unfolding world_ok_def by blast+
  from assms(1) show ?thesis
  proof cases
    case (replace p x b t)
    with at(1) [of p] have "t = b" "job_effect c (jobs p) (w_file w) = Some (Some b)" "encode_json_object c x = Some b"
      by (auto simp: phase_ok_def)
    with replace show ?thesis
      by (intro world_ok_commit [OF ok, of w' "Some b" p]) (auto simp: world_steps world_phases)
  next
    case (unlink_it p)
    then have "w_temps w p = None" using at(2) [of p] by (cases "w_temps w p") (auto simp: temp_phase_def)
    with unlink_it show ?thesis
      by (intro world_ok_commit [OF ok, of w' None p]) (auto simp: world_steps world_phases job_effect_def outcome_ok_def)
  next
    case (read_it p r)
    then show ?thesis
      using at(3) [of p] at(2) [of p] outcome_ok_read [of c start "w_log w" r p] at(4)
      by (intro world_ok_local [OF ok, of w' p]) (auto simp: world_steps world_phases)
  next
    case (no_directory p)
    then show ?thesis
      using at(3) [of p] at(2) [of p] outcome_ok_read [of c start "w_log w" None p] at(4)
      by (intro world_ok_local [OF ok, of w' p]) (auto simp: world_steps world_phases read_content_def)
  next
    case (verify p x b)
    then show ?thesis
      using at(3) [of p] at(2) [of p] at(1) [of p]
      by (intro world_ok_local [OF ok, of w' p]) (auto simp: world_steps world_phases outcome_ok_def)
  next
    case (clean_up p b)
    then show ?thesis
      using at(3) [of p] at(2) [of p]
      by (intro world_ok_local [OF ok, of w' p]) (auto simp: world_steps world_phases)
  next
    case (encode_first p x b)
    then show ?thesis
      using at(1-3) [of p]
      by (intro world_ok_local [OF ok, of w' p]) (auto simp: world_steps world_phases job_effect_def split: phase.split_asm)
  next
    case (encode_fails p x)
    then show ?thesis
      using at(1-3) [of p]
      by (intro world_ok_local [OF ok, of w' p]) (auto simp: world_steps world_phases job_effect_def split: phase.split_asm)
  next
    case (lock_write p x b)
    then show ?thesis
      using at(1-3) [of p]
      by (intro world_ok_local [OF ok, of w' p]) (auto simp: world_steps world_phases job_effect_def split: phase.split_asm)
  next
    case (lock_other p)
    then show ?thesis
      using at(1-3) [of p]
      by (intro world_ok_local [OF ok, of w' p]) (auto simp: world_steps world_phases job_effect_def split: phase.split_asm)
  next
    case (lock_fails p x b)
    then show ?thesis
      using at(1-3) [of p]
      by (intro world_ok_local [OF ok, of w' p]) (auto simp: world_steps world_phases job_effect_def split: phase.split_asm)
  next
    case (load_current p f dflt x)
    then show ?thesis
      using at(1-3) [of p]
      by (intro world_ok_local [OF ok, of w' p]) (auto simp: world_steps world_phases job_effect_def split: phase.split_asm)
  next
    case (run_updater p x f dflt y b)
    then show ?thesis
      using at(1-3) [of p]
      by (intro world_ok_local [OF ok, of w' p]) (auto simp: world_steps world_phases job_effect_def split: phase.split_asm)
  next
    case (open_temp p x b)
    then show ?thesis
      using at(1-3) [of p]
      by (intro world_ok_local [OF ok, of w' p]) (auto simp: world_steps world_phases job_effect_def split: phase.split_asm)
  next
    case (write_temp p x b)
    then show ?thesis
      using at(1-3) [of p]
      by (intro world_ok_local [OF ok, of w' p]) (auto simp: world_steps world_phases job_effect_def split: phase.split_asm)
  next
    case (write_partly p x b n)
    then show ?thesis
      using at(1-3) [of p]
      by (intro world_ok_local [OF ok, of w' p]) (auto simp: world_steps world_phases job_effect_def split: phase.split_asm)
  next
    case (fault p)
    then show ?thesis
      using at(1-3) [of p]
      by (intro world_ok_local [OF ok, of w' p]) (auto simp: world_steps world_phases job_effect_def split: phase.split_asm)
  next
    case (finish p r)
    then show ?thesis
      using at(1-3) [of p]
      by (intro world_ok_local [OF ok, of w' p]) (auto simp: world_steps world_phases job_effect_def split: phase.split_asm)
  next
    case (die p)
    then show ?thesis
      using at(1-3) [of p]
      by (intro world_ok_local [OF ok, of w' p]) (auto simp: world_steps world_phases job_effect_def split: phase.split_asm)
  next
    case (die_outside p x b)
    then show ?thesis
      using at(1-3) [of p]
      by (intro world_ok_local [OF ok, of w' p]) (auto simp: world_steps world_phases job_effect_def split: phase.split_asm)
  qed
qed

lemma start_world_ok: "world_ok c jobs start (start_world start)"
  by (auto simp: world_ok_def start_world_def world_phases)

lemma reachable_world_ok: "reachable c jobs start w \<Longrightarrow> world_ok c jobs start w"
  by (induction rule: reachable.induct) (auto intro: start_world_ok step_world_ok)

interpretation json_file: state_store "reachable c jobs start" w_file w_log start "\<lambda>p. job_effect c (jobs p)"
  for c jobs start
  by unfold_locales (use reachable_world_ok in \<open>auto simp: world_ok_def\<close>)

text \<open>What a call that returned has done.\<close>

lemma returned_ok: "reachable c jobs start w \<Longrightarrow> w_phase w p = Returned r \<Longrightarrow> outcome_ok c start p (w_log w) r"
proof -
  assume r: "reachable c jobs start w" and ph: "w_phase w p = Returned r"
  have "phase_ok c (jobs p) start p (w_file w) (w_log w) (w_temps w p) (w_phase w p)"
    using reachable_world_ok [OF r] unfolding world_ok_def by blast
  with ph show ?thesis by (simp add: phase_ok_def)
qed

lemma returned_write:
  "reachable c jobs start w \<Longrightarrow> w_phase w p = Returned (Wrote x)
   \<Longrightarrow> \<exists>b. (p, Some b) \<in> set (w_log w) \<and> encode_json_object c x = Some b"
  using returned_ok [of c jobs start w p "Wrote x"] by (simp add: outcome_ok_def)

lemma returned_read:
  "reachable c jobs start w \<Longrightarrow> w_phase w p = Returned (ReadValue v)
   \<Longrightarrow> \<exists>before rest. w_log w = before @ rest \<and> read_content c (content_after start before) = Some v"
  using returned_ok [of c jobs start w p "ReadValue v"] by (simp add: outcome_ok_def)

section \<open>Properties\<close>

text \<open>
  C19. However the calls interleave and whatever fails, the JSON state file behaves as if the calls that
  changed it had run whole, one after the other: its content is what this sequence leaves, each call is in
  it at most once, a call that returned a written object is in it with exactly the encoding of that object,
  and a call that returned a value it read saw the content between two calls of the sequence.
\<close>

theorem state_file_serializable:
  assumes "reachable c jobs start w"
  shows "serial c jobs start (w_log w) \<and> w_file w = content_after start (w_log w) \<and> distinct (map fst (w_log w))
    \<and> (\<forall>p x. w_phase w p = Returned (Wrote x) \<longrightarrow> (\<exists>b. (p, Some b) \<in> set (w_log w) \<and> encode_json_object c x = Some b))
    \<and> (\<forall>p v. w_phase w p = Returned (ReadValue v) \<longrightarrow>
        (\<exists>before rest. w_log w = before @ rest \<and> read_content c (content_after start before) = Some v))"
  using reachable_world_ok [OF assms] returned_write [OF assms] returned_read [OF assms]
  unfolding world_ok_def by simp

text \<open>A codec of one object, and a run in which one call writes it and returns.\<close>

definition one_object :: fields where "one_object = [(''a'', JInt 1)]"

definition one_codec :: codec where
  "one_codec = \<lparr>dumps = (\<lambda>x. if x = one_object then Some ''1'' else None),
     loads = (\<lambda>b. if b = ''1'' then Some (JObj one_object) else None)\<rparr>"

lemma one_encode: "encode_json_object one_codec one_object = Some ''1''"
  by (simp add: encode_json_object_def one_codec_def one_object_def)

text \<open>A call that meets no fault returns what its effect says.\<close>

lemma bytes_return:
  assumes r: "reachable c jobs start w" and ph: "w_phase w p = HasBytes x b" and enc: "encode_json_object c x = Some b"
  shows "\<exists>w'. reachable c jobs start w' \<and> w_phase w' p = Returned (Wrote x) \<and> w_lock w' = None
    \<and> w_file w' = Some b \<and> w_log w' = w_log w @ [(p, Some b)] \<and> (\<forall>q. q \<noteq> p \<longrightarrow> w_phase w' q = w_phase w q)"
proof -
  define w1 where "w1 = set_temp p (Some []) (go p (TempOpen x b) w)"
  define w2 where "w2 = set_temp p (Some b) (go p (TempWritten x b) w1)"
  define w3 where "w3 = set_temp p None (go p (Replaced x b) (put_file p (Some b) w2))"
  define w4 where "w4 = go p (Finished (Wrote x)) w3"
  define w5 where "w5 = set_lock None (go p (Returned (Wrote x)) w4)"
  note defs = w1_def w2_def w3_def w4_def w5_def world_steps
  have read: "readback_ok c x b (Some b)"
    using enc by (auto simp: encode_json_object_def readback_ok_def decode_file_def split: option.splits json.splits if_splits)
  have "step c jobs w w1" unfolding w1_def by (rule step.open_temp) (rule ph)
  moreover have "step c jobs w1 w2" unfolding w2_def by (rule step.write_temp) (simp add: defs)
  moreover have "step c jobs w2 w3" unfolding w3_def by (rule step.replace) (simp_all add: defs)
  moreover have "step c jobs w3 w4" unfolding w4_def by (rule step.verify [where b = b]) (use read in \<open>simp_all add: defs\<close>)
  moreover have "step c jobs w4 w5" unfolding w5_def by (rule step.finish) (simp add: defs)
  ultimately have "reachable c jobs start w5" using r by (meson reachable.later)
  then show ?thesis by (intro exI [of _ w5]) (simp add: defs)
qed

lemma write_returns:
  assumes r: "reachable c jobs start w" and ph: "w_phase w p = Starting" "w_lock w = None"
    and job: "jobs p = WriteJob x" "encode_json_object c x = Some b"
  shows "\<exists>w'. reachable c jobs start w' \<and> w_phase w' p = Returned (Wrote x) \<and> w_lock w' = None
    \<and> w_file w' = Some b \<and> w_log w' = w_log w @ [(p, Some b)] \<and> (\<forall>q. q \<noteq> p \<longrightarrow> w_phase w' q = w_phase w q)"
proof -
  define w1 where "w1 = go p (EncodedFirst x b) w"
  define w2 where "w2 = set_lock (Some p) (go p (HasBytes x b) w1)"
  have "step c jobs w w1" unfolding w1_def by (rule step.encode_first) (rule ph job)+
  moreover have "step c jobs w1 w2" unfolding w2_def by (rule step.lock_write) (use ph in \<open>simp_all add: w1_def world_steps\<close>)
  ultimately have "reachable c jobs start w2" using r by (meson reachable.later)
  moreover have "w_phase w2 p = HasBytes x b" "\<forall>q. q \<noteq> p \<longrightarrow> w_phase w2 q = w_phase w q" "w_log w2 = w_log w"
    by (simp_all add: w2_def w1_def world_steps)
  ultimately show ?thesis using bytes_return [of c jobs start w2 p x b] job(2) by metis
qed

lemma update_returns:
  assumes r: "reachable c jobs start w" and ph: "w_phase w p = Starting" "w_lock w = None"
    and job: "jobs p = UpdateJob f dflt" "current_content c dflt (w_file w) = Some x" "f x = Some y" "encode_json_object c y = Some b"
  shows "\<exists>w'. reachable c jobs start w' \<and> w_phase w' p = Returned (Wrote y) \<and> w_lock w' = None
    \<and> w_file w' = Some b \<and> w_log w' = w_log w @ [(p, Some b)] \<and> (\<forall>q. q \<noteq> p \<longrightarrow> w_phase w' q = w_phase w q)"
proof -
  define w1 where "w1 = set_lock (Some p) (go p HoldsLock w)"
  define w2 where "w2 = go p (HasCurrent x) w1"
  define w3 where "w3 = go p (HasBytes y b) w2"
  note defs = w1_def w2_def w3_def world_steps
  have "step c jobs w w1" unfolding w1_def by (rule step.lock_other) (use ph job in simp_all)
  moreover have "step c jobs w1 w2" unfolding w2_def by (rule step.load_current) (use job in \<open>simp_all add: defs\<close>)
  moreover have "step c jobs w2 w3" unfolding w3_def by (rule step.run_updater [where f = f and dflt = dflt and x = x]) (use job in \<open>simp_all add: defs\<close>)
  ultimately have "reachable c jobs start w3" using r by (meson reachable.later)
  moreover have "w_phase w3 p = HasBytes y b" "\<forall>q. q \<noteq> p \<longrightarrow> w_phase w3 q = w_phase w q" "w_log w3 = w_log w"
    by (simp_all add: defs)
  ultimately show ?thesis using bytes_return [of c jobs start w3 p y b] job(4) by metis
qed

theorem state_file_serializable_witness:
  "\<exists>w. reachable one_codec (\<lambda>_. WriteJob one_object) None w \<and> w_phase w 0 = Returned (Wrote one_object)
    \<and> (\<exists>b. (0, Some b) \<in> set (w_log w) \<and> encode_json_object one_codec one_object = Some b)"
proof -
  have "w_phase (start_world None) 0 = Starting" "w_lock (start_world None) = None" by (simp_all add: start_world_def)
  from write_returns [OF reachable.initially this refl one_encode] obtain w where
    "reachable one_codec (\<lambda>_. WriteJob one_object) None w" "w_phase w 0 = Returned (Wrote one_object)" by blast
  with state_file_serializable [OF this(1)] show ?thesis by blast
qed

text \<open>
  C20. The JSON state file is never torn: at every moment, also after faults and after a process died in
  the middle of its work, it is what was there at the start, or the complete encoding of one object that
  reads back as equal, or gone because a call removed it. A call that returned left no temporary file, and
  a call that raised or died holds no lock.
\<close>

theorem state_file_never_torn:
  assumes "reachable c jobs start w"
  shows "(w_file w = start \<or> (w_file w = None \<and> (\<exists>p. jobs p = ClearJob)) \<or> (\<exists>x b. w_file w = Some b \<and> encode_json_object c x = Some b))
    \<and> (\<forall>p r. w_phase w p = Returned r \<longrightarrow> w_temps w p = None)
    \<and> (\<forall>p. w_phase w p = Raised \<or> w_phase w p = Died \<longrightarrow> w_lock w \<noteq> Some p)"
proof -
  have ok: "world_ok c jobs start w" by (rule reachable_world_ok [OF assms])
  let ?I = "\<lambda>f. f = start \<or> (f = None \<and> (\<exists>p. jobs p = ClearJob)) \<or> (\<exists>x b. f = Some b \<and> encode_json_object c x = Some b)"
  have "?I (w_file w)"
    by (rule json_file.content_invariant [OF assms])
       (auto simp: job_effect_def split: file_call.split_asm option.split_asm)
  moreover have "w_temps w p = None" if "w_phase w p = Returned r" for p r
  proof -
    have "w_temps w p \<noteq> None \<longrightarrow> temp_phase (w_phase w p)" using ok unfolding world_ok_def by blast
    with that show ?thesis by (simp add: temp_phase_def)
  qed
  moreover have "w_lock w \<noteq> Some p" if "w_phase w p = Raised \<or> w_phase w p = Died" for p
  proof -
    have "locked_phase (w_phase w p) \<longleftrightarrow> w_lock w = Some p" using ok unfolding world_ok_def by blast
    with that show ?thesis by (auto simp: locked_phase_def)
  qed
  ultimately show ?thesis by blast
qed

theorem state_file_never_torn_witness:
  "\<exists>w. reachable one_codec (\<lambda>_. WriteJob one_object) None w \<and> w_phase w 0 = Returned (Wrote one_object) \<and> w_temps w 0 = None"
proof -
  have "w_phase (start_world None) 0 = Starting" "w_lock (start_world None) = None" by (simp_all add: start_world_def)
  from write_returns [OF reachable.initially this refl one_encode] obtain w where
    "reachable one_codec (\<lambda>_. WriteJob one_object) None w" "w_phase w 0 = Returned (Wrote one_object)" by blast
  with state_file_never_torn [OF this(1)] show ?thesis by blast
qed

section \<open>Every call ends\<close>

definition steps_left :: "phase \<Rightarrow> nat" where
  "steps_left ph =
    (case ph of
       Starting \<Rightarrow> 9 | EncodedFirst _ _ \<Rightarrow> 8 | HoldsLock \<Rightarrow> 8 | HasCurrent _ \<Rightarrow> 7 | HasBytes _ _ \<Rightarrow> 6 | TempOpen _ _ \<Rightarrow> 5
     | TempWritten _ _ \<Rightarrow> 4 | Replaced _ _ \<Rightarrow> 3 | Finished _ \<Rightarrow> 2 | Failing \<Rightarrow> 1 | _ \<Rightarrow> 0)"

lemma step_moves_one:
  assumes "step c jobs w w'"
  shows "\<exists>p. steps_left (w_phase w' p) < steps_left (w_phase w p) \<and> (\<forall>q. q \<noteq> p \<longrightarrow> w_phase w' q = w_phase w q)"
  using assms
proof cases
  case (fault p)
  then show ?thesis by (intro exI [of _ p]) (auto simp: world_steps locked_phase_def steps_left_def split: phase.splits)
next
  case (die p)
  then show ?thesis by (intro exI [of _ p]) (auto simp: world_steps locked_phase_def steps_left_def split: phase.splits)
qed (auto intro!: exI simp: world_steps steps_left_def)

lemma steps_left_max: "steps_left ph \<le> 9"
  by (cases ph) (simp_all add: steps_left_def)

lemma run_bound:
  assumes "(step c jobs ^^ n) w w'" and "finite P"
    and "\<And>q. q \<notin> P \<Longrightarrow> w_phase w' q = w_phase w q"
  shows "(\<forall>q. steps_left (w_phase w' q) \<le> steps_left (w_phase w q))
    \<and> n + (\<Sum>p \<in> P. steps_left (w_phase w' p)) \<le> (\<Sum>p \<in> P. steps_left (w_phase w p))"
proof -
  have mono: "\<forall>q. steps_left (w_phase w' q) \<le> steps_left (w_phase w q)" if "(step c jobs ^^ n) w w'" for n w'
    using that
  proof (induction n arbitrary: w')
    case (Suc n)
    then obtain w1 where "(step c jobs ^^ n) w w1" "step c jobs w1 w'" by auto
    with Suc.IH [of w1] step_moves_one [of c jobs w1 w'] show ?case by (metis le_trans less_imp_le order_refl)
  qed simp
  have "n + (\<Sum>p \<in> P. steps_left (w_phase w' p)) \<le> (\<Sum>p \<in> P. steps_left (w_phase w p))"
    using assms(1) assms(3)
  proof (induction n arbitrary: w')
    case (Suc n)
    then obtain w1 where w1: "(step c jobs ^^ n) w w1" "step c jobs w1 w'" by auto
    obtain p where p: "steps_left (w_phase w' p) < steps_left (w_phase w1 p)" "\<And>q. q \<noteq> p \<Longrightarrow> w_phase w' q = w_phase w1 q"
      using step_moves_one [OF w1(2)] by blast
    have "p \<in> P"
    proof (rule ccontr)
      assume "p \<notin> P"
      with Suc.prems(2) have "w_phase w' p = w_phase w p" by blast
      with p(1) mono [OF w1(1)] show False by (metis leD)
    qed
    have "(\<Sum>q \<in> P. steps_left (w_phase w' q)) < (\<Sum>q \<in> P. steps_left (w_phase w1 q))"
    proof (rule sum_strict_mono_ex1 [OF assms(2)])
      show "\<forall>q \<in> P. steps_left (w_phase w' q) \<le> steps_left (w_phase w1 q)" using p by (metis less_imp_le order_refl)
      show "\<exists>q \<in> P. steps_left (w_phase w' q) < steps_left (w_phase w1 q)" using p(1) \<open>p \<in> P\<close> by blast
    qed
    moreover have "w_phase w1 q = w_phase w q" if "q \<notin> P" for q
      using Suc.prems(2) [OF that] p(2) [of q] \<open>p \<in> P\<close> that by metis
    ultimately show ?case using Suc.IH [OF w1(1)] by simp
  qed simp
  with mono [OF assms(1)] show ?thesis by blast
qed



end
