(* ===== verification/CliState.thy ===== *)
theory CliState
  imports AtomicJson
begin

text \<open>
  local_cli_v1/state.py: the cached state of the command line client, one JSON object in a file of
  app/atomic_json.py, with a generation that every update moves on and a binding to a session. The calls
  are the jobs of AtomicJson; the definitions here are what each of them computes when it holds the
  lock. \<open>shown\<close> is \<open>str()\<close> of a value that is a float, a list or an object.
\<close>

section \<open>Errors and small readers\<close>

datatype state_error =
    UntrustedState
  | PayloadNotObject
  | NotPersisted
  | BadExpectedGeneration
  | BadGeneration
  | GenerationConflict int int
  | SessionConflict string string
  | UpdaterFailed
  | UpdaterNotObject
  | UpdateNotAtomic
  | UnownedClear

definition py_str :: "(json \<Rightarrow> string) \<Rightarrow> json \<Rightarrow> string" where
  "py_str shown v =
    (case v of
       JNull \<Rightarrow> ''None'' | JBool True \<Rightarrow> ''True'' | JBool False \<Rightarrow> ''False'' | JInt n \<Rightarrow> str_int n | JStr s \<Rightarrow> s
     | _ \<Rightarrow> shown v)"

text \<open>\<open>str(state.get('session_id') or '').strip()\<close>\<close>

definition session_text :: "(json \<Rightarrow> string) \<Rightarrow> fields \<Rightarrow> string" where
  "session_text shown x = (let v = get x ''session_id'' in py_strip (if truthy v then py_str shown v else []))"

definition expected_number :: "json \<Rightarrow> state_error + int option" where
  "expected_number v =
    (case v of
       JNull \<Rightarrow> Inr None
     | JInt n \<Rightarrow> if n < 0 then Inl BadExpectedGeneration else Inr (Some n)
     | _ \<Rightarrow> Inl BadExpectedGeneration)"

definition expected_text :: "(json \<Rightarrow> string) \<Rightarrow> json \<Rightarrow> string option" where
  "expected_text shown v = (if v = JNull then None else Some (py_strip (py_str shown v)))"

definition generation_of :: "fields \<Rightarrow> state_error + int" where
  "generation_of x =
    (case map_of x ''state_generation'' of
       None \<Rightarrow> Inr 0
     | Some (JInt n) \<Rightarrow> if n < 0 then Inl BadGeneration else Inr n
     | Some _ \<Rightarrow> Inl BadGeneration)"

section \<open>Reading, saving, updating\<close>

definition load_state :: "codec \<Rightarrow> bytes option \<Rightarrow> state_error + fields" where
  "load_state c file =
    (case read_content c file of None \<Rightarrow> Inl UntrustedState | Some None \<Rightarrow> Inr [] | Some (Some x) \<Rightarrow> Inr x)"

definition save_state :: "codec \<Rightarrow> json \<Rightarrow> state_error + bytes" where
  "save_state c payload =
    (case payload of
       JObj x \<Rightarrow> (case encode_json_object c x of None \<Rightarrow> Inl NotPersisted | Some b \<Rightarrow> Inr b)
     | _ \<Rightarrow> Inl PayloadNotObject)"

text \<open>What the caller's updater does: it raises an error of this module or another one, or returns a value.\<close>

datatype updater_result = RaisesState state_error | RaisesOther | Gives json

definition apply_update ::
  "(json \<Rightarrow> string) \<Rightarrow> (fields \<Rightarrow> updater_result) \<Rightarrow> int option \<Rightarrow> string option \<Rightarrow> fields \<Rightarrow> state_error + fields" where
  "apply_update shown updater expected_generation expected_session current =
    (case generation_of current of
       Inl e \<Rightarrow> Inl e
     | Inr n \<Rightarrow>
       if expected_generation \<noteq> None \<and> expected_generation \<noteq> Some n
       then Inl (GenerationConflict (the expected_generation) n)
       else if expected_session \<noteq> None \<and> expected_session \<noteq> Some (session_text shown current)
       then Inl (SessionConflict (the expected_session) (or_str (session_text shown current) ''<none>''))
       else
         (case updater current of
            RaisesState e \<Rightarrow> Inl e
          | RaisesOther \<Rightarrow> Inl UpdaterFailed
          | Gives (JObj y) \<Rightarrow> Inr (put ''state_generation'' (JInt (n + 1)) y)
          | Gives _ \<Rightarrow> Inl UpdaterNotObject))"

text \<open>The call on a file that nothing else touches: the state it returns with the bytes it leaves.\<close>

definition update_state ::
  "codec \<Rightarrow> (json \<Rightarrow> string) \<Rightarrow> (fields \<Rightarrow> updater_result) \<Rightarrow> json \<Rightarrow> json \<Rightarrow> bytes option \<Rightarrow> state_error + fields \<times> bytes" where
  "update_state c shown updater expected_generation expected_session_id file =
    (case expected_number expected_generation of
       Inl e \<Rightarrow> Inl e
     | Inr g \<Rightarrow>
       (case current_content c [] file of
          None \<Rightarrow> Inl UpdateNotAtomic
        | Some current \<Rightarrow>
          (case apply_update shown updater g (expected_text shown expected_session_id) current of
             Inl e \<Rightarrow> Inl e
           | Inr y \<Rightarrow> (case encode_json_object c y of None \<Rightarrow> Inl UpdateNotAtomic | Some b \<Rightarrow> Inr (y, b)))))"

definition state_job ::
  "(json \<Rightarrow> string) \<Rightarrow> (fields \<Rightarrow> updater_result) \<Rightarrow> int option \<Rightarrow> string option \<Rightarrow> file_call" where
  "state_job shown updater g s =
    UpdateJob (\<lambda>x. case apply_update shown updater g s x of Inl _ \<Rightarrow> None | Inr y \<Rightarrow> Some y) []"

section \<open>Clearing\<close>

definition clear_owned_binding :: "(json \<Rightarrow> string) \<Rightarrow> json \<Rightarrow> json \<Rightarrow> fields \<Rightarrow> updater_result" where
  "clear_owned_binding shown expected_generation expected_session_id state =
    (if session_text shown state \<noteq> [] \<and> (expected_generation = JNull \<or> expected_session_id = JNull)
     then RaisesState UnownedClear
     else Gives (JObj (filter (\<lambda>kv. fst kv \<notin> {''session_id'', ''last_find_query''}) state)))"

definition clear_session_binding ::
  "codec \<Rightarrow> (json \<Rightarrow> string) \<Rightarrow> json \<Rightarrow> json \<Rightarrow> bytes option \<Rightarrow> state_error + fields \<times> bytes" where
  "clear_session_binding c shown expected_generation expected_session_id file =
    update_state c shown (clear_owned_binding shown expected_generation expected_session_id)
      expected_generation expected_session_id file"

end
