(* ===== verification/CommandJournal.thy ===== *)
theory CommandJournal
  imports CliState
begin

text \<open>
  The durable side of a live command in app/local_cli_runtime.py: how the outcome of a handler is read
  (\<open>normalize_command_outcome\<close>), and the command journal, one JSON object with a list of command
  records that the session merges into (\<open>_persist_command\<close>) and the service reads and acknowledges.
  A handler's result is a JSON value; \<open>shown\<close> is as in \<open>CliState\<close>.
\<close>

section \<open>Reading an outcome\<close>

definition known_commands :: "string list" where
  "known_commands =
    [''health_probe'', ''find'', ''info'', ''move'', ''select'', ''replace'', ''cell'', ''cellmove'',
     ''cursormove'', ''cell-replace'', ''type'', ''anchor-insert'', ''figure-section'',
     ''image'', ''image-at-anchor'', ''fontsize'', ''bold'', ''font'', ''bullet'', ''table'',
     ''list'', ''action'', ''undo'', ''redo'', ''where'', ''save'', ''export'', ''screenshot'',
     ''insert-text-file'', ''open'', ''close'', ''numbering-readback'']"

definition mutating_commands :: "string list" where
  "mutating_commands =
    [''replace'', ''cell-replace'', ''type'', ''anchor-insert'', ''figure-section'',
     ''image'', ''image-at-anchor'', ''fontsize'', ''bold'', ''font'', ''bullet'', ''table'',
     ''list'', ''action'', ''undo'', ''redo'', ''insert-text-file'', ''command-bundle'', ''save'']"

record normalized =
  nm_ok :: "bool option"
  nm_may :: bool
  nm_delta :: "bool option"
  nm_steps :: nat
  nm_failed :: nat
  nm_code :: "string option"

definition exact_bool :: "json \<Rightarrow> bool option" where
  "exact_bool v = (case v of JBool b \<Rightarrow> Some b | _ \<Rightarrow> None)"

definition step_list :: "fields \<Rightarrow> json list" where
  "step_list kvs = (case get kvs ''steps'' of JList vs \<Rightarrow> vs | _ \<Rightarrow> [])"

definition step_failed :: "json \<Rightarrow> bool" where
  "step_failed v = (case v of JObj s \<Rightarrow> exact_bool (get s ''ok'') \<noteq> Some True | _ \<Rightarrow> True)"

definition step_says_mutation :: "json \<Rightarrow> bool" where
  "step_says_mutation v =
    (case v of JObj s \<Rightarrow> has s ''dirty'' \<or> has s ''mutation_may_have_persisted'' \<or> has (as_obj (get s ''mutation'')) ''may_have_persisted''
     | _ \<Rightarrow> False)"

definition step_mutated :: "json \<Rightarrow> bool" where
  "step_mutated v =
    (case v of
       JObj s \<Rightarrow> get s ''dirty'' = JBool True \<or> get s ''mutation_may_have_persisted'' = JBool True
         \<or> get (as_obj (get s ''mutation'')) ''may_have_persisted'' = JBool True
     | _ \<Rightarrow> False)"

definition explicit_evidence :: "fields \<Rightarrow> bool" where
  "explicit_evidence kvs \<longleftrightarrow>
    has kvs ''may_have_mutated'' \<or> has kvs ''mutation_may_have_persisted'' \<or> list_ex step_says_mutation (step_list kvs)"

definition envelope_outcome :: "string \<Rightarrow> fields \<Rightarrow> normalized" where
  "envelope_outcome command kvs =
    (let malformed = has kvs ''ok'' \<and> exact_bool (get kvs ''ok'') = None;
         failed = length (filter step_failed (step_list kvs));
         stated = (if malformed then Some False
                   else if has kvs ''ok'' then exact_bool (get kvs ''ok'')
                   else if command \<in> set known_commands then Some True else None);
         ok = (if failed > 0 then Some False else stated);
         delta = exact_bool (get kvs ''dirty'');
         may = (get kvs ''may_have_mutated'' = JBool True \<or> get kvs ''mutation_may_have_persisted'' = JBool True
                \<or> list_ex step_mutated (step_list kvs) \<or> delta = Some True)
     in \<lparr>nm_ok = ok,
         nm_may = may \<or> (command \<in> set mutating_commands \<and> ok = Some False \<and> \<not> explicit_evidence kvs),
         nm_delta = delta, nm_steps = length (step_list kvs), nm_failed = failed,
         nm_code = (if malformed then Some ''MALFORMED_OK'' else None)\<rparr>)"

definition normalize_command_outcome :: "string \<Rightarrow> json \<Rightarrow> string option \<Rightarrow> normalized" where
  "normalize_command_outcome command result err =
    (case err of
       Some label \<Rightarrow>
         \<lparr>nm_ok = Some False, nm_may = command \<in> set mutating_commands \<or> command = ''pycall'', nm_delta = None,
          nm_steps = 0, nm_failed = 0, nm_code = Some label\<rparr>
     | None \<Rightarrow>
       (case result of
          JObj kvs \<Rightarrow> envelope_outcome command kvs
        | _ \<Rightarrow>
          \<lparr>nm_ok = (if command \<in> set mutating_commands then Some False
                     else if command \<in> set known_commands then Some True else None),
           nm_may = command \<in> set mutating_commands, nm_delta = None, nm_steps = 0, nm_failed = 0, nm_code = None\<rparr>))"

section \<open>Reading the journal\<close>

definition is_dict :: "json \<Rightarrow> bool" where
  "is_dict v = (case v of JObj _ \<Rightarrow> True | _ \<Rightarrow> False)"

definition raw_journal_command :: "fields option \<Rightarrow> string option \<Rightarrow> fields option" where
  "raw_journal_command payload command_id =
    (case payload of
       None \<Rightarrow> None
     | Some kvs \<Rightarrow>
       (case get kvs ''commands'' of
          JList vs \<Rightarrow>
            (if command_id \<noteq> None \<and> command_id \<noteq> Some []
             then map_option as_obj (find (\<lambda>v. is_dict v \<and> get (as_obj v) ''command_id'' = JStr (the command_id)) vs)
             else if vs = [] then None
             else if is_dict (last vs) then Some (as_obj (last vs)) else None)
        | _ \<Rightarrow> None))"

definition text_or_null :: "string option \<Rightarrow> json" where
  "text_or_null s = (case s of None \<Rightarrow> JNull | Some x \<Rightarrow> JStr x)"

definition public_command_record :: "fields option \<Rightarrow> string option \<Rightarrow> fields" where
  "public_command_record r command_id =
    (case r of
       None \<Rightarrow> [(''command_id'', text_or_null command_id), (''state'', JStr ''unknown''), (''reconcilable'', JBool False)]
     | Some kvs \<Rightarrow> filter (\<lambda>kv. fst kv \<noteq> ''reconciliation_data'') kvs)"

definition journal_command_status :: "fields option \<Rightarrow> string option \<Rightarrow> fields" where
  "journal_command_status payload command_id = public_command_record (raw_journal_command payload command_id) command_id"

text \<open>\<open>None\<close> where the reader of the file raises.\<close>

definition read_command_journal :: "codec \<Rightarrow> bytes option \<Rightarrow> string option \<Rightarrow> fields option" where
  "read_command_journal c file command_id =
    map_option (\<lambda>payload. journal_command_status payload command_id) (read_content c file)"

definition read_command_custody :: "codec \<Rightarrow> bytes option \<Rightarrow> string \<Rightarrow> fields option" where
  "read_command_custody c file command_id =
    map_option (\<lambda>payload.
      (case raw_journal_command payload (Some command_id) of
         Some r \<Rightarrow> r
       | None \<Rightarrow> [(''command_id'', JStr command_id), (''state'', JStr ''unknown''), (''reconcilable'', JBool False),
                  (''reconciliation_data'', JNull)]))
     (read_content c file)"

section \<open>Acknowledging\<close>

definition late_states :: "string list" where
  "late_states = [''completed_after_timeout'', ''failed_after_timeout'']"

text \<open>\<open>state in {...}\<close> raises for a value that cannot be hashed.\<close>

definition late_state :: "json \<Rightarrow> bool option" where
  "late_state v =
    (case v of JList _ \<Rightarrow> None | JObj _ \<Rightarrow> None | JStr s \<Rightarrow> Some (s \<in> set late_states) | _ \<Rightarrow> Some False)"

definition preserved_recovery :: "fields \<Rightarrow> bool" where
  "preserved_recovery item =
    (get (as_obj (get (as_obj (get item ''reconciliation_data'')) ''recovery'')) ''state'' = JStr ''preserved'')"

text \<open>\<open>needs_copy\<close>: of the two acknowledgements only the older one settles a command without a recovery copy.\<close>

definition ack_item :: "bool \<Rightarrow> string \<Rightarrow> string \<Rightarrow> json \<Rightarrow> json option" where
  "ack_item needs_copy now command_id v =
    (case v of
       JObj item \<Rightarrow>
         if get item ''command_id'' \<noteq> JStr command_id then Some v
         else (case late_state (get item ''state'') of
             None \<Rightarrow> None
           | Some late \<Rightarrow>
             Some (if late \<and> (needs_copy \<longrightarrow> preserved_recovery item)
                   then JObj (put ''reconciled_at'' (JStr now) (put ''reconciled'' (JBool True) item)) else v))
     | _ \<Rightarrow> Some v)"

fun all_some :: "'a option list \<Rightarrow> 'a list option" where
  "all_some [] = Some []"
| "all_some (x # xs) = (case x of None \<Rightarrow> None | Some y \<Rightarrow> map_option ((#) y) (all_some xs))"

definition ack_payload :: "bool \<Rightarrow> string \<Rightarrow> string \<Rightarrow> fields \<Rightarrow> fields option" where
  "ack_payload needs_copy now command_id payload =
    (let commands = (case get payload ''commands'' of JList vs \<Rightarrow> vs | _ \<Rightarrow> []) in
     case all_some (map (ack_item needs_copy now command_id) commands) of
       None \<Rightarrow> None
     | Some acked \<Rightarrow>
       if \<exists>v \<in> set commands. is_dict v \<and> get (as_obj v) ''command_id'' = JStr command_id
       then Some (put ''commands'' (JList acked) payload) else None)"

definition empty_journal :: "string \<Rightarrow> fields" where
  "empty_journal session =
    [(''schema_version'', JStr ''local-cli/command-journal/v1''), (''session_id'', JStr session), (''commands'', JList [])]"

definition acknowledge_command_journal :: "string \<Rightarrow> string \<Rightarrow> string \<Rightarrow> file_call" where
  "acknowledge_command_journal now session command_id =
    UpdateJob (ack_payload True now command_id) (empty_journal session)"

definition reconcile_command_journal :: "string \<Rightarrow> string \<Rightarrow> string \<Rightarrow> file_call" where
  "reconcile_command_journal now session command_id =
    UpdateJob (ack_payload False now command_id) (empty_journal session)"

section \<open>Merging a record\<close>

definition state_rank :: "(json \<Rightarrow> string) \<Rightarrow> fields \<Rightarrow> nat" where
  "state_rank shown item =
    (let v = get item ''state''; s = (if truthy v then py_str shown v else []) in
     case map_of [(''queued'', 0), (''running'', 1), (''timed_out_pending_reconciliation'', 2), (''succeeded'', 3),
       (''failed'', 3), (''completed_after_timeout'', 4), (''failed_after_timeout'', 4), (''cancelled'', 4)] s of
       Some n \<Rightarrow> n | None \<Rightarrow> 0)"

definition keeps_old :: "(json \<Rightarrow> string) \<Rightarrow> fields \<Rightarrow> fields \<Rightarrow> bool" where
  "keeps_old shown old new \<longleftrightarrow>
    (let old_rank = state_rank shown old; new_rank = state_rank shown new in
     old_rank > new_rank
     \<or> (old_rank = new_rank \<and> truthy (get old ''reconciled'') \<and> \<not> truthy (get new ''reconciled''))
     \<or> (old_rank = new_rank \<and> truthy (get old ''completed'') \<and> \<not> truthy (get new ''completed'')))"

text \<open>\<open>int(value)\<close>\<close>

definition int_of_value :: "json \<Rightarrow> int option" where
  "int_of_value v =
    (case v of
       JInt n \<Rightarrow> Some n | JBool b \<Rightarrow> Some (of_bool b) | JReal x \<Rightarrow> Some (if x < 0 then \<lceil>x\<rceil> else \<lfloor>x\<rfloor>)
     | JStr s \<Rightarrow> py_int s | _ \<Rightarrow> None)"

definition sequence_of :: "fields \<Rightarrow> int option" where
  "sequence_of item = (if has item ''sequence'' then int_of_value (get item ''sequence'') else Some 0)"

definition journal_key :: "(json \<Rightarrow> string) \<Rightarrow> fields \<Rightarrow> int \<times> string" where
  "journal_key shown item =
    (let v = get item ''command_id'' in
     (case sequence_of item of None \<Rightarrow> 0 | Some n \<Rightarrow> n, if truthy v then py_str shown v else []))"

definition protected_record :: "fields \<Rightarrow> bool" where
  "protected_record item \<longleftrightarrow>
    get item ''state'' = JStr ''timed_out_pending_reconciliation''
    \<or> (truthy (get item ''timed_out'') \<and> \<not> truthy (get item ''reconciled''))
    \<or> truthy (get item ''custody_held'')"

definition max_history :: nat where "max_history = 100"

fun replace_first :: "('a \<Rightarrow> bool) \<Rightarrow> ('a \<Rightarrow> 'a) \<Rightarrow> 'a list \<Rightarrow> 'a list" where
  "replace_first p f [] = []"
| "replace_first p f (x # xs) = (if p x then f x # xs else x # replace_first p f xs)"

definition journal_commands :: "fields \<Rightarrow> fields list" where
  "journal_commands payload =
    (case get payload ''commands'' of JList vs \<Rightarrow> map as_obj (filter is_dict vs) | _ \<Rightarrow> [])"

definition set_default :: "string \<Rightarrow> json \<Rightarrow> fields \<Rightarrow> fields" where
  "set_default name v kvs = (if has kvs name then kvs else put name v kvs)"

definition merged_commands :: "(json \<Rightarrow> string) \<Rightarrow> fields \<Rightarrow> fields list \<Rightarrow> fields list" where
  "merged_commands shown r commands =
    (let same = (\<lambda>item. get item ''command_id'' = get r ''command_id'') in
     if list_ex same commands then replace_first same (\<lambda>old. if keeps_old shown old r then old else r) commands
     else commands @ [r])"

text \<open>Settled records beyond the history are dropped, the oldest first; protected ones never.\<close>

definition bounded_commands :: "(json \<Rightarrow> string) \<Rightarrow> fields list \<Rightarrow> fields list" where
  "bounded_commands shown commands =
    (let ordered = sort_key (journal_key shown) commands;
         settled = filter (\<lambda>item. \<not> protected_record item) ordered
     in sort_key (journal_key shown)
          (drop (length settled - max_history) settled @ filter protected_record ordered))"

definition latest_sequence :: "fields list \<Rightarrow> int" where
  "latest_sequence commands =
    (if commands = [] then 0 else Max (set (map (\<lambda>item. case sequence_of item of None \<Rightarrow> 0 | Some n \<Rightarrow> n) commands)))"

definition merge_record :: "(json \<Rightarrow> string) \<Rightarrow> string \<Rightarrow> fields \<Rightarrow> fields \<Rightarrow> fields option" where
  "merge_record shown session r payload =
    (let base = set_default ''session_id'' (JStr session)
           (set_default ''schema_version'' (JStr ''local-cli/command-journal/v1'') payload);
         merged = merged_commands shown r (journal_commands base);
         kept = bounded_commands shown merged
     in if list_ex (\<lambda>item. sequence_of item = None) merged then None
        else Some (put ''latest_sequence'' (JInt (latest_sequence kept))
               (put ''commands'' (JList (map JObj kept)) base)))"

definition persist_command :: "(json \<Rightarrow> string) \<Rightarrow> string \<Rightarrow> fields \<Rightarrow> file_call" where
  "persist_command shown session r = UpdateJob (merge_record shown session r) (empty_journal session)"

end
