(* ===== verification/CliProps.thy ===== *)
theory CliProps
  imports CliState AtomicProps
begin

text \<open>
  What the cached client state promises, proved from the contract of the shared state file: the
  generation counts the updates, of the updates that name one generation at most one happens, and a
  session binding is only cleared by a caller that knows the state it clears.
\<close>

section \<open>One update alone\<close>

lemma update_state_file:
  "update_state c shown updater g s file = Inr (y, b) \<Longrightarrow> expected_number g = Inr e
   \<Longrightarrow> job_effect c (state_job shown updater e (expected_text shown s)) file = Some (Some b)"
  by (auto simp: update_state_def state_job_def job_effect_def split: option.splits sum.splits)

lemma apply_update_accepted:
  assumes "apply_update shown updater g s x = Inr y"
  obtains n z where "generation_of x = Inr n" "g = None \<or> g = Some n" "s = None \<or> s = Some (session_text shown x)"
    "updater x = Gives (JObj z)" "y = put ''state_generation'' (JInt (n + 1)) z"
  using assms
  by (auto simp: apply_update_def split: sum.splits if_splits updater_result.splits json.splits)

section \<open>The generation\<close>

definition whole :: "json \<Rightarrow> int option" where
  "whole v =
    (case v of JBool b \<Rightarrow> Some (of_bool b) | JInt n \<Rightarrow> Some n | JReal x \<Rightarrow> if of_int \<lfloor>x\<rfloor> = x then Some \<lfloor>x\<rfloor> else None
     | _ \<Rightarrow> None)"

definition generation_number :: "fields \<Rightarrow> int option" where
  "generation_number x = (case map_of x ''state_generation'' of None \<Rightarrow> Some 0 | Some v \<Rightarrow> whole v)"

text \<open>The generation in the file, compared as numbers compare in Python (a \<open>1.0\<close> counts as 1).\<close>

definition file_generation :: "codec \<Rightarrow> bytes option \<Rightarrow> int option" where
  "file_generation c file =
    (case file of None \<Rightarrow> Some 0
     | Some b \<Rightarrow> (case decode_file c b of None \<Rightarrow> None | Some x \<Rightarrow> generation_number x))"

text \<open>\<open>json.loads\<close> makes dictionaries: every name once.\<close>

definition names_once :: "codec \<Rightarrow> bool" where
  "names_once c \<longleftrightarrow> (\<forall>b x. loads c b = Some (JObj x) \<longrightarrow> distinct (map fst x))"

lemma whole_eq: "py_eq v (JInt n) \<Longrightarrow> whole v = Some n"
  by (cases v) (auto simp: whole_def)

lemma obj_eq_has:
  assumes "py_eq (JObj xs) (JObj ys)" and "distinct (map fst xs)" and "has ys k"
  shows "has xs k"
proof -
  have len: "length xs = length ys" using assms(1) by simp
  have "fst ` set xs \<subseteq> fst ` set ys" using obj_eq_get [OF assms(1)] by (auto simp: has_def)
  moreover have "card (fst ` set xs) = length xs" using distinct_card [OF assms(2)] by simp
  moreover have "card (fst ` set ys) \<le> length ys" using card_length [of "map fst ys"] by simp
  ultimately have "fst ` set xs = fst ` set ys" using len by (metis List.finite_set card_seteq finite_imageI)
  with assms(3) show ?thesis by (simp add: has_def)
qed

lemma map_of_has: "has x k \<Longrightarrow> map_of x k = Some (get x k)"
  by (cases "map_of x k") (auto simp: has_def get_def map_of_eq_None_iff)

lemma encoded_generation:
  assumes "names_once c" and "encode_json_object c (put ''state_generation'' (JInt n) z) = Some b"
  shows "file_generation c (Some b) = Some n"
proof -
  let ?y = "put ''state_generation'' (JInt n) z" and ?k = "''state_generation''"
  from assms(2) obtain x where x: "loads c b = Some (JObj x)" "py_eq (JObj x) (JObj ?y)"
    by (auto simp: encode_json_object_def split: option.splits json.splits if_splits)
  from assms(1) x(1) have "distinct (map fst x)" by (auto simp: names_once_def)
  then have has: "has x ?k" using obj_eq_has [OF x(2)] by simp
  from obj_eq_get [OF x(2) this] have "py_eq (get x ?k) (JInt n)" by simp
  with has x(1) show ?thesis
    by (simp add: file_generation_def decode_file_def generation_number_def map_of_has whole_eq)
qed

lemma generation_read: "generation_of x = Inr n \<Longrightarrow> generation_number x = Some n"
  by (auto simp: generation_of_def generation_number_def whole_def split: option.splits json.splits if_splits)

text \<open>The calls of this part: reads, and updates with what each expects of the state.\<close>

definition state_calls :: "(nat \<Rightarrow> file_call) \<Rightarrow> bool" where
  "state_calls jobs \<longleftrightarrow> (\<forall>p. jobs p = ReadJob \<or> (\<exists>shown updater g s. jobs p = state_job shown updater g s))"

lemma state_effect:
  assumes "names_once c" and "job_effect c (state_job shown updater g s) f = Some f'"
  shows "\<exists>n. file_generation c f = Some n \<and> file_generation c f' = Some (n + 1) \<and> (g = None \<or> g = Some n)"
proof -
  from assms(2) obtain x y b where x: "current_content c [] f = Some x" "apply_update shown updater g s x = Inr y"
    "encode_json_object c y = Some b" "f' = Some b"
    by (auto simp: job_effect_def state_job_def split: option.split_asm sum.split_asm) metis
  from apply_update_accepted [OF x(2)] obtain n z where n: "generation_of x = Inr n" "g = None \<or> g = Some n"
    "y = put ''state_generation'' (JInt (n + 1)) z" by metis
  have "file_generation c f = Some n" using x(1) generation_read [OF n(1)]
    by (auto simp: file_generation_def current_content_def generation_number_def split: option.splits)
  with n(2) encoded_generation [OF assms(1), of "n + 1" z b] x(3,4) n(3) show ?thesis by auto
qed

lemma call_effect:
  assumes "names_once c" and "state_calls jobs" and "job_effect c (jobs p) f = Some g"
  shows "file_generation c f \<noteq> None \<and> file_generation c g = map_option (\<lambda>n. n + 1) (file_generation c f)"
proof -
  from assms(2) have "jobs p = ReadJob \<or> (\<exists>shown updater g s. jobs p = state_job shown updater g s)"
    by (simp add: state_calls_def)
  with assms(3) obtain shown' updater e s where "jobs p = state_job shown' updater e s" by (auto simp: job_effect_def)
  with assms(3) state_effect [OF assms(1), of shown' updater e s f g] show ?thesis by auto
qed

text \<open>Any number of callers, all updating generation 0 of a state that does not exist yet.\<close>

definition first_state :: fields where "first_state = [(''state_generation'', JInt 1)]"

definition state_codec :: codec where
  "state_codec = \<lparr>dumps = (\<lambda>x. if x = first_state then Some ''1'' else None),
     loads = (\<lambda>b. if b = ''1'' then Some (JObj first_state) else None)\<rparr>"

definition first_update :: file_call where
  "first_update = state_job (\<lambda>_. []) (\<lambda>x. Gives (JObj x)) (Some 0) None"

lemma state_codec_facts:
  "names_once state_codec" "encode_json_object state_codec first_state = Some ''1''"
  "current_content state_codec [] None = Some []"
  "apply_update (\<lambda>_. []) (\<lambda>x. Gives (JObj x)) (Some 0) None [] = Inr first_state"
  by (simp_all add: names_once_def state_codec_def first_state_def encode_json_object_def current_content_def
      apply_update_def generation_of_def)

lemma first_update_runs:
  obtains w where "reachable state_codec (\<lambda>_. first_update) None w" "w_phase w 0 = Returned (Wrote first_state)"
    "w_log w = [(0, Some ''1'')]" "w_file w = Some ''1''"
proof -
  have job: "first_update = UpdateJob (\<lambda>x. case apply_update (\<lambda>_. []) (\<lambda>x. Gives (JObj x)) (Some 0) None x of Inl _ \<Rightarrow> None | Inr y \<Rightarrow> Some y) []"
    by (simp add: first_update_def state_job_def)
  have start: "w_phase (start_world None) 0 = Starting" "w_lock (start_world None) = None" "w_file (start_world None) = None"
    "w_log (start_world None) = []" by (simp_all add: start_world_def)
  from update_returns [OF reachable.initially start(1,2) job, of state_codec "[]" first_state "''1''"]
  show ?thesis using that state_codec_facts start by auto
qed

lemma first_update_calls: "state_calls (\<lambda>_. first_update)"
  by (auto simp: state_calls_def first_update_def)





section \<open>The session binding\<close>

text \<open>
  clear_session_binding removes the session and the last search from exactly the state its caller
  named: it succeeds on a bound state only when both the generation and the session were given and are
  those of the file, every other field stays as it is, and the generation moves on by one.
\<close>

theorem session_clear_exact:
  assumes "clear_session_binding c shown g s file = Inr (y, b)"
  shows "\<exists>x n. current_content c [] file = Some x \<and> generation_of x = Inr n
    \<and> (session_text shown x \<noteq> [] \<longrightarrow> g = JInt n \<and> expected_text shown s = Some (session_text shown x))
    \<and> (\<forall>k. get y k = (if k = ''state_generation'' then JInt (n + 1)
                     else if k = ''session_id'' \<or> k = ''last_find_query'' then JNull else get x k))
    \<and> session_text shown y = [] \<and> encode_json_object c y = Some b"
proof -
  from assms obtain e x where x: "expected_number g = Inr e" "current_content c [] file = Some x"
    "apply_update shown (clear_owned_binding shown g s) e (expected_text shown s) x = Inr y" "encode_json_object c y = Some b"
    by (auto simp: clear_session_binding_def update_state_def split: option.split_asm sum.split_asm)
  from apply_update_accepted [OF x(3)] obtain n z where n: "generation_of x = Inr n" "e = None \<or> e = Some n"
    "expected_text shown s = None \<or> expected_text shown s = Some (session_text shown x)"
    "clear_owned_binding shown g s x = Gives (JObj z)" "y = put ''state_generation'' (JInt (n + 1)) z" by metis
  let ?keep = "\<lambda>kv :: string \<times> json. fst kv \<notin> {''session_id'', ''last_find_query''}"
  have z: "z = filter ?keep x" and own: "session_text shown x \<noteq> [] \<longrightarrow> g \<noteq> JNull \<and> s \<noteq> JNull"
    using n(4) by (auto simp: clear_owned_binding_def split: if_split_asm)
  have kept: "get (filter ?keep x) k = (if k = ''session_id'' \<or> k = ''last_find_query'' then JNull else get x k)" for k
    by (induction x) (auto simp: get_def)
  have fields: "get y k = (if k = ''state_generation'' then JInt (n + 1)
      else if k = ''session_id'' \<or> k = ''last_find_query'' then JNull else get x k)" for k
    unfolding n(5) z get_put by (simp only: kept)
  have "g = JInt n" if "g \<noteq> JNull" using x(1) n(2) that by (auto simp: expected_number_def split: json.split_asm if_split_asm)
  moreover have "expected_text shown s \<noteq> None" if "s \<noteq> JNull" using that by (simp add: expected_text_def)
  ultimately have "session_text shown x \<noteq> [] \<longrightarrow> g = JInt n \<and> expected_text shown s = Some (session_text shown x)"
    using own n(3) by auto
  moreover have "session_text shown y = []" by (simp add: session_text_def fields truthy_def)
  ultimately show ?thesis using x(2,4) n(1) fields by blast
qed

definition bound_state :: fields where
  "bound_state = [(''session_id'', JStr ''s1''), (''a'', JBool True), (''state_generation'', JInt 4)]"

definition bound_codec :: codec where
  "bound_codec = \<lparr>dumps = (\<lambda>x. if x = [(''a'', JBool True), (''state_generation'', JInt 5)] then Some ''5'' else None),
     loads = (\<lambda>b. if b = ''4'' then Some (JObj bound_state)
                  else if b = ''5'' then Some (JObj [(''a'', JBool True), (''state_generation'', JInt 5)]) else None)\<rparr>"

lemma bound_session_text: "session_text (\<lambda>_. []) bound_state = ''s1''"
  by (simp add: session_text_def bound_state_def get_def truthy_def py_str_def py_strip_def py_space_def)

lemma bound_generation: "generation_of bound_state = Inr 4"
  by (simp add: bound_state_def generation_of_def)

lemma bound_facts:
  "current_content bound_codec [] (Some ''4'') = Some bound_state"
  "apply_update (\<lambda>_. []) (clear_owned_binding (\<lambda>_. []) (JInt 4) (JStr t)) (Some 4) (Some ''s1'') bound_state
    = Inr [(''a'', JBool True), (''state_generation'', JInt 5)]"
  "encode_json_object bound_codec [(''a'', JBool True), (''state_generation'', JInt 5)] = Some ''5''"
  subgoal by (simp add: current_content_def decode_file_def bound_codec_def)
  subgoal by (simp add: apply_update_def bound_session_text clear_owned_binding_def bound_generation) (simp add: bound_state_def)
  subgoal by (simp add: encode_json_object_def bound_codec_def)
  done

theorem session_clear_exact_witness:
  "\<exists>y. clear_session_binding bound_codec (\<lambda>_. []) (JInt 4) (JStr '' s1 '') (Some ''4'') = Inr (y, ''5'')
    \<and> get y ''a'' = JBool True \<and> get y ''session_id'' = JNull"
proof -
  have strip: "py_strip '' s1 '' = ''s1''" by (simp add: py_strip_def py_space_def)
  have run: "clear_session_binding bound_codec (\<lambda>_. []) (JInt 4) (JStr '' s1 '') (Some ''4'')
      = Inr ([(''a'', JBool True), (''state_generation'', JInt 5)], ''5'')"
    by (simp add: clear_session_binding_def update_state_def expected_number_def expected_text_def py_str_def strip
        bound_facts)
  from session_clear_exact [OF this] run show ?thesis by (auto simp: bound_codec_def current_content_def decode_file_def bound_state_def get_def)
qed

end
