(* ===== verification/JournalProps.thy ===== *)
theory JournalProps
  imports CommandJournal CliProps
begin

text \<open>
  What the reading of outcomes and the command journal promise: an edit is reported as successful only on
  exact evidence, merging a record loses nothing that is still owed an answer, and an acknowledgement
  settles exactly the commands it may.
\<close>

section \<open>Outcomes\<close>

lemma exact_bool_Some [simp]: "exact_bool v = Some b \<longleftrightarrow> v = JBool b"
  by (cases v) (auto simp: exact_bool_def)

lemma exact_bool_None [simp]: "exact_bool v = None \<longleftrightarrow> (\<forall>b. v \<noteq> JBool b)"
  by (cases v) (auto simp: exact_bool_def)

lemma step_ok: "\<not> step_failed v \<longleftrightarrow> (\<exists>s. v = JObj s \<and> get s ''ok'' = JBool True)"
  by (cases v) (auto simp: step_failed_def)

lemma no_step_failed: "length (filter step_failed vs) = 0 \<longleftrightarrow> (\<forall>v \<in> set vs. \<exists>s. v = JObj s \<and> get s ''ok'' = JBool True)"
  by (simp add: filter_empty_conv step_ok)

text \<open>
  C24. The outcome of a command that edits is a success only when the handler returned an object that says
  so exactly (\<open>ok\<close> is true, or is left out by a command that never gives one) and in which every step says
  so too. A failure without any statement about mutation always counts as one that may have mutated.
\<close>

theorem mutating_outcome_fails_closed:
  assumes "command \<in> set mutating_commands"
  shows "(nm_ok (normalize_command_outcome command result err) = Some True \<longleftrightarrow>
      err = None \<and> (\<exists>kvs. result = JObj kvs
        \<and> (if has kvs ''ok'' then get kvs ''ok'' = JBool True else command \<in> set known_commands)
        \<and> (\<forall>v \<in> set (step_list kvs). \<exists>s. v = JObj s \<and> get s ''ok'' = JBool True)))
    \<and> (nm_ok (normalize_command_outcome command result err) = Some False \<and> \<not> nm_may (normalize_command_outcome command result err)
       \<longrightarrow> err = None \<and> (\<exists>kvs. result = JObj kvs \<and> explicit_evidence kvs))"
proof (cases "err = None \<and> is_dict result")
  case True
  then obtain kvs where kvs: "result = JObj kvs" "err = None" by (cases result) (auto simp: is_dict_def)
  have "nm_ok (envelope_outcome command kvs) = Some True \<longleftrightarrow>
      (if has kvs ''ok'' then get kvs ''ok'' = JBool True else command \<in> set known_commands)
      \<and> length (filter step_failed (step_list kvs)) = 0"
    by (auto simp: envelope_outcome_def Let_def)
  moreover have "nm_ok (envelope_outcome command kvs) = Some False \<Longrightarrow> \<not> nm_may (envelope_outcome command kvs)
      \<Longrightarrow> explicit_evidence kvs"
    using assms by (auto simp: envelope_outcome_def Let_def)
  ultimately show ?thesis using kvs unfolding no_step_failed by (simp add: normalize_command_outcome_def)
next
  case False
  then show ?thesis using assms
    by (cases result) (auto simp: normalize_command_outcome_def is_dict_def split: option.splits)
qed

theorem mutating_outcome_fails_closed_witness:
  "nm_ok (normalize_command_outcome ''type'' (JObj [(''ok'', JBool True), (''steps'', JList [JObj [(''ok'', JBool False)]])]) None) \<noteq> Some True"
proof -
  have "''type'' \<in> set mutating_commands" by (simp add: mutating_commands_def)
  from mutating_outcome_fails_closed [OF this, of "JObj [(''ok'', JBool True), (''steps'', JList [JObj [(''ok'', JBool False)]])]" None]
  show ?thesis by (auto simp: step_list_def get_def)
qed

section \<open>Merging\<close>

lemma replace_first_set: "set (replace_first p f xs) \<subseteq> {f x |x. x \<in> set xs \<and> p x} \<union> set xs"
  by (induction xs) auto

lemma replace_first_keeps: "x \<in> set xs \<Longrightarrow> \<not> p x \<Longrightarrow> x \<in> set (replace_first p f xs)"
  by (induction xs) auto

lemma replace_first_map: "(\<And>x. p x \<Longrightarrow> g (f x) = g x) \<Longrightarrow> map g (replace_first p f xs) = map g xs"
  by (induction xs) auto

lemma replace_first_unique:
  "distinct (map g xs) \<Longrightarrow> (\<And>x. p x \<longleftrightarrow> g x = a) \<Longrightarrow> x \<in> set xs \<Longrightarrow> p x
   \<Longrightarrow> y \<in> set (replace_first p f xs) \<Longrightarrow> (\<And>x. p x \<Longrightarrow> p (f x)) \<Longrightarrow> p y \<Longrightarrow> y = f x"
proof (induction xs)
  case (Cons z zs)
  show ?case
  proof (cases "p z")
    case True
    then have "\<forall>u \<in> set zs. \<not> p u" using Cons.prems(1,2) by (auto simp: image_iff)
    then show ?thesis using True Cons.prems by (auto split: if_split_asm)
  next
    case False
    then show ?thesis using Cons by (auto split: if_split_asm)
  qed
qed simp

abbreviation item_id :: "fields \<Rightarrow> json" where
  "item_id item \<equiv> get item ''command_id''"

lemma same_key: "distinct (map g xs) \<Longrightarrow> x \<in> set xs \<Longrightarrow> y \<in> set xs \<Longrightarrow> g x = g y \<Longrightarrow> x = y"
  by (auto simp: distinct_map dest: inj_onD)

lemma merged_subset: "set (merged_commands shown r xs) \<subseteq> insert r (set xs)"
  using replace_first_set [of "\<lambda>item. item_id item = item_id r" "\<lambda>old. if keeps_old shown old r then old else r" xs]
  by (auto simp: merged_commands_def Let_def split: if_split_asm)

lemma merged_keeps_others: "x \<in> set xs \<Longrightarrow> item_id x \<noteq> item_id r \<Longrightarrow> x \<in> set (merged_commands shown r xs)"
  by (auto simp: merged_commands_def Let_def intro: replace_first_keeps)

lemma merged_distinct:
  assumes "distinct (map item_id xs)"
  shows "distinct (map item_id (merged_commands shown r xs))"
proof (cases "list_ex (\<lambda>item. item_id item = item_id r) xs")
  case True
  have "map item_id (replace_first (\<lambda>item. item_id item = item_id r) (\<lambda>old. if keeps_old shown old r then old else r) xs)
      = map item_id xs" by (rule replace_first_map) simp
  with True assms show ?thesis by (simp add: merged_commands_def Let_def)
next
  case False
  with assms show ?thesis by (auto simp: merged_commands_def Let_def list_ex_iff image_iff)
qed

lemma merged_choice:
  assumes "distinct (map item_id xs)" and "y \<in> set (merged_commands shown r xs)" and "item_id y = item_id r"
  shows "(y = r \<and> (\<forall>x \<in> set xs. item_id x = item_id r \<longrightarrow> \<not> keeps_old shown x r)) \<or> (y \<in> set xs \<and> keeps_old shown y r)"
proof (cases "\<exists>x \<in> set xs. item_id x = item_id r")
  case True
  then obtain x where x: "x \<in> set xs" "item_id x = item_id r" by blast
  then have "list_ex (\<lambda>item. item_id item = item_id r) xs" by (auto simp: list_ex_iff)
  with assms(2) have "y \<in> set (replace_first (\<lambda>item. item_id item = item_id r) (\<lambda>old. if keeps_old shown old r then old else r) xs)"
    by (simp add: merged_commands_def Let_def)
  from replace_first_unique [OF assms(1) _ x this, of "item_id r"] assms(3)
  have y: "y = (if keeps_old shown x r then x else r)" by auto
  show ?thesis
  proof (cases "keeps_old shown x r")
    case True
    with x y show ?thesis by simp
  next
    case False
    have "\<not> keeps_old shown z r" if "z \<in> set xs" "item_id z = item_id r" for z
      using False same_key [OF assms(1) that(1) x(1)] x(2) that(2) by simp
    with False y show ?thesis by simp
  qed
next
  case False
  then have "merged_commands shown r xs = xs @ [r]" by (auto simp: merged_commands_def Let_def list_ex_iff)
  with False assms(2,3) show ?thesis by auto
qed

lemma merged_has:
  "\<exists>y \<in> set (merged_commands shown r xs). item_id y = item_id r"
proof (cases "list_ex (\<lambda>item. item_id item = item_id r) xs")
  case True
  then have "item_id r \<in> set (map item_id xs)" by (auto simp: list_ex_iff image_iff eq_commute)
  also have "map item_id xs = map item_id (merged_commands shown r xs)"
    using True replace_first_map [of "\<lambda>item. item_id item = item_id r" item_id "\<lambda>old. if keeps_old shown old r then old else r" xs]
    by (simp add: merged_commands_def Let_def)
  finally show ?thesis by (auto simp: image_iff)
qed (simp add: merged_commands_def)

lemma bounded_set:
  "set (bounded_commands shown xs) \<subseteq> set xs" "{x \<in> set xs. protected_record x} \<subseteq> set (bounded_commands shown xs)"
  by (auto simp: bounded_commands_def Let_def dest: in_set_dropD)

lemma bounded_sorted: "sorted (map (journal_key shown) (bounded_commands shown xs))"
  by (simp add: bounded_commands_def Let_def)

lemma bounded_settled: "length (filter (\<lambda>x. \<not> protected_record x) (bounded_commands shown xs)) \<le> max_history"
proof -
  let ?settled = "filter (\<lambda>x. \<not> protected_record x) (sort_key (journal_key shown) xs)"
  have "length (filter (\<lambda>x. \<not> protected_record x) (sort_key (journal_key shown) ys))
      = length (filter (\<lambda>x. \<not> protected_record x) ys)" for ys
    by (simp add: filter_sort)
  then have "length (filter (\<lambda>x. \<not> protected_record x) (bounded_commands shown xs))
      = length (filter (\<lambda>x. \<not> protected_record x) (drop (length ?settled - max_history) ?settled))"
    by (simp add: bounded_commands_def Let_def)
  also have "\<dots> \<le> length (drop (length ?settled - max_history) ?settled)" by (rule length_filter_le)
  also have "\<dots> \<le> max_history" by simp
  finally show ?thesis .
qed

lemma bounded_distinct:
  assumes "distinct (map g xs)"
  shows "distinct (map g (bounded_commands shown xs))"
proof -
  have "distinct xs" using assms by (simp add: distinct_map)
  then have "distinct (bounded_commands shown xs)"
    by (auto simp: bounded_commands_def Let_def dest: in_set_dropD)
  moreover have "inj_on g (set (bounded_commands shown xs))"
    using assms bounded_set(1) [of shown xs] by (meson distinct_map inj_on_subset)
  ultimately show ?thesis by (simp add: distinct_map)
qed

text \<open>The newest settled records are the ones that stay.\<close>

lemma bounded_newest:
  assumes "x \<in> set xs" and "x \<notin> set (bounded_commands shown xs)" and "y \<in> set (bounded_commands shown xs)" and "\<not> protected_record y"
  shows "journal_key shown x \<le> journal_key shown y"
proof -
  define settled where "settled = filter (\<lambda>item. \<not> protected_record item) (sort_key (journal_key shown) xs)"
  define d where "d = length settled - max_history"
  have b: "set (bounded_commands shown xs) = set (drop d settled) \<union> {x \<in> set xs. protected_record x}"
    by (auto simp: bounded_commands_def Let_def settled_def d_def)
  have "x \<in> set settled" using assms(1,2) b by (auto simp: settled_def)
  moreover have "set settled = set (take d settled) \<union> set (drop d settled)"
    by (metis append_take_drop_id set_append)
  ultimately have x: "x \<in> set (take d settled)" using assms(2) b by blast
  have y: "y \<in> set (drop d settled)" using assms(3,4) b by blast
  have "sorted (map (journal_key shown) settled)" by (simp add: settled_def sorted_filter)
  then have "sorted (map (journal_key shown) (take d settled) @ map (journal_key shown) (drop d settled))"
    by (simp flip: map_append)
  with x y show ?thesis by (auto simp: sorted_append)
qed

lemma journal_of_list: "journal_commands (put ''latest_sequence'' v (put ''commands'' (JList (map JObj xs)) base)) = xs"
  by (simp add: journal_commands_def) (induction xs; simp add: is_dict_def as_obj_def)

lemma journal_set_default: "journal_commands (set_default name v kvs) = journal_commands kvs" if "name \<noteq> ''commands''"
  using that by (simp add: journal_commands_def set_default_def)

lemma merge_accepted:
  assumes "merge_record shown session r payload = Some payload'"
  shows "journal_commands payload' = bounded_commands shown (merged_commands shown r (journal_commands payload))"
    and "get payload' ''latest_sequence'' = JInt (latest_sequence (journal_commands payload'))"
    and "\<forall>item \<in> set (merged_commands shown r (journal_commands payload)). sequence_of item \<noteq> None"
proof -
  let ?base = "set_default ''session_id'' (JStr session) (set_default ''schema_version'' (JStr ''local-cli/command-journal/v1'') payload)"
  let ?kept = "bounded_commands shown (merged_commands shown r (journal_commands ?base))"
  have base: "journal_commands ?base = journal_commands payload" by (simp add: journal_set_default)
  from assms have p: "payload' = put ''latest_sequence'' (JInt (latest_sequence ?kept)) (put ''commands'' (JList (map JObj ?kept)) ?base)"
    and seq: "\<not> list_ex (\<lambda>item. sequence_of item = None) (merged_commands shown r (journal_commands ?base))"
    by (simp_all add: merge_record_def Let_def split: if_split_asm)
  from p have "journal_commands payload' = ?kept" by (simp only: journal_of_list)
  with base show "journal_commands payload' = bounded_commands shown (merged_commands shown r (journal_commands payload))" by simp
  with p base show "get payload' ''latest_sequence'' = JInt (latest_sequence (journal_commands payload'))" by simp
  from seq base show "\<forall>item \<in> set (merged_commands shown r (journal_commands payload)). sequence_of item \<noteq> None"
    by (simp add: list_ex_iff)
qed

text \<open>Which of the two records of the command is kept, and that its state never goes back.\<close>

lemma merged_chosen:
  assumes "distinct (map item_id xs)" and "if x = r then \<forall>y \<in> set xs. item_id y = item_id r \<longrightarrow> \<not> keeps_old shown y r
    else x \<in> set xs \<and> item_id x = item_id r \<and> keeps_old shown x r"
  shows "x \<in> set (merged_commands shown r xs)"
proof -
  obtain y where y: "y \<in> set (merged_commands shown r xs)" "item_id y = item_id r" using merged_has [of shown r xs] by blast
  have "y = x"
  proof (cases "x = r")
    case True
    with merged_choice [OF assms(1) y] assms(2) y(2) show ?thesis by auto
  next
    case False
    with assms(2) have x: "x \<in> set xs" "item_id x = item_id r" "keeps_old shown x r" by simp_all
    with merged_choice [OF assms(1) y] have "y \<in> set xs" by blast
    from same_key [OF assms(1) this x(1)] x(2) y(2) show ?thesis by simp
  qed
  with y show ?thesis by simp
qed

lemma merged_rank:
  assumes "distinct (map item_id xs)" and "x \<in> set (merged_commands shown r xs)" and "item_id x = item_id r"
  shows "state_rank shown r \<le> state_rank shown x" and "y \<in> set xs \<Longrightarrow> item_id y = item_id r \<Longrightarrow> state_rank shown y \<le> state_rank shown x"
proof -
  from merged_choice [OF assms] show "state_rank shown r \<le> state_rank shown x" by (auto simp: keeps_old_def Let_def)
  assume y: "y \<in> set xs" "item_id y = item_id r"
  from merged_choice [OF assms] show "state_rank shown y \<le> state_rank shown x"
  proof
    assume "x = r \<and> (\<forall>x \<in> set xs. item_id x = item_id r \<longrightarrow> \<not> keeps_old shown x r)"
    with y show ?thesis by (auto simp: keeps_old_def Let_def)
  next
    assume "x \<in> set xs \<and> keeps_old shown x r"
    with same_key [OF assms(1) y(1), of x] y(2) assms(3) have "y = x" by simp
    then show ?thesis by simp
  qed
qed

lemma latest_sequence_max:
  "x \<in> set xs \<Longrightarrow> sequence_of x = Some k \<Longrightarrow> k \<le> latest_sequence xs"
  by (force simp: latest_sequence_def intro: Max_ge)

text \<open>
  C25. Merging a command's record into the journal loses nothing that is still owed an answer: every
  protected record of another command stays, of the command's own old and new record the one further along
  is kept and its state never goes back; nothing is invented, the list stays ordered and without duplicates,
  at most the hundred newest settled records are kept beside the protected ones, and the latest sequence
  number is not below any of them.
\<close>

theorem journal_merge_keeps_unsettled:
  assumes "merge_record shown session r payload = Some payload'" and "distinct (map item_id (journal_commands payload))"
  shows "(\<forall>x \<in> set (journal_commands payload). protected_record x \<and> item_id x \<noteq> item_id r \<longrightarrow> x \<in> set (journal_commands payload'))
    \<and> (\<forall>x. protected_record x
        \<and> (if x = r then \<forall>y \<in> set (journal_commands payload). item_id y = item_id r \<longrightarrow> \<not> keeps_old shown y r
           else x \<in> set (journal_commands payload) \<and> item_id x = item_id r \<and> keeps_old shown x r)
        \<longrightarrow> x \<in> set (journal_commands payload'))
    \<and> (\<forall>x \<in> set (journal_commands payload'). item_id x = item_id r \<longrightarrow> state_rank shown r \<le> state_rank shown x
        \<and> (\<forall>y \<in> set (journal_commands payload). item_id y = item_id r \<longrightarrow> state_rank shown y \<le> state_rank shown x))
    \<and> set (journal_commands payload') \<subseteq> insert r (set (journal_commands payload))
    \<and> distinct (map item_id (journal_commands payload')) \<and> sorted (map (journal_key shown) (journal_commands payload'))
    \<and> length (filter (\<lambda>x. \<not> protected_record x) (journal_commands payload')) \<le> max_history
    \<and> (\<exists>n. get payload' ''latest_sequence'' = JInt n \<and> (\<forall>x \<in> set (journal_commands payload'). \<exists>k \<le> n. sequence_of x = Some k))"
proof -
  define xs where "xs = journal_commands payload"
  define ms where "ms = merged_commands shown r xs"
  have new: "journal_commands payload' = bounded_commands shown ms" and latest: "get payload' ''latest_sequence'' = JInt (latest_sequence (bounded_commands shown ms))"
    and seq: "\<forall>item \<in> set ms. sequence_of item \<noteq> None"
    using merge_accepted [OF assms(1)] by (simp_all add: ms_def xs_def)
  have xs: "distinct (map item_id xs)" using assms(2) by (simp add: xs_def)
  have stays: "x \<in> set (bounded_commands shown ms)" if "x \<in> set ms" "protected_record x" for x
    using that bounded_set(2) [of ms shown] by blast
  have others: "x \<in> set ms" if "x \<in> set xs" "item_id x \<noteq> item_id r" for x
    using merged_keeps_others [OF that] by (simp add: ms_def)
  have own: "x \<in> set ms" if "if x = r then \<forall>y \<in> set xs. item_id y = item_id r \<longrightarrow> \<not> keeps_old shown y r
      else x \<in> set xs \<and> item_id x = item_id r \<and> keeps_old shown x r" for x
    using merged_chosen [OF xs that] by (simp add: ms_def)
  have rank: "state_rank shown r \<le> state_rank shown x \<and> (\<forall>y \<in> set xs. item_id y = item_id r \<longrightarrow> state_rank shown y \<le> state_rank shown x)"
    if "x \<in> set (bounded_commands shown ms)" "item_id x = item_id r" for x
    using merged_rank [OF xs, of x shown r] that bounded_set(1) [of shown ms] by (auto simp: ms_def)
  have "set (bounded_commands shown ms) \<subseteq> insert r (set xs)"
    using bounded_set(1) [of shown ms] merged_subset [of shown r xs] by (auto simp: ms_def)
  moreover have "distinct (map item_id (bounded_commands shown ms))"
    using bounded_distinct [of item_id ms shown] merged_distinct [OF xs, of shown r] by (simp add: ms_def)
  moreover have "\<exists>k \<le> latest_sequence (bounded_commands shown ms). sequence_of x = Some k" if "x \<in> set (bounded_commands shown ms)" for x
    using latest_sequence_max [OF that] that seq bounded_set(1) [of shown ms] by blast
  ultimately show ?thesis using stays others own rank latest bounded_sorted [of shown ms] bounded_settled [of shown ms]
    unfolding new xs_def [symmetric] by blast
qed

definition late_record :: fields where
  "late_record = [(''command_id'', JStr ''c1''), (''sequence'', JInt 1), (''state'', JStr ''timed_out_pending_reconciliation''),
     (''timed_out'', JBool True), (''reconciled'', JBool False)]"

definition next_record :: fields where
  "next_record = [(''command_id'', JStr ''c2''), (''sequence'', JInt 2), (''state'', JStr ''succeeded'')]"

definition one_journal :: fields where
  "one_journal = [(''commands'', JList [JObj late_record])]"

theorem journal_merge_keeps_unsettled_witness:
  "\<exists>payload. merge_record (\<lambda>_. []) ''s'' next_record one_journal = Some payload \<and> late_record \<in> set (journal_commands payload)"
proof -
  have old: "journal_commands one_journal = [late_record]"
    by (simp add: journal_commands_def one_journal_def get_def is_dict_def as_obj_def)
  have seq: "sequence_of late_record = Some 1" "sequence_of next_record = Some 2"
    by (simp_all add: sequence_of_def late_record_def next_record_def has_def get_def int_of_value_def)
  have ids: "item_id late_record = JStr ''c1''" "item_id next_record = JStr ''c2''"
    by (simp_all add: late_record_def next_record_def get_def)
  have "merged_commands (\<lambda>_. []) next_record [late_record] = [late_record, next_record]"
    by (simp add: merged_commands_def ids)
  then have "\<exists>payload. merge_record (\<lambda>_. []) ''s'' next_record one_journal = Some payload"
    by (simp add: merge_record_def Let_def journal_set_default old seq)
  then obtain payload where p: "merge_record (\<lambda>_. []) ''s'' next_record one_journal = Some payload" by blast
  have "protected_record late_record" by (simp add: protected_record_def late_record_def get_def)
  with journal_merge_keeps_unsettled [OF p] show ?thesis using p by (auto simp: old ids)
qed

section \<open>Acknowledging\<close>

lemma all_some_Some: "all_some xs = Some ys \<longleftrightarrow> xs = map Some ys"
  by (induction xs arbitrary: ys) (auto split: option.splits)

lemma late_state_Some: "late_state v = Some True \<longleftrightarrow> (\<exists>s \<in> set late_states. v = JStr s)"
  by (cases v) (auto simp: late_state_def)

text \<open>
  C26. An acknowledgement through the journal marks as reconciled exactly the records of the named command
  that ended after their timeout and whose document was preserved in a recovery copy; every other record,
  and every other field, stays as it is, and an unknown command is refused.
\<close>

theorem acknowledgement_exact:
  assumes "ack_payload True now cid payload = Some payload'"
  shows "\<exists>vs vs'. get payload ''commands'' = JList vs \<and> get payload' ''commands'' = JList vs' \<and> length vs' = length vs
    \<and> (\<exists>item. JObj item \<in> set vs \<and> item_id item = JStr cid)
    \<and> (\<forall>i < length vs.
        if \<exists>item. vs ! i = JObj item \<and> item_id item = JStr cid \<and> (\<exists>s \<in> set late_states. get item ''state'' = JStr s) \<and> preserved_recovery item
        then get (as_obj (vs' ! i)) ''reconciled'' = JBool True
          \<and> (\<forall>k. k \<noteq> ''reconciled'' \<and> k \<noteq> ''reconciled_at'' \<longrightarrow> get (as_obj (vs' ! i)) k = get (as_obj (vs ! i)) k)
        else vs' ! i = vs ! i)
    \<and> (\<forall>k. k \<noteq> ''commands'' \<longrightarrow> get payload' k = get payload k)"
proof -
  define vs where "vs = (case get payload ''commands'' of JList vs \<Rightarrow> vs | _ \<Rightarrow> [])"
  from assms obtain vs' where a: "map (ack_item True now cid) vs = map Some vs'"
    "\<exists>v \<in> set vs. is_dict v \<and> get (as_obj v) ''command_id'' = JStr cid" "payload' = put ''commands'' (JList vs') payload"
    unfolding ack_payload_def Let_def vs_def [symmetric]
    by (auto simp: all_some_Some split: option.split_asm if_split_asm)
  from a(2) have list: "get payload ''commands'' = JList vs" unfolding vs_def by (cases "get payload ''commands''") auto
  have len: "length vs' = length vs" using a(1) by (metis length_map)
  have item: "if \<exists>item. vs ! i = JObj item \<and> item_id item = JStr cid \<and> (\<exists>s \<in> set late_states. get item ''state'' = JStr s) \<and> preserved_recovery item
        then get (as_obj (vs' ! i)) ''reconciled'' = JBool True
          \<and> (\<forall>k. k \<noteq> ''reconciled'' \<and> k \<noteq> ''reconciled_at'' \<longrightarrow> get (as_obj (vs' ! i)) k = get (as_obj (vs ! i)) k)
        else vs' ! i = vs ! i" if "i < length vs" for i
  proof -
    have "map (ack_item True now cid) vs ! i = map Some vs' ! i" using a(1) by simp
    then have ack: "ack_item True now cid (vs ! i) = Some (vs' ! i)" using that len by simp
    show ?thesis
    proof (cases "\<exists>item. vs ! i = JObj item \<and> item_id item = JStr cid \<and> (\<exists>s \<in> set late_states. get item ''state'' = JStr s) \<and> preserved_recovery item")
      case True
      then obtain item where it: "vs ! i = JObj item" "item_id item = JStr cid" "late_state (get item ''state'') = Some True" "preserved_recovery item"
        by (auto simp: late_state_Some)
      then have "vs' ! i = JObj (put ''reconciled_at'' (JStr now) (put ''reconciled'' (JBool True) item))"
        using ack by (simp add: ack_item_def)
      then show ?thesis using True it(1) by (simp add: as_obj_def)
    next
      case False
      have "vs' ! i = vs ! i"
      proof (cases "vs ! i")
        case (JObj item)
        show ?thesis
        proof (cases "item_id item = JStr cid")
          case True
          with ack JObj obtain late where late: "late_state (get item ''state'') = Some late"
            by (auto simp: ack_item_def split: option.split_asm)
          from False JObj True have "late_state (get item ''state'') = Some True \<Longrightarrow> \<not> preserved_recovery item" by (auto simp: late_state_Some)
          with ack JObj True late show ?thesis by (simp add: ack_item_def split: if_split_asm)
        qed (use ack JObj in \<open>simp add: ack_item_def\<close>)
      qed (use ack in \<open>simp_all add: ack_item_def\<close>)
      with False show ?thesis by argo
    qed
  qed
  from a(2) obtain v where v: "v \<in> set vs" "is_dict v" "get (as_obj v) ''command_id'' = JStr cid" by blast
  from v(2) obtain item where "v = JObj item" by (cases v) (simp_all add: is_dict_def)
  with v have "\<exists>item. JObj item \<in> set vs \<and> item_id item = JStr cid" by (auto simp: as_obj_def)
  then show ?thesis using list len item unfolding a(3) by (intro exI [of _ vs] exI [of _ vs']) simp
qed

theorem acknowledgement_exact_witness:
  "\<exists>payload. ack_payload True ''now'' ''c1'' one_journal = Some payload \<and> get payload ''commands'' = JList [JObj late_record]"
proof -
  have late: "late_state (get late_record ''state'') = Some False" "item_id late_record = JStr ''c1''"
    by (simp_all add: late_record_def get_def late_state_def late_states_def)
  have ack: "ack_payload True ''now'' ''c1'' one_journal = Some (put ''commands'' (JList [JObj late_record]) one_journal)"
    unfolding ack_payload_def Let_def
    using late by (simp add: one_journal_def get_def [of _ "''commands''"] ack_item_def is_dict_def as_obj_def)
  have old: "get one_journal ''commands'' = JList [JObj late_record]" by (simp add: one_journal_def get_def)
  have not_late: "\<not> (\<exists>s \<in> set late_states. get late_record ''state'' = JStr s)" using late(1) by (auto simp: late_state_def)
  from acknowledgement_exact [OF ack] obtain vs vs' where vs: "get one_journal ''commands'' = JList vs"
    "get (put ''commands'' (JList [JObj late_record]) one_journal) ''commands'' = JList vs'" "length vs' = length vs"
    "\<forall>i < length vs.
        if \<exists>item. vs ! i = JObj item \<and> item_id item = JStr ''c1'' \<and> (\<exists>s \<in> set late_states. get item ''state'' = JStr s) \<and> preserved_recovery item
        then get (as_obj (vs' ! i)) ''reconciled'' = JBool True
          \<and> (\<forall>k. k \<noteq> ''reconciled'' \<and> k \<noteq> ''reconciled_at'' \<longrightarrow> get (as_obj (vs' ! i)) k = get (as_obj (vs ! i)) k)
        else vs' ! i = vs ! i" by (elim exE conjE) (rule that; assumption)
  from vs(1) old have "vs = [JObj late_record]" by simp
  with vs(3,4) not_late have "vs' = [JObj late_record]" by (cases vs') auto
  with ack vs(2) show ?thesis by simp
qed

end
