(* ===== verification/LiveSession.thy ===== *)
theory LiveSession
  imports CommandJournal
begin

text \<open>
  The live session of app/local_cli_runtime.py (class \<open>LocalCliLiveSession\<close>): commands enter from any
  thread, one owning thread runs them on the native document, callers may time out, a timed-out command is
  reconciled later, and a session whose native outcome is unknown is held. This theory has the state and
  what each locked section does to it; \<open>SessionSteps\<close> has who runs when.

  A command is a cell of the heap, because the dictionary, the queue and the callers share it. Time stamps,
  messages, diagnostics, artifact lists and the raw file of the journal are left out; a journal write is an
  action that succeeds or raises. The shim for sessions built without their constructor is left out too:
  the fields of \<open>__init__\<close> are always there.
\<close>

section \<open>State\<close>

datatype command_state =
    Queued | Running | TimedOutPending | Succeeded | Failed | CompletedLate | FailedLate | Cancelled

datatype recovery = NoData | RecoveryNone | PendingExecution | Quarantined | Saving | RecoveryFailed | Preserved

datatype session_error =
    SessionClosed
  | SessionClosing
  | HeldOutcome
  | TimedOutError
  | TerminalizedError
  | StoppedError
  | CloseHeld
  | CloseNeedsSave
  | CloseQuarantined
  | CloseIncomplete
  | StartupFailed
  | CleanupFailed
  | JournalFailed
  | RecoveryError
  | SignalError

datatype future = FPending | FResult json | FError session_error

record live_command =
  lc_id :: string
  lc_name :: string
  lc_state :: command_state
  lc_result :: "json option"
  lc_error :: "session_error option"
  lc_reports :: bool
  lc_timed_out :: bool
  lc_sequence :: nat
  lc_reconciled :: bool
  lc_ok :: "bool option"
  lc_may :: bool
  lc_delta :: "bool option"
  lc_steps :: nat
  lc_failed :: nat
  lc_recovery :: recovery
  lc_recovery_for :: "string option"
  lc_held :: bool
  lc_close_refused :: bool
  lc_completed :: bool
  lc_future :: future

definition new_command :: "string \<Rightarrow> string \<Rightarrow> nat \<Rightarrow> live_command" where
  "new_command cid name n =
    \<lparr>lc_id = cid, lc_name = name, lc_state = Queued, lc_result = None, lc_error = None, lc_reports = False,
     lc_timed_out = False, lc_sequence = n, lc_reconciled = False, lc_ok = None, lc_may = False, lc_delta = None,
     lc_steps = 0, lc_failed = 0, lc_recovery = NoData, lc_recovery_for = None, lc_held = False,
     lc_close_refused = False, lc_completed = False, lc_future = FPending\<rparr>"

text \<open>Where the owning thread is.\<close>

datatype owner =
    OStarting
  | OReady
  | OIdle
  | OTaken nat
  | OCloseRead nat bool
  | ORefused nat
  | ORecovered nat future
  | OStarted nat
  | OHandler nat bool
  | OReturned nat bool
  | OSettling nat
  | OException nat
  | OSignal nat
  | OFinally nat bool
  | OFinalizing
  | OTeardown
  | OChecked bool bool
  | OQuit
  | OReport bool
  | OHeldLoop
  | OHeldWait
  | ODone

text \<open>
  \<open>ss_started\<close>, \<open>ss_quits\<close>, \<open>ss_written\<close> and \<open>ss_copies\<close> record what happened: handlers run, native exits
  with what was known when each was decided, journal writes a decision waits for, and recovery copies
  saved. \<open>ss_waiting\<close>, \<open>ss_acking\<close> and \<open>ss_putting\<close> are callers in the middle of their call.
\<close>

record session =
  ss_sid :: string
  ss_heap :: "live_command list"
  ss_by_id :: "(string \<times> nat) list"
  ss_queue :: "nat list"
  ss_last :: "string option"
  ss_counter :: nat
  ss_closing :: bool
  ss_closed :: bool
  ss_quarantined :: bool
  ss_allow :: bool
  ss_held :: bool
  ss_edit_possible :: bool
  ss_requires_save :: bool
  ss_terminal :: "session_error option"
  ss_active :: "nat option"
  ss_intent :: bool
  ss_has_handle :: bool
  ss_mutations :: nat
  ss_verified :: "(nat \<times> nat) option"
  ss_epoch :: "string option"
  ss_native :: bool
  ss_constructed :: bool
  ss_target :: "(string \<times> nat) option"
  ss_start :: future
  ss_starting :: bool
  ss_owner :: owner
  ss_waiting :: "nat set"
  ss_acking :: "nat list"
  ss_putting :: "nat list"
  ss_started :: "nat list"
  ss_quits :: "(bool \<times> bool \<times> bool) list"
  ss_written :: "(nat \<times> live_command) list"
  ss_copies :: nat

definition new_session :: "string \<Rightarrow> session" where
  "new_session sid =
    \<lparr>ss_sid = sid, ss_heap = [], ss_by_id = [], ss_queue = [], ss_last = None, ss_counter = 0, ss_closing = False,
     ss_closed = False, ss_quarantined = False, ss_allow = False, ss_held = False, ss_edit_possible = False,
     ss_requires_save = False, ss_terminal = None, ss_active = None, ss_intent = False, ss_has_handle = False,
     ss_mutations = 0, ss_verified = None, ss_epoch = None, ss_native = False, ss_constructed = False,
     ss_target = None, ss_start = FPending, ss_starting = True, ss_owner = OStarting, ss_waiting = {},
     ss_acking = [], ss_putting = [], ss_started = [], ss_quits = [], ss_written = [], ss_copies = 0\<rparr>"

abbreviation cmd :: "session \<Rightarrow> nat \<Rightarrow> live_command" where
  "cmd s r \<equiv> ss_heap s ! r"

definition upd :: "nat \<Rightarrow> (live_command \<Rightarrow> live_command) \<Rightarrow> session \<Rightarrow> session" where
  "upd r f s = s\<lparr>ss_heap := (ss_heap s)[r := f (ss_heap s ! r)]\<rparr>"

text \<open>\<open>d[key] = value\<close> on the dictionary of commands.\<close>

fun dict_put :: "'k \<Rightarrow> 'v \<Rightarrow> ('k \<times> 'v) list \<Rightarrow> ('k \<times> 'v) list" where
  "dict_put k v [] = [(k, v)]"
| "dict_put k v ((a, w) # d) = (if a = k then (a, v) # d else (a, w) # dict_put k v d)"

definition command_of :: "session \<Rightarrow> string \<Rightarrow> nat option" where
  "command_of s cid = map_of (ss_by_id s) cid"

definition close_id :: "session \<Rightarrow> string" where
  "close_id s = ss_sid s @ '':close''"

definition start_id :: "session \<Rightarrow> string" where
  "start_id s = ss_sid s @ '':start''"

definition command_id :: "session \<Rightarrow> nat \<Rightarrow> string" where
  "command_id s n = ss_sid s @ '':command-'' @ nat_digits n"

definition close_name :: string where "close_name = ''__close__''"
definition recover_name :: string where "recover_name = ''__recover__''"

text \<open>A new cell, known by its identity in the dictionary.\<close>

definition register :: "live_command \<Rightarrow> session \<Rightarrow> session" where
  "register c s = s\<lparr>ss_heap := ss_heap s @ [c], ss_by_id := dict_put (lc_id c) (length (ss_heap s)) (ss_by_id s),
     ss_last := Some (lc_id c)\<rparr>"

definition write_record :: "nat \<Rightarrow> session \<Rightarrow> session" where
  "write_record r s = s\<lparr>ss_written := ss_written s @ [(r, cmd s r)]\<rparr>"

definition late :: "command_state \<Rightarrow> bool" where
  "late st \<longleftrightarrow> st = CompletedLate \<or> st = FailedLate"

section \<open>Outcomes and custody\<close>

definition ensure_data :: "live_command \<Rightarrow> live_command" where
  "ensure_data c = c\<lparr>lc_recovery := if lc_recovery c = NoData then RecoveryNone else lc_recovery c\<rparr>"

definition error_label :: "session_error \<Rightarrow> string" where
  "error_label e = (case e of HeldOutcome \<Rightarrow> ''LocalCliNativeCustodyHeldError'' | TimedOutError \<Rightarrow> ''UNKNOWN''
     | SignalError \<Rightarrow> ''KeyboardInterrupt'' | _ \<Rightarrow> ''LocalCliRuntimeError'')"

definition apply_outcome :: "json option \<Rightarrow> session_error option \<Rightarrow> live_command \<Rightarrow> live_command" where
  "apply_outcome result err c =
    (let n = normalize_command_outcome (lc_name c) (case result of None \<Rightarrow> JNull | Some v \<Rightarrow> v) (map_option error_label err) in
     ensure_data (c\<lparr>lc_ok := nm_ok n, lc_may := nm_may n, lc_delta := nm_delta n, lc_steps := nm_steps n, lc_failed := nm_failed n\<rparr>))"

definition hold_command :: "bool \<Rightarrow> live_command \<Rightarrow> live_command" where
  "hold_command may c =
    c\<lparr>lc_reports := lc_reports c \<and> lc_error c = Some HeldOutcome, lc_error := Some HeldOutcome, lc_held := True,
      lc_may := lc_may c \<or> may, lc_recovery := Quarantined\<rparr>"

definition hold_native_custody :: "nat \<Rightarrow> bool \<Rightarrow> session \<Rightarrow> session" where
  "hold_native_custody r may s =
    (upd r (hold_command may) s)\<lparr>ss_held := True, ss_quarantined := True, ss_allow := False,
      ss_terminal := (case ss_terminal s of None \<Rightarrow> Some HeldOutcome | Some e \<Rightarrow> Some e)\<rparr>"

definition step_unedited :: "json \<Rightarrow> bool" where
  "step_unedited v = (case v of JObj st \<Rightarrow> get st ''ok'' = JBool True \<or> as_text (get st ''refusal_code'') \<noteq> None | _ \<Rightarrow> False)"

definition may_have_edited :: "live_command \<Rightarrow> bool \<Rightarrow> bool" where
  "may_have_edited c intent =
    (if intent then True
     else if lc_name c = ''numbering-readback'' then False
     else if lc_name c \<noteq> ''command-bundle'' then True
     else (case lc_result c of
         Some (JObj kvs) \<Rightarrow>
           if get kvs ''dirty'' \<noteq> JBool False then True
           else (case get kvs ''steps'' of JList vs \<Rightarrow> \<not> list_all step_unedited vs | _ \<Rightarrow> True)
       | _ \<Rightarrow> True))"

definition active_name :: "session \<Rightarrow> string option" where
  "active_name s = map_option (\<lambda>r. lc_name (cmd s r)) (ss_active s)"

definition mark_mutating_intent :: "session \<Rightarrow> session" where
  "mark_mutating_intent s =
    s\<lparr>ss_edit_possible := True,
      ss_requires_save := ss_requires_save s \<or> active_name s \<noteq> Some ''save'',
      ss_mutations := (if active_name s \<noteq> Some ''save'' \<and> active_name s \<noteq> Some ''export'' then ss_mutations s + 1 else ss_mutations s),
      ss_intent := ss_intent s \<or> ss_has_handle s\<rparr>"

text \<open>The record of a held command that ended, and the answer to its caller.\<close>

definition settle_command :: "bool \<Rightarrow> live_command \<Rightarrow> live_command" where
  "settle_command journal_ok c =
    c\<lparr>lc_reports := (lc_error c = Some HeldOutcome \<and> lc_reports c) \<or> \<not> journal_ok, lc_error := Some HeldOutcome,
      lc_ok := Some False, lc_state := if lc_timed_out c then FailedLate else Failed\<rparr>"

definition answer :: "future \<Rightarrow> live_command \<Rightarrow> live_command" where
  "answer f c = (if lc_future c = FPending then c\<lparr>lc_future := f\<rparr> else c)"

definition settle_held_command :: "nat \<Rightarrow> json option \<Rightarrow> bool \<Rightarrow> bool \<Rightarrow> session \<Rightarrow> session" where
  "settle_held_command r result escaped journal_ok s =
    (let s1 = upd r (settle_command journal_ok) s;
         s2 = (if journal_ok then write_record r s1 else s1)
     in upd r (\<lambda>c. answer (if escaped \<or> lc_reports c then FError HeldOutcome
          else FResult (case result of None \<Rightarrow> JNull | Some v \<Rightarrow> v)) c) s2)"

section \<open>The private copies of the saved file\<close>

text \<open>\<open>_HwpxProofCustody\<close>: \<open>None\<close> where \<open>_require\<close> raises.\<close>

definition require_custody :: "session \<Rightarrow> nat option" where
  "require_custody s =
    (case ss_active s of
       None \<Rightarrow> None
     | Some r \<Rightarrow> if ss_held s \<or> lc_held (cmd s r) \<or> lc_timed_out (cmd s r) \<or> ss_terminal s \<noteq> None then None else Some r)"

definition private_copy :: "session \<Rightarrow> session option" where
  "private_copy s = map_option (\<lambda>r. s\<lparr>ss_epoch := Some (lc_id (cmd s r))\<rparr>) (require_custody s)"

definition record_package :: "string \<Rightarrow> session \<Rightarrow> session option" where
  "record_package epoch_command s =
    (case require_custody s of
       None \<Rightarrow> None
     | Some r \<Rightarrow> if epoch_command \<noteq> lc_id (cmd s r) then None
                else Some (s\<lparr>ss_verified := Some (ss_mutations s, lc_sequence (cmd s r))\<rparr>))"

definition current_package :: "session \<Rightarrow> (nat \<times> nat) option" where
  "current_package s =
    (case ss_verified s of None \<Rightarrow> None | Some (m, n) \<Rightarrow> if m = ss_mutations s then Some (m, n) else None)"

end
