(* ===== verification/SessionSteps.thy ===== *)
theory SessionSteps
  imports LiveSession
begin

text \<open>
  The calls on a live session, each locked section as one function (\<open>execute\<close>, \<open>close\<close>,
  \<open>_terminalize_timeout\<close>, \<open>_cancel_pending_commands\<close>, \<open>reconcile_command\<close>,
  \<open>acknowledge_reconciliation\<close>, \<open>_prune_in_memory_commands\<close>, \<open>_finalize\<close>), and the step relation of the
  owning thread (\<open>_run\<close>) and its callers. Between two steps any thread may move; native results, journal
  failures and time-outs are free.
\<close>

section \<open>Admission\<close>

text \<open>The call's reply beside the new state: an error, or the command whose future it waits for.\<close>

definition execute :: "string \<Rightarrow> bool \<Rightarrow> bool \<Rightarrow> session \<Rightarrow> session \<times> (session_error + nat)" where
  "execute name prior_dirty journal_ok s =
    (if ss_closed s then (s, Inl SessionClosed)
     else if ss_closing s then (s, Inl SessionClosing)
     else case ss_terminal s of
       Some e \<Rightarrow> (s, Inl e)
     | None \<Rightarrow>
       let s1 = s\<lparr>ss_requires_save := ss_requires_save s \<or> prior_dirty, ss_counter := ss_counter s + 1\<rparr>;
           r = length (ss_heap s1);
           s2 = register (new_command (command_id s1 (ss_counter s1)) name (ss_counter s1)) s1
       in if \<not> journal_ok then (s2, Inl JournalFailed)
          else let s3 = write_record r s2
               in (s3\<lparr>ss_queue := ss_queue s3 @ [r], ss_waiting := insert r (ss_waiting s3)\<rparr>, Inr r))"

datatype close_reply = AlreadyClosed | CloseRefused session_error | AwaitsClosed | AwaitsCommand nat

definition close_session :: "bool \<Rightarrow> bool \<Rightarrow> session \<Rightarrow> session \<times> close_reply" where
  "close_session prior_dirty journal_ok s =
    (if ss_closed s then (s, AlreadyClosed)
     else
       let s1 = s\<lparr>ss_requires_save := ss_requires_save s \<or> prior_dirty\<rparr> in
       if ss_held s1 \<and> \<not> ss_allow s1 then (s1, CloseRefused CloseHeld)
       else if ss_quarantined s1 \<and> \<not> ss_allow s1 then (s1, CloseRefused CloseQuarantined)
       else if ss_closing s1 then (s1, if ss_terminal s1 \<noteq> None then AwaitsClosed else CloseRefused SessionClosing)
       else
         let s2 = s1\<lparr>ss_closing := True, ss_counter := ss_counter s1 + 1\<rparr>;
             r = length (ss_heap s2);
             s3 = register (new_command (close_id s2) close_name (ss_counter s2)) s2
         in if \<not> journal_ok then (s3, CloseRefused JournalFailed)
            else let s4 = write_record r s3
                 in (s4\<lparr>ss_queue := ss_queue s4 @ [r], ss_waiting := insert r (ss_waiting s4)\<rparr>, AwaitsCommand r))"

section \<open>Time-outs\<close>

definition cancel_command :: "live_command \<Rightarrow> live_command" where
  "cancel_command c =
    (if lc_future c \<noteq> FPending then c\<lparr>lc_state := if lc_state c = Queued then Cancelled else lc_state c, lc_completed := True\<rparr>
     else if lc_timed_out c then c\<lparr>lc_completed := True\<rparr>
     else c\<lparr>lc_state := Cancelled, lc_future := FError TerminalizedError, lc_completed := True\<rparr>)"

definition cancel_pending_commands :: "session \<Rightarrow> session" where
  "cancel_pending_commands s = (fold (\<lambda>r. upd r cancel_command) (ss_queue s) s)\<lparr>ss_queue := []\<rparr>"

definition settled_state :: "command_state \<Rightarrow> bool" where
  "settled_state st \<longleftrightarrow> st \<in> {Succeeded, CompletedLate, Failed, FailedLate}"

definition time_out_command :: "live_command \<Rightarrow> live_command" where
  "time_out_command c =
    (let preserved = settled_state (lc_state c);
         st = (case lc_state c of Succeeded \<Rightarrow> CompletedLate | CompletedLate \<Rightarrow> CompletedLate | Failed \<Rightarrow> FailedLate
               | FailedLate \<Rightarrow> FailedLate | _ \<Rightarrow> TimedOutPending);
         c1 = apply_outcome (lc_result c) (lc_error c) (c\<lparr>lc_timed_out := True, lc_state := st\<rparr>);
         c2 = c1\<lparr>lc_recovery := if preserved then Quarantined else PendingExecution\<rparr>
     in if preserved then c2 else answer (FError TimedOutError) c2)"

definition quarantine :: "session \<Rightarrow> session" where
  "quarantine s = s\<lparr>ss_quarantined := True, ss_allow := False, ss_terminal := Some TimedOutError, ss_closing := False\<rparr>"

definition terminalize_timeout :: "nat \<Rightarrow> session \<Rightarrow> session" where
  "terminalize_timeout r s =
    (if ss_terminal s \<noteq> None then s
     else cancel_pending_commands (quarantine (upd r time_out_command s)))"

text \<open>A start that times out has no command yet; one is made for it.\<close>

definition start_command :: "session \<Rightarrow> live_command" where
  "start_command s =
    (let c = (new_command (start_id s) ''start'' (ss_counter s + 1))\<lparr>lc_state := TimedOutPending, lc_timed_out := True\<rparr>
     in (apply_outcome None (Some StoppedError) c)\<lparr>lc_recovery := PendingExecution\<rparr>)"

definition terminalize_start :: "session \<Rightarrow> session" where
  "terminalize_start s =
    (if ss_terminal s \<noteq> None then s
     else let s1 = register (start_command s) (s\<lparr>ss_counter := ss_counter s + 1\<rparr>)
          in cancel_pending_commands (quarantine s1))"

section \<open>Reconciliation\<close>

definition unsettled_command :: "live_command \<Rightarrow> bool" where
  "unsettled_command c \<longleftrightarrow> lc_state c = TimedOutPending \<or> (lc_timed_out c \<and> \<not> lc_reconciled c) \<or> lc_held c"

text \<open>Cells keep their handlers' results; the dictionary forgets all but the newest settled ones.\<close>

definition prune_in_memory_commands :: "session \<Rightarrow> session" where
  "prune_in_memory_commands s =
    (let settled = filter (\<lambda>(cid, r). \<not> unsettled_command (cmd s r)) (ss_by_id s);
         recent = map fst (drop (length settled - max_history) settled)
     in s\<lparr>ss_by_id := filter (\<lambda>(cid, r). unsettled_command (cmd s r) \<or> cid \<in> set recent) (ss_by_id s)\<rparr>)"

definition has_unreconciled :: "session \<Rightarrow> bool" where
  "has_unreconciled s \<longleftrightarrow> ss_held s
    \<or> list_ex (\<lambda>(cid, r). lc_timed_out (cmd s r) \<and> (lc_state (cmd s r) = TimedOutPending \<or> late (lc_state (cmd s r)))
        \<and> \<not> lc_reconciled (cmd s r)) (ss_by_id s)"

definition latest_command_sequence :: "session \<Rightarrow> nat" where
  "latest_command_sequence s =
    foldr max (map (\<lambda>(cid, r). lc_sequence (cmd s r)) (filter (\<lambda>(cid, r). \<not> lc_close_refused (cmd s r)) (ss_by_id s))) 0"

definition thread_alive :: "session \<Rightarrow> bool" where
  "thread_alive s \<longleftrightarrow> ss_owner s \<noteq> ODone"

definition recover_command :: "session \<Rightarrow> string \<Rightarrow> live_command" where
  "recover_command s cid = (new_command (ss_sid s @ '':recovery-'' @ cid) recover_name 0)\<lparr>lc_recovery_for := Some cid\<rparr>"

text \<open>The locked part of \<open>reconcile_command\<close>; the recovery item it makes is put into the queue afterwards.\<close>

definition reconcile_command :: "string \<Rightarrow> bool \<Rightarrow> session \<Rightarrow> session" where
  "reconcile_command cid journal_ok s =
    (case command_of s cid of
       None \<Rightarrow> s
     | Some r \<Rightarrow>
       let c = cmd s r in
       if lc_reconciled c \<or> ss_held s \<or> \<not> late (lc_state c) then s
       else
         let s1 = upd r ensure_data s in
         if lc_recovery c = Preserved \<or> map_option fst (ss_target s) = Some cid then s1
         else if \<not> ss_native s \<or> \<not> thread_alive s then upd r (\<lambda>c. c\<lparr>lc_recovery := RecoveryFailed\<rparr>) s1
         else
           let s2 = upd r (\<lambda>c. c\<lparr>lc_recovery := Saving\<rparr>) s1 in
           if \<not> journal_ok then s2
           else s2\<lparr>ss_target := Some (cid, length (ss_heap s2)), ss_putting := ss_putting s2 @ [length (ss_heap s2)],
                   ss_heap := ss_heap s2 @ [recover_command s2 cid]\<rparr>)"

text \<open>\<open>acknowledge_reconciliation\<close>: a locked check, the journal write, and a locked commit.\<close>

definition begin_acknowledgement :: "string \<Rightarrow> session \<Rightarrow> session" where
  "begin_acknowledgement cid s =
    (case command_of s cid of
       None \<Rightarrow> s
     | Some r \<Rightarrow>
       if ss_held s then s
       else
         let s1 = upd r ensure_data s in
         if lc_recovery (cmd s r) \<noteq> Preserved then s1
         else (upd r (\<lambda>c. c\<lparr>lc_reconciled := True\<rparr>) s1)\<lparr>ss_acking := r # ss_acking s\<rparr>)"

definition finish_acknowledgement :: "nat \<Rightarrow> bool \<Rightarrow> session \<Rightarrow> session" where
  "finish_acknowledgement r journal_ok s =
    (let s1 = s\<lparr>ss_acking := remove1 r (ss_acking s)\<rparr> in
     if journal_ok then prune_in_memory_commands (s1\<lparr>ss_allow := True\<rparr>)
     else upd r (\<lambda>c. c\<lparr>lc_reconciled := False\<rparr>) s1)"

section \<open>The owning thread\<close>

definition at_owner :: "owner \<Rightarrow> session \<Rightarrow> session" where
  "at_owner ph s = s\<lparr>ss_owner := ph\<rparr>"

definition audited_reads :: "string list" where
  "audited_reads = [''health_probe'', ''find'', ''info'', ''where'', ''screenshot'', ''command-bundle'', ''numbering-readback'']"

definition clean_exempt :: "string list" where
  "clean_exempt = [''export'', ''undo'', ''redo'', ''move'', ''select'', ''cell'', ''cellmove'', ''cursormove'']"

definition take_command :: "nat \<Rightarrow> session \<Rightarrow> session" where
  "take_command r s =
    (if lc_state (cmd s r) \<noteq> Queued \<or> ss_terminal s \<noteq> None then
       at_owner OIdle
        (if lc_state (cmd s r) = Queued
         then upd r (\<lambda>c. answer (FError TerminalizedError) (c\<lparr>lc_state := Cancelled, lc_error := Some TerminalizedError, lc_completed := True\<rparr>)) s
         else s)
     else at_owner (OStarted r)
       ((upd r (\<lambda>c. c\<lparr>lc_state := Running\<rparr>) s)\<lparr>ss_active := Some r, ss_intent := False, ss_started := ss_started s @ [r]\<rparr>))"

text \<open>\<open>clean\<close>: the read of IsModified before the handler said exactly False, for a command that is exempt then.\<close>

definition enter_handler :: "nat \<Rightarrow> bool \<Rightarrow> session \<Rightarrow> session" where
  "enter_handler r clean s =
    at_owner (OHandler r clean) (if lc_name (cmd s r) \<in> set audited_reads then s else mark_mutating_intent s)"

definition clean_possible :: "nat \<Rightarrow> session \<Rightarrow> bool" where
  "clean_possible r s \<longleftrightarrow> lc_name (cmd s r) \<in> set clean_exempt \<and> \<not> ss_requires_save s"

definition after_handler :: "nat \<Rightarrow> bool \<Rightarrow> session \<Rightarrow> session" where
  "after_handler r still_clean s =
    (let s1 = (if still_clean then s\<lparr>ss_requires_save := False\<rparr> else s);
         s2 = upd r (\<lambda>c. apply_outcome (lc_result c) None c) s1;
         c = cmd s2 r
     in at_owner (OSettling r)
          (if lc_name c \<in> set mutating_commands - {''command-bundle''} \<and> lc_ok c \<noteq> Some True \<and> \<not> lc_held c
           then hold_native_custody r True s2 else s2))"

definition end_state :: "live_command \<Rightarrow> live_command" where
  "end_state c =
    (let c1 = ensure_data c in
     c1\<lparr>lc_state := (if lc_timed_out c then (if lc_ok c \<noteq> Some True then FailedLate else CompletedLate)
                    else if lc_ok c \<noteq> Some True then Failed else Succeeded),
        lc_recovery := (if lc_timed_out c then Quarantined else lc_recovery c1)\<rparr>)"

definition proved_save :: "live_command \<Rightarrow> bool" where
  "proved_save c \<longleftrightarrow>
    (let kvs = (case lc_result c of Some v \<Rightarrow> as_obj v | None \<Rightarrow> []) in
     lc_name c = ''save'' \<and> lc_ok c = Some True
     \<and> (get kvs ''ordinary_save_confirmed'' = JBool True \<or> get kvs ''verified_public_save_confirmed'' = JBool True)
     \<and> (get kvs ''saved_preservation_required'' \<noteq> JBool True \<or> get kvs ''saved_preservation_proved'' = JBool True))"

definition settle_returned :: "nat \<Rightarrow> bool \<Rightarrow> session \<Rightarrow> session" where
  "settle_returned r journal_ok s =
    (let s1 = upd r end_state s; c = cmd s1 r in
     if lc_held c then at_owner (OFinally r False) (settle_held_command r (lc_result c) False journal_ok s1)
     else if \<not> journal_ok then at_owner (OException r) s1
     else if \<not> is_dict (case lc_result c of None \<Rightarrow> JNull | Some v \<Rightarrow> v) then at_owner (OException r) (write_record r s1)
     else
       let s2 = write_record r s1;
           s3 = (if proved_save c \<and> \<not> lc_timed_out c \<and> \<not> ss_quarantined s2 then s2\<lparr>ss_requires_save := False\<rparr> else s2)
       in at_owner (OFinally r False) (upd r (answer (FResult (case lc_result c of None \<Rightarrow> JNull | Some v \<Rightarrow> v))) s3))"

definition settle_exception :: "nat \<Rightarrow> bool \<Rightarrow> session \<Rightarrow> session" where
  "settle_exception r journal_ok s =
    (let s1 = (if lc_held (cmd s r) then s else hold_native_custody r (may_have_edited (cmd s r) (ss_intent s)) s)
     in at_owner (OFinally r False) (settle_held_command r None True journal_ok s1))"

definition settle_signal :: "nat \<Rightarrow> bool \<Rightarrow> session \<Rightarrow> session" where
  "settle_signal r journal_ok s =
    (if \<not> ss_edit_possible s \<and> \<not> lc_held (cmd s r) then
       at_owner (OFinally r True)
        (upd r (\<lambda>c. answer (FError SignalError) (c\<lparr>lc_error := Some SignalError, lc_state := Failed, lc_ok := Some False\<rparr>)) s)
     else at_owner (OFinally r False) (settle_held_command r None True journal_ok (hold_native_custody r True s)))"

text \<open>The outer handler of \<open>_run\<close>: the outcome of what was started is unknown.\<close>

definition run_fails :: "session \<Rightarrow> session" where
  "run_fails s =
    at_owner OFinalizing
     ((if ss_constructed s then s\<lparr>ss_held := True, ss_quarantined := True, ss_allow := False, ss_terminal := Some HeldOutcome\<rparr>
       else s\<lparr>ss_terminal := Some StartupFailed\<rparr>)
      \<lparr>ss_start := if ss_start s = FPending then FError (if ss_constructed s then HeldOutcome else StartupFailed) else ss_start s\<rparr>)"

text \<open>\<open>journal_ok\<close>: the last journal write of the command did not raise.\<close>

definition leave_command :: "nat \<Rightarrow> bool \<Rightarrow> bool \<Rightarrow> session \<Rightarrow> session" where
  "leave_command r propagates journal_ok s =
    (let s1 = upd r (\<lambda>c. c\<lparr>lc_completed := True\<rparr>) (s\<lparr>ss_active := None\<rparr>);
         s2 = (if journal_ok then write_record r s1
               else upd r (\<lambda>c. c\<lparr>lc_reports := lc_reports c \<or> lc_error c = Some HeldOutcome\<rparr>)
                 (if lc_held (cmd s1 r) then s1
                  else hold_native_custody r (may_have_edited (cmd s1 r) (ss_intent s1)) s1));
         s3 = prune_in_memory_commands s2
     in if propagates then run_fails s3 else at_owner OIdle s3)"

section \<open>Closing\<close>

text \<open>The answer to a close that was taken from the queue: refused here, or left to the finalizer.\<close>

definition close_refusal :: "bool \<Rightarrow> session \<Rightarrow> session_error option" where
  "close_refusal native_modified s =
    (if ss_held s \<and> \<not> ss_allow s then Some CloseHeld
     else if (ss_requires_save s \<or> native_modified) \<and> \<not> ss_allow s then Some CloseNeedsSave
     else None)"

text \<open>\<open>max(held_commands, key=sequence)\<close>: of equal numbers the first.\<close>

definition newest_held :: "session \<Rightarrow> string option" where
  "newest_held s =
    (case filter (\<lambda>(cid, r). lc_held (cmd s r)) (ss_by_id s) of
       [] \<Rightarrow> None
     | x # xs \<Rightarrow> Some (lc_id (cmd s (snd (foldl (\<lambda>a b. if lc_sequence (cmd s (snd a)) < lc_sequence (cmd s (snd b)) then b else a) x xs)))))"

definition refuse_close :: "nat \<Rightarrow> session_error \<Rightarrow> session \<Rightarrow> session" where
  "refuse_close r e s =
    (let s1 = upd r (\<lambda>c. (apply_outcome None (Some e) (c\<lparr>lc_error := Some e, lc_close_refused := lc_close_refused c \<or> e = CloseNeedsSave\<rparr>))
               \<lparr>lc_state := Failed\<rparr>) s
     in s1\<lparr>ss_closing := False, ss_last := (case newest_held s1 of None \<Rightarrow> ss_last s1 | Some cid \<Rightarrow> Some cid)\<rparr>)"

definition decide_close :: "nat \<Rightarrow> bool \<Rightarrow> session \<Rightarrow> session" where
  "decide_close r native_modified s =
    (case close_refusal native_modified s of
       Some e \<Rightarrow> at_owner (ORefused r) (refuse_close r e s)
     | None \<Rightarrow> at_owner OFinalizing (upd r (\<lambda>c. c\<lparr>lc_state := Running\<rparr>) s))"

definition answer_refused :: "nat \<Rightarrow> session \<Rightarrow> session" where
  "answer_refused r s =
    at_owner OIdle (upd r (\<lambda>c. answer (FError (case lc_error c of None \<Rightarrow> CloseIncomplete | Some e \<Rightarrow> e)) (c\<lparr>lc_completed := True\<rparr>)) s)"

section \<open>Finalizing\<close>

definition permitted :: "session \<Rightarrow> bool" where
  "permitted s \<longleftrightarrow> \<not> ss_quarantined s \<or> ss_allow s"

definition close_timed_out :: "session \<Rightarrow> bool" where
  "close_timed_out s = (case command_of s (close_id s) of None \<Rightarrow> False | Some r \<Rightarrow> lc_timed_out (cmd s r))"

definition healthy :: "session \<Rightarrow> bool" where
  "healthy s \<longleftrightarrow> \<not> ss_held s \<and> permitted s \<and> \<not> close_timed_out s"

definition hold_session :: "session_error \<Rightarrow> session \<Rightarrow> session" where
  "hold_session e s = s\<lparr>ss_held := True, ss_quarantined := True, ss_allow := False, ss_terminal := Some e\<rparr>"

text \<open>A teardown that raised: whatever it did, the native outcome is unknown.\<close>

definition hold_teardown :: "session \<Rightarrow> session" where
  "hold_teardown s =
    (case command_of s (close_id s) of
       Some r \<Rightarrow> hold_native_custody r True s
     | None \<Rightarrow> hold_session CleanupFailed s)"

definition close_result :: json where "close_result = JObj [(''ok'', JBool True)]"

definition finish_close :: "bool \<Rightarrow> session_error option \<Rightarrow> live_command \<Rightarrow> live_command" where
  "finish_close exited terminal c =
    (if exited then (apply_outcome (Some close_result) None (c\<lparr>lc_result := Some close_result\<rparr>))
       \<lparr>lc_state := (if lc_timed_out c then CompletedLate else Succeeded), lc_completed := True\<rparr>
     else c\<lparr>lc_error := (case (lc_error c, terminal) of (Some e, _) \<Rightarrow> Some e | (None, Some e) \<Rightarrow> Some e | _ \<Rightarrow> Some CloseIncomplete),
       lc_ok := Some False, lc_state := (if lc_timed_out c then FailedLate else Failed), lc_completed := True\<rparr>)"

definition stop_command :: "session_error option \<Rightarrow> live_command \<Rightarrow> live_command" where
  "stop_command terminal c =
    answer (FError (case terminal of None \<Rightarrow> StoppedError | Some e \<Rightarrow> e))
      (c\<lparr>lc_state := (if lc_timed_out c \<and> lc_state c = TimedOutPending then FailedLate else lc_state c), lc_completed := True\<rparr>)"

text \<open>\<open>reports_ok\<close>: no report of the finalizer raised.\<close>

definition report_end :: "bool \<Rightarrow> bool \<Rightarrow> session \<Rightarrow> session" where
  "report_end exited reports_ok s =
    (let close = command_of s (close_id s);
         s1 = s\<lparr>ss_closed := ss_closed s \<or> exited\<rparr>;
         s2 = (case close of None \<Rightarrow> s1 | Some r \<Rightarrow> upd r (finish_close exited (ss_terminal s1)) s1);
         s3 = (if exited then fold (\<lambda>r. upd r (stop_command (ss_terminal s2))) (filter (\<lambda>r. Some r \<noteq> close) (map snd (ss_by_id s2))) s2
               else s2);
         s4 = cancel_pending_commands s3;
         s5 = (case close of None \<Rightarrow> s4
               | Some r \<Rightarrow> upd r (\<lambda>c. answer (if exited \<and> reports_ok then FResult close_result
                   else FError (case lc_error c of None \<Rightarrow> CloseIncomplete | Some e \<Rightarrow> e)) c) s4)
     in at_owner OHeldLoop s5)"

section \<open>The step relation\<close>

text \<open>
  Calls of other threads: a command or a close is admitted, a waiting caller gets its answer or times
  out, a start times out, a reconciliation or an acknowledgement runs one of its locked parts.
\<close>

inductive caller_step :: "session \<Rightarrow> session \<Rightarrow> bool" where
  call_execute: "name \<noteq> close_name \<Longrightarrow> name \<noteq> recover_name \<Longrightarrow> execute name dirty ok s = (s', reply) \<Longrightarrow> caller_step s s'"
| call_close: "close_session dirty ok s = (s', reply) \<Longrightarrow> caller_step s s'"
| caller_returns: "r \<in> ss_waiting s \<Longrightarrow> lc_future (cmd s r) \<noteq> FPending
    \<Longrightarrow> caller_step s (s\<lparr>ss_waiting := ss_waiting s - {r}\<rparr>)"
| caller_times_out: "r \<in> ss_waiting s
    \<Longrightarrow> caller_step s (terminalize_timeout r (s\<lparr>ss_waiting := ss_waiting s - {r}\<rparr>))"
| start_returns: "ss_starting s \<Longrightarrow> ss_start s \<noteq> FPending \<Longrightarrow> caller_step s (s\<lparr>ss_starting := False\<rparr>)"
| start_times_out: "ss_starting s \<Longrightarrow> caller_step s (terminalize_start (s\<lparr>ss_starting := False\<rparr>))"
| call_reconcile: "caller_step s (reconcile_command cid ok s)"
| put_recovery: "r \<in> set (ss_putting s)
    \<Longrightarrow> caller_step s (s\<lparr>ss_putting := remove1 r (ss_putting s), ss_queue := ss_queue s @ [r]\<rparr>)"
| call_acknowledge: "caller_step s (begin_acknowledgement cid s)"
| acknowledged: "r \<in> set (ss_acking s) \<Longrightarrow> caller_step s (finish_acknowledgement r ok s)"

text \<open>The start of the owning thread.\<close>

inductive start_step :: "session \<Rightarrow> session \<Rightarrow> bool" where
  start_fails: "ss_owner s = OStarting \<Longrightarrow> start_step s (run_fails s)"
| invoke_constructor: "ss_owner s = OStarting \<Longrightarrow> \<not> ss_constructed s \<Longrightarrow> start_step s (s\<lparr>ss_constructed := True\<rparr>)"
| constructor_returns: "ss_owner s = OStarting \<Longrightarrow> ss_constructed s \<Longrightarrow> start_step s (s\<lparr>ss_native := True\<rparr>)"
| document_opened: "ss_owner s = OStarting \<Longrightarrow> ss_native s \<Longrightarrow> ss_terminal s = None \<and> \<not> ss_closing s
    \<Longrightarrow> start_step s (at_owner OReady (s\<lparr>ss_has_handle := True\<rparr>))"
| start_cancelled: "ss_owner s = OStarting \<Longrightarrow> ss_native s \<Longrightarrow> ss_terminal s \<noteq> None \<or> ss_closing s
    \<Longrightarrow> start_step s (at_owner (if ss_quarantined s then OReady else OFinalizing)
          (s\<lparr>ss_has_handle := True,
             ss_start := if ss_start s = FPending then FError (case ss_terminal s of None \<Rightarrow> SessionClosed | Some e \<Rightarrow> e) else ss_start s\<rparr>))"
| location_fails: "ss_owner s = OReady \<Longrightarrow> start_step s (run_fails s)"
| started_late: "ss_owner s = OReady \<Longrightarrow> command_of s (start_id s) = Some r \<Longrightarrow> lc_state (cmd s r) = TimedOutPending
    \<Longrightarrow> c = (apply_outcome (Some v) None ((cmd s r)\<lparr>lc_result := Some v\<rparr>))
          \<lparr>lc_state := CompletedLate, lc_recovery := Quarantined, lc_completed := True\<rparr>
    \<Longrightarrow> start_step s (at_owner OIdle ((upd r (\<lambda>_. answer (FResult v) c) s)
          \<lparr>ss_start := if ss_start s = FPending then FResult v else ss_start s\<rparr>))"
| started: "ss_owner s = OReady
    \<Longrightarrow> (case command_of s (start_id s) of None \<Rightarrow> True | Some r \<Rightarrow> lc_state (cmd s r) \<noteq> TimedOutPending)
    \<Longrightarrow> start_step s (at_owner OIdle (s\<lparr>ss_start := if ss_start s = FPending then FResult v else ss_start s\<rparr>))"

text \<open>
  One command on the owning thread. The handler may announce an edit, hold the session, take a private
  copy, return, raise, or be interrupted, any number of times before it ends.
\<close>

inductive command_step :: "session \<Rightarrow> session \<Rightarrow> bool" where
  take: "ss_owner s = OIdle \<Longrightarrow> ss_queue s = r # q \<Longrightarrow> command_step s (at_owner (OTaken r) (s\<lparr>ss_queue := q\<rparr>))"
| begin_command: "ss_owner s = OTaken r \<Longrightarrow> lc_name (cmd s r) \<noteq> close_name \<Longrightarrow> lc_name (cmd s r) \<noteq> recover_name
    \<Longrightarrow> command_step s (take_command r s)"
| enter: "ss_owner s = OStarted r \<Longrightarrow> (clean \<longrightarrow> clean_possible r s) \<Longrightarrow> command_step s (enter_handler r clean s)"
| handler_edits: "ss_owner s = OHandler r clean \<Longrightarrow> command_step s (mark_mutating_intent s)"
| handler_holds: "ss_owner s = OHandler r clean \<Longrightarrow> command_step s (hold_native_custody r may s)"
| handler_copies: "ss_owner s = OHandler r clean \<Longrightarrow> private_copy s = Some s' \<Longrightarrow> command_step s s'"
| handler_records: "ss_owner s = OHandler r clean \<Longrightarrow> record_package epoch s = Some s' \<Longrightarrow> command_step s s'"
| handler_returns: "ss_owner s = OHandler r clean
    \<Longrightarrow> command_step s (at_owner (OReturned r clean) (upd r (\<lambda>c. c\<lparr>lc_result := Some v\<rparr>) s))"
| outcome_read: "ss_owner s = OReturned r clean \<Longrightarrow> (still_clean \<longrightarrow> clean \<and> ss_epoch s \<noteq> Some (lc_id (cmd s r)))
    \<Longrightarrow> command_step s (after_handler r still_clean s)"
| settle: "ss_owner s = OSettling r \<Longrightarrow> command_step s (settle_returned r ok s)"
| raises: "ss_owner s = OStarted r \<or> ss_owner s = OSettling r \<or> (\<exists>clean. ss_owner s = OHandler r clean \<or> ss_owner s = OReturned r clean)
    \<Longrightarrow> command_step s (at_owner (OException r) s)"
| interrupted: "ss_owner s = OStarted r \<or> ss_owner s = OSettling r \<or> (\<exists>clean. ss_owner s = OHandler r clean \<or> ss_owner s = OReturned r clean)
    \<Longrightarrow> command_step s (at_owner (OSignal r) s)"
| exception_settled: "ss_owner s = OException r \<Longrightarrow> command_step s (settle_exception r ok s)"
| signal_settled: "ss_owner s = OSignal r \<Longrightarrow> command_step s (settle_signal r ok s)"
| left_command: "ss_owner s = OFinally r propagates \<Longrightarrow> command_step s (leave_command r propagates ok s)"

text \<open>Recovery copies, and the end of the session.\<close>

inductive recovery_step :: "session \<Rightarrow> session \<Rightarrow> bool" where
  recovered: "ss_owner s = OTaken r \<Longrightarrow> lc_name (cmd s r) = recover_name \<Longrightarrow> lc_recovery_for (cmd s r) = Some cid
    \<Longrightarrow> ss_native s \<Longrightarrow> command_of s cid = Some target
    \<Longrightarrow> recovery_step s (at_owner (ORecovered r (if ok then FResult (JBool True) else FError JournalFailed))
          ((upd target (\<lambda>c. c\<lparr>lc_recovery := Preserved\<rparr>) s)\<lparr>ss_copies := ss_copies s + 1\<rparr>))"
| not_recovered: "ss_owner s = OTaken r \<Longrightarrow> lc_name (cmd s r) = recover_name \<Longrightarrow> lc_recovery_for (cmd s r) = Some cid
    \<Longrightarrow> recovery_step s (at_owner (ORecovered r (FError RecoveryError))
          (case command_of s cid of None \<Rightarrow> s
           | Some target \<Rightarrow> upd target (\<lambda>c. if lc_recovery c = Preserved then c else c\<lparr>lc_recovery := RecoveryFailed\<rparr>) s))"
| recovery_answered: "ss_owner s = ORecovered r f
    \<Longrightarrow> recovery_step s (at_owner OIdle ((upd r (answer f) s)
          \<lparr>ss_target := if map_option snd (ss_target s) = Some r then None else ss_target s\<rparr>))"

inductive closing_step :: "session \<Rightarrow> session \<Rightarrow> bool" where
  read_modified: "ss_owner s = OTaken r \<Longrightarrow> lc_name (cmd s r) = close_name \<Longrightarrow> (m \<longrightarrow> \<not> ss_held s \<and> \<not> ss_allow s)
    \<Longrightarrow> closing_step s (at_owner (OCloseRead r m) s)"
| read_fails: "ss_owner s = OTaken r \<Longrightarrow> lc_name (cmd s r) = close_name \<Longrightarrow> \<not> ss_held s \<Longrightarrow> \<not> ss_allow s
    \<Longrightarrow> closing_step s (at_owner (OCloseRead r False) (hold_native_custody r False s))"
| close_decided: "ss_owner s = OCloseRead r m \<Longrightarrow> closing_step s (decide_close r m s)"
| close_refused: "ss_owner s = ORefused r \<Longrightarrow> closing_step s (answer_refused r s)"
| not_permitted: "ss_owner s = OFinalizing \<Longrightarrow> \<not> permitted s \<Longrightarrow> closing_step s (at_owner (OReport False) s)"
| watchdog_stays: "ss_owner s = OFinalizing \<Longrightarrow> permitted s
    \<Longrightarrow> closing_step s (at_owner (OReport False) (if ss_held s then s else hold_session CleanupFailed s))"
| teardown: "ss_owner s = OFinalizing \<Longrightarrow> permitted s \<Longrightarrow> closing_step s (at_owner OTeardown s)"
| nothing_native: "ss_owner s = OTeardown \<Longrightarrow> \<not> ss_native s \<Longrightarrow> \<not> ss_constructed s
    \<Longrightarrow> closing_step s (at_owner (OReport True) s)"
| checked: "ss_owner s = OTeardown \<Longrightarrow> ss_native s \<Longrightarrow> healthy s \<Longrightarrow> \<not> (ss_requires_save s \<and> \<not> ss_allow s)
    \<Longrightarrow> closing_step s (at_owner (OChecked (ss_requires_save s) (ss_allow s)) s)"
| quits: "ss_owner s = OChecked debt allowed \<Longrightarrow> healthy s
    \<Longrightarrow> closing_step s (at_owner OQuit (s\<lparr>ss_quits := ss_quits s @ [(debt, allowed, ss_held s)]\<rparr>))"
| exited: "ss_owner s = OQuit \<Longrightarrow> healthy s \<Longrightarrow> closing_step s (at_owner (OReport True) s)"
| teardown_raises: "ss_owner s = OTeardown \<or> (\<exists>debt allowed. ss_owner s = OChecked debt allowed) \<or> ss_owner s = OQuit
    \<Longrightarrow> closing_step s (at_owner (OReport False) (hold_teardown s))"
| reported: "ss_owner s = OReport b \<Longrightarrow> closing_step s (report_end b reports_ok s)"
| keeps_holding: "ss_owner s = OHeldLoop \<Longrightarrow> ss_held s \<Longrightarrow> \<not> ss_allow s \<Longrightarrow> closing_step s (at_owner OHeldWait s)"
| thread_ends: "ss_owner s = OHeldLoop \<Longrightarrow> \<not> (ss_held s \<and> \<not> ss_allow s) \<Longrightarrow> closing_step s (at_owner ODone s)"
| refuses_pending: "ss_owner s = OHeldWait \<Longrightarrow> ss_queue s = r # q
    \<Longrightarrow> closing_step s (at_owner OHeldLoop (upd r (answer (FError CloseHeld)) (s\<lparr>ss_queue := q\<rparr>)))"

inductive session_step :: "session \<Rightarrow> session \<Rightarrow> bool" where
  by_caller: "caller_step s s' \<Longrightarrow> session_step s s'"
| by_start: "start_step s s' \<Longrightarrow> session_step s s'"
| by_command: "command_step s s' \<Longrightarrow> session_step s s'"
| by_recovery: "recovery_step s s' \<Longrightarrow> session_step s s'"
| by_closing: "closing_step s s' \<Longrightarrow> session_step s s'"

inductive live :: "string \<Rightarrow> session \<Rightarrow> bool" for sid where
  opened: "live sid (new_session sid)"
| moved: "live sid s \<Longrightarrow> session_step s s' \<Longrightarrow> live sid s'"

end
