(* ===== verification/SessionProps.thy ===== *)
theory SessionProps
  imports SessionSteps
begin

text \<open>
  What a live session promises under every interleaving of its callers and its owning thread: which fields
  each operation leaves alone, the invariants of the step relation, and the properties that follow.
\<close>

section \<open>What the operations leave alone\<close>

lemma fold_frame: "(\<And>x s. g (f x s) = g s) \<Longrightarrow> g (fold f xs s) = g s"
  by (induction xs arbitrary: s) simp_all

lemma upd_frame [simp]:
  "ss_sid (upd r f s) = ss_sid s" "ss_by_id (upd r f s) = ss_by_id s" "ss_queue (upd r f s) = ss_queue s"
  "ss_last (upd r f s) = ss_last s" "ss_counter (upd r f s) = ss_counter s" "ss_closing (upd r f s) = ss_closing s"
  "ss_closed (upd r f s) = ss_closed s" "ss_quarantined (upd r f s) = ss_quarantined s"
  "ss_allow (upd r f s) = ss_allow s" "ss_held (upd r f s) = ss_held s"
  "ss_edit_possible (upd r f s) = ss_edit_possible s" "ss_requires_save (upd r f s) = ss_requires_save s"
  "ss_terminal (upd r f s) = ss_terminal s" "ss_active (upd r f s) = ss_active s"
  "ss_intent (upd r f s) = ss_intent s" "ss_has_handle (upd r f s) = ss_has_handle s"
  "ss_mutations (upd r f s) = ss_mutations s" "ss_verified (upd r f s) = ss_verified s"
  "ss_epoch (upd r f s) = ss_epoch s" "ss_native (upd r f s) = ss_native s"
  "ss_constructed (upd r f s) = ss_constructed s" "ss_target (upd r f s) = ss_target s"
  "ss_start (upd r f s) = ss_start s" "ss_starting (upd r f s) = ss_starting s" "ss_owner (upd r f s) = ss_owner s"
  "ss_waiting (upd r f s) = ss_waiting s" "ss_acking (upd r f s) = ss_acking s"
  "ss_putting (upd r f s) = ss_putting s" "ss_started (upd r f s) = ss_started s" "ss_quits (upd r f s) = ss_quits s"
  "ss_written (upd r f s) = ss_written s" "ss_copies (upd r f s) = ss_copies s"
  by (simp_all add: upd_def)

lemma fold_upd_frame [simp]:
  "ss_sid (fold (\<lambda>r. upd r f) rs s) = ss_sid s" "ss_by_id (fold (\<lambda>r. upd r f) rs s) = ss_by_id s"
  "ss_queue (fold (\<lambda>r. upd r f) rs s) = ss_queue s" "ss_last (fold (\<lambda>r. upd r f) rs s) = ss_last s"
  "ss_counter (fold (\<lambda>r. upd r f) rs s) = ss_counter s"
  "ss_closing (fold (\<lambda>r. upd r f) rs s) = ss_closing s"
  "ss_closed (fold (\<lambda>r. upd r f) rs s) = ss_closed s"
  "ss_quarantined (fold (\<lambda>r. upd r f) rs s) = ss_quarantined s"
  "ss_allow (fold (\<lambda>r. upd r f) rs s) = ss_allow s" "ss_held (fold (\<lambda>r. upd r f) rs s) = ss_held s"
  "ss_edit_possible (fold (\<lambda>r. upd r f) rs s) = ss_edit_possible s"
  "ss_requires_save (fold (\<lambda>r. upd r f) rs s) = ss_requires_save s"
  "ss_terminal (fold (\<lambda>r. upd r f) rs s) = ss_terminal s"
  "ss_active (fold (\<lambda>r. upd r f) rs s) = ss_active s"
  "ss_intent (fold (\<lambda>r. upd r f) rs s) = ss_intent s"
  "ss_has_handle (fold (\<lambda>r. upd r f) rs s) = ss_has_handle s"
  "ss_mutations (fold (\<lambda>r. upd r f) rs s) = ss_mutations s"
  "ss_verified (fold (\<lambda>r. upd r f) rs s) = ss_verified s"
  "ss_epoch (fold (\<lambda>r. upd r f) rs s) = ss_epoch s"
  "ss_native (fold (\<lambda>r. upd r f) rs s) = ss_native s"
  "ss_constructed (fold (\<lambda>r. upd r f) rs s) = ss_constructed s"
  "ss_target (fold (\<lambda>r. upd r f) rs s) = ss_target s"
  "ss_start (fold (\<lambda>r. upd r f) rs s) = ss_start s"
  "ss_starting (fold (\<lambda>r. upd r f) rs s) = ss_starting s"
  "ss_owner (fold (\<lambda>r. upd r f) rs s) = ss_owner s"
  "ss_waiting (fold (\<lambda>r. upd r f) rs s) = ss_waiting s"
  "ss_acking (fold (\<lambda>r. upd r f) rs s) = ss_acking s"
  "ss_putting (fold (\<lambda>r. upd r f) rs s) = ss_putting s"
  "ss_started (fold (\<lambda>r. upd r f) rs s) = ss_started s"
  "ss_quits (fold (\<lambda>r. upd r f) rs s) = ss_quits s"
  "ss_written (fold (\<lambda>r. upd r f) rs s) = ss_written s"
  "ss_copies (fold (\<lambda>r. upd r f) rs s) = ss_copies s"
  by (rule fold_frame; simp)+

lemma register_frame [simp]:
  "ss_sid (register c s) = ss_sid s" "ss_queue (register c s) = ss_queue s" "ss_counter (register c s) = ss_counter s"
  "ss_closing (register c s) = ss_closing s" "ss_closed (register c s) = ss_closed s"
  "ss_quarantined (register c s) = ss_quarantined s" "ss_allow (register c s) = ss_allow s"
  "ss_held (register c s) = ss_held s" "ss_edit_possible (register c s) = ss_edit_possible s"
  "ss_requires_save (register c s) = ss_requires_save s" "ss_terminal (register c s) = ss_terminal s"
  "ss_active (register c s) = ss_active s" "ss_intent (register c s) = ss_intent s"
  "ss_has_handle (register c s) = ss_has_handle s" "ss_mutations (register c s) = ss_mutations s"
  "ss_verified (register c s) = ss_verified s" "ss_epoch (register c s) = ss_epoch s"
  "ss_native (register c s) = ss_native s" "ss_constructed (register c s) = ss_constructed s"
  "ss_target (register c s) = ss_target s" "ss_start (register c s) = ss_start s"
  "ss_starting (register c s) = ss_starting s" "ss_owner (register c s) = ss_owner s"
  "ss_waiting (register c s) = ss_waiting s" "ss_acking (register c s) = ss_acking s"
  "ss_putting (register c s) = ss_putting s" "ss_started (register c s) = ss_started s"
  "ss_quits (register c s) = ss_quits s" "ss_written (register c s) = ss_written s"
  "ss_copies (register c s) = ss_copies s"
  by (simp_all add: register_def)

lemma write_frame [simp]:
  "ss_sid (write_record r s) = ss_sid s" "ss_heap (write_record r s) = ss_heap s"
  "ss_by_id (write_record r s) = ss_by_id s" "ss_queue (write_record r s) = ss_queue s"
  "ss_last (write_record r s) = ss_last s" "ss_counter (write_record r s) = ss_counter s"
  "ss_closing (write_record r s) = ss_closing s" "ss_closed (write_record r s) = ss_closed s"
  "ss_quarantined (write_record r s) = ss_quarantined s" "ss_allow (write_record r s) = ss_allow s"
  "ss_held (write_record r s) = ss_held s" "ss_edit_possible (write_record r s) = ss_edit_possible s"
  "ss_requires_save (write_record r s) = ss_requires_save s" "ss_terminal (write_record r s) = ss_terminal s"
  "ss_active (write_record r s) = ss_active s" "ss_intent (write_record r s) = ss_intent s"
  "ss_has_handle (write_record r s) = ss_has_handle s" "ss_mutations (write_record r s) = ss_mutations s"
  "ss_verified (write_record r s) = ss_verified s" "ss_epoch (write_record r s) = ss_epoch s"
  "ss_native (write_record r s) = ss_native s" "ss_constructed (write_record r s) = ss_constructed s"
  "ss_target (write_record r s) = ss_target s" "ss_start (write_record r s) = ss_start s"
  "ss_starting (write_record r s) = ss_starting s" "ss_owner (write_record r s) = ss_owner s"
  "ss_waiting (write_record r s) = ss_waiting s" "ss_acking (write_record r s) = ss_acking s"
  "ss_putting (write_record r s) = ss_putting s" "ss_started (write_record r s) = ss_started s"
  "ss_quits (write_record r s) = ss_quits s" "ss_copies (write_record r s) = ss_copies s"
  by (simp_all add: write_record_def)

lemma at_owner_frame [simp]:
  "ss_sid (at_owner ph s) = ss_sid s" "ss_heap (at_owner ph s) = ss_heap s" "ss_by_id (at_owner ph s) = ss_by_id s"
  "ss_queue (at_owner ph s) = ss_queue s" "ss_last (at_owner ph s) = ss_last s"
  "ss_counter (at_owner ph s) = ss_counter s" "ss_closing (at_owner ph s) = ss_closing s"
  "ss_closed (at_owner ph s) = ss_closed s" "ss_quarantined (at_owner ph s) = ss_quarantined s"
  "ss_allow (at_owner ph s) = ss_allow s" "ss_held (at_owner ph s) = ss_held s"
  "ss_edit_possible (at_owner ph s) = ss_edit_possible s" "ss_requires_save (at_owner ph s) = ss_requires_save s"
  "ss_terminal (at_owner ph s) = ss_terminal s" "ss_active (at_owner ph s) = ss_active s"
  "ss_intent (at_owner ph s) = ss_intent s" "ss_has_handle (at_owner ph s) = ss_has_handle s"
  "ss_mutations (at_owner ph s) = ss_mutations s" "ss_verified (at_owner ph s) = ss_verified s"
  "ss_epoch (at_owner ph s) = ss_epoch s" "ss_native (at_owner ph s) = ss_native s"
  "ss_constructed (at_owner ph s) = ss_constructed s" "ss_target (at_owner ph s) = ss_target s"
  "ss_start (at_owner ph s) = ss_start s" "ss_starting (at_owner ph s) = ss_starting s"
  "ss_waiting (at_owner ph s) = ss_waiting s" "ss_acking (at_owner ph s) = ss_acking s"
  "ss_putting (at_owner ph s) = ss_putting s" "ss_started (at_owner ph s) = ss_started s"
  "ss_quits (at_owner ph s) = ss_quits s" "ss_written (at_owner ph s) = ss_written s"
  "ss_copies (at_owner ph s) = ss_copies s"
  by (simp_all add: at_owner_def)

lemma cancel_frame [simp]:
  "ss_sid (cancel_pending_commands s) = ss_sid s" "ss_by_id (cancel_pending_commands s) = ss_by_id s"
  "ss_last (cancel_pending_commands s) = ss_last s" "ss_counter (cancel_pending_commands s) = ss_counter s"
  "ss_closing (cancel_pending_commands s) = ss_closing s" "ss_closed (cancel_pending_commands s) = ss_closed s"
  "ss_quarantined (cancel_pending_commands s) = ss_quarantined s" "ss_allow (cancel_pending_commands s) = ss_allow s"
  "ss_held (cancel_pending_commands s) = ss_held s"
  "ss_edit_possible (cancel_pending_commands s) = ss_edit_possible s"
  "ss_requires_save (cancel_pending_commands s) = ss_requires_save s"
  "ss_terminal (cancel_pending_commands s) = ss_terminal s" "ss_active (cancel_pending_commands s) = ss_active s"
  "ss_intent (cancel_pending_commands s) = ss_intent s" "ss_has_handle (cancel_pending_commands s) = ss_has_handle s"
  "ss_mutations (cancel_pending_commands s) = ss_mutations s"
  "ss_verified (cancel_pending_commands s) = ss_verified s" "ss_epoch (cancel_pending_commands s) = ss_epoch s"
  "ss_native (cancel_pending_commands s) = ss_native s"
  "ss_constructed (cancel_pending_commands s) = ss_constructed s"
  "ss_target (cancel_pending_commands s) = ss_target s" "ss_start (cancel_pending_commands s) = ss_start s"
  "ss_starting (cancel_pending_commands s) = ss_starting s" "ss_owner (cancel_pending_commands s) = ss_owner s"
  "ss_waiting (cancel_pending_commands s) = ss_waiting s" "ss_acking (cancel_pending_commands s) = ss_acking s"
  "ss_putting (cancel_pending_commands s) = ss_putting s" "ss_started (cancel_pending_commands s) = ss_started s"
  "ss_quits (cancel_pending_commands s) = ss_quits s" "ss_written (cancel_pending_commands s) = ss_written s"
  "ss_copies (cancel_pending_commands s) = ss_copies s"
  by (simp_all add: cancel_pending_commands_def)

lemma quarantine_frame [simp]:
  "ss_sid (quarantine s) = ss_sid s" "ss_heap (quarantine s) = ss_heap s" "ss_by_id (quarantine s) = ss_by_id s"
  "ss_queue (quarantine s) = ss_queue s" "ss_last (quarantine s) = ss_last s"
  "ss_counter (quarantine s) = ss_counter s" "ss_closed (quarantine s) = ss_closed s"
  "ss_held (quarantine s) = ss_held s" "ss_edit_possible (quarantine s) = ss_edit_possible s"
  "ss_requires_save (quarantine s) = ss_requires_save s" "ss_active (quarantine s) = ss_active s"
  "ss_intent (quarantine s) = ss_intent s" "ss_has_handle (quarantine s) = ss_has_handle s"
  "ss_mutations (quarantine s) = ss_mutations s" "ss_verified (quarantine s) = ss_verified s"
  "ss_epoch (quarantine s) = ss_epoch s" "ss_native (quarantine s) = ss_native s"
  "ss_constructed (quarantine s) = ss_constructed s" "ss_target (quarantine s) = ss_target s"
  "ss_start (quarantine s) = ss_start s" "ss_starting (quarantine s) = ss_starting s"
  "ss_owner (quarantine s) = ss_owner s" "ss_waiting (quarantine s) = ss_waiting s"
  "ss_acking (quarantine s) = ss_acking s" "ss_putting (quarantine s) = ss_putting s"
  "ss_started (quarantine s) = ss_started s" "ss_quits (quarantine s) = ss_quits s"
  "ss_written (quarantine s) = ss_written s" "ss_copies (quarantine s) = ss_copies s"
  by (simp_all add: quarantine_def)

lemma prune_frame [simp]:
  "ss_sid (prune_in_memory_commands s) = ss_sid s" "ss_heap (prune_in_memory_commands s) = ss_heap s"
  "ss_queue (prune_in_memory_commands s) = ss_queue s" "ss_last (prune_in_memory_commands s) = ss_last s"
  "ss_counter (prune_in_memory_commands s) = ss_counter s" "ss_closing (prune_in_memory_commands s) = ss_closing s"
  "ss_closed (prune_in_memory_commands s) = ss_closed s"
  "ss_quarantined (prune_in_memory_commands s) = ss_quarantined s"
  "ss_allow (prune_in_memory_commands s) = ss_allow s" "ss_held (prune_in_memory_commands s) = ss_held s"
  "ss_edit_possible (prune_in_memory_commands s) = ss_edit_possible s"
  "ss_requires_save (prune_in_memory_commands s) = ss_requires_save s"
  "ss_terminal (prune_in_memory_commands s) = ss_terminal s" "ss_active (prune_in_memory_commands s) = ss_active s"
  "ss_intent (prune_in_memory_commands s) = ss_intent s"
  "ss_has_handle (prune_in_memory_commands s) = ss_has_handle s"
  "ss_mutations (prune_in_memory_commands s) = ss_mutations s"
  "ss_verified (prune_in_memory_commands s) = ss_verified s" "ss_epoch (prune_in_memory_commands s) = ss_epoch s"
  "ss_native (prune_in_memory_commands s) = ss_native s"
  "ss_constructed (prune_in_memory_commands s) = ss_constructed s"
  "ss_target (prune_in_memory_commands s) = ss_target s" "ss_start (prune_in_memory_commands s) = ss_start s"
  "ss_starting (prune_in_memory_commands s) = ss_starting s" "ss_owner (prune_in_memory_commands s) = ss_owner s"
  "ss_waiting (prune_in_memory_commands s) = ss_waiting s" "ss_acking (prune_in_memory_commands s) = ss_acking s"
  "ss_putting (prune_in_memory_commands s) = ss_putting s" "ss_started (prune_in_memory_commands s) = ss_started s"
  "ss_quits (prune_in_memory_commands s) = ss_quits s" "ss_written (prune_in_memory_commands s) = ss_written s"
  "ss_copies (prune_in_memory_commands s) = ss_copies s"
  by (simp_all add: prune_in_memory_commands_def Let_def)

lemma hold_frame [simp]:
  "ss_sid (hold_native_custody r may s) = ss_sid s" "ss_by_id (hold_native_custody r may s) = ss_by_id s"
  "ss_queue (hold_native_custody r may s) = ss_queue s" "ss_last (hold_native_custody r may s) = ss_last s"
  "ss_counter (hold_native_custody r may s) = ss_counter s" "ss_closing (hold_native_custody r may s) = ss_closing s"
  "ss_closed (hold_native_custody r may s) = ss_closed s"
  "ss_edit_possible (hold_native_custody r may s) = ss_edit_possible s"
  "ss_requires_save (hold_native_custody r may s) = ss_requires_save s"
  "ss_active (hold_native_custody r may s) = ss_active s" "ss_intent (hold_native_custody r may s) = ss_intent s"
  "ss_has_handle (hold_native_custody r may s) = ss_has_handle s"
  "ss_mutations (hold_native_custody r may s) = ss_mutations s"
  "ss_verified (hold_native_custody r may s) = ss_verified s" "ss_epoch (hold_native_custody r may s) = ss_epoch s"
  "ss_native (hold_native_custody r may s) = ss_native s"
  "ss_constructed (hold_native_custody r may s) = ss_constructed s"
  "ss_target (hold_native_custody r may s) = ss_target s" "ss_start (hold_native_custody r may s) = ss_start s"
  "ss_starting (hold_native_custody r may s) = ss_starting s" "ss_owner (hold_native_custody r may s) = ss_owner s"
  "ss_waiting (hold_native_custody r may s) = ss_waiting s" "ss_acking (hold_native_custody r may s) = ss_acking s"
  "ss_putting (hold_native_custody r may s) = ss_putting s" "ss_started (hold_native_custody r may s) = ss_started s"
  "ss_quits (hold_native_custody r may s) = ss_quits s" "ss_written (hold_native_custody r may s) = ss_written s"
  "ss_copies (hold_native_custody r may s) = ss_copies s"
  by (simp_all add: hold_native_custody_def)

lemma settle_held_frame [simp]:
  "ss_sid (settle_held_command r v escaped ok s) = ss_sid s"
  "ss_by_id (settle_held_command r v escaped ok s) = ss_by_id s"
  "ss_queue (settle_held_command r v escaped ok s) = ss_queue s"
  "ss_last (settle_held_command r v escaped ok s) = ss_last s"
  "ss_counter (settle_held_command r v escaped ok s) = ss_counter s"
  "ss_closing (settle_held_command r v escaped ok s) = ss_closing s"
  "ss_closed (settle_held_command r v escaped ok s) = ss_closed s"
  "ss_quarantined (settle_held_command r v escaped ok s) = ss_quarantined s"
  "ss_allow (settle_held_command r v escaped ok s) = ss_allow s"
  "ss_held (settle_held_command r v escaped ok s) = ss_held s"
  "ss_edit_possible (settle_held_command r v escaped ok s) = ss_edit_possible s"
  "ss_requires_save (settle_held_command r v escaped ok s) = ss_requires_save s"
  "ss_terminal (settle_held_command r v escaped ok s) = ss_terminal s"
  "ss_active (settle_held_command r v escaped ok s) = ss_active s"
  "ss_intent (settle_held_command r v escaped ok s) = ss_intent s"
  "ss_has_handle (settle_held_command r v escaped ok s) = ss_has_handle s"
  "ss_mutations (settle_held_command r v escaped ok s) = ss_mutations s"
  "ss_verified (settle_held_command r v escaped ok s) = ss_verified s"
  "ss_epoch (settle_held_command r v escaped ok s) = ss_epoch s"
  "ss_native (settle_held_command r v escaped ok s) = ss_native s"
  "ss_constructed (settle_held_command r v escaped ok s) = ss_constructed s"
  "ss_target (settle_held_command r v escaped ok s) = ss_target s"
  "ss_start (settle_held_command r v escaped ok s) = ss_start s"
  "ss_starting (settle_held_command r v escaped ok s) = ss_starting s"
  "ss_owner (settle_held_command r v escaped ok s) = ss_owner s"
  "ss_waiting (settle_held_command r v escaped ok s) = ss_waiting s"
  "ss_acking (settle_held_command r v escaped ok s) = ss_acking s"
  "ss_putting (settle_held_command r v escaped ok s) = ss_putting s"
  "ss_started (settle_held_command r v escaped ok s) = ss_started s"
  "ss_quits (settle_held_command r v escaped ok s) = ss_quits s"
  "ss_copies (settle_held_command r v escaped ok s) = ss_copies s"
  by (simp_all add: settle_held_command_def Let_def)

lemma mark_frame [simp]:
  "ss_sid (mark_mutating_intent s) = ss_sid s" "ss_heap (mark_mutating_intent s) = ss_heap s"
  "ss_by_id (mark_mutating_intent s) = ss_by_id s" "ss_queue (mark_mutating_intent s) = ss_queue s"
  "ss_last (mark_mutating_intent s) = ss_last s" "ss_counter (mark_mutating_intent s) = ss_counter s"
  "ss_closing (mark_mutating_intent s) = ss_closing s" "ss_closed (mark_mutating_intent s) = ss_closed s"
  "ss_quarantined (mark_mutating_intent s) = ss_quarantined s" "ss_allow (mark_mutating_intent s) = ss_allow s"
  "ss_held (mark_mutating_intent s) = ss_held s" "ss_terminal (mark_mutating_intent s) = ss_terminal s"
  "ss_active (mark_mutating_intent s) = ss_active s" "ss_has_handle (mark_mutating_intent s) = ss_has_handle s"
  "ss_verified (mark_mutating_intent s) = ss_verified s" "ss_epoch (mark_mutating_intent s) = ss_epoch s"
  "ss_native (mark_mutating_intent s) = ss_native s" "ss_constructed (mark_mutating_intent s) = ss_constructed s"
  "ss_target (mark_mutating_intent s) = ss_target s" "ss_start (mark_mutating_intent s) = ss_start s"
  "ss_starting (mark_mutating_intent s) = ss_starting s" "ss_owner (mark_mutating_intent s) = ss_owner s"
  "ss_waiting (mark_mutating_intent s) = ss_waiting s" "ss_acking (mark_mutating_intent s) = ss_acking s"
  "ss_putting (mark_mutating_intent s) = ss_putting s" "ss_started (mark_mutating_intent s) = ss_started s"
  "ss_quits (mark_mutating_intent s) = ss_quits s" "ss_written (mark_mutating_intent s) = ss_written s"
  "ss_copies (mark_mutating_intent s) = ss_copies s"
  by (simp_all add: mark_mutating_intent_def)

lemma hold_session_frame [simp]:
  "ss_sid (hold_session e s) = ss_sid s" "ss_heap (hold_session e s) = ss_heap s"
  "ss_by_id (hold_session e s) = ss_by_id s" "ss_queue (hold_session e s) = ss_queue s"
  "ss_last (hold_session e s) = ss_last s" "ss_counter (hold_session e s) = ss_counter s"
  "ss_closing (hold_session e s) = ss_closing s" "ss_closed (hold_session e s) = ss_closed s"
  "ss_edit_possible (hold_session e s) = ss_edit_possible s"
  "ss_requires_save (hold_session e s) = ss_requires_save s" "ss_active (hold_session e s) = ss_active s"
  "ss_intent (hold_session e s) = ss_intent s" "ss_has_handle (hold_session e s) = ss_has_handle s"
  "ss_mutations (hold_session e s) = ss_mutations s" "ss_verified (hold_session e s) = ss_verified s"
  "ss_epoch (hold_session e s) = ss_epoch s" "ss_native (hold_session e s) = ss_native s"
  "ss_constructed (hold_session e s) = ss_constructed s" "ss_target (hold_session e s) = ss_target s"
  "ss_start (hold_session e s) = ss_start s" "ss_starting (hold_session e s) = ss_starting s"
  "ss_owner (hold_session e s) = ss_owner s" "ss_waiting (hold_session e s) = ss_waiting s"
  "ss_acking (hold_session e s) = ss_acking s" "ss_putting (hold_session e s) = ss_putting s"
  "ss_started (hold_session e s) = ss_started s" "ss_quits (hold_session e s) = ss_quits s"
  "ss_written (hold_session e s) = ss_written s" "ss_copies (hold_session e s) = ss_copies s"
  by (simp_all add: hold_session_def)

lemma hold_teardown_frame [simp]:
  "ss_sid (hold_teardown s) = ss_sid s" "ss_by_id (hold_teardown s) = ss_by_id s"
  "ss_queue (hold_teardown s) = ss_queue s" "ss_last (hold_teardown s) = ss_last s"
  "ss_counter (hold_teardown s) = ss_counter s" "ss_closing (hold_teardown s) = ss_closing s"
  "ss_closed (hold_teardown s) = ss_closed s" "ss_edit_possible (hold_teardown s) = ss_edit_possible s"
  "ss_requires_save (hold_teardown s) = ss_requires_save s" "ss_active (hold_teardown s) = ss_active s"
  "ss_intent (hold_teardown s) = ss_intent s" "ss_has_handle (hold_teardown s) = ss_has_handle s"
  "ss_mutations (hold_teardown s) = ss_mutations s" "ss_verified (hold_teardown s) = ss_verified s"
  "ss_epoch (hold_teardown s) = ss_epoch s" "ss_native (hold_teardown s) = ss_native s"
  "ss_constructed (hold_teardown s) = ss_constructed s" "ss_target (hold_teardown s) = ss_target s"
  "ss_start (hold_teardown s) = ss_start s" "ss_starting (hold_teardown s) = ss_starting s"
  "ss_owner (hold_teardown s) = ss_owner s" "ss_waiting (hold_teardown s) = ss_waiting s"
  "ss_acking (hold_teardown s) = ss_acking s" "ss_putting (hold_teardown s) = ss_putting s"
  "ss_started (hold_teardown s) = ss_started s" "ss_quits (hold_teardown s) = ss_quits s"
  "ss_written (hold_teardown s) = ss_written s" "ss_copies (hold_teardown s) = ss_copies s"
  by (simp_all add: hold_teardown_def split: option.split)

lemma at_owner_owner [simp]: "ss_owner (at_owner ph s) = ph"
  by (simp add: at_owner_def)

lemma upd_heap: "ss_heap (upd r f s) = (ss_heap s)[r := f (cmd s r)]"
  by (simp add: upd_def)

lemma length_upd [simp]: "length (ss_heap (upd r f s)) = length (ss_heap s)"
  by (simp add: upd_def)

lemma upd_cmd: "cmd (upd r f s) q = (if q = r \<and> r < length (ss_heap s) then f (cmd s r) else cmd s q)"
  by (cases "r < length (ss_heap s)") (auto simp: upd_def nth_list_update list_update_beyond)

lemma upd_outside: "length (ss_heap s) \<le> r \<Longrightarrow> upd r f s = s"
  by (cases s) (simp add: upd_def list_update_beyond)

lemma held_states [simp]:
  "ss_held (hold_native_custody r may s)" "ss_quarantined (hold_native_custody r may s)" "\<not> ss_allow (hold_native_custody r may s)"
  "ss_terminal (hold_native_custody r may s) \<noteq> None"
  "ss_held (hold_session e s)" "ss_quarantined (hold_session e s)" "\<not> ss_allow (hold_session e s)" "ss_terminal (hold_session e s) = Some e"
  "ss_held (hold_teardown s)" "ss_quarantined (hold_teardown s)" "\<not> ss_allow (hold_teardown s)" "ss_terminal (hold_teardown s) \<noteq> None"
  "ss_quarantined (quarantine s)" "\<not> ss_allow (quarantine s)" "ss_terminal (quarantine s) = Some TimedOutError" "\<not> ss_closing (quarantine s)"
  by (auto simp: hold_native_custody_def hold_session_def hold_teardown_def quarantine_def split: option.split)

section \<open>The cells\<close>

definition all_cells :: "(nat \<Rightarrow> live_command \<Rightarrow> bool) \<Rightarrow> session \<Rightarrow> bool" where
  "all_cells P s \<longleftrightarrow> (\<forall>r < length (ss_heap s). P r (cmd s r))"

lemma all_cells_heap: "ss_heap s' = ss_heap s \<Longrightarrow> all_cells P s' = all_cells P s"
  by (simp add: all_cells_def)

lemma all_cells_upd: "all_cells P s \<Longrightarrow> (P r (cmd s r) \<Longrightarrow> P r (f (cmd s r))) \<Longrightarrow> all_cells P (upd r f s)"
  by (auto simp: all_cells_def upd_cmd)

lemma all_cells_fields [simp]:
  "all_cells P (at_owner ph s) = all_cells P s" "all_cells P (write_record r s) = all_cells P s"
  "all_cells P (quarantine s) = all_cells P s" "all_cells P (prune_in_memory_commands s) = all_cells P s"
  "all_cells P (mark_mutating_intent s) = all_cells P s" "all_cells P (hold_session e s) = all_cells P s"
  by (rule all_cells_heap; simp)+

lemma all_cells_append: "ss_heap s' = ss_heap s @ [c] \<Longrightarrow> all_cells P s' \<longleftrightarrow> all_cells P s \<and> P (length (ss_heap s)) c"
  by (auto simp: all_cells_def nth_append less_Suc_eq)

lemma all_cells_register [simp]: "all_cells P (register c s) \<longleftrightarrow> all_cells P s \<and> P (length (ss_heap s)) c"
  by (rule all_cells_append) (simp add: register_def)

lemma all_cells_fold: "all_cells P s \<Longrightarrow> (\<And>r c. P r c \<Longrightarrow> P r (f c)) \<Longrightarrow> all_cells P (fold (\<lambda>r. upd r f) rs s)"
  by (induction rs arbitrary: s) (simp_all add: all_cells_upd)

text \<open>The cells the owning thread works on.\<close>

definition owner_refs :: "owner \<Rightarrow> nat set" where
  "owner_refs ph =
    (case ph of
       OTaken r \<Rightarrow> {r} | OCloseRead r _ \<Rightarrow> {r} | ORefused r \<Rightarrow> {r} | ORecovered r _ \<Rightarrow> {r} | OStarted r \<Rightarrow> {r} | OHandler r _ \<Rightarrow> {r}
     | OReturned r _ \<Rightarrow> {r} | OSettling r \<Rightarrow> {r} | OException r \<Rightarrow> {r} | OSignal r \<Rightarrow> {r} | OFinally r _ \<Rightarrow> {r} | _ \<Rightarrow> {})"

lemma owner_refs_simps [simp]:
  "owner_refs OStarting = {}" "owner_refs OReady = {}" "owner_refs OIdle = {}" "owner_refs (OTaken r) = {r}" "owner_refs (OCloseRead r m) = {r}"
  "owner_refs (ORefused r) = {r}" "owner_refs (ORecovered r f) = {r}" "owner_refs (OStarted r) = {r}" "owner_refs (OHandler r b) = {r}"
  "owner_refs (OReturned r b) = {r}" "owner_refs (OSettling r) = {r}" "owner_refs (OException r) = {r}" "owner_refs (OSignal r) = {r}"
  "owner_refs (OFinally r b) = {r}" "owner_refs OFinalizing = {}" "owner_refs OTeardown = {}" "owner_refs (OChecked d a) = {}"
  "owner_refs OQuit = {}" "owner_refs (OReport b) = {}" "owner_refs OHeldLoop = {}" "owner_refs OHeldWait = {}" "owner_refs ODone = {}"
  by (simp_all add: owner_refs_def)

text \<open>
  What a step may do to a cell, apart from a time-out and from marking a document as preserved. Its state
  is set, other than by stopping or a late start, only in the cells \<open>A\<close> that are in hand; the cells \<open>Q\<close> of
  the queue may be cancelled.
\<close>

definition late_start :: "json \<Rightarrow> live_command \<Rightarrow> live_command" where
  "late_start v c = answer (FResult v) ((apply_outcome (Some v) None (c\<lparr>lc_result := Some v\<rparr>))
     \<lparr>lc_state := CompletedLate, lc_recovery := Quarantined, lc_completed := True\<rparr>)"

definition stable :: "nat set \<Rightarrow> nat set \<Rightarrow> (nat \<Rightarrow> live_command \<Rightarrow> bool) \<Rightarrow> bool" where
  "stable Q A P \<longleftrightarrow>
    (\<forall>r c. P r c \<longrightarrow> P r (ensure_data c) \<and> P r (c\<lparr>lc_recovery := RecoveryFailed\<rparr>)
       \<and> P r (c\<lparr>lc_recovery := Saving\<rparr>) \<and> P r (c\<lparr>lc_completed := True\<rparr>)
       \<and> (\<forall>b. P r (c\<lparr>lc_reconciled := b\<rparr>)) \<and> (\<forall>e. P r (c\<lparr>lc_error := e\<rparr>))
       \<and> (\<forall>v. P r (c\<lparr>lc_result := v\<rparr>)) \<and> (\<forall>b. P r (c\<lparr>lc_ok := b\<rparr>)) \<and> (\<forall>b. P r (c\<lparr>lc_reports := b\<rparr>))
       \<and> (\<forall>b. P r (c\<lparr>lc_close_refused := b\<rparr>)) \<and> (\<forall>f. P r (answer f c)) \<and> (\<forall>v e. P r (apply_outcome v e c))
       \<and> (\<forall>b. P r (hold_command b c)) \<and> (\<forall>t. P r (stop_command t c)) \<and> (\<forall>v. P r (late_start v c)))
    \<and> (\<forall>r \<in> Q. \<forall>c. P r c \<longrightarrow> P r (cancel_command c))
    \<and> (\<forall>r \<in> A. \<forall>c. P r c \<longrightarrow> P r (end_state c) \<and> P r (c\<lparr>lc_state := Running\<rparr>) \<and> P r (c\<lparr>lc_state := Failed\<rparr>) \<and> (\<forall>b. P r (settle_command b c))
       \<and> (\<forall>b t. P r (finish_close b t c)))"

lemma keptD:
  assumes "stable Q A P" and "P r c"
  shows "P r (ensure_data c)" "P r (c\<lparr>lc_recovery := RecoveryFailed\<rparr>)"
    "P r (c\<lparr>lc_recovery := Saving\<rparr>)" "P r (c\<lparr>lc_completed := True\<rparr>)"
    "P r (c\<lparr>lc_reconciled := b\<rparr>)" "P r (c\<lparr>lc_error := e\<rparr>)"
    "P r (c\<lparr>lc_result := v\<rparr>)" "P r (c\<lparr>lc_ok := ok\<rparr>)" "P r (c\<lparr>lc_reports := b\<rparr>)"
    "P r (c\<lparr>lc_close_refused := b\<rparr>)" "P r (answer f c)" "P r (apply_outcome v e c)"
    "P r (hold_command b c)" "P r (stop_command e c)" "P r (late_start w c)"
  using assms(1) [unfolded stable_def, THEN conjunct1, THEN spec, THEN spec, THEN mp, OF assms(2)] by simp_all

lemma keptS:
  assumes "stable Q A P" and "r \<in> A" and "P r c"
  shows "P r (end_state c)" "P r (c\<lparr>lc_state := Running\<rparr>)" "P r (c\<lparr>lc_state := Failed\<rparr>)" "P r (settle_command b c)" "P r (finish_close b e c)"
  using assms(1) [unfolded stable_def, THEN conjunct2, THEN conjunct2, THEN bspec, OF assms(2), THEN spec, THEN mp, OF assms(3)] by simp_all

lemma fold_cells:
  "all_cells P s \<Longrightarrow> (\<And>r c. r \<in> set rs \<Longrightarrow> P r c \<Longrightarrow> P r (f c)) \<Longrightarrow> all_cells P (fold (\<lambda>r. upd r f) rs s)"
  by (induction rs arbitrary: s) (simp_all add: all_cells_upd)

lemma kept_cancel:
  assumes "stable Q A P" and "all_cells P s" and "set (ss_queue s) \<subseteq> Q"
  shows "all_cells P (cancel_pending_commands s)"
proof -
  have "all_cells P (fold (\<lambda>r. upd r cancel_command) (ss_queue s) s)"
    by (rule fold_cells [OF assms(2)]) (use assms(1,3) in \<open>auto simp: stable_def\<close>)
  then show ?thesis by (simp add: cancel_pending_commands_def all_cells_def)
qed

lemma kept_hold: "stable Q A P \<Longrightarrow> all_cells P s \<Longrightarrow> all_cells P (hold_native_custody r may s)"
proof -
  assume "stable Q A P" and "all_cells P s"
  then have "all_cells P (upd r (hold_command may) s)" by (intro all_cells_upd) (simp_all add: keptD)
  then show ?thesis by (simp add: hold_native_custody_def all_cells_def)
qed

lemma kept_upd: "stable Q A P \<Longrightarrow> all_cells P s \<Longrightarrow> (\<And>c. P r c \<Longrightarrow> P r (f c)) \<Longrightarrow> all_cells P (upd r f s)"
  by (simp add: all_cells_upd)

lemma kept_settle: "stable Q A P \<Longrightarrow> r \<in> A \<Longrightarrow> all_cells P s \<Longrightarrow> all_cells P (settle_held_command r v escaped ok s)"
  unfolding settle_held_command_def Let_def
  by (intro all_cells_upd) (auto intro!: all_cells_upd simp: keptD keptS)

lemma kept_teardown: "stable Q A P \<Longrightarrow> all_cells P s \<Longrightarrow> all_cells P (hold_teardown s)"
  by (simp add: hold_teardown_def kept_hold split: option.split)

lemma kept_put: "stable Q A P \<Longrightarrow> all_cells P s \<Longrightarrow> (\<And>c. P r c \<Longrightarrow> P r (f c)) \<Longrightarrow> all_cells P (upd r f s)"
  by (simp add: all_cells_upd)

lemma id_facts [simp]: "command_id s n \<noteq> close_id s'" if "ss_sid s' = ss_sid s" for s s'
  using that by (simp add: command_id_def close_id_def)

lemma name_facts [simp]: "close_name \<noteq> recover_name" "recover_name \<noteq> close_name"
  by (simp_all add: close_name_def recover_name_def)

lemma caller_cells:
  assumes "caller_step s s'" and "stable Q A P" and "all_cells P s"
    and "\<And>cid name. name \<noteq> recover_name \<Longrightarrow> (name = close_name \<longleftrightarrow> cid = close_id s)
      \<Longrightarrow> P (length (ss_heap s)) (new_command cid name (ss_counter s + 1))"
    and "\<And>cid. P (length (ss_heap s)) (recover_command s cid)"
    and "s' = terminalize_start (s\<lparr>ss_starting := False\<rparr>) \<Longrightarrow> ss_terminal s = None \<Longrightarrow> P (length (ss_heap s)) (start_command s)"
    and "\<And>r. s' = terminalize_timeout r (s\<lparr>ss_waiting := ss_waiting s - {r}\<rparr>) \<Longrightarrow> r \<in> ss_waiting s
      \<Longrightarrow> P r (cmd s r) \<Longrightarrow> P r (time_out_command (cmd s r))"
    and "set (ss_queue s) \<subseteq> Q"
  shows "all_cells P s'"
  using assms(1)
proof cases
  case (call_execute name dirty ok reply)
  have "P (length (ss_heap s)) (new_command (command_id t n) name (ss_counter s + 1))" if "ss_sid t = ss_sid s" for t n
    by (rule assms(4)) (use call_execute(1,2) that in simp_all)
  then show ?thesis using assms(3) call_execute
    by (auto simp: execute_def Let_def all_cells_def register_def nth_append less_Suc_eq write_record_def
        split: if_split_asm option.split_asm)
next
  case (call_close dirty ok reply)
  have "P (length (ss_heap s)) (new_command (close_id t) close_name (ss_counter s + 1))" if "ss_sid t = ss_sid s" for t
    by (rule assms(4)) (use that in \<open>simp_all add: close_id_def\<close>)
  then show ?thesis using assms(3) call_close
    by (auto simp: close_session_def Let_def all_cells_def register_def nth_append less_Suc_eq write_record_def
        split: if_split_asm)
next
  case (caller_returns r)
  then show ?thesis using assms(3) by (simp add: all_cells_def)
next
  case (caller_times_out r)
  let ?s = "s\<lparr>ss_waiting := ss_waiting s - {r}\<rparr>"
  have 1: "all_cells P ?s" using assms(3) by (simp add: all_cells_def)
  have "all_cells P (upd r time_out_command ?s)"
    using assms(7) [OF caller_times_out] by (intro all_cells_upd [OF 1]) simp
  then have "all_cells P (quarantine (upd r time_out_command ?s))" by simp
  then have "all_cells P (terminalize_timeout r ?s)"
    unfolding terminalize_timeout_def using 1 by (simp add: kept_cancel [OF assms(2)] assms(8))
  with caller_times_out show ?thesis by simp
next
  case start_returns
  then show ?thesis using assms(3) by (simp add: all_cells_def)
next
  case start_times_out
  let ?s = "s\<lparr>ss_starting := False, ss_counter := ss_counter s + 1\<rparr>"
  have "all_cells P ?s" "all_cells P (s\<lparr>ss_starting := False\<rparr>)" using assms(3) by (simp_all add: all_cells_def)
  moreover have "start_command (s\<lparr>ss_starting := False\<rparr>) = start_command s"
    by (simp add: start_command_def start_id_def)
  ultimately have "all_cells P (terminalize_start (s\<lparr>ss_starting := False\<rparr>))"
    using assms(6) [OF start_times_out(1)] by (cases "ss_terminal s") (simp_all add: terminalize_start_def Let_def kept_cancel [OF assms(2)] assms(8))
  with start_times_out show ?thesis by simp
next
  case (call_reconcile cid ok)
  have put: "all_cells P (upd r f t)" if "all_cells P t" "\<And>c. P r c \<Longrightarrow> P r (f c)" for r f t
    using that by (simp add: all_cells_upd)
  show ?thesis
  proof (cases "command_of s cid")
    case None
    with call_reconcile assms(3) show ?thesis by (simp add: reconcile_command_def)
  next
    case (Some r)
    define s1 where "s1 = upd r ensure_data s"
    define s2 where "s2 = upd r (\<lambda>c. c\<lparr>lc_recovery := Saving\<rparr>) s1"
    have s1: "all_cells P s1" unfolding s1_def by (rule put [OF assms(3)]) (rule keptD(1) [OF assms(2)])
    have s2: "all_cells P s2" unfolding s2_def by (rule put [OF s1]) (rule keptD(3) [OF assms(2)])
    have failed: "all_cells P (upd r (\<lambda>c. c\<lparr>lc_recovery := RecoveryFailed\<rparr>) s1)" by (rule put [OF s1]) (rule keptD(2) [OF assms(2)])
    have "recover_command s2 cid = recover_command s cid" "length (ss_heap s2) = length (ss_heap s)"
      by (simp_all add: recover_command_def s2_def s1_def)
    with assms(5) [of cid] have "P (length (ss_heap s2)) (recover_command s2 cid)" by simp
    with s2 have "all_cells P (s2\<lparr>ss_target := tg, ss_putting := ps, ss_heap := ss_heap s2 @ [recover_command s2 cid]\<rparr>)" for tg ps
      by (subst all_cells_append [where s = s2 and c = "recover_command s2 cid"]) simp_all
    with s1 s2 failed assms(3) Some call_reconcile show ?thesis
      by (simp add: reconcile_command_def Let_def s1_def [symmetric] s2_def [symmetric])
  qed
next
  case (put_recovery r)
  then show ?thesis using assms(3) by (simp add: all_cells_def)
next
  case (call_acknowledge cid)
  have put: "all_cells P (upd r f t)" if "all_cells P t" "\<And>c. P r c \<Longrightarrow> P r (f c)" for r f t
    using that by (simp add: all_cells_upd)
  have "all_cells P (upd r (\<lambda>c. c\<lparr>lc_reconciled := True\<rparr>) (upd r ensure_data s))" "all_cells P (upd r ensure_data s)" for r
    by (intro put assms(3) keptD [OF assms(2)]; assumption)+
  then show ?thesis using call_acknowledge assms(3)
    by (auto simp: begin_acknowledgement_def Let_def all_cells_def split: option.split)
next
  case (acknowledged r ok)
  have "all_cells P (s\<lparr>ss_acking := remove1 r (ss_acking s)\<rparr>)" "all_cells P (s\<lparr>ss_acking := remove1 r (ss_acking s), ss_allow := True\<rparr>)"
    using assms(3) by (simp_all add: all_cells_def)
  moreover from this(1) have "all_cells P (upd r (\<lambda>c. c\<lparr>lc_reconciled := False\<rparr>) (s\<lparr>ss_acking := remove1 r (ss_acking s)\<rparr>))"
    by (rule kept_put [OF assms(2)]) (rule keptD [OF assms(2)])
  ultimately show ?thesis using acknowledged by (simp add: finish_acknowledgement_def Let_def)
qed

lemma run_fails_heap [simp]: "ss_heap (run_fails s) = ss_heap s"
  by (simp add: run_fails_def)

lemma kept_run_fails [simp]: "all_cells P (run_fails s) = all_cells P s"
  by (rule all_cells_heap) simp

lemma start_cells:
  assumes "start_step s s'" and "stable Q A P" and "all_cells P s"
  shows "all_cells P s'"
  using assms(1)
proof cases
  case (started_late r c v)
  have "P r (cmd s r) \<Longrightarrow> P r (answer (FResult v) c)"
    unfolding started_late(5) using keptD(15) [OF assms(2)] by (simp add: late_start_def)
  then have "all_cells P (upd r (\<lambda>_. answer (FResult v) c) s)" using assms(3) by (simp add: all_cells_upd)
  then show ?thesis using started_late(1) by (simp add: all_cells_def)
qed (use assms(3) in \<open>simp_all add: all_cells_def\<close>)

lemma recovery_cells:
  assumes "recovery_step s s'" and "stable Q A P" and "all_cells P s" and "\<And>r c. P r c \<Longrightarrow> P r (c\<lparr>lc_recovery := Preserved\<rparr>)"
  shows "all_cells P s'"
  using assms(1)
proof cases
  case (recovered r cid target ok)
  have "all_cells P (upd target (\<lambda>c. c\<lparr>lc_recovery := Preserved\<rparr>) s)" using assms(3,4) by (simp add: all_cells_upd)
  then show ?thesis using recovered(1) by (simp add: all_cells_def)
next
  case (not_recovered r cid)
  have "all_cells P (upd t (\<lambda>c. if lc_recovery c = Preserved then c else c\<lparr>lc_recovery := RecoveryFailed\<rparr>) s)" for t
    using assms(3) by (simp add: all_cells_upd keptD [OF assms(2)])
  then show ?thesis using not_recovered(1) assms(3) by (simp split: option.split)
next
  case (recovery_answered r f)
  have "all_cells P (upd r (answer f) s)" using assms(3) by (simp add: all_cells_upd keptD [OF assms(2)])
  then show ?thesis using recovery_answered(1) by (simp add: all_cells_def)
qed

lemma command_cells:
  assumes "command_step s s'" and "stable Q A P" and "all_cells P s" and "owner_refs (ss_owner s) \<subseteq> A"
    and "\<And>r. ss_owner s = OTaken r \<Longrightarrow> lc_state (cmd s r) = Queued \<Longrightarrow> P r (cmd s r)
      \<Longrightarrow> P r (answer (FError TerminalizedError) ((cmd s r)\<lparr>lc_state := Cancelled, lc_error := Some TerminalizedError, lc_completed := True\<rparr>))"
  shows "all_cells P s'"
  using assms(1)
proof cases
  case (begin_command r)
  then have A: "r \<in> A" using assms(4) by simp
  have "all_cells P (upd r (\<lambda>c. answer (FError TerminalizedError) (c\<lparr>lc_state := Cancelled, lc_error := Some TerminalizedError, lc_completed := True\<rparr>)) s)"
    if "lc_state (cmd s r) = Queued"
    by (rule all_cells_upd [OF assms(3)]) (rule assms(5) [OF begin_command(2) that])
  moreover have "all_cells P (upd r (\<lambda>c. c\<lparr>lc_state := Running\<rparr>) s)"
    by (rule kept_put [OF assms(2,3)]) (rule keptS [OF assms(2) A])
  ultimately show ?thesis using begin_command(1) assms(3) by (simp add: take_command_def all_cells_def)
next
  case (handler_returns r clean v)
  have "all_cells P (upd r (\<lambda>c. c\<lparr>lc_result := Some v\<rparr>) s)" by (rule kept_put [OF assms(2,3)]) (intro keptD [OF assms(2)])
  then show ?thesis using handler_returns(1) by simp
next
  case (outcome_read r clean still_clean)
  let ?s = "if still_clean then s\<lparr>ss_requires_save := False\<rparr> else s"
  have "all_cells P ?s" using assms(3) by (simp add: all_cells_def)
  then have "all_cells P (upd r (\<lambda>c. apply_outcome (lc_result c) None c) ?s)"
    by (rule kept_put [OF assms(2)]) (intro keptD [OF assms(2)])
  then show ?thesis using outcome_read(1) by (simp add: after_handler_def Let_def kept_hold [OF assms(2)])
next
  case (settle r ok)
  then have A: "r \<in> A" using assms(4) by simp
  have 1: "all_cells P (upd r end_state s)" by (rule kept_put [OF assms(2,3)]) (rule keptS [OF assms(2) A])
  then have "all_cells P ((write_record r (upd r end_state s))\<lparr>ss_requires_save := False\<rparr>)" by (simp add: all_cells_def write_record_def)
  then show ?thesis using settle(1) 1 kept_settle [OF assms(2) A 1]
    by (simp add: settle_returned_def Let_def all_cells_upd keptD [OF assms(2)])
next
  case (exception_settled r ok)
  then have A: "r \<in> A" using assms(4) by simp
  from exception_settled(1) show ?thesis using assms(3) by (simp add: settle_exception_def Let_def kept_settle [OF assms(2) A] kept_hold [OF assms(2)])
next
  case (signal_settled r ok)
  then have A: "r \<in> A" using assms(4) by simp
  have "all_cells P (upd r (\<lambda>c. answer (FError SignalError) (c\<lparr>lc_error := Some SignalError, lc_state := Failed, lc_ok := Some False\<rparr>)) s)"
    by (rule kept_put [OF assms(2,3)]) (intro keptD [OF assms(2)] keptS [OF assms(2) A])
  then show ?thesis using signal_settled(1) assms(3)
    by (simp add: settle_signal_def kept_settle [OF assms(2) A] kept_hold [OF assms(2)])
next
  case (left_command r propagates ok)
  let ?s = "upd r (\<lambda>c. c\<lparr>lc_completed := True\<rparr>) (s\<lparr>ss_active := None\<rparr>)"
  have "all_cells P (s\<lparr>ss_active := None\<rparr>)" using assms(3) by (simp add: all_cells_def)
  then have 1: "all_cells P ?s" by (rule kept_put [OF assms(2)]) (intro keptD [OF assms(2)])
  have "all_cells P (if lc_held (cmd ?s r) then ?s else hold_native_custody r (may_have_edited (cmd ?s r) (ss_intent ?s)) ?s)" (is "all_cells P ?t")
    using 1 by (simp add: kept_hold [OF assms(2)])
  then have "all_cells P (upd r (\<lambda>c. c\<lparr>lc_reports := lc_reports c \<or> lc_error c = Some HeldOutcome\<rparr>) ?t)"
    by (rule kept_put [OF assms(2)]) (intro keptD [OF assms(2)])
  with 1 show ?thesis using left_command(1) by (simp add: leave_command_def Let_def)
next
  case (handler_copies r clean)
  then show ?thesis using assms(3) by (auto simp: private_copy_def all_cells_def)
next
  case (handler_records r clean epoch)
  then show ?thesis using assms(3) by (auto simp: record_package_def all_cells_def split: option.split_asm if_split_asm)
next
  case (take r q)
  then show ?thesis using assms(3) by (simp add: all_cells_def)
qed (use assms(3) in \<open>simp_all add: enter_handler_def kept_hold [OF assms(2)]\<close>)

lemma kept_fold: "stable Q A P \<Longrightarrow> all_cells P s \<Longrightarrow> (\<And>r c. P r c \<Longrightarrow> P r (f c)) \<Longrightarrow> all_cells P (fold (\<lambda>r. upd r f) rs s)"
  by (rule all_cells_fold)

lemma report_cells:
  assumes "stable Q A P" and "all_cells P s" and "set_option (command_of s (close_id s)) \<subseteq> A" and "set (ss_queue s) \<subseteq> Q"
  shows "all_cells P (report_end b reports_ok s)"
proof -
  define close where "close = command_of s (close_id s)"
  define s1 where "s1 = s\<lparr>ss_closed := ss_closed s \<or> b\<rparr>"
  define s2 where "s2 = (case close of None \<Rightarrow> s1 | Some r \<Rightarrow> upd r (finish_close b (ss_terminal s1)) s1)"
  define s3 where "s3 = (if b then fold (\<lambda>r. upd r (stop_command (ss_terminal s2))) (filter (\<lambda>r. Some r \<noteq> close) (map snd (ss_by_id s2))) s2 else s2)"
  define s4 where "s4 = cancel_pending_commands s3"
  have "all_cells P s1" using assms(2) by (simp add: s1_def all_cells_def)
  moreover have "all_cells P (upd r (finish_close b t) s1)" if "close = Some r" "all_cells P s1" for r t
    by (rule kept_put [OF assms(1) that(2)]) (rule keptS [OF assms(1)], use assms(3) that(1) in \<open>simp_all add: close_def\<close>)
  ultimately have "all_cells P s2" by (simp add: s2_def split: option.split)
  then have "all_cells P s3" by (simp add: s3_def kept_fold [OF assms(1)] keptD [OF assms(1)])
  moreover have "ss_queue s3 = ss_queue s" by (simp add: s3_def s2_def s1_def split: option.split)
  ultimately have "all_cells P s4" by (simp add: s4_def kept_cancel [OF assms(1)] assms(4))
  then have "all_cells P (upd r (\<lambda>c. answer (g c) c) s4)" for r g
    by (simp add: all_cells_upd keptD [OF assms(1)])
  with \<open>all_cells P s4\<close> have "all_cells P (at_owner OHeldLoop (case close of None \<Rightarrow> s4
      | Some r \<Rightarrow> upd r (\<lambda>c. answer (if b \<and> reports_ok then FResult close_result
          else FError (case lc_error c of None \<Rightarrow> CloseIncomplete | Some e \<Rightarrow> e)) c) s4))"
    by (simp split: option.split)
  then show ?thesis unfolding report_end_def Let_def s1_def s2_def s3_def s4_def close_def .
qed

lemma closing_cells:
  assumes "closing_step s s'" and "stable Q A P" and "all_cells P s" and "owner_refs (ss_owner s) \<union> set_option (command_of s (close_id s)) \<subseteq> A"
    and "set (ss_queue s) \<subseteq> Q"
  shows "all_cells P s'"
  using assms(1)
proof cases
  case (close_decided r m)
  then have A: "r \<in> A" using assms(4) by simp
  have 1: "all_cells P (upd r (\<lambda>c. c\<lparr>lc_state := Running\<rparr>) s)" by (rule kept_put [OF assms(2,3)]) (rule keptS [OF assms(2) A])
  have "all_cells P (upd r (\<lambda>c. (apply_outcome None (Some e) (c\<lparr>lc_error := Some e, lc_close_refused := lc_close_refused c \<or> e = CloseNeedsSave\<rparr>))
      \<lparr>lc_state := Failed\<rparr>) s)" for e
    by (rule kept_put [OF assms(2,3)]) (intro keptD [OF assms(2)] keptS [OF assms(2) A])
  then have "all_cells P (refuse_close r e s)" for e by (simp add: refuse_close_def Let_def all_cells_def)
  with 1 show ?thesis using close_decided(1) by (simp add: decide_close_def split: option.split)
next
  case (close_refused r)
  have "all_cells P (upd r (\<lambda>c. answer (FError (case lc_error c of None \<Rightarrow> CloseIncomplete | Some e \<Rightarrow> e)) (c\<lparr>lc_completed := True\<rparr>)) s)"
    by (rule kept_put [OF assms(2,3)]) (intro keptD [OF assms(2)])
  with close_refused(1) show ?thesis by (simp add: answer_refused_def)
next
  case (refuses_pending r q)
  have "all_cells P (s\<lparr>ss_queue := q\<rparr>)" using assms(3) by (simp add: all_cells_def)
  then have "all_cells P (upd r (answer (FError CloseHeld)) (s\<lparr>ss_queue := q\<rparr>))"
    by (rule kept_put [OF assms(2)]) (intro keptD [OF assms(2)])
  with refuses_pending(1) show ?thesis by simp
next
  case (quits debt allowed)
  then show ?thesis using assms(3) by (simp add: all_cells_def)
qed (use assms(3) in \<open>simp_all add: kept_hold [OF assms(2)] kept_teardown [OF assms(2)] report_cells [OF assms(2)] assms(5) assms(4) [THEN subset_trans [OF Un_upper2]]\<close>)

end
