(* ===== verification/SessionRun.thy ===== *)
theory SessionRun
  imports SessionSteps
begin

text \<open>
  The step relation of a live session as a function: an action names the rule and its free choices, so that
  whole runs can be computed. \<open>run_live\<close>: what such a run reaches is reachable.
\<close>

datatype action =
    Execute string bool bool
  | CloseCall bool bool
  | Return nat
  | TimeOut nat
  | StartTimeOut
  | Reconcile string bool
  | PutRecovery nat
  | Acknowledge string
  | Acknowledged nat bool
  | Construct
  | Constructed
  | Open
  | Start json
  | StartFails
  | Take
  | Begin
  | Enter bool
  | HandlerEdits
  | HandlerHolds bool
  | HandlerReturns json
  | Outcome bool
  | Settle bool
  | Raise
  | Interrupt
  | SettleRaised bool
  | SettleSignal bool
  | Leave bool
  | Recover bool
  | RecoveryEnds
  | ReadModified bool
  | DecideClose
  | AnswerRefused
  | NotPermitted
  | Teardown
  | Check
  | Quit
  | Exit
  | TeardownRaises
  | Report bool
  | HoldOn
  | EndThread
  | RefusePending

definition in_handler :: "session \<Rightarrow> nat option" where
  "in_handler s = (case ss_owner s of OStarted r \<Rightarrow> Some r | OSettling r \<Rightarrow> Some r | OHandler r _ \<Rightarrow> Some r | OReturned r _ \<Rightarrow> Some r | _ \<Rightarrow> None)"

definition act_caller :: "action \<Rightarrow> session \<Rightarrow> session option" where
  "act_caller a s =
    (case a of
       Execute name dirty ok \<Rightarrow> if name \<noteq> close_name \<and> name \<noteq> recover_name then Some (fst (execute name dirty ok s)) else None
     | CloseCall dirty ok \<Rightarrow> Some (fst (close_session dirty ok s))
     | Return r \<Rightarrow> if r \<in> ss_waiting s \<and> lc_future (cmd s r) \<noteq> FPending then Some (s\<lparr>ss_waiting := ss_waiting s - {r}\<rparr>) else None
     | TimeOut r \<Rightarrow> if r \<in> ss_waiting s then Some (terminalize_timeout r (s\<lparr>ss_waiting := ss_waiting s - {r}\<rparr>)) else None
     | StartTimeOut \<Rightarrow> if ss_starting s then Some (terminalize_start (s\<lparr>ss_starting := False\<rparr>)) else None
     | Reconcile cid ok \<Rightarrow> Some (reconcile_command cid ok s)
     | PutRecovery r \<Rightarrow> if r \<in> set (ss_putting s)
         then Some (s\<lparr>ss_putting := remove1 r (ss_putting s), ss_queue := ss_queue s @ [r]\<rparr>) else None
     | Acknowledge cid \<Rightarrow> Some (begin_acknowledgement cid s)
     | Acknowledged r ok \<Rightarrow> if r \<in> set (ss_acking s) then Some (finish_acknowledgement r ok s) else None
     | _ \<Rightarrow> None)"

definition act_start :: "action \<Rightarrow> session \<Rightarrow> session option" where
  "act_start a s =
    (case (a, ss_owner s) of
       (StartFails, OStarting) \<Rightarrow> Some (run_fails s)
     | (Construct, OStarting) \<Rightarrow> if ss_constructed s then None else Some (s\<lparr>ss_constructed := True\<rparr>)
     | (Constructed, OStarting) \<Rightarrow> if ss_constructed s then Some (s\<lparr>ss_native := True\<rparr>) else None
     | (Open, OStarting) \<Rightarrow> if ss_native s \<and> ss_terminal s = None \<and> \<not> ss_closing s
         then Some (at_owner OReady (s\<lparr>ss_has_handle := True\<rparr>)) else None
     | (Start v, OReady) \<Rightarrow> if command_of s (start_id s) = None
         then Some (at_owner OIdle (s\<lparr>ss_start := if ss_start s = FPending then FResult v else ss_start s\<rparr>)) else None
     | _ \<Rightarrow> None)"

definition act_command :: "action \<Rightarrow> session \<Rightarrow> session option" where
  "act_command a s =
    (case (a, ss_owner s) of
       (Take, OIdle) \<Rightarrow> (case ss_queue s of [] \<Rightarrow> None | r # q \<Rightarrow> Some (at_owner (OTaken r) (s\<lparr>ss_queue := q\<rparr>)))
     | (Begin, OTaken r) \<Rightarrow> if lc_name (cmd s r) \<noteq> close_name \<and> lc_name (cmd s r) \<noteq> recover_name then Some (take_command r s) else None
     | (Enter clean, OStarted r) \<Rightarrow> if clean \<longrightarrow> clean_possible r s then Some (enter_handler r clean s) else None
     | (HandlerEdits, OHandler r clean) \<Rightarrow> Some (mark_mutating_intent s)
     | (HandlerHolds may, OHandler r clean) \<Rightarrow> Some (hold_native_custody r may s)
     | (HandlerReturns v, OHandler r clean) \<Rightarrow> Some (at_owner (OReturned r clean) (upd r (\<lambda>c. c\<lparr>lc_result := Some v\<rparr>) s))
     | (Outcome b, OReturned r clean) \<Rightarrow>
         if b \<longrightarrow> clean \<and> ss_epoch s \<noteq> Some (lc_id (cmd s r)) then Some (after_handler r b s) else None
     | (Settle ok, OSettling r) \<Rightarrow> Some (settle_returned r ok s)
     | (Raise, _) \<Rightarrow> map_option (\<lambda>r. at_owner (OException r) s) (in_handler s)
     | (Interrupt, _) \<Rightarrow> map_option (\<lambda>r. at_owner (OSignal r) s) (in_handler s)
     | (SettleRaised ok, OException r) \<Rightarrow> Some (settle_exception r ok s)
     | (SettleSignal ok, OSignal r) \<Rightarrow> Some (settle_signal r ok s)
     | (Leave ok, OFinally r propagates) \<Rightarrow> Some (leave_command r propagates ok s)
     | _ \<Rightarrow> None)"

definition act_recovery :: "action \<Rightarrow> session \<Rightarrow> session option" where
  "act_recovery a s =
    (case (a, ss_owner s) of
       (Recover ok, OTaken r) \<Rightarrow>
         (case lc_recovery_for (cmd s r) of
            None \<Rightarrow> None
          | Some cid \<Rightarrow>
            (case command_of s cid of
               None \<Rightarrow> None
             | Some target \<Rightarrow>
               if lc_name (cmd s r) = recover_name \<and> ss_native s
               then Some (at_owner (ORecovered r (if ok then FResult (JBool True) else FError JournalFailed))
                      ((upd target (\<lambda>c. c\<lparr>lc_recovery := Preserved\<rparr>) s)\<lparr>ss_copies := ss_copies s + 1\<rparr>)) else None))
     | (RecoveryEnds, ORecovered r f) \<Rightarrow> Some (at_owner OIdle ((upd r (answer f) s)
          \<lparr>ss_target := if map_option snd (ss_target s) = Some r then None else ss_target s\<rparr>))
     | _ \<Rightarrow> None)"

definition act_closing :: "action \<Rightarrow> session \<Rightarrow> session option" where
  "act_closing a s =
    (case (a, ss_owner s) of
       (ReadModified m, OTaken r) \<Rightarrow>
         if lc_name (cmd s r) = close_name \<and> (m \<longrightarrow> \<not> ss_held s \<and> \<not> ss_allow s) then Some (at_owner (OCloseRead r m) s) else None
     | (DecideClose, OCloseRead r m) \<Rightarrow> Some (decide_close r m s)
     | (AnswerRefused, ORefused r) \<Rightarrow> Some (answer_refused r s)
     | (NotPermitted, OFinalizing) \<Rightarrow> if permitted s then None else Some (at_owner (OReport False) s)
     | (Teardown, OFinalizing) \<Rightarrow> if permitted s then Some (at_owner OTeardown s) else None
     | (Check, OTeardown) \<Rightarrow> if ss_native s \<and> healthy s \<and> \<not> (ss_requires_save s \<and> \<not> ss_allow s)
         then Some (at_owner (OChecked (ss_requires_save s) (ss_allow s)) s) else None
     | (Quit, OChecked debt allowed) \<Rightarrow> if healthy s
         then Some (at_owner OQuit (s\<lparr>ss_quits := ss_quits s @ [(debt, allowed, ss_held s)]\<rparr>)) else None
     | (Exit, OQuit) \<Rightarrow> if healthy s then Some (at_owner (OReport True) s) else None
     | (TeardownRaises, OTeardown) \<Rightarrow> Some (at_owner (OReport False) (hold_teardown s))
     | (Report ok, OReport b) \<Rightarrow> Some (report_end b ok s)
     | (HoldOn, OHeldLoop) \<Rightarrow> if ss_held s \<and> \<not> ss_allow s then Some (at_owner OHeldWait s) else None
     | (EndThread, OHeldLoop) \<Rightarrow> if ss_held s \<and> \<not> ss_allow s then None else Some (at_owner ODone s)
     | (RefusePending, OHeldWait) \<Rightarrow> (case ss_queue s of [] \<Rightarrow> None
         | r # q \<Rightarrow> Some (at_owner OHeldLoop (upd r (answer (FError CloseHeld)) (s\<lparr>ss_queue := q\<rparr>))))
     | _ \<Rightarrow> None)"

definition act :: "action \<Rightarrow> session \<Rightarrow> session option" where
  "act a s =
    (case act_caller a s of Some s' \<Rightarrow> Some s'
     | None \<Rightarrow> (case act_start a s of Some s' \<Rightarrow> Some s'
       | None \<Rightarrow> (case act_command a s of Some s' \<Rightarrow> Some s'
         | None \<Rightarrow> (case act_recovery a s of Some s' \<Rightarrow> Some s' | None \<Rightarrow> act_closing a s))))"

fun run :: "action list \<Rightarrow> session \<Rightarrow> session option" where
  "run [] s = Some s"
| "run (a # as) s = (case act a s of None \<Rightarrow> None | Some s' \<Rightarrow> run as s')"

lemma act_caller_sound: "act_caller a s = Some s' \<Longrightarrow> caller_step s s'"
  by (cases a) (auto simp: act_caller_def intro: caller_step.intros split: if_split_asm
      simp flip: prod.collapse intro: caller_step.call_execute [OF _ _ prod.collapse [symmetric]]
      caller_step.call_close [OF prod.collapse [symmetric]])

lemma act_start_sound:
  assumes "act_start a s = Some s'"
  shows "start_step s s'"
proof (cases "\<exists>v. a = Start v")
  case True
  then obtain v where v: "a = Start v" by blast
  with assms have at_ready: "ss_owner s = OReady" by (cases "ss_owner s") (simp_all add: act_start_def)
  with assms v have none: "command_of s (start_id s) = None" by (cases "command_of s (start_id s)") (simp_all add: act_start_def)
  with assms v at_ready have "s' = at_owner OIdle (s\<lparr>ss_start := if ss_start s = FPending then FResult v else ss_start s\<rparr>)"
    by (simp add: act_start_def del: if_split)
  with at_ready none show ?thesis using start_step.started [of s v] by simp
next
  case False
  with assms show ?thesis
    by (cases a; cases "ss_owner s") (auto simp: act_start_def intro: start_step.intros split: if_split_asm)
qed

lemma in_handler_Some: "in_handler s = Some r \<Longrightarrow>
    ss_owner s = OStarted r \<or> ss_owner s = OSettling r \<or> (\<exists>clean. ss_owner s = OHandler r clean \<or> ss_owner s = OReturned r clean)"
  by (cases "ss_owner s") (simp_all add: in_handler_def)

lemma act_command_sound: "act_command a s = Some s' \<Longrightarrow> command_step s s'"
proof (cases a)
  case Raise
  then show "act_command a s = Some s' \<Longrightarrow> command_step s s'"
    using command_step.raises in_handler_Some by (auto simp: act_command_def)
next
  case Interrupt
  then show "act_command a s = Some s' \<Longrightarrow> command_step s s'"
    using command_step.interrupted in_handler_Some by (auto simp: act_command_def)
qed (cases "ss_owner s"; auto simp: act_command_def intro: command_step.intros split: if_split_asm list.split_asm)+

lemma act_recovery_sound:
  assumes "act_recovery a s = Some s'"
  shows "recovery_step s s'"
proof (cases "ss_owner s")
  case (OTaken r)
  with assms obtain ok where "a = Recover ok" by (cases a) (simp_all add: act_recovery_def)
  with assms OTaken obtain cid where cid: "lc_recovery_for (cmd s r) = Some cid"
    by (cases "lc_recovery_for (cmd s r)") (simp_all add: act_recovery_def)
  with assms OTaken \<open>a = Recover ok\<close> obtain target where target: "command_of s cid = Some target"
    by (cases "command_of s cid") (simp_all add: act_recovery_def)
  have guard: "lc_name (cmd s r) = recover_name \<and> ss_native s"
    using assms OTaken \<open>a = Recover ok\<close> cid target by (auto simp: act_recovery_def split: if_split_asm)
  then have "s' = at_owner (ORecovered r (if ok then FResult (JBool True) else FError JournalFailed))
      ((upd target (\<lambda>c. c\<lparr>lc_recovery := Preserved\<rparr>) s)\<lparr>ss_copies := ss_copies s + 1\<rparr>)"
    using assms OTaken \<open>a = Recover ok\<close> cid target by (simp add: act_recovery_def del: if_split)
  with OTaken cid target guard show ?thesis using recovery_step.recovered [of s r cid target ok] by simp
next
  case (ORecovered r f)
  with assms have "a = RecoveryEnds" by (cases a) (simp_all add: act_recovery_def)
  with assms ORecovered show ?thesis using recovery_step.recovery_answered [of s r f] by (simp add: act_recovery_def del: if_split)
qed (use assms in \<open>cases a; simp add: act_recovery_def\<close>)+

lemma act_closing_sound: "act_closing a s = Some s' \<Longrightarrow> closing_step s s'"
  by (cases a; cases "ss_owner s") (auto simp: act_closing_def intro: closing_step.intros split: if_split_asm list.split_asm)

lemma act_sound: "act a s = Some s' \<Longrightarrow> session_step s s'"
  unfolding act_def
  by (auto split: option.split_asm
      intro: session_step.intros act_caller_sound act_start_sound act_command_sound act_recovery_sound act_closing_sound)

lemma run_live: "live sid s \<Longrightarrow> run as s = Some s' \<Longrightarrow> live sid s'"
  by (induction "as" s rule: run.induct) (auto split: option.split_asm dest: act_sound intro: live.moved)

end
