(* ===== verification/SessionCustody.thy ===== *)
theory SessionCustody
  imports SessionProps SessionRun
begin

text \<open>
  Custody of the native document: the invariant of the flags that decide whether the session may be torn
  down, and what it means for edits that were not proved to be saved.
\<close>

section \<open>What the calls leave alone\<close>

lemma execute_frame [simp]:
  "ss_sid (fst (execute name dirty ok s)) = ss_sid s" "ss_closing (fst (execute name dirty ok s)) = ss_closing s"
  "ss_closed (fst (execute name dirty ok s)) = ss_closed s"
  "ss_quarantined (fst (execute name dirty ok s)) = ss_quarantined s"
  "ss_allow (fst (execute name dirty ok s)) = ss_allow s" "ss_held (fst (execute name dirty ok s)) = ss_held s"
  "ss_edit_possible (fst (execute name dirty ok s)) = ss_edit_possible s"
  "ss_terminal (fst (execute name dirty ok s)) = ss_terminal s"
  "ss_active (fst (execute name dirty ok s)) = ss_active s" "ss_intent (fst (execute name dirty ok s)) = ss_intent s"
  "ss_has_handle (fst (execute name dirty ok s)) = ss_has_handle s"
  "ss_mutations (fst (execute name dirty ok s)) = ss_mutations s"
  "ss_verified (fst (execute name dirty ok s)) = ss_verified s"
  "ss_epoch (fst (execute name dirty ok s)) = ss_epoch s" "ss_native (fst (execute name dirty ok s)) = ss_native s"
  "ss_constructed (fst (execute name dirty ok s)) = ss_constructed s"
  "ss_target (fst (execute name dirty ok s)) = ss_target s" "ss_start (fst (execute name dirty ok s)) = ss_start s"
  "ss_starting (fst (execute name dirty ok s)) = ss_starting s"
  "ss_owner (fst (execute name dirty ok s)) = ss_owner s" "ss_acking (fst (execute name dirty ok s)) = ss_acking s"
  "ss_putting (fst (execute name dirty ok s)) = ss_putting s"
  "ss_started (fst (execute name dirty ok s)) = ss_started s" "ss_quits (fst (execute name dirty ok s)) = ss_quits s"
  "ss_copies (fst (execute name dirty ok s)) = ss_copies s"
  by (simp_all add: execute_def Let_def split: option.split)

lemma close_frame [simp]:
  "ss_sid (fst (close_session dirty ok s)) = ss_sid s" "ss_closed (fst (close_session dirty ok s)) = ss_closed s"
  "ss_quarantined (fst (close_session dirty ok s)) = ss_quarantined s"
  "ss_allow (fst (close_session dirty ok s)) = ss_allow s" "ss_held (fst (close_session dirty ok s)) = ss_held s"
  "ss_edit_possible (fst (close_session dirty ok s)) = ss_edit_possible s"
  "ss_terminal (fst (close_session dirty ok s)) = ss_terminal s"
  "ss_active (fst (close_session dirty ok s)) = ss_active s"
  "ss_intent (fst (close_session dirty ok s)) = ss_intent s"
  "ss_has_handle (fst (close_session dirty ok s)) = ss_has_handle s"
  "ss_mutations (fst (close_session dirty ok s)) = ss_mutations s"
  "ss_verified (fst (close_session dirty ok s)) = ss_verified s"
  "ss_epoch (fst (close_session dirty ok s)) = ss_epoch s" "ss_native (fst (close_session dirty ok s)) = ss_native s"
  "ss_constructed (fst (close_session dirty ok s)) = ss_constructed s"
  "ss_target (fst (close_session dirty ok s)) = ss_target s" "ss_start (fst (close_session dirty ok s)) = ss_start s"
  "ss_starting (fst (close_session dirty ok s)) = ss_starting s"
  "ss_owner (fst (close_session dirty ok s)) = ss_owner s" "ss_acking (fst (close_session dirty ok s)) = ss_acking s"
  "ss_putting (fst (close_session dirty ok s)) = ss_putting s"
  "ss_started (fst (close_session dirty ok s)) = ss_started s"
  "ss_quits (fst (close_session dirty ok s)) = ss_quits s" "ss_copies (fst (close_session dirty ok s)) = ss_copies s"
  by (simp_all add: close_session_def Let_def)

lemma terminalize_frame [simp]:
  "ss_sid (terminalize_timeout r s) = ss_sid s" "ss_by_id (terminalize_timeout r s) = ss_by_id s"
  "ss_last (terminalize_timeout r s) = ss_last s" "ss_counter (terminalize_timeout r s) = ss_counter s"
  "ss_closed (terminalize_timeout r s) = ss_closed s" "ss_held (terminalize_timeout r s) = ss_held s"
  "ss_edit_possible (terminalize_timeout r s) = ss_edit_possible s"
  "ss_requires_save (terminalize_timeout r s) = ss_requires_save s"
  "ss_active (terminalize_timeout r s) = ss_active s" "ss_intent (terminalize_timeout r s) = ss_intent s"
  "ss_has_handle (terminalize_timeout r s) = ss_has_handle s"
  "ss_mutations (terminalize_timeout r s) = ss_mutations s" "ss_verified (terminalize_timeout r s) = ss_verified s"
  "ss_epoch (terminalize_timeout r s) = ss_epoch s" "ss_native (terminalize_timeout r s) = ss_native s"
  "ss_constructed (terminalize_timeout r s) = ss_constructed s" "ss_target (terminalize_timeout r s) = ss_target s"
  "ss_start (terminalize_timeout r s) = ss_start s" "ss_starting (terminalize_timeout r s) = ss_starting s"
  "ss_owner (terminalize_timeout r s) = ss_owner s" "ss_waiting (terminalize_timeout r s) = ss_waiting s"
  "ss_acking (terminalize_timeout r s) = ss_acking s" "ss_putting (terminalize_timeout r s) = ss_putting s"
  "ss_started (terminalize_timeout r s) = ss_started s" "ss_quits (terminalize_timeout r s) = ss_quits s"
  "ss_written (terminalize_timeout r s) = ss_written s" "ss_copies (terminalize_timeout r s) = ss_copies s"
  by (simp_all add: terminalize_timeout_def)

lemma terminalize_start_frame [simp]:
  "ss_sid (terminalize_start s) = ss_sid s" "ss_closed (terminalize_start s) = ss_closed s"
  "ss_held (terminalize_start s) = ss_held s" "ss_edit_possible (terminalize_start s) = ss_edit_possible s"
  "ss_requires_save (terminalize_start s) = ss_requires_save s" "ss_active (terminalize_start s) = ss_active s"
  "ss_intent (terminalize_start s) = ss_intent s" "ss_has_handle (terminalize_start s) = ss_has_handle s"
  "ss_mutations (terminalize_start s) = ss_mutations s" "ss_verified (terminalize_start s) = ss_verified s"
  "ss_epoch (terminalize_start s) = ss_epoch s" "ss_native (terminalize_start s) = ss_native s"
  "ss_constructed (terminalize_start s) = ss_constructed s" "ss_target (terminalize_start s) = ss_target s"
  "ss_start (terminalize_start s) = ss_start s" "ss_starting (terminalize_start s) = ss_starting s"
  "ss_owner (terminalize_start s) = ss_owner s" "ss_waiting (terminalize_start s) = ss_waiting s"
  "ss_acking (terminalize_start s) = ss_acking s" "ss_putting (terminalize_start s) = ss_putting s"
  "ss_started (terminalize_start s) = ss_started s" "ss_quits (terminalize_start s) = ss_quits s"
  "ss_written (terminalize_start s) = ss_written s" "ss_copies (terminalize_start s) = ss_copies s"
  by (simp_all add: terminalize_start_def Let_def)

lemma reconcile_frame [simp]:
  "ss_sid (reconcile_command cid ok s) = ss_sid s" "ss_by_id (reconcile_command cid ok s) = ss_by_id s"
  "ss_queue (reconcile_command cid ok s) = ss_queue s" "ss_last (reconcile_command cid ok s) = ss_last s"
  "ss_counter (reconcile_command cid ok s) = ss_counter s" "ss_closing (reconcile_command cid ok s) = ss_closing s"
  "ss_closed (reconcile_command cid ok s) = ss_closed s"
  "ss_quarantined (reconcile_command cid ok s) = ss_quarantined s"
  "ss_allow (reconcile_command cid ok s) = ss_allow s" "ss_held (reconcile_command cid ok s) = ss_held s"
  "ss_edit_possible (reconcile_command cid ok s) = ss_edit_possible s"
  "ss_requires_save (reconcile_command cid ok s) = ss_requires_save s"
  "ss_terminal (reconcile_command cid ok s) = ss_terminal s" "ss_active (reconcile_command cid ok s) = ss_active s"
  "ss_intent (reconcile_command cid ok s) = ss_intent s"
  "ss_has_handle (reconcile_command cid ok s) = ss_has_handle s"
  "ss_mutations (reconcile_command cid ok s) = ss_mutations s"
  "ss_verified (reconcile_command cid ok s) = ss_verified s" "ss_epoch (reconcile_command cid ok s) = ss_epoch s"
  "ss_native (reconcile_command cid ok s) = ss_native s"
  "ss_constructed (reconcile_command cid ok s) = ss_constructed s"
  "ss_start (reconcile_command cid ok s) = ss_start s" "ss_starting (reconcile_command cid ok s) = ss_starting s"
  "ss_owner (reconcile_command cid ok s) = ss_owner s" "ss_waiting (reconcile_command cid ok s) = ss_waiting s"
  "ss_acking (reconcile_command cid ok s) = ss_acking s" "ss_started (reconcile_command cid ok s) = ss_started s"
  "ss_quits (reconcile_command cid ok s) = ss_quits s" "ss_written (reconcile_command cid ok s) = ss_written s"
  "ss_copies (reconcile_command cid ok s) = ss_copies s"
  by (simp_all add: reconcile_command_def Let_def split: option.split)

lemma begin_ack_frame [simp]:
  "ss_sid (begin_acknowledgement cid s) = ss_sid s" "ss_by_id (begin_acknowledgement cid s) = ss_by_id s"
  "ss_queue (begin_acknowledgement cid s) = ss_queue s" "ss_last (begin_acknowledgement cid s) = ss_last s"
  "ss_counter (begin_acknowledgement cid s) = ss_counter s" "ss_closing (begin_acknowledgement cid s) = ss_closing s"
  "ss_closed (begin_acknowledgement cid s) = ss_closed s"
  "ss_quarantined (begin_acknowledgement cid s) = ss_quarantined s"
  "ss_allow (begin_acknowledgement cid s) = ss_allow s" "ss_held (begin_acknowledgement cid s) = ss_held s"
  "ss_edit_possible (begin_acknowledgement cid s) = ss_edit_possible s"
  "ss_requires_save (begin_acknowledgement cid s) = ss_requires_save s"
  "ss_terminal (begin_acknowledgement cid s) = ss_terminal s" "ss_active (begin_acknowledgement cid s) = ss_active s"
  "ss_intent (begin_acknowledgement cid s) = ss_intent s"
  "ss_has_handle (begin_acknowledgement cid s) = ss_has_handle s"
  "ss_mutations (begin_acknowledgement cid s) = ss_mutations s"
  "ss_verified (begin_acknowledgement cid s) = ss_verified s" "ss_epoch (begin_acknowledgement cid s) = ss_epoch s"
  "ss_native (begin_acknowledgement cid s) = ss_native s"
  "ss_constructed (begin_acknowledgement cid s) = ss_constructed s"
  "ss_target (begin_acknowledgement cid s) = ss_target s" "ss_start (begin_acknowledgement cid s) = ss_start s"
  "ss_starting (begin_acknowledgement cid s) = ss_starting s" "ss_owner (begin_acknowledgement cid s) = ss_owner s"
  "ss_waiting (begin_acknowledgement cid s) = ss_waiting s" "ss_putting (begin_acknowledgement cid s) = ss_putting s"
  "ss_started (begin_acknowledgement cid s) = ss_started s" "ss_quits (begin_acknowledgement cid s) = ss_quits s"
  "ss_written (begin_acknowledgement cid s) = ss_written s" "ss_copies (begin_acknowledgement cid s) = ss_copies s"
  by (simp_all add: begin_acknowledgement_def Let_def split: option.split)

lemma finish_ack_frame [simp]:
  "ss_sid (finish_acknowledgement r ok s) = ss_sid s" "ss_queue (finish_acknowledgement r ok s) = ss_queue s"
  "ss_last (finish_acknowledgement r ok s) = ss_last s" "ss_counter (finish_acknowledgement r ok s) = ss_counter s"
  "ss_closing (finish_acknowledgement r ok s) = ss_closing s"
  "ss_closed (finish_acknowledgement r ok s) = ss_closed s"
  "ss_quarantined (finish_acknowledgement r ok s) = ss_quarantined s"
  "ss_held (finish_acknowledgement r ok s) = ss_held s"
  "ss_edit_possible (finish_acknowledgement r ok s) = ss_edit_possible s"
  "ss_requires_save (finish_acknowledgement r ok s) = ss_requires_save s"
  "ss_terminal (finish_acknowledgement r ok s) = ss_terminal s"
  "ss_active (finish_acknowledgement r ok s) = ss_active s" "ss_intent (finish_acknowledgement r ok s) = ss_intent s"
  "ss_has_handle (finish_acknowledgement r ok s) = ss_has_handle s"
  "ss_mutations (finish_acknowledgement r ok s) = ss_mutations s"
  "ss_verified (finish_acknowledgement r ok s) = ss_verified s"
  "ss_epoch (finish_acknowledgement r ok s) = ss_epoch s" "ss_native (finish_acknowledgement r ok s) = ss_native s"
  "ss_constructed (finish_acknowledgement r ok s) = ss_constructed s"
  "ss_target (finish_acknowledgement r ok s) = ss_target s" "ss_start (finish_acknowledgement r ok s) = ss_start s"
  "ss_starting (finish_acknowledgement r ok s) = ss_starting s"
  "ss_owner (finish_acknowledgement r ok s) = ss_owner s" "ss_waiting (finish_acknowledgement r ok s) = ss_waiting s"
  "ss_putting (finish_acknowledgement r ok s) = ss_putting s"
  "ss_started (finish_acknowledgement r ok s) = ss_started s" "ss_quits (finish_acknowledgement r ok s) = ss_quits s"
  "ss_written (finish_acknowledgement r ok s) = ss_written s"
  "ss_copies (finish_acknowledgement r ok s) = ss_copies s"
  by (simp_all add: finish_acknowledgement_def Let_def)

lemma take_frame [simp]:
  "ss_sid (take_command r s) = ss_sid s" "ss_by_id (take_command r s) = ss_by_id s"
  "ss_queue (take_command r s) = ss_queue s" "ss_last (take_command r s) = ss_last s"
  "ss_counter (take_command r s) = ss_counter s" "ss_closing (take_command r s) = ss_closing s"
  "ss_closed (take_command r s) = ss_closed s" "ss_quarantined (take_command r s) = ss_quarantined s"
  "ss_allow (take_command r s) = ss_allow s" "ss_held (take_command r s) = ss_held s"
  "ss_edit_possible (take_command r s) = ss_edit_possible s"
  "ss_requires_save (take_command r s) = ss_requires_save s" "ss_terminal (take_command r s) = ss_terminal s"
  "ss_has_handle (take_command r s) = ss_has_handle s" "ss_mutations (take_command r s) = ss_mutations s"
  "ss_verified (take_command r s) = ss_verified s" "ss_epoch (take_command r s) = ss_epoch s"
  "ss_native (take_command r s) = ss_native s" "ss_constructed (take_command r s) = ss_constructed s"
  "ss_target (take_command r s) = ss_target s" "ss_start (take_command r s) = ss_start s"
  "ss_starting (take_command r s) = ss_starting s" "ss_waiting (take_command r s) = ss_waiting s"
  "ss_acking (take_command r s) = ss_acking s" "ss_putting (take_command r s) = ss_putting s"
  "ss_quits (take_command r s) = ss_quits s" "ss_written (take_command r s) = ss_written s"
  "ss_copies (take_command r s) = ss_copies s"
  by (simp_all add: take_command_def)

lemma enter_frame [simp]:
  "ss_sid (enter_handler r clean s) = ss_sid s" "ss_heap (enter_handler r clean s) = ss_heap s"
  "ss_by_id (enter_handler r clean s) = ss_by_id s" "ss_queue (enter_handler r clean s) = ss_queue s"
  "ss_last (enter_handler r clean s) = ss_last s" "ss_counter (enter_handler r clean s) = ss_counter s"
  "ss_closing (enter_handler r clean s) = ss_closing s" "ss_closed (enter_handler r clean s) = ss_closed s"
  "ss_quarantined (enter_handler r clean s) = ss_quarantined s" "ss_allow (enter_handler r clean s) = ss_allow s"
  "ss_held (enter_handler r clean s) = ss_held s" "ss_terminal (enter_handler r clean s) = ss_terminal s"
  "ss_active (enter_handler r clean s) = ss_active s" "ss_has_handle (enter_handler r clean s) = ss_has_handle s"
  "ss_verified (enter_handler r clean s) = ss_verified s" "ss_epoch (enter_handler r clean s) = ss_epoch s"
  "ss_native (enter_handler r clean s) = ss_native s" "ss_constructed (enter_handler r clean s) = ss_constructed s"
  "ss_target (enter_handler r clean s) = ss_target s" "ss_start (enter_handler r clean s) = ss_start s"
  "ss_starting (enter_handler r clean s) = ss_starting s" "ss_waiting (enter_handler r clean s) = ss_waiting s"
  "ss_acking (enter_handler r clean s) = ss_acking s" "ss_putting (enter_handler r clean s) = ss_putting s"
  "ss_started (enter_handler r clean s) = ss_started s" "ss_quits (enter_handler r clean s) = ss_quits s"
  "ss_written (enter_handler r clean s) = ss_written s" "ss_copies (enter_handler r clean s) = ss_copies s"
  by (simp_all add: enter_handler_def)

lemma after_frame [simp]:
  "ss_sid (after_handler r clean s) = ss_sid s" "ss_by_id (after_handler r clean s) = ss_by_id s"
  "ss_queue (after_handler r clean s) = ss_queue s" "ss_last (after_handler r clean s) = ss_last s"
  "ss_counter (after_handler r clean s) = ss_counter s" "ss_closing (after_handler r clean s) = ss_closing s"
  "ss_closed (after_handler r clean s) = ss_closed s"
  "ss_edit_possible (after_handler r clean s) = ss_edit_possible s"
  "ss_active (after_handler r clean s) = ss_active s" "ss_intent (after_handler r clean s) = ss_intent s"
  "ss_has_handle (after_handler r clean s) = ss_has_handle s"
  "ss_mutations (after_handler r clean s) = ss_mutations s" "ss_verified (after_handler r clean s) = ss_verified s"
  "ss_epoch (after_handler r clean s) = ss_epoch s" "ss_native (after_handler r clean s) = ss_native s"
  "ss_constructed (after_handler r clean s) = ss_constructed s" "ss_target (after_handler r clean s) = ss_target s"
  "ss_start (after_handler r clean s) = ss_start s" "ss_starting (after_handler r clean s) = ss_starting s"
  "ss_waiting (after_handler r clean s) = ss_waiting s" "ss_acking (after_handler r clean s) = ss_acking s"
  "ss_putting (after_handler r clean s) = ss_putting s" "ss_started (after_handler r clean s) = ss_started s"
  "ss_quits (after_handler r clean s) = ss_quits s" "ss_written (after_handler r clean s) = ss_written s"
  "ss_copies (after_handler r clean s) = ss_copies s"
  by (simp_all add: after_handler_def Let_def)

lemma settle_frame [simp]:
  "ss_sid (settle_returned r ok s) = ss_sid s" "ss_by_id (settle_returned r ok s) = ss_by_id s"
  "ss_queue (settle_returned r ok s) = ss_queue s" "ss_last (settle_returned r ok s) = ss_last s"
  "ss_counter (settle_returned r ok s) = ss_counter s" "ss_closing (settle_returned r ok s) = ss_closing s"
  "ss_closed (settle_returned r ok s) = ss_closed s" "ss_quarantined (settle_returned r ok s) = ss_quarantined s"
  "ss_allow (settle_returned r ok s) = ss_allow s" "ss_held (settle_returned r ok s) = ss_held s"
  "ss_edit_possible (settle_returned r ok s) = ss_edit_possible s"
  "ss_terminal (settle_returned r ok s) = ss_terminal s" "ss_active (settle_returned r ok s) = ss_active s"
  "ss_intent (settle_returned r ok s) = ss_intent s" "ss_has_handle (settle_returned r ok s) = ss_has_handle s"
  "ss_mutations (settle_returned r ok s) = ss_mutations s" "ss_verified (settle_returned r ok s) = ss_verified s"
  "ss_epoch (settle_returned r ok s) = ss_epoch s" "ss_native (settle_returned r ok s) = ss_native s"
  "ss_constructed (settle_returned r ok s) = ss_constructed s" "ss_target (settle_returned r ok s) = ss_target s"
  "ss_start (settle_returned r ok s) = ss_start s" "ss_starting (settle_returned r ok s) = ss_starting s"
  "ss_waiting (settle_returned r ok s) = ss_waiting s" "ss_acking (settle_returned r ok s) = ss_acking s"
  "ss_putting (settle_returned r ok s) = ss_putting s" "ss_started (settle_returned r ok s) = ss_started s"
  "ss_quits (settle_returned r ok s) = ss_quits s" "ss_copies (settle_returned r ok s) = ss_copies s"
  by (simp_all add: settle_returned_def Let_def)

lemma exception_frame [simp]:
  "ss_sid (settle_exception r ok s) = ss_sid s" "ss_by_id (settle_exception r ok s) = ss_by_id s"
  "ss_queue (settle_exception r ok s) = ss_queue s" "ss_last (settle_exception r ok s) = ss_last s"
  "ss_counter (settle_exception r ok s) = ss_counter s" "ss_closing (settle_exception r ok s) = ss_closing s"
  "ss_closed (settle_exception r ok s) = ss_closed s"
  "ss_edit_possible (settle_exception r ok s) = ss_edit_possible s"
  "ss_requires_save (settle_exception r ok s) = ss_requires_save s"
  "ss_active (settle_exception r ok s) = ss_active s" "ss_intent (settle_exception r ok s) = ss_intent s"
  "ss_has_handle (settle_exception r ok s) = ss_has_handle s"
  "ss_mutations (settle_exception r ok s) = ss_mutations s" "ss_verified (settle_exception r ok s) = ss_verified s"
  "ss_epoch (settle_exception r ok s) = ss_epoch s" "ss_native (settle_exception r ok s) = ss_native s"
  "ss_constructed (settle_exception r ok s) = ss_constructed s" "ss_target (settle_exception r ok s) = ss_target s"
  "ss_start (settle_exception r ok s) = ss_start s" "ss_starting (settle_exception r ok s) = ss_starting s"
  "ss_waiting (settle_exception r ok s) = ss_waiting s" "ss_acking (settle_exception r ok s) = ss_acking s"
  "ss_putting (settle_exception r ok s) = ss_putting s" "ss_started (settle_exception r ok s) = ss_started s"
  "ss_quits (settle_exception r ok s) = ss_quits s" "ss_copies (settle_exception r ok s) = ss_copies s"
  by (simp_all add: settle_exception_def Let_def)

lemma signal_frame [simp]:
  "ss_sid (settle_signal r ok s) = ss_sid s" "ss_by_id (settle_signal r ok s) = ss_by_id s"
  "ss_queue (settle_signal r ok s) = ss_queue s" "ss_last (settle_signal r ok s) = ss_last s"
  "ss_counter (settle_signal r ok s) = ss_counter s" "ss_closing (settle_signal r ok s) = ss_closing s"
  "ss_closed (settle_signal r ok s) = ss_closed s" "ss_edit_possible (settle_signal r ok s) = ss_edit_possible s"
  "ss_requires_save (settle_signal r ok s) = ss_requires_save s" "ss_active (settle_signal r ok s) = ss_active s"
  "ss_intent (settle_signal r ok s) = ss_intent s" "ss_has_handle (settle_signal r ok s) = ss_has_handle s"
  "ss_mutations (settle_signal r ok s) = ss_mutations s" "ss_verified (settle_signal r ok s) = ss_verified s"
  "ss_epoch (settle_signal r ok s) = ss_epoch s" "ss_native (settle_signal r ok s) = ss_native s"
  "ss_constructed (settle_signal r ok s) = ss_constructed s" "ss_target (settle_signal r ok s) = ss_target s"
  "ss_start (settle_signal r ok s) = ss_start s" "ss_starting (settle_signal r ok s) = ss_starting s"
  "ss_waiting (settle_signal r ok s) = ss_waiting s" "ss_acking (settle_signal r ok s) = ss_acking s"
  "ss_putting (settle_signal r ok s) = ss_putting s" "ss_started (settle_signal r ok s) = ss_started s"
  "ss_quits (settle_signal r ok s) = ss_quits s" "ss_copies (settle_signal r ok s) = ss_copies s"
  by (simp_all add: settle_signal_def Let_def)

lemma run_fails_frame [simp]:
  "ss_sid (run_fails s) = ss_sid s" "ss_heap (run_fails s) = ss_heap s" "ss_by_id (run_fails s) = ss_by_id s"
  "ss_queue (run_fails s) = ss_queue s" "ss_last (run_fails s) = ss_last s" "ss_counter (run_fails s) = ss_counter s"
  "ss_closing (run_fails s) = ss_closing s" "ss_closed (run_fails s) = ss_closed s"
  "ss_edit_possible (run_fails s) = ss_edit_possible s" "ss_requires_save (run_fails s) = ss_requires_save s"
  "ss_active (run_fails s) = ss_active s" "ss_intent (run_fails s) = ss_intent s"
  "ss_has_handle (run_fails s) = ss_has_handle s" "ss_mutations (run_fails s) = ss_mutations s"
  "ss_verified (run_fails s) = ss_verified s" "ss_epoch (run_fails s) = ss_epoch s"
  "ss_native (run_fails s) = ss_native s" "ss_constructed (run_fails s) = ss_constructed s"
  "ss_target (run_fails s) = ss_target s" "ss_starting (run_fails s) = ss_starting s"
  "ss_waiting (run_fails s) = ss_waiting s" "ss_acking (run_fails s) = ss_acking s"
  "ss_putting (run_fails s) = ss_putting s" "ss_started (run_fails s) = ss_started s"
  "ss_quits (run_fails s) = ss_quits s" "ss_written (run_fails s) = ss_written s"
  "ss_copies (run_fails s) = ss_copies s"
  by (simp_all add: run_fails_def)

lemma leave_frame [simp]:
  "ss_sid (leave_command r b ok s) = ss_sid s" "ss_queue (leave_command r b ok s) = ss_queue s"
  "ss_last (leave_command r b ok s) = ss_last s" "ss_counter (leave_command r b ok s) = ss_counter s"
  "ss_closing (leave_command r b ok s) = ss_closing s" "ss_closed (leave_command r b ok s) = ss_closed s"
  "ss_edit_possible (leave_command r b ok s) = ss_edit_possible s"
  "ss_requires_save (leave_command r b ok s) = ss_requires_save s" "ss_intent (leave_command r b ok s) = ss_intent s"
  "ss_has_handle (leave_command r b ok s) = ss_has_handle s" "ss_mutations (leave_command r b ok s) = ss_mutations s"
  "ss_verified (leave_command r b ok s) = ss_verified s" "ss_epoch (leave_command r b ok s) = ss_epoch s"
  "ss_native (leave_command r b ok s) = ss_native s" "ss_constructed (leave_command r b ok s) = ss_constructed s"
  "ss_target (leave_command r b ok s) = ss_target s" "ss_starting (leave_command r b ok s) = ss_starting s"
  "ss_waiting (leave_command r b ok s) = ss_waiting s" "ss_acking (leave_command r b ok s) = ss_acking s"
  "ss_putting (leave_command r b ok s) = ss_putting s" "ss_started (leave_command r b ok s) = ss_started s"
  "ss_quits (leave_command r b ok s) = ss_quits s" "ss_copies (leave_command r b ok s) = ss_copies s"
  by (simp_all add: leave_command_def Let_def)

lemma refuse_frame [simp]:
  "ss_sid (refuse_close r e s) = ss_sid s" "ss_by_id (refuse_close r e s) = ss_by_id s"
  "ss_queue (refuse_close r e s) = ss_queue s" "ss_counter (refuse_close r e s) = ss_counter s"
  "ss_closed (refuse_close r e s) = ss_closed s" "ss_quarantined (refuse_close r e s) = ss_quarantined s"
  "ss_allow (refuse_close r e s) = ss_allow s" "ss_held (refuse_close r e s) = ss_held s"
  "ss_edit_possible (refuse_close r e s) = ss_edit_possible s"
  "ss_requires_save (refuse_close r e s) = ss_requires_save s" "ss_terminal (refuse_close r e s) = ss_terminal s"
  "ss_active (refuse_close r e s) = ss_active s" "ss_intent (refuse_close r e s) = ss_intent s"
  "ss_has_handle (refuse_close r e s) = ss_has_handle s" "ss_mutations (refuse_close r e s) = ss_mutations s"
  "ss_verified (refuse_close r e s) = ss_verified s" "ss_epoch (refuse_close r e s) = ss_epoch s"
  "ss_native (refuse_close r e s) = ss_native s" "ss_constructed (refuse_close r e s) = ss_constructed s"
  "ss_target (refuse_close r e s) = ss_target s" "ss_start (refuse_close r e s) = ss_start s"
  "ss_starting (refuse_close r e s) = ss_starting s" "ss_owner (refuse_close r e s) = ss_owner s"
  "ss_waiting (refuse_close r e s) = ss_waiting s" "ss_acking (refuse_close r e s) = ss_acking s"
  "ss_putting (refuse_close r e s) = ss_putting s" "ss_started (refuse_close r e s) = ss_started s"
  "ss_quits (refuse_close r e s) = ss_quits s" "ss_written (refuse_close r e s) = ss_written s"
  "ss_copies (refuse_close r e s) = ss_copies s"
  by (simp_all add: refuse_close_def Let_def)

lemma decide_close_frame [simp]:
  "ss_sid (decide_close r m s) = ss_sid s" "ss_by_id (decide_close r m s) = ss_by_id s"
  "ss_queue (decide_close r m s) = ss_queue s" "ss_counter (decide_close r m s) = ss_counter s"
  "ss_closed (decide_close r m s) = ss_closed s" "ss_quarantined (decide_close r m s) = ss_quarantined s"
  "ss_allow (decide_close r m s) = ss_allow s" "ss_held (decide_close r m s) = ss_held s"
  "ss_edit_possible (decide_close r m s) = ss_edit_possible s"
  "ss_requires_save (decide_close r m s) = ss_requires_save s" "ss_terminal (decide_close r m s) = ss_terminal s"
  "ss_active (decide_close r m s) = ss_active s" "ss_intent (decide_close r m s) = ss_intent s"
  "ss_has_handle (decide_close r m s) = ss_has_handle s" "ss_mutations (decide_close r m s) = ss_mutations s"
  "ss_verified (decide_close r m s) = ss_verified s" "ss_epoch (decide_close r m s) = ss_epoch s"
  "ss_native (decide_close r m s) = ss_native s" "ss_constructed (decide_close r m s) = ss_constructed s"
  "ss_target (decide_close r m s) = ss_target s" "ss_start (decide_close r m s) = ss_start s"
  "ss_starting (decide_close r m s) = ss_starting s" "ss_waiting (decide_close r m s) = ss_waiting s"
  "ss_acking (decide_close r m s) = ss_acking s" "ss_putting (decide_close r m s) = ss_putting s"
  "ss_started (decide_close r m s) = ss_started s" "ss_quits (decide_close r m s) = ss_quits s"
  "ss_written (decide_close r m s) = ss_written s" "ss_copies (decide_close r m s) = ss_copies s"
  by (simp_all add: decide_close_def refuse_close_def Let_def split: option.split)

lemma answer_refused_frame [simp]:
  "ss_sid (answer_refused r s) = ss_sid s" "ss_by_id (answer_refused r s) = ss_by_id s"
  "ss_queue (answer_refused r s) = ss_queue s" "ss_last (answer_refused r s) = ss_last s"
  "ss_counter (answer_refused r s) = ss_counter s" "ss_closing (answer_refused r s) = ss_closing s"
  "ss_closed (answer_refused r s) = ss_closed s" "ss_quarantined (answer_refused r s) = ss_quarantined s"
  "ss_allow (answer_refused r s) = ss_allow s" "ss_held (answer_refused r s) = ss_held s"
  "ss_edit_possible (answer_refused r s) = ss_edit_possible s"
  "ss_requires_save (answer_refused r s) = ss_requires_save s" "ss_terminal (answer_refused r s) = ss_terminal s"
  "ss_active (answer_refused r s) = ss_active s" "ss_intent (answer_refused r s) = ss_intent s"
  "ss_has_handle (answer_refused r s) = ss_has_handle s" "ss_mutations (answer_refused r s) = ss_mutations s"
  "ss_verified (answer_refused r s) = ss_verified s" "ss_epoch (answer_refused r s) = ss_epoch s"
  "ss_native (answer_refused r s) = ss_native s" "ss_constructed (answer_refused r s) = ss_constructed s"
  "ss_target (answer_refused r s) = ss_target s" "ss_start (answer_refused r s) = ss_start s"
  "ss_starting (answer_refused r s) = ss_starting s" "ss_waiting (answer_refused r s) = ss_waiting s"
  "ss_acking (answer_refused r s) = ss_acking s" "ss_putting (answer_refused r s) = ss_putting s"
  "ss_started (answer_refused r s) = ss_started s" "ss_quits (answer_refused r s) = ss_quits s"
  "ss_written (answer_refused r s) = ss_written s" "ss_copies (answer_refused r s) = ss_copies s"
  by (simp_all add: answer_refused_def)

lemma report_frame [simp]:
  "ss_sid (report_end b ok s) = ss_sid s" "ss_by_id (report_end b ok s) = ss_by_id s"
  "ss_last (report_end b ok s) = ss_last s" "ss_counter (report_end b ok s) = ss_counter s"
  "ss_closing (report_end b ok s) = ss_closing s" "ss_quarantined (report_end b ok s) = ss_quarantined s"
  "ss_allow (report_end b ok s) = ss_allow s" "ss_held (report_end b ok s) = ss_held s"
  "ss_edit_possible (report_end b ok s) = ss_edit_possible s"
  "ss_requires_save (report_end b ok s) = ss_requires_save s" "ss_terminal (report_end b ok s) = ss_terminal s"
  "ss_active (report_end b ok s) = ss_active s" "ss_intent (report_end b ok s) = ss_intent s"
  "ss_has_handle (report_end b ok s) = ss_has_handle s" "ss_mutations (report_end b ok s) = ss_mutations s"
  "ss_verified (report_end b ok s) = ss_verified s" "ss_epoch (report_end b ok s) = ss_epoch s"
  "ss_native (report_end b ok s) = ss_native s" "ss_constructed (report_end b ok s) = ss_constructed s"
  "ss_target (report_end b ok s) = ss_target s" "ss_start (report_end b ok s) = ss_start s"
  "ss_starting (report_end b ok s) = ss_starting s" "ss_waiting (report_end b ok s) = ss_waiting s"
  "ss_acking (report_end b ok s) = ss_acking s" "ss_putting (report_end b ok s) = ss_putting s"
  "ss_started (report_end b ok s) = ss_started s" "ss_quits (report_end b ok s) = ss_quits s"
  "ss_written (report_end b ok s) = ss_written s" "ss_copies (report_end b ok s) = ss_copies s"
  by (simp_all add: report_end_def Let_def split: option.split)

section \<open>References\<close>

lemma length_fold_upd [simp]: "length (ss_heap (fold (\<lambda>r. upd r f) rs s)) = length (ss_heap s)"
  by (induction rs arbitrary: s) simp_all

lemma heap_lengths [simp]:
  "length (ss_heap (at_owner ph s)) = length (ss_heap s)" "length (ss_heap (write_record r s)) = length (ss_heap s)"
  "length (ss_heap (cancel_pending_commands s)) = length (ss_heap s)" "length (ss_heap (quarantine s)) = length (ss_heap s)"
  "length (ss_heap (prune_in_memory_commands s)) = length (ss_heap s)" "length (ss_heap (mark_mutating_intent s)) = length (ss_heap s)"
  "length (ss_heap (hold_native_custody r may s)) = length (ss_heap s)" "length (ss_heap (hold_session e s)) = length (ss_heap s)"
  "length (ss_heap (settle_held_command r v escaped ok s)) = length (ss_heap s)" "length (ss_heap (hold_teardown s)) = length (ss_heap s)"
  "length (ss_heap (register c s)) = Suc (length (ss_heap s))"
  by (simp_all add: cancel_pending_commands_def hold_native_custody_def settle_held_command_def hold_teardown_def register_def Let_def
      split: option.split)

lemma step_lengths [simp]:
  "length (ss_heap (terminalize_timeout r s)) = length (ss_heap s)" "length (ss_heap (begin_acknowledgement cid s)) = length (ss_heap s)"
  "length (ss_heap (finish_acknowledgement r ok s)) = length (ss_heap s)" "length (ss_heap (take_command r s)) = length (ss_heap s)"
  "length (ss_heap (after_handler r b s)) = length (ss_heap s)" "length (ss_heap (settle_returned r ok s)) = length (ss_heap s)"
  "length (ss_heap (settle_exception r ok s)) = length (ss_heap s)" "length (ss_heap (settle_signal r ok s)) = length (ss_heap s)"
  "length (ss_heap (leave_command r b ok s)) = length (ss_heap s)" "length (ss_heap (decide_close r b s)) = length (ss_heap s)"
  "length (ss_heap (answer_refused r s)) = length (ss_heap s)" "length (ss_heap (report_end b ok s)) = length (ss_heap s)"
  by (simp_all add: terminalize_timeout_def begin_acknowledgement_def finish_acknowledgement_def take_command_def after_handler_def
      settle_returned_def settle_exception_def settle_signal_def leave_command_def decide_close_def refuse_close_def
      answer_refused_def report_end_def Let_def split: option.split)

lemma dict_put_values: "snd ` set (dict_put k v d) \<subseteq> insert v (snd ` set d)"
  by (induction k v d rule: dict_put.induct) auto

lemma dict_put_keys: "fst ` set (dict_put k v d) = insert k (fst ` set d)"
  by (induction k v d rule: dict_put.induct) auto

lemma map_of_dict_put [simp]: "map_of (dict_put k v d) = (map_of d)(k \<mapsto> v)"
  by (induction k v d rule: dict_put.induct) (auto simp: fun_eq_iff)

definition refs :: "session \<Rightarrow> nat set" where
  "refs s = snd ` set (ss_by_id s) \<union> set (ss_queue s) \<union> ss_waiting s \<union> set (ss_putting s) \<union> set (ss_acking s)
     \<union> owner_refs (ss_owner s) \<union> set_option (ss_active s)"

definition refs_ok :: "session \<Rightarrow> bool" where
  "refs_ok s \<longleftrightarrow> refs s \<subseteq> {..<length (ss_heap s)}"

lemma refs_less: "refs_ok s \<Longrightarrow> refs s' \<subseteq> refs s \<union> {length (ss_heap s)..<length (ss_heap s')} \<Longrightarrow> length (ss_heap s) \<le> length (ss_heap s') \<Longrightarrow> refs_ok s'"
  by (force simp: refs_ok_def subset_iff)

lemma refs_same: "refs_ok s \<Longrightarrow> refs s' \<subseteq> refs s \<Longrightarrow> length (ss_heap s) = length (ss_heap s') \<Longrightarrow> refs_ok s'"
  by (auto simp: refs_ok_def)

lemma command_of_ref: "command_of s cid = Some r \<Longrightarrow> r \<in> refs s"
  by (force simp: command_of_def refs_def dest: map_of_SomeD)

lemma command_of_bound: "refs_ok s \<Longrightarrow> command_of s cid = Some r \<Longrightarrow> r < length (ss_heap s)"
  using command_of_ref [of s cid r] by (auto simp: refs_ok_def)

lemma prune_refs: "set (ss_by_id (prune_in_memory_commands s)) \<subseteq> set (ss_by_id s)"
  by (auto simp: prune_in_memory_commands_def Let_def)

lemma register_refs: "snd ` set (ss_by_id (register c s)) \<subseteq> insert (length (ss_heap s)) (snd ` set (ss_by_id s))"
  using dict_put_values [of "lc_id c" "length (ss_heap s)" "ss_by_id s"] by (simp add: register_def)

lemma cancel_queue [simp]: "ss_queue (cancel_pending_commands s) = []"
  by (simp add: cancel_pending_commands_def)

text \<open>What an admission does, by cases: the call is refused, its journal write fails, or it waits for its command.\<close>

definition admitted :: "string \<Rightarrow> bool \<Rightarrow> session \<Rightarrow> session" where
  "admitted name dirty s = register (new_command (command_id s (ss_counter s + 1)) name (ss_counter s + 1))
     (s\<lparr>ss_requires_save := ss_requires_save s \<or> dirty, ss_counter := ss_counter s + 1\<rparr>)"

definition close_admitted :: "bool \<Rightarrow> session \<Rightarrow> session" where
  "close_admitted dirty s = register (new_command (close_id s) close_name (ss_counter s + 1))
     (s\<lparr>ss_requires_save := ss_requires_save s \<or> dirty, ss_closing := True, ss_counter := ss_counter s + 1\<rparr>)"

definition enqueued :: "session \<Rightarrow> session" where
  "enqueued s = (let r = length (ss_heap s) - 1 in
     (write_record r s)\<lparr>ss_queue := ss_queue s @ [r], ss_waiting := insert r (ss_waiting s)\<rparr>)"

lemma execute_cases:
  assumes "execute name dirty ok s = (s', reply)"
  obtains (refused) "s' = s"
  | (unwritten) "\<not> ss_closed s" "\<not> ss_closing s" "ss_terminal s = None" "s' = admitted name dirty s"
  | (waits) "\<not> ss_closed s" "\<not> ss_closing s" "ss_terminal s = None" "s' = enqueued (admitted name dirty s)"
proof (cases "ss_closed s \<or> ss_closing s \<or> ss_terminal s \<noteq> None")
  case True
  then have "fst (execute name dirty ok s) = s" by (auto simp: execute_def)
  with assms refused show thesis by simp
next
  case False
  then have "fst (execute name dirty ok s) = (if ok then enqueued (admitted name dirty s) else admitted name dirty s)"
    by (simp add: execute_def Let_def admitted_def enqueued_def command_id_def register_def)
  with assms False unwritten waits show thesis by (cases ok) auto
qed

lemma close_cases:
  assumes "close_session dirty ok s = (s', reply)"
  obtains (gone) "s' = s"
  | (refused) "\<not> ss_closed s" "s' = s\<lparr>ss_requires_save := ss_requires_save s \<or> dirty\<rparr>"
  | (unwritten) "\<not> ss_closed s" "\<not> ss_closing s" "permitted s" "\<not> (ss_held s \<and> \<not> ss_allow s)" "s' = close_admitted dirty s"
  | (waits) "\<not> ss_closed s" "\<not> ss_closing s" "permitted s" "\<not> (ss_held s \<and> \<not> ss_allow s)" "s' = enqueued (close_admitted dirty s)"
proof (cases "ss_closed s")
  case True
  then have "fst (close_session dirty ok s) = s" by (simp add: close_session_def)
  with assms gone show thesis by simp
next
  case still: False
  show thesis
  proof (cases "ss_closing s \<or> \<not> permitted s \<or> (ss_held s \<and> \<not> ss_allow s)")
    case True
    with still have "fst (close_session dirty ok s) = s\<lparr>ss_requires_save := ss_requires_save s \<or> dirty\<rparr>"
      by (auto simp: close_session_def permitted_def Let_def)
    with assms still refused show thesis by simp
  next
    case False
    then have "(ss_held s \<and> \<not> ss_allow s) = False" "(ss_quarantined s \<and> \<not> ss_allow s) = False" "ss_closing s = False"
      by (auto simp: permitted_def)
    with still have "fst (close_session dirty ok s) = (if ok then enqueued (close_admitted dirty s) else close_admitted dirty s)"
      by (cases "ss_allow s") (simp_all add: close_session_def Let_def close_admitted_def enqueued_def close_id_def register_def)
    with assms still False unwritten waits show thesis by (cases ok) auto
  qed
qed

lemma admitted_heap:
  "ss_heap (admitted name dirty s) = ss_heap s @ [new_command (command_id s (ss_counter s + 1)) name (ss_counter s + 1)]"
  "ss_heap (close_admitted dirty s) = ss_heap s @ [new_command (close_id s) close_name (ss_counter s + 1)]"
  "ss_heap (enqueued s) = ss_heap s"
  by (simp_all add: admitted_def close_admitted_def enqueued_def register_def write_record_def Let_def)

lemma admitted_frame [simp]:
  "ss_sid (admitted name dirty s) = ss_sid s" "ss_queue (admitted name dirty s) = ss_queue s"
  "ss_closing (admitted name dirty s) = ss_closing s" "ss_closed (admitted name dirty s) = ss_closed s"
  "ss_quarantined (admitted name dirty s) = ss_quarantined s" "ss_allow (admitted name dirty s) = ss_allow s"
  "ss_held (admitted name dirty s) = ss_held s" "ss_edit_possible (admitted name dirty s) = ss_edit_possible s"
  "ss_terminal (admitted name dirty s) = ss_terminal s" "ss_active (admitted name dirty s) = ss_active s"
  "ss_intent (admitted name dirty s) = ss_intent s" "ss_has_handle (admitted name dirty s) = ss_has_handle s"
  "ss_mutations (admitted name dirty s) = ss_mutations s" "ss_verified (admitted name dirty s) = ss_verified s"
  "ss_epoch (admitted name dirty s) = ss_epoch s" "ss_native (admitted name dirty s) = ss_native s"
  "ss_constructed (admitted name dirty s) = ss_constructed s" "ss_target (admitted name dirty s) = ss_target s"
  "ss_start (admitted name dirty s) = ss_start s" "ss_starting (admitted name dirty s) = ss_starting s"
  "ss_owner (admitted name dirty s) = ss_owner s" "ss_waiting (admitted name dirty s) = ss_waiting s"
  "ss_acking (admitted name dirty s) = ss_acking s" "ss_putting (admitted name dirty s) = ss_putting s"
  "ss_started (admitted name dirty s) = ss_started s" "ss_quits (admitted name dirty s) = ss_quits s"
  "ss_written (admitted name dirty s) = ss_written s" "ss_copies (admitted name dirty s) = ss_copies s"
  by (simp_all add: admitted_def)

lemma close_admitted_frame [simp]:
  "ss_sid (close_admitted dirty s) = ss_sid s" "ss_queue (close_admitted dirty s) = ss_queue s"
  "ss_closed (close_admitted dirty s) = ss_closed s" "ss_quarantined (close_admitted dirty s) = ss_quarantined s"
  "ss_allow (close_admitted dirty s) = ss_allow s" "ss_held (close_admitted dirty s) = ss_held s"
  "ss_edit_possible (close_admitted dirty s) = ss_edit_possible s"
  "ss_terminal (close_admitted dirty s) = ss_terminal s" "ss_active (close_admitted dirty s) = ss_active s"
  "ss_intent (close_admitted dirty s) = ss_intent s" "ss_has_handle (close_admitted dirty s) = ss_has_handle s"
  "ss_mutations (close_admitted dirty s) = ss_mutations s" "ss_verified (close_admitted dirty s) = ss_verified s"
  "ss_epoch (close_admitted dirty s) = ss_epoch s" "ss_native (close_admitted dirty s) = ss_native s"
  "ss_constructed (close_admitted dirty s) = ss_constructed s" "ss_target (close_admitted dirty s) = ss_target s"
  "ss_start (close_admitted dirty s) = ss_start s" "ss_starting (close_admitted dirty s) = ss_starting s"
  "ss_owner (close_admitted dirty s) = ss_owner s" "ss_waiting (close_admitted dirty s) = ss_waiting s"
  "ss_acking (close_admitted dirty s) = ss_acking s" "ss_putting (close_admitted dirty s) = ss_putting s"
  "ss_started (close_admitted dirty s) = ss_started s" "ss_quits (close_admitted dirty s) = ss_quits s"
  "ss_written (close_admitted dirty s) = ss_written s" "ss_copies (close_admitted dirty s) = ss_copies s"
  by (simp_all add: close_admitted_def)

lemma enqueued_frame [simp]:
  "ss_sid (enqueued s) = ss_sid s" "ss_heap (enqueued s) = ss_heap s" "ss_by_id (enqueued s) = ss_by_id s"
  "ss_last (enqueued s) = ss_last s" "ss_counter (enqueued s) = ss_counter s" "ss_closing (enqueued s) = ss_closing s"
  "ss_closed (enqueued s) = ss_closed s" "ss_quarantined (enqueued s) = ss_quarantined s"
  "ss_allow (enqueued s) = ss_allow s" "ss_held (enqueued s) = ss_held s"
  "ss_edit_possible (enqueued s) = ss_edit_possible s" "ss_requires_save (enqueued s) = ss_requires_save s"
  "ss_terminal (enqueued s) = ss_terminal s" "ss_active (enqueued s) = ss_active s"
  "ss_intent (enqueued s) = ss_intent s" "ss_has_handle (enqueued s) = ss_has_handle s"
  "ss_mutations (enqueued s) = ss_mutations s" "ss_verified (enqueued s) = ss_verified s"
  "ss_epoch (enqueued s) = ss_epoch s" "ss_native (enqueued s) = ss_native s"
  "ss_constructed (enqueued s) = ss_constructed s" "ss_target (enqueued s) = ss_target s"
  "ss_start (enqueued s) = ss_start s" "ss_starting (enqueued s) = ss_starting s" "ss_owner (enqueued s) = ss_owner s"
  "ss_acking (enqueued s) = ss_acking s" "ss_putting (enqueued s) = ss_putting s"
  "ss_started (enqueued s) = ss_started s" "ss_quits (enqueued s) = ss_quits s" "ss_copies (enqueued s) = ss_copies s"
  by (simp_all add: enqueued_def Let_def)

lemma register_refs_ok: "refs_ok s \<Longrightarrow> refs_ok (register c s)"
proof (rule refs_less [of s])
  show "refs (register c s) \<subseteq> refs s \<union> {length (ss_heap s)..<length (ss_heap (register c s))}"
    using register_refs [of c s] by (auto simp: refs_def)
qed simp_all

lemma admitted_refs: "refs_ok s \<Longrightarrow> refs_ok (admitted name dirty s)" "refs_ok s \<Longrightarrow> refs_ok (close_admitted dirty s)"
  unfolding admitted_def close_admitted_def by (rule register_refs_ok; simp add: refs_ok_def refs_def)+

lemma enqueued_refs: "refs_ok s \<Longrightarrow> ss_heap s \<noteq> [] \<Longrightarrow> refs_ok (enqueued s)"
  by (auto simp: refs_ok_def refs_def enqueued_def Let_def write_record_def)

lemma caller_refs:
  assumes "caller_step s s'" and "refs_ok s"
  shows "refs_ok s'"
  using assms(1)
proof cases
  case (call_execute name dirty ok reply)
  from call_execute(3) show ?thesis
    by (cases rule: execute_cases) (simp_all add: assms(2) admitted_refs enqueued_refs admitted_heap)
next
  case (call_close dirty ok reply)
  then show ?thesis
    by (cases rule: close_cases) (use assms(2) in \<open>simp_all add: admitted_refs enqueued_refs admitted_heap\<close>, simp add: refs_ok_def refs_def)
next
  case (caller_times_out r)
  then show ?thesis by (intro refs_same [OF assms(2)]) (auto simp: refs_def terminalize_timeout_def)
next
  case start_times_out
  let ?s = "register (start_command (s\<lparr>ss_starting := False\<rparr>)) (s\<lparr>ss_starting := False, ss_counter := ss_counter s + 1\<rparr>)"
  have "refs_ok ?s" by (rule register_refs_ok) (use assms(2) in \<open>simp add: refs_ok_def refs_def\<close>)
  moreover have "refs (cancel_pending_commands (quarantine ?s)) \<subseteq> refs ?s" by (auto simp: refs_def)
  ultimately have "refs_ok (cancel_pending_commands (quarantine ?s))" by (rule refs_same) simp
  moreover have "refs_ok (s\<lparr>ss_starting := False\<rparr>)" using assms(2) by (simp add: refs_ok_def refs_def)
  ultimately show ?thesis using start_times_out by (simp add: terminalize_start_def Let_def)
next
  case (call_reconcile cid ok)
  show ?thesis
  proof (rule refs_less [OF assms(2)])
    show "refs s' \<subseteq> refs s \<union> {length (ss_heap s)..<length (ss_heap s')}"
      using call_reconcile by (auto simp: reconcile_command_def Let_def refs_def split: option.splits if_splits)
  qed (use call_reconcile in \<open>simp add: reconcile_command_def Let_def split: option.split\<close>)
next
  case (call_acknowledge cid)
  show ?thesis
  proof (rule refs_same [OF assms(2)])
    show "refs s' \<subseteq> refs s"
      using call_acknowledge command_of_ref [of s cid]
      by (auto simp: begin_acknowledgement_def Let_def refs_def split: option.splits if_splits)
  qed (use call_acknowledge in simp)
next
  case (acknowledged r ok)
  have "refs s' \<subseteq> refs s"
    using acknowledged(1) prune_refs [of "s\<lparr>ss_acking := remove1 r (ss_acking s), ss_allow := True\<rparr>"] set_remove1_subset [of r "ss_acking s"]
    by (auto simp: finish_acknowledgement_def Let_def refs_def)
  then show ?thesis by (rule refs_same [OF assms(2)]) (use acknowledged in simp)
next
  case (put_recovery r)
  then show ?thesis using set_remove1_subset [of r "ss_putting s"] by (intro refs_same [OF assms(2)]) (auto simp: refs_def)
qed (intro refs_same [OF assms(2)]; auto simp: refs_def)+

lemma start_refs:
  assumes "start_step s s'" and "refs_ok s"
  shows "refs_ok s'"
  using assms(1)
proof cases
  case (start_cancelled)
  then show ?thesis by (intro refs_same [OF assms(2)]) (auto simp: refs_def)
qed (intro refs_same [OF assms(2)]; auto simp: refs_def run_fails_def)+

lemma leave_refs: "refs (leave_command r propagates ok s) \<subseteq> refs s"
proof -
  define s1 where "s1 = upd r (\<lambda>c. c\<lparr>lc_completed := True\<rparr>) (s\<lparr>ss_active := None\<rparr>)"
  define s2 where "s2 = (if ok then write_record r s1
      else upd r (\<lambda>c. c\<lparr>lc_reports := lc_reports c \<or> lc_error c = Some HeldOutcome\<rparr>)
        (if lc_held (cmd s1 r) then s1 else hold_native_custody r (may_have_edited (cmd s1 r) (ss_intent s1)) s1))"
  have "ss_by_id s2 = ss_by_id s" "ss_queue s2 = ss_queue s" "ss_waiting s2 = ss_waiting s" "ss_putting s2 = ss_putting s"
    "ss_acking s2 = ss_acking s" "ss_active s2 = None"
    by (simp_all add: s2_def s1_def)
  moreover have "leave_command r propagates ok s = (if propagates then run_fails (prune_in_memory_commands s2)
      else at_owner OIdle (prune_in_memory_commands s2))"
    unfolding leave_command_def Let_def s2_def s1_def by simp
  ultimately show ?thesis using prune_refs [of s2] by (auto simp: refs_def run_fails_def)
qed

lemma settle_refs:
  "refs (settle_returned r ok s) \<subseteq> insert r (refs s)" "refs (settle_exception r ok s) \<subseteq> insert r (refs s)"
  "refs (settle_signal r ok s) \<subseteq> insert r (refs s)" "refs (after_handler r b s) \<subseteq> insert r (refs s)"
  "refs (decide_close r b s) \<subseteq> insert r (refs s)"
  by (auto simp: refs_def settle_returned_def settle_exception_def settle_signal_def after_handler_def decide_close_def Let_def
      split: if_split_asm option.split_asm)

lemma command_refs:
  assumes "command_step s s'" and "refs_ok s"
  shows "refs_ok s'"
  using assms(1)
proof cases
  case (left_command r propagates ok)
  then show ?thesis using leave_refs [of r propagates ok s] by (intro refs_same [OF assms(2)]) simp_all
next
  case (begin_command r)
  then show ?thesis by (intro refs_same [OF assms(2)]) (auto simp: refs_def take_command_def)
next
  case (settle r ok)
  moreover have "insert r (refs s) = refs s" using settle(2) by (auto simp: refs_def)
  ultimately show ?thesis using settle_refs(1) [of r ok s] by (intro refs_same [OF assms(2)]) simp_all
next
  case (exception_settled r ok)
  moreover have "insert r (refs s) = refs s" using exception_settled(2) by (auto simp: refs_def)
  ultimately show ?thesis using settle_refs(2) [of r ok s] by (intro refs_same [OF assms(2)]) simp_all
next
  case (signal_settled r ok)
  moreover have "insert r (refs s) = refs s" using signal_settled(2) by (auto simp: refs_def)
  ultimately show ?thesis using settle_refs(3) [of r ok s] by (intro refs_same [OF assms(2)]) simp_all
next
  case (outcome_read r clean still_clean)
  moreover have "insert r (refs s) = refs s" using outcome_read(2) by (auto simp: refs_def)
  ultimately show ?thesis using settle_refs(4) [of r still_clean s] by (intro refs_same [OF assms(2)]) simp_all
next
  case (handler_copies r clean)
  then show ?thesis by (intro refs_same [OF assms(2)]) (auto simp: refs_def private_copy_def)
next
  case (handler_records r clean epoch)
  then show ?thesis by (intro refs_same [OF assms(2)]) (auto simp: refs_def record_package_def split: option.split_asm if_split_asm)
qed (intro refs_same [OF assms(2)]; auto simp: refs_def enter_handler_def)+

lemma recovery_refs:
  assumes "recovery_step s s'" and "refs_ok s"
  shows "refs_ok s'"
  using assms(1)
proof cases
  case (not_recovered r cid)
  then show ?thesis by (intro refs_same [OF assms(2)]) (auto simp: refs_def split: option.split_asm)
qed (intro refs_same [OF assms(2)]; auto simp: refs_def)+

lemma closing_refs:
  assumes "closing_step s s'" and "refs_ok s"
  shows "refs_ok s'"
  using assms(1)
proof cases
  case (close_decided r m)
  moreover have "insert r (refs s) = refs s" using close_decided(2) by (auto simp: refs_def)
  ultimately show ?thesis using settle_refs(5) [of r m s] by (intro refs_same [OF assms(2)]) simp_all
next
  case (reported b reports_ok)
  moreover have "refs (report_end b reports_ok s) \<subseteq> refs s"
    by (auto simp: refs_def report_end_def Let_def split: option.split_asm if_split_asm)
  ultimately show ?thesis by (intro refs_same [OF assms(2)]) simp_all
next
  case (close_refused r)
  then show ?thesis by (intro refs_same [OF assms(2)]) (auto simp: refs_def answer_refused_def)
qed (intro refs_same [OF assms(2)]; auto simp: refs_def)+

lemma session_refs: "session_step s s' \<Longrightarrow> refs_ok s \<Longrightarrow> refs_ok s'"
  by (erule session_step.cases) (auto intro: caller_refs start_refs command_refs recovery_refs closing_refs)

section \<open>The invariant\<close>

definition preserved_copied :: "nat \<Rightarrow> nat \<Rightarrow> live_command \<Rightarrow> bool" where
  "preserved_copied n r c \<longleftrightarrow> lc_recovery c = Preserved \<longrightarrow> 0 < n"

definition before_quit :: "owner \<Rightarrow> bool" where
  "before_quit ph = (case ph of OQuit \<Rightarrow> False | OReport _ \<Rightarrow> False | OHeldLoop \<Rightarrow> False | OHeldWait \<Rightarrow> False | ODone \<Rightarrow> False | _ \<Rightarrow> True)"

definition quit_ok :: "nat \<Rightarrow> bool \<Rightarrow> bool \<Rightarrow> bool" where
  "quit_ok n debt allowed \<longleftrightarrow> (debt \<longrightarrow> allowed) \<and> (allowed \<longrightarrow> 0 < n)"

definition flags_ok :: "session \<Rightarrow> bool" where
  "flags_ok s \<longleftrightarrow>
    (ss_held s \<longrightarrow> ss_quarantined s) \<and> (ss_quarantined s \<longrightarrow> ss_terminal s \<noteq> None)
    \<and> (ss_acking s \<noteq> [] \<or> ss_allow s \<longrightarrow> 0 < ss_copies s)
    \<and> (before_quit (ss_owner s) \<longrightarrow> ss_quits s = []) \<and> length (ss_quits s) \<le> 1
    \<and> (\<forall>(debt, allowed, h) \<in> set (ss_quits s). \<not> h \<and> quit_ok (ss_copies s) debt allowed)
    \<and> (\<forall>debt allowed. ss_owner s = OChecked debt allowed \<longrightarrow> quit_ok (ss_copies s) debt allowed)"

lemma kept_preserved: "stable Q A (preserved_copied n)"
  by (simp add: stable_def late_start_def preserved_copied_def ensure_data_def cancel_command_def end_state_def answer_def
      apply_outcome_def hold_command_def settle_command_def finish_close_def stop_command_def Let_def)

lemma preserved_more: "all_cells (preserved_copied n) s \<Longrightarrow> n \<le> m \<Longrightarrow> all_cells (preserved_copied m) s"
  by (auto simp: all_cells_def preserved_copied_def)

lemma preserved_new [simp]:
  "preserved_copied n r (new_command cid name k)" "preserved_copied n r (recover_command s cid)" "preserved_copied n r (start_command s)"
  by (simp_all add: preserved_copied_def new_command_def recover_command_def start_command_def Let_def)

lemma preserved_timed_out: "preserved_copied n r (time_out_command c)"
  by (simp add: preserved_copied_def time_out_command_def answer_def Let_def)

lemma execute_step: "execute name dirty ok s = (s', reply) \<Longrightarrow> s' = fst (execute name dirty ok s)"
  and close_step: "close_session dirty ok s = (s', reply') \<Longrightarrow> s' = fst (close_session dirty ok s)"
  by simp_all

lemma caller_flags:
  assumes "caller_step s s'" and "flags_ok s" and "all_cells (preserved_copied (ss_copies s)) s" and "refs_ok s"
  shows "flags_ok s' \<and> ss_copies s' = ss_copies s"
  using assms(1)
proof cases
  case (call_execute name dirty ok reply)
  from execute_step [OF this(3)] assms(2) show ?thesis by (simp add: flags_ok_def)
next
  case (call_close dirty ok reply)
  from close_step [OF this] assms(2) show ?thesis by (simp add: flags_ok_def)
next
  case (caller_times_out r)
  then show ?thesis using assms(2) by (auto simp: flags_ok_def terminalize_timeout_def)
next
  case start_times_out
  then show ?thesis using assms(2) by (auto simp: flags_ok_def terminalize_start_def Let_def)
next
  case (call_acknowledge cid)
  show ?thesis
  proof (cases "ss_acking s' = ss_acking s")
    case True
    then show ?thesis using call_acknowledge assms(2) by (simp add: flags_ok_def)
  next
    case False
    then obtain r where "command_of s cid = Some r" "lc_recovery (cmd s r) = Preserved"
      using call_acknowledge by (auto simp: begin_acknowledgement_def Let_def split: option.split_asm if_split_asm)
    then have "0 < ss_copies s"
      using assms(3) command_of_bound [OF assms(4), of cid r] by (simp add: all_cells_def preserved_copied_def)
    with call_acknowledge assms(2) show ?thesis by (simp add: flags_ok_def)
  qed
next
  case (acknowledged r ok)
  then have "ss_acking s \<noteq> []" by auto
  with assms(2) acknowledged show ?thesis
    by (auto simp: flags_ok_def finish_acknowledgement_def Let_def)
qed (use assms(2) in \<open>auto simp: flags_ok_def\<close>)

text \<open>A step either leaves the custody flags or holds the session.\<close>

definition same_or_held :: "session \<Rightarrow> session \<Rightarrow> bool" where
  "same_or_held s s' \<longleftrightarrow>
    (ss_held s' = ss_held s \<and> ss_quarantined s' = ss_quarantined s \<and> ss_allow s' = ss_allow s \<and> (ss_terminal s' = ss_terminal s \<or> ss_terminal s' \<noteq> None))
    \<or> (ss_held s' \<and> ss_quarantined s' \<and> \<not> ss_allow s' \<and> ss_terminal s' \<noteq> None)"

lemma same_or_held_refl [simp]: "same_or_held s s"
  by (simp add: same_or_held_def)

lemma same_or_held_trans: "same_or_held s t \<Longrightarrow> same_or_held t u \<Longrightarrow> same_or_held s u"
  by (auto simp: same_or_held_def)

lemma same_or_held_frame:
  "ss_held s' = ss_held s \<Longrightarrow> ss_quarantined s' = ss_quarantined s \<Longrightarrow> ss_allow s' = ss_allow s \<Longrightarrow> ss_terminal s' = ss_terminal s
   \<Longrightarrow> same_or_held s s'"
  by (simp add: same_or_held_def)

lemma holds_session:
  "same_or_held s (hold_native_custody r may s)" "same_or_held s (hold_session e s)" "same_or_held s (hold_teardown s)"
  "same_or_held s (run_fails s)"
  by (auto simp: same_or_held_def run_fails_def)

lemma holds_after:
  "same_or_held s (after_handler r b s)" "same_or_held s (settle_exception r ok s)" "same_or_held s (settle_signal r ok s)"
  "same_or_held s (leave_command r b ok s)"
proof -
  show "same_or_held s (after_handler r b s)" by (auto simp: after_handler_def Let_def same_or_held_def)
  show "same_or_held s (settle_exception r ok s)" by (auto simp: settle_exception_def Let_def same_or_held_def)
  show "same_or_held s (settle_signal r ok s)" by (auto simp: settle_signal_def same_or_held_def)
  show "same_or_held s (leave_command r b ok s)" by (auto simp: leave_command_def Let_def same_or_held_def run_fails_def)
qed

lemma flags_same_or_held:
  assumes "flags_ok s" and "same_or_held s s'" and "ss_copies s' = ss_copies s" and "ss_quits s' = ss_quits s" and "ss_acking s' = ss_acking s"
    and "before_quit (ss_owner s') \<Longrightarrow> before_quit (ss_owner s)"
    and "\<And>debt allowed. ss_owner s' = OChecked debt allowed \<Longrightarrow> ss_owner s = OChecked debt allowed"
  shows "flags_ok s'"
  using assms unfolding flags_ok_def same_or_held_def by auto

lemma take_owner: "ss_owner (take_command r s) = (if lc_state (cmd s r) \<noteq> Queued \<or> ss_terminal s \<noteq> None then OIdle else OStarted r)"
  by (simp add: take_command_def at_owner_def)

lemma owners [simp]:
  "ss_owner (enter_handler r b s) = OHandler r b" "ss_owner (after_handler r b s) = OSettling r"
  "ss_owner (settle_exception r ok s) = OFinally r False" "ss_owner (run_fails s) = OFinalizing"
  "ss_owner (answer_refused r s) = OIdle" "ss_owner (report_end b ok s) = OHeldLoop"
  by (simp_all add: enter_handler_def after_handler_def settle_exception_def run_fails_def answer_refused_def report_end_def
      at_owner_def Let_def)

lemma owner_choices:
  "ss_owner (settle_signal r ok s) \<in> {OFinally r True, OFinally r False}"
  "ss_owner (leave_command r b ok s) \<in> {OIdle, OFinalizing}"
  "ss_owner (decide_close r m s) \<in> {ORefused r, OFinalizing}"
  "ss_owner (settle_returned r ok s) \<in> {OFinally r False, OException r}"
  by (simp_all add: settle_signal_def leave_command_def decide_close_def settle_returned_def at_owner_def run_fails_def Let_def
      split: option.split)

lemma start_flags:
  assumes "start_step s s'" and "flags_ok s"
  shows "flags_ok s' \<and> ss_copies s' = ss_copies s"
  using assms(1)
proof cases
  case start_fails
  then show ?thesis by (auto intro!: flags_same_or_held [OF assms(2) holds_session(4) [of s]] simp: before_quit_def)
next
  case location_fails
  then show ?thesis by (auto intro!: flags_same_or_held [OF assms(2) holds_session(4) [of s]] simp: before_quit_def)
qed (use assms(2) in \<open>auto simp: flags_ok_def before_quit_def\<close>)

lemma command_flags:
  assumes "command_step s s'" and "flags_ok s"
  shows "flags_ok s' \<and> ss_copies s' = ss_copies s"
  using assms(1)
proof cases
  case (handler_holds r clean may)
  then show ?thesis by (auto intro: flags_same_or_held [OF assms(2) holds_session(1) [of s r may]])
next
  case (outcome_read r clean still_clean)
  then show ?thesis by (auto intro!: flags_same_or_held [OF assms(2) holds_after(1) [of s r still_clean]] simp: before_quit_def)
next
  case (exception_settled r ok)
  then show ?thesis by (auto intro!: flags_same_or_held [OF assms(2) holds_after(2) [of s r ok]] simp: before_quit_def)
next
  case (signal_settled r ok)
  then show ?thesis using owner_choices(1) [of r ok s]
    by (auto intro!: flags_same_or_held [OF assms(2) holds_after(3) [of s r ok]] simp: before_quit_def)
next
  case (left_command r propagates ok)
  then show ?thesis using owner_choices(2) [of r propagates ok s]
    by (auto intro!: flags_same_or_held [OF assms(2) holds_after(4) [of s r propagates ok]] simp: before_quit_def)
next
  case (settle r ok)
  then show ?thesis using owner_choices(4) [of r ok s]
    by (auto intro!: flags_same_or_held [OF assms(2) same_or_held_frame] simp: before_quit_def)
next
  case (begin_command r)
  then show ?thesis by (auto intro!: flags_same_or_held [OF assms(2) same_or_held_frame] simp: before_quit_def take_owner split: if_split_asm)
next
  case (handler_copies r clean)
  then show ?thesis using assms(2) by (auto simp: private_copy_def flags_ok_def)
next
  case (handler_records r clean epoch)
  then show ?thesis using assms(2) by (auto simp: record_package_def flags_ok_def split: option.split_asm if_split_asm)
qed (auto intro!: flags_same_or_held [OF assms(2) same_or_held_frame] simp: before_quit_def)

lemma recovery_flags:
  assumes "recovery_step s s'" and "flags_ok s"
  shows "flags_ok s' \<and> ss_copies s \<le> ss_copies s'"
  using assms(1)
proof cases
  case (recovered r cid target ok)
  then show ?thesis using assms(2) by (auto simp: flags_ok_def before_quit_def quit_ok_def)
next
  case (not_recovered r cid)
  then show ?thesis using assms(2) by (auto simp: flags_ok_def before_quit_def split: option.split)
qed (use assms(2) in \<open>auto simp: flags_ok_def before_quit_def\<close>)

lemma closing_flags:
  assumes "closing_step s s'" and "flags_ok s"
  shows "flags_ok s' \<and> ss_copies s' = ss_copies s"
  using assms(1)
proof cases
  case (close_decided r m)
  then show ?thesis using owner_choices(3) [of r m s]
    by (auto intro!: flags_same_or_held [OF assms(2) same_or_held_frame] simp: before_quit_def)
next
  case (read_fails r)
  then show ?thesis
    by (auto intro!: flags_same_or_held [OF assms(2) holds_session(1) [of s r False, THEN same_or_held_trans, OF same_or_held_frame]] simp: before_quit_def)
next
  case watchdog_stays
  then show ?thesis
    by (auto intro!: flags_same_or_held [OF assms(2)] simp: before_quit_def same_or_held_def)
next
  case (teardown_raises)
  then show ?thesis
    by (auto intro!: flags_same_or_held [OF assms(2) holds_session(3) [of s, THEN same_or_held_trans, OF same_or_held_frame]] simp: before_quit_def)
next
  case checked
  with assms(2) show ?thesis by (auto simp: flags_ok_def quit_ok_def before_quit_def)
next
  case (quits debt allowed)
  with assms(2) show ?thesis by (auto simp: flags_ok_def before_quit_def healthy_def)
qed (auto intro!: flags_same_or_held [OF assms(2) same_or_held_frame] simp: before_quit_def)

lemma answered_cells:
  assumes "recovery_step s s'" and "stable Q A P" and "all_cells P s" and "ss_copies s' = ss_copies s"
  shows "all_cells P s'"
  using assms(1)
proof cases
  case (recovered r cid target ok)
  with assms(4) show ?thesis by simp
next
  case (not_recovered r cid)
  have "all_cells P (upd t (\<lambda>c. if lc_recovery c = Preserved then c else c\<lparr>lc_recovery := RecoveryFailed\<rparr>) s)" for t
    by (rule kept_put [OF assms(2,3)]) (simp add: keptD [OF assms(2)])
  then show ?thesis using not_recovered(1) assms(3) by (simp split: option.split)
next
  case (recovery_answered r f)
  have "all_cells P (upd r (answer f) s)" by (rule kept_put [OF assms(2,3)]) (rule keptD [OF assms(2)])
  then show ?thesis using recovery_answered(1) by (simp add: all_cells_def)
qed

definition custody_ok :: "session \<Rightarrow> bool" where
  "custody_ok s \<longleftrightarrow> refs_ok s \<and> flags_ok s \<and> all_cells (preserved_copied (ss_copies s)) s"

lemma step_custody:
  assumes "session_step s s'" and "custody_ok s"
  shows "custody_ok s'"
proof -
  have refs: "refs_ok s" and flags: "flags_ok s" and cells: "all_cells (preserved_copied (ss_copies s)) s"
    using assms(2) by (simp_all add: custody_ok_def)
  have "flags_ok s' \<and> all_cells (preserved_copied (ss_copies s')) s'"
    using assms(1)
  proof cases
    case by_caller
    from caller_flags [OF this flags cells refs] caller_cells [OF this kept_preserved [of UNIV UNIV] cells] show ?thesis
      by (simp add: preserved_timed_out)
  next
    case by_start
    from start_flags [OF this flags] start_cells [OF this kept_preserved [of UNIV UNIV] cells] show ?thesis by simp
  next
    case by_command
    from command_flags [OF this flags] command_cells [OF this kept_preserved cells order_refl] show ?thesis
      by (simp add: preserved_copied_def answer_def)
  next
    case by_closing
    from closing_flags [OF this flags] closing_cells [OF this kept_preserved cells order_refl order_refl] show ?thesis by simp
  next
    case by_recovery
    have "all_cells (preserved_copied (ss_copies s')) s'"
    proof (cases "ss_copies s' = ss_copies s")
      case False
      with recovery_flags [OF by_recovery flags] have "0 < ss_copies s'" by simp
      then show ?thesis by (simp add: all_cells_def preserved_copied_def)
    next
      case True
      from answered_cells [OF by_recovery kept_preserved [of UNIV UNIV] cells this] show ?thesis by (simp add: True)
    qed
    with recovery_flags [OF by_recovery flags] show ?thesis by simp
  qed
  with session_refs [OF assms(1) refs] show ?thesis by (simp add: custody_ok_def)
qed

lemma live_custody: "live sid s \<Longrightarrow> custody_ok s"
proof (induction rule: live.induct)
  case opened
  then show ?case
    by (simp add: custody_ok_def refs_ok_def refs_def flags_ok_def all_cells_def new_session_def before_quit_def)
next
  case (moved s s')
  then show ?case by (blast intro: step_custody)
qed

section \<open>Runs\<close>

definition ok_result :: json where "ok_result = JObj [(''ok'', JBool True)]"

definition start_acts :: "action list" where
  "start_acts = [Construct, Constructed, Open, Start JNull]"

definition command_acts :: "json \<Rightarrow> action list" where
  "command_acts v = [Take, Begin, Enter False, HandlerReturns v, Outcome False, Settle True, Leave True]"

definition close_acts :: "action list" where
  "close_acts = [Take, ReadModified False, DecideClose, Teardown, Check, Quit, Exit, Report True, EndThread]"

text \<open>A command that only reads, and then an ordinary close.\<close>

definition read_and_close :: "action list" where
  "read_and_close = start_acts @ [Execute ''find'' False True] @ command_acts ok_result @ [Return 0, CloseCall False True] @ close_acts"

lemma read_and_close_runs:
  "map_option (\<lambda>s. (ss_quits s, ss_closed s, ss_held s)) (run read_and_close (new_session ''s'')) = Some ([(False, False, False)], True, False)"
  by code_simp

text \<open>A command whose handler raises: its outcome is unknown.\<close>

definition raise_in_handler :: "action list" where
  "raise_in_handler = start_acts @ [Execute ''type'' False True, Take, Begin, Enter False, Raise, SettleRaised True, Leave True]"

lemma raise_in_handler_runs:
  "map_option (\<lambda>s. (ss_held s, ss_allow s, ss_acking s)) (run raise_in_handler (new_session ''s'')) = Some (True, False, [])"
  "map_option (\<lambda>s. (ss_quits s, ss_owner s = ODone)) (run raise_in_handler (new_session ''s'')) = Some ([], False)"
  by code_simp+

lemma run_reaches: "map_option f (run as (new_session sid)) = Some x \<Longrightarrow> \<exists>s. run as (new_session sid) = Some s \<and> live sid s \<and> f s = x"
  using run_live [OF live.opened] by auto

section \<open>Properties\<close>



text \<open>A held session with no acknowledgement under way: nothing lets go of it.\<close>

definition held_alone :: "session \<Rightarrow> bool" where
  "held_alone s \<longleftrightarrow> ss_held s \<and> \<not> ss_allow s \<and> ss_acking s = []"

lemma held_alone_step:
  assumes "session_step s s'" and "held_alone s"
  shows "held_alone s' \<and> ss_quits s' = ss_quits s \<and> (ss_owner s' = ODone \<longrightarrow> ss_owner s = ODone)"
proof -
  have held: "ss_held s" "\<not> ss_allow s" "ss_acking s = []" using assms(2) by (simp_all add: held_alone_def)
  have keep: "same_or_held s t \<Longrightarrow> ss_acking t = [] \<Longrightarrow> held_alone t" for t
    using held by (auto simp: same_or_held_def held_alone_def)
  note keep' = keep [OF same_or_held_frame]
  from assms(1) show ?thesis
  proof cases
    case by_caller
    then show ?thesis
    proof cases
      case (call_execute name dirty ok reply)
      from execute_step [OF call_execute(3)] held show ?thesis by (simp add: held_alone_def)
    next
      case (call_close dirty ok reply)
      from close_step [OF call_close] held show ?thesis by (simp add: held_alone_def)
    next
      case (caller_times_out r)
      with held show ?thesis by (auto simp: held_alone_def terminalize_timeout_def)
    next
      case start_times_out
      with held show ?thesis by (auto simp: held_alone_def terminalize_start_def Let_def)
    next
      case (call_acknowledge cid)
      with held show ?thesis by (auto simp: held_alone_def begin_acknowledgement_def split: option.split)
    next
      case (acknowledged r ok)
      with held show ?thesis by simp
    qed (use held in \<open>auto simp: held_alone_def\<close>)
  next
    case by_start
    then show ?thesis using keep [OF holds_session(4)] held by cases (auto simp: held_alone_def)
  next
    case by_command
    then show ?thesis
    proof cases
      case (signal_settled r ok)
      then show ?thesis using keep [OF holds_after(3)] held owner_choices(1) [of r ok s] by auto
    next
      case (left_command r propagates ok)
      then show ?thesis using keep [OF holds_after(4)] held owner_choices(2) [of r propagates ok s] by auto
    next
      case (settle r ok)
      then show ?thesis using held owner_choices(4) [of r ok s] by (auto simp: held_alone_def)
    next
      case (begin_command r)
      then show ?thesis using held by (auto simp: held_alone_def take_owner split: if_split_asm)
    next
      case (handler_copies r clean)
      then show ?thesis using held by (auto simp: private_copy_def held_alone_def)
    next
      case (handler_records r clean epoch)
      then show ?thesis using held by (auto simp: record_package_def held_alone_def split: option.split_asm if_split_asm)
    qed (use keep [OF holds_session(1)] keep [OF holds_after(1)] keep [OF holds_after(2)] held in \<open>auto simp: held_alone_def\<close>)
  next
    case by_recovery
    then show ?thesis using held by cases (auto simp: held_alone_def split: option.split)
  next
    case by_closing
    then show ?thesis
    proof cases
      case (close_decided r m)
      then show ?thesis using held owner_choices(3) [of r m s] by (auto simp: held_alone_def)
    qed (use held in \<open>auto simp: held_alone_def healthy_def\<close>)
  qed
qed

text \<open>
  C28. Once a session is held and no acknowledgement is under way, it stays held: whatever its callers and its
  owning thread do, the editor is never told to quit any more, no teardown is ever permitted, and the owning
  thread with the native document does not end.
\<close>

theorem held_custody_is_permanent:
  assumes "session_step\<^sup>*\<^sup>* s s'" and "ss_held s" and "\<not> ss_allow s" and "ss_acking s = []" and "ss_owner s \<noteq> ODone"
  shows "ss_held s' \<and> \<not> ss_allow s' \<and> ss_quits s' = ss_quits s \<and> ss_owner s' \<noteq> ODone"
proof -
  have "held_alone s' \<and> ss_quits s' = ss_quits s \<and> ss_owner s' \<noteq> ODone"
    using assms(1)
  proof induction
    case base
    with assms(2-5) show ?case by (simp add: held_alone_def)
  next
    case (step t u)
    with held_alone_step [OF step(2)] show ?case by auto
  qed
  then show ?thesis by (simp add: held_alone_def)
qed

theorem held_custody_is_permanent_witness:
  "\<exists>s s'. live ''s'' s \<and> session_step s s' \<and> ss_held s \<and> ss_held s' \<and> ss_quits s' = []"
proof -
  obtain s where r: "run raise_in_handler (new_session ''s'') = Some s" and s: "live ''s'' s" "ss_held s" "\<not> ss_allow s" "ss_acking s = []"
    using run_reaches [OF raise_in_handler_runs(1)] by auto
  then have q: "ss_quits s = []" "ss_owner s \<noteq> ODone" using raise_in_handler_runs(2) by auto
  obtain s' reply where c: "close_session False True s = (s', reply)" by (cases "close_session False True s")
  then have "session_step s s'" by (intro session_step.by_caller caller_step.call_close)
  moreover from this have "session_step\<^sup>*\<^sup>* s s'" by blast
  from held_custody_is_permanent [OF this s(2,3,4) q(2)] q(1) have "ss_held s'" "ss_quits s' = []" by simp_all
  ultimately show ?thesis using s by blast
qed

end
