(* ===== verification/SessionOrder.thy ===== *)
theory SessionOrder
  imports SessionCustody
begin

text \<open>
  The order of a session's commands: every cell keeps its identity and an answer is never changed, the
  commands start in the order in which they were admitted, and a caller that waits has its command in the
  queue or in the hands of the owning thread.
\<close>

section \<open>What every step keeps of a cell\<close>

definition user_command :: "live_command \<Rightarrow> bool" where
  "user_command c \<longleftrightarrow> lc_name c \<noteq> close_name \<and> lc_name c \<noteq> recover_name"

definition same_identity :: "live_command \<Rightarrow> live_command \<Rightarrow> bool" where
  "same_identity c c' \<longleftrightarrow> lc_id c' = lc_id c \<and> lc_name c' = lc_name c \<and> lc_sequence c' = lc_sequence c
     \<and> lc_recovery_for c' = lc_recovery_for c"

text \<open>An answer is final, and no command is queued again.\<close>

definition follows :: "live_command \<Rightarrow> live_command \<Rightarrow> bool" where
  "follows c c' \<longleftrightarrow> same_identity c c' \<and> (lc_future c \<noteq> FPending \<longrightarrow> lc_future c' = lc_future c)
     \<and> (lc_state c \<noteq> Queued \<longrightarrow> lc_state c' \<noteq> Queued)"

definition stays_queued :: "live_command \<Rightarrow> live_command \<Rightarrow> bool" where
  "stays_queued c c' \<longleftrightarrow> lc_state c = Queued \<and> lc_future c' = FPending \<longrightarrow> lc_state c' = Queued"

definition not_cancelled :: "live_command \<Rightarrow> live_command \<Rightarrow> bool" where
  "not_cancelled c c' \<longleftrightarrow> lc_state c \<noteq> Cancelled \<longrightarrow> lc_state c' \<noteq> Cancelled"

definition fresh_cell :: "session \<Rightarrow> live_command \<Rightarrow> bool" where
  "fresh_cell s c \<longleftrightarrow> (lc_name c = recover_name \<and> lc_recovery_for c \<noteq> None \<or> lc_name c \<noteq> recover_name \<and> lc_sequence c = ss_counter s + 1)
     \<and> (lc_name c = close_name \<longleftrightarrow> lc_id c = close_id s)"

definition in_hand :: "session \<Rightarrow> nat set" where
  "in_hand s = owner_refs (ss_owner s) \<union> set_option (command_of s (close_id s))"

definition taken :: "session \<Rightarrow> nat list" where
  "taken s = (case ss_owner s of OTaken r \<Rightarrow> [r] | _ \<Rightarrow> [])"

definition next_cell :: "nat set \<Rightarrow> session \<Rightarrow> nat \<Rightarrow> live_command \<Rightarrow> bool" where
  "next_cell A s r c \<longleftrightarrow>
    (if r < length (ss_heap s) then
       follows (cmd s r) c \<and> (r \<in> A \<or> stays_queued (cmd s r) c)
       \<and> (r \<in> set (taken s @ ss_queue s) \<or> not_cancelled (cmd s r) c)
     else fresh_cell s c)"

lemmas cell_rules = follows_def same_identity_def stays_queued_def not_cancelled_def fresh_cell_def

lemma next_cell_refl [simp]: "all_cells (next_cell A s) s"
  by (simp add: all_cells_def next_cell_def cell_rules)

lemma state_choices:
  "lc_state (apply_outcome v e c) = lc_state c" "lc_state (answer f c) = lc_state c" "lc_state (ensure_data c) = lc_state c"
  "lc_state (hold_command b c) = lc_state c" "lc_state (late_start w c) = CompletedLate"
  "lc_state (end_state c) \<noteq> Queued" "lc_state (end_state c) \<noteq> Cancelled" "lc_state (settle_command b c) \<noteq> Queued"
  "lc_state (settle_command b c) \<noteq> Cancelled" "lc_state (finish_close b t c) \<noteq> Queued" "lc_state (finish_close b t c) \<noteq> Cancelled"
  "lc_state (stop_command t c) = (if lc_timed_out c \<and> lc_state c = TimedOutPending then FailedLate else lc_state c)"
  by (auto simp: apply_outcome_def answer_def ensure_data_def hold_command_def late_start_def end_state_def settle_command_def
      finish_close_def stop_command_def Let_def)

lemma future_choices:
  "lc_future (apply_outcome v e c) = lc_future c" "lc_future (answer f c) = (if lc_future c = FPending then f else lc_future c)"
  "lc_future (ensure_data c) = lc_future c" "lc_future (hold_command b c) = lc_future c"
  "lc_future (late_start w c) = (if lc_future c = FPending then FResult w else lc_future c)"
  "lc_future (end_state c) = lc_future c" "lc_future (settle_command b c) = lc_future c" "lc_future (finish_close b t c) = lc_future c"
  "lc_future (stop_command t c) = (if lc_future c = FPending then FError (case t of None \<Rightarrow> StoppedError | Some e \<Rightarrow> e) else lc_future c)"
  by (auto simp: apply_outcome_def answer_def ensure_data_def hold_command_def late_start_def end_state_def settle_command_def
      finish_close_def stop_command_def Let_def)

lemma identities:
  "same_identity d (apply_outcome v e c) = same_identity d c" "same_identity d (answer f c) = same_identity d c"
  "same_identity d (ensure_data c) = same_identity d c" "same_identity d (hold_command b c) = same_identity d c"
  "same_identity d (late_start w c) = same_identity d c" "same_identity d (end_state c) = same_identity d c"
  "same_identity d (settle_command b c) = same_identity d c" "same_identity d (finish_close b t c) = same_identity d c"
  "same_identity d (stop_command t c) = same_identity d c" "same_identity d (cancel_command c) = same_identity d c"
  "fresh_cell s (apply_outcome v e c) = fresh_cell s c" "fresh_cell s (answer f c) = fresh_cell s c"
  "fresh_cell s (ensure_data c) = fresh_cell s c" "fresh_cell s (hold_command b c) = fresh_cell s c"
  "fresh_cell s (late_start w c) = fresh_cell s c" "fresh_cell s (end_state c) = fresh_cell s c"
  "fresh_cell s (settle_command b c) = fresh_cell s c" "fresh_cell s (finish_close b t c) = fresh_cell s c"
  "fresh_cell s (stop_command t c) = fresh_cell s c" "fresh_cell s (cancel_command c) = fresh_cell s c"
  "same_identity d (c\<lparr>lc_recovery := x0\<rparr>) = same_identity d c" "fresh_cell s (c\<lparr>lc_recovery := x0\<rparr>) = fresh_cell s c"
  "same_identity d (c\<lparr>lc_completed := x1\<rparr>) = same_identity d c" "fresh_cell s (c\<lparr>lc_completed := x1\<rparr>) = fresh_cell s c"
  "same_identity d (c\<lparr>lc_reconciled := x2\<rparr>) = same_identity d c" "fresh_cell s (c\<lparr>lc_reconciled := x2\<rparr>) = fresh_cell s c"
  "same_identity d (c\<lparr>lc_error := x3\<rparr>) = same_identity d c" "fresh_cell s (c\<lparr>lc_error := x3\<rparr>) = fresh_cell s c"
  "same_identity d (c\<lparr>lc_result := x4\<rparr>) = same_identity d c" "fresh_cell s (c\<lparr>lc_result := x4\<rparr>) = fresh_cell s c"
  "same_identity d (c\<lparr>lc_ok := x5\<rparr>) = same_identity d c" "fresh_cell s (c\<lparr>lc_ok := x5\<rparr>) = fresh_cell s c"
  "same_identity d (c\<lparr>lc_reports := x6\<rparr>) = same_identity d c" "fresh_cell s (c\<lparr>lc_reports := x6\<rparr>) = fresh_cell s c"
  "same_identity d (c\<lparr>lc_close_refused := x7\<rparr>) = same_identity d c" "fresh_cell s (c\<lparr>lc_close_refused := x7\<rparr>) = fresh_cell s c"
  "same_identity d (c\<lparr>lc_state := x8\<rparr>) = same_identity d c" "fresh_cell s (c\<lparr>lc_state := x8\<rparr>) = fresh_cell s c"
  "same_identity d (c\<lparr>lc_timed_out := x9\<rparr>) = same_identity d c" "fresh_cell s (c\<lparr>lc_timed_out := x9\<rparr>) = fresh_cell s c"
  by (auto simp: same_identity_def fresh_cell_def apply_outcome_def answer_def ensure_data_def hold_command_def late_start_def
      end_state_def settle_command_def finish_close_def stop_command_def cancel_command_def Let_def)

lemma cancelled_cell:
  "lc_state (cancel_command c) = Queued \<Longrightarrow> lc_state c = Queued" "lc_future c \<noteq> FPending \<Longrightarrow> lc_future (cancel_command c) = lc_future c"
  "lc_future (cancel_command c) = FPending \<Longrightarrow> lc_state (cancel_command c) = lc_state c \<and> lc_future c = FPending"
  by (auto simp: cancel_command_def split: if_split_asm)

lemma follows_keeps:
  "follows d c \<Longrightarrow> same_identity d c' \<Longrightarrow> (lc_future c \<noteq> FPending \<Longrightarrow> lc_future c' = lc_future c)
    \<Longrightarrow> (lc_state c \<noteq> Queued \<Longrightarrow> lc_state c' \<noteq> Queued) \<Longrightarrow> follows d c'"
  by (auto simp: follows_def)

lemma next_cellI:
  assumes "next_cell A s r c" and "\<And>d. same_identity d c' = same_identity d c" and "fresh_cell s c' = fresh_cell s c"
    and "lc_future c \<noteq> FPending \<longrightarrow> lc_future c' = lc_future c" and "lc_state c \<noteq> Queued \<longrightarrow> lc_state c' \<noteq> Queued"
    and "r \<notin> A \<longrightarrow> lc_future c' = FPending \<and> lc_state c = Queued \<longrightarrow> lc_state c' = Queued"
    and "r \<notin> set (taken s @ ss_queue s) \<longrightarrow> lc_state c \<noteq> Cancelled \<longrightarrow> lc_state c' \<noteq> Cancelled"
  shows "next_cell A s r c'"
  using assms unfolding next_cell_def follows_def stays_queued_def not_cancelled_def by (cases "lc_future c = FPending") auto

lemma next_cell_stable: "stable (set (ss_queue s)) A (next_cell A s)"
  unfolding stable_def
  by (intro conjI allI impI ballI; erule next_cellI) 
    (auto simp: identities state_choices future_choices dest: cancelled_cell)

lemma timed_out_cell:
  assumes "next_cell A s r c"
  shows "next_cell A s r (time_out_command c)"
  by (rule next_cellI [OF assms])
    (auto simp: time_out_command_def Let_def identities state_choices future_choices settled_state_def split: command_state.split)

lemma new_cells:
  "name \<noteq> recover_name \<Longrightarrow> (name = close_name \<longleftrightarrow> cid = close_id s) \<Longrightarrow> fresh_cell s (new_command cid name (ss_counter s + 1))"
  "fresh_cell s (recover_command s cid)" "fresh_cell s (start_command s)"
  by (auto simp: fresh_cell_def new_command_def recover_command_def start_command_def recover_name_def close_name_def close_id_def
      start_id_def apply_outcome_def ensure_data_def Let_def)

lemma owner_in_hand: "owner_refs (ss_owner s) \<subseteq> in_hand s" "owner_refs (ss_owner s) \<union> set_option (command_of s (close_id s)) \<subseteq> in_hand s"
  by (auto simp: in_hand_def)

lemma caller_next:
  assumes "caller_step s s'"
  shows "all_cells (next_cell A s) s'"
proof -
  have new: "next_cell A s (length (ss_heap s)) c" if "fresh_cell s c" for c using that by (simp add: next_cell_def)
  show ?thesis
    by (rule caller_cells [OF assms next_cell_stable next_cell_refl]) ((rule new new_cells timed_out_cell order_refl | assumption)+)
qed

lemma step_cells:
  assumes "session_step s s'"
  shows "all_cells (next_cell (in_hand s) s) s'"
  using assms
proof cases
  case by_caller
  then show ?thesis by (rule caller_next)
next
  case by_start
  then show ?thesis by (rule start_cells [OF _ next_cell_stable next_cell_refl])
next
  case by_command
  then show ?thesis
  proof (rule command_cells [OF _ next_cell_stable next_cell_refl owner_in_hand(1)])
    fix r
    assume "ss_owner s = OTaken r" and "lc_state (cmd s r) = Queued" and "next_cell (in_hand s) s r (cmd s r)"
    then show "next_cell (in_hand s) s r (answer (FError TerminalizedError) ((cmd s r)\<lparr>lc_state := Cancelled, lc_error := Some TerminalizedError, lc_completed := True\<rparr>))"
      by (elim next_cellI) (auto simp: identities state_choices future_choices taken_def in_hand_def)
  qed
next
  case by_recovery
  show ?thesis
    by (rule recovery_cells [OF by_recovery next_cell_stable next_cell_refl], erule next_cellI) (simp_all add: identities)
next
  case by_closing
  then show ?thesis by (rule closing_cells [OF _ next_cell_stable next_cell_refl owner_in_hand(2) order_refl])
qed

text \<open>The heap only grows; a new cell takes the next number.\<close>

lemma step_heap:
  assumes "session_step s s'"
  shows "length (ss_heap s') = length (ss_heap s) \<and> ss_counter s' = ss_counter s
    \<or> length (ss_heap s') = Suc (length (ss_heap s)) \<and> ss_counter s' \<in> {ss_counter s, Suc (ss_counter s)}
      \<and> (lc_name (cmd s' (length (ss_heap s))) \<noteq> recover_name \<longrightarrow> ss_counter s' = Suc (ss_counter s))"
  using assms
proof cases
  case by_caller
  then show ?thesis
  proof cases
    case (call_execute name dirty ok reply)
    from call_execute(3) show ?thesis
      by (cases rule: execute_cases) (simp_all add: admitted_heap admitted_def enqueued_def Let_def)
  next
    case (call_close dirty ok reply)
    then show ?thesis
      by (cases rule: close_cases) (simp_all add: admitted_heap close_admitted_def enqueued_def Let_def)
  next
    case (caller_times_out r)
    then show ?thesis by (simp add: terminalize_timeout_def)
  next
    case start_times_out
    then show ?thesis by (simp add: terminalize_start_def Let_def)
  next
    case (call_reconcile cid ok)
    then show ?thesis
      by (simp add: reconcile_command_def Let_def nth_append recover_command_def new_command_def split: option.split)
  qed simp_all
next
  case by_start
  then show ?thesis by cases simp_all
next
  case by_command
  then show ?thesis by cases (auto simp: private_copy_def record_package_def enter_handler_def split: option.split_asm if_split_asm)
next
  case by_recovery
  then show ?thesis by cases (simp_all split: option.split)
next
  case by_closing
  then show ?thesis by cases simp_all
qed

lemma step_grows: "session_step s s' \<Longrightarrow> length (ss_heap s) \<le> length (ss_heap s')"
  using step_heap [of s s'] by auto

lemma step_follows: "session_step s s' \<Longrightarrow> r < length (ss_heap s) \<Longrightarrow> follows (cmd s r) (cmd s' r)"
  using step_cells [of s s'] step_grows [of s s'] by (auto simp: all_cells_def next_cell_def)

lemma step_same: "session_step s s' \<Longrightarrow> r < length (ss_heap s) \<Longrightarrow> same_identity (cmd s r) (cmd s' r)"
  using step_follows by (auto simp: follows_def)

lemma step_sid: "session_step s s' \<Longrightarrow> ss_sid s' = ss_sid s"
  by (erule session_step.cases; erule caller_step.cases start_step.cases command_step.cases recovery_step.cases closing_step.cases;
      auto simp: private_copy_def record_package_def terminalize_timeout_def dest: execute_step close_step split: option.split_asm option.split if_split_asm)

section \<open>Names and the dictionary\<close>

text \<open>Which cells are closes, recoveries and numbered commands.\<close>

definition names_ok :: "session \<Rightarrow> bool" where
  "names_ok s \<longleftrightarrow>
    (\<forall>r < length (ss_heap s). (lc_name (cmd s r) = close_name \<longleftrightarrow> lc_id (cmd s r) = close_id s)
       \<and> (lc_name (cmd s r) = recover_name \<longrightarrow> lc_recovery_for (cmd s r) \<noteq> None)
       \<and> (lc_name (cmd s r) \<noteq> recover_name \<longrightarrow> lc_sequence (cmd s r) \<le> ss_counter s))
    \<and> (\<forall>r < length (ss_heap s). \<forall>q < r. lc_name (cmd s q) \<noteq> recover_name \<longrightarrow> lc_name (cmd s r) \<noteq> recover_name
       \<longrightarrow> lc_sequence (cmd s q) < lc_sequence (cmd s r))
    \<and> (\<forall>(cid, r) \<in> set (ss_by_id s). lc_id (cmd s r) = cid)
    \<and> (\<forall>r \<in> set (ss_putting s). lc_name (cmd s r) = recover_name)"

lemma dict_put_mem: "(k, r) \<in> set (dict_put cid n d) \<Longrightarrow> (k, r) \<in> set d \<or> k = cid \<and> r = n"
  by (induction cid n d rule: dict_put.induct) (auto split: if_split_asm)

lemma register_mem:
  "(k, r) \<in> set (ss_by_id (register c s)) \<Longrightarrow> (k, r) \<in> set (ss_by_id s) \<or> k = lc_id c \<and> r = length (ss_heap s)"
  by (auto simp: register_def dest: dict_put_mem)

lemma register_heap: "ss_heap (register c s) = ss_heap s @ [c]"
  by (simp add: register_def)

lemma prune_mem: "(k, r) \<in> set (ss_by_id (prune_in_memory_commands s)) \<Longrightarrow> (k, r) \<in> set (ss_by_id s)"
  using prune_refs by fast

lemma leave_mem: "(k, r) \<in> set (ss_by_id (leave_command q b ok s)) \<Longrightarrow> (k, r) \<in> set (ss_by_id s)"
  by (auto simp: leave_command_def Let_def split: if_split_asm dest!: prune_mem)

lemma start_command_id [simp]: "lc_id (start_command s) = start_id s" "lc_name (start_command s) = ''start''"
  by (simp_all add: start_command_def Let_def apply_outcome_def ensure_data_def new_command_def)

lemma new_command_id [simp]: "lc_id (new_command cid name n) = cid" "lc_name (new_command cid name n) = name"
  "lc_state (new_command cid name n) = Queued" "lc_future (new_command cid name n) = FPending"
  by (simp_all add: new_command_def)

lemma cancel_frame_heap: "lc_id (cmd (cancel_pending_commands s) r) = lc_id (cmd s r)"
proof -
  have "lc_id (cmd (fold (\<lambda>r. upd r cancel_command) rs s) r) = lc_id (cmd s r)" for rs
    by (induction rs arbitrary: s) (simp_all add: upd_cmd cancel_command_def)
  then show ?thesis by (simp add: cancel_pending_commands_def)
qed

lemma step_by_id:
  assumes "session_step s s'" and "(k, r) \<in> set (ss_by_id s')"
  shows "(k, r) \<in> set (ss_by_id s) \<or> r = length (ss_heap s) \<and> lc_id (cmd s' r) = k"
  using assms(1)
proof cases
  case by_caller
  then show ?thesis
  proof cases
    case (call_execute name dirty ok reply)
    from call_execute(3) assms(2) show ?thesis
      by (cases rule: execute_cases) (auto simp: register_heap admitted_def dest!: register_mem)
  next
    case (call_close dirty ok reply)
    then show ?thesis using assms(2)
      by (cases rule: close_cases) (auto simp: register_heap close_admitted_def dest!: register_mem)
  next
    case (caller_times_out r)
    then show ?thesis using assms(2) by (auto simp: terminalize_timeout_def split: if_split_asm)
  next
    case start_times_out
    then show ?thesis using assms(2)
      by (auto simp: terminalize_start_def Let_def cancel_frame_heap register_def start_id_def dest!: dict_put_mem split: if_split_asm)
  next
    case (acknowledged q ok)
    then show ?thesis using assms(2) by (auto simp: finish_acknowledgement_def Let_def split: if_split_asm dest!: prune_mem)
  qed (use assms(2) in auto)
next
  case by_start
  then show ?thesis using assms(2) by cases auto
next
  case by_command
  then show ?thesis using assms(2)
    by cases (auto simp: private_copy_def record_package_def split: option.split_asm if_split_asm dest!: leave_mem)
next
  case by_recovery
  then show ?thesis using assms(2) by cases (auto split: option.split_asm)
next
  case by_closing
  then show ?thesis using assms(2) by cases (auto split: if_split_asm)
qed

lemma step_putting:
  assumes "session_step s s'" and "r \<in> set (ss_putting s')"
  shows "r \<in> set (ss_putting s) \<or> r = length (ss_heap s) \<and> lc_name (cmd s' r) = recover_name"
  using assms(1)
proof cases
  case by_caller
  then show ?thesis using assms(2)
  proof cases
    case (call_reconcile cid ok)
    then show ?thesis using assms(2)
      by (auto simp: reconcile_command_def Let_def nth_append recover_command_def split: option.split_asm if_split_asm)
  next
    case (put_recovery q)
    then show ?thesis using assms(2) set_remove1_subset [of q "ss_putting s"] by auto
  next
    case (call_execute name dirty ok reply)
    from execute_step [OF this(3)] assms(2) show ?thesis by simp
  next
    case (call_close dirty ok reply)
    from close_step [OF this] assms(2) show ?thesis by simp
  qed (auto simp: terminalize_timeout_def)
next
  case by_start
  then show ?thesis using assms(2) by cases auto
next
  case by_command
  then show ?thesis using assms(2)
    by cases (auto simp: private_copy_def record_package_def split: option.split_asm if_split_asm)
next
  case by_recovery
  then show ?thesis using assms(2) by cases (auto split: option.split_asm)
next
  case by_closing
  then show ?thesis using assms(2) by cases (auto split: if_split_asm)
qed

lemma step_names:
  assumes "session_step s s'" and "names_ok s" and "refs_ok s"
  shows "names_ok s'"
proof -
  let ?n = "length (ss_heap s)"
  note heap = step_heap [OF assms(1)]
  have new: "fresh_cell s (cmd s' r)" if "r < length (ss_heap s')" "\<not> r < ?n" for r
    using step_cells [OF assms(1)] that by (simp add: all_cells_def next_cell_def)
  have only: "r = ?n" if "r < length (ss_heap s')" "\<not> r < ?n" for r using heap that by auto
  have old: "lc_name (cmd s' r) = lc_name (cmd s r)" "lc_id (cmd s' r) = lc_id (cmd s r)" "lc_sequence (cmd s' r) = lc_sequence (cmd s r)"
    "lc_recovery_for (cmd s' r) = lc_recovery_for (cmd s r)" if "r < ?n" for r
    using step_same [OF assms(1) that] by (simp_all add: same_identity_def)
  have count: "ss_counter s \<le> ss_counter s'" using heap by auto
  have fresh: "lc_sequence (cmd s' r) = ss_counter s + 1 \<and> ss_counter s + 1 = ss_counter s'"
    if "r < length (ss_heap s')" "\<not> r < ?n" "lc_name (cmd s' r) \<noteq> recover_name" for r
    using new [OF that(1,2)] only [OF that(1,2)] heap that by (auto simp: fresh_cell_def)
  have cells: "(lc_name (cmd s' r) = close_name \<longleftrightarrow> lc_id (cmd s' r) = close_id s')
      \<and> (lc_name (cmd s' r) = recover_name \<longrightarrow> lc_recovery_for (cmd s' r) \<noteq> None)
      \<and> (lc_name (cmd s' r) \<noteq> recover_name \<longrightarrow> lc_sequence (cmd s' r) \<le> ss_counter s')" if r: "r < length (ss_heap s')" for r
  proof (cases "r < ?n")
    case True
    with assms(2) old [OF True] count show ?thesis by (auto simp: names_ok_def close_id_def step_sid [OF assms(1)])
  next
    case False
    with new [OF r False] fresh [OF r False] show ?thesis by (auto simp: fresh_cell_def close_id_def step_sid [OF assms(1)])
  qed
  have order: "lc_sequence (cmd s' q) < lc_sequence (cmd s' r)"
    if r: "r < length (ss_heap s')" and q: "q < r" "lc_name (cmd s' q) \<noteq> recover_name" "lc_name (cmd s' r) \<noteq> recover_name" for q r
  proof -
    have qn: "q < ?n" using r q(1) only [OF r] by (cases "r < ?n") auto
    show ?thesis
    proof (cases "r < ?n")
      case True
      with assms(2) q old [OF True] old [OF qn] show ?thesis by (auto simp: names_ok_def)
    next
      case False
      have "lc_sequence (cmd s q) \<le> ss_counter s" using assms(2) qn q(2) old [OF qn] by (auto simp: names_ok_def)
      with fresh [OF r False q(3)] old [OF qn] show ?thesis by simp
    qed
  qed
  have bound: "r < ?n" if "r \<in> refs s" for r using assms(3) that by (auto simp: refs_ok_def)
  have dict: "lc_id (cmd s' r) = k" if "(k, r) \<in> set (ss_by_id s')" for k r
    using step_by_id [OF assms(1) that]
  proof
    assume kr: "(k, r) \<in> set (ss_by_id s)"
    then have "r < ?n" by (intro bound) (force simp: refs_def)
    with old [OF this] kr assms(2) show ?thesis by (auto simp: names_ok_def)
  next
    assume "r = length (ss_heap s) \<and> lc_id (cmd s' r) = k"
    then show ?thesis by blast
  qed
  have put: "lc_name (cmd s' r) = recover_name" if "r \<in> set (ss_putting s')" for r
    using step_putting [OF assms(1) that]
  proof
    assume r: "r \<in> set (ss_putting s)"
    then have "r < ?n" by (intro bound) (simp add: refs_def)
    with old [OF this] r assms(2) show ?thesis by (auto simp: names_ok_def)
  next
    assume "r = length (ss_heap s) \<and> lc_name (cmd s' r) = recover_name"
    then show ?thesis by blast
  qed
  show ?thesis unfolding names_ok_def using cells order dict put by auto
qed

lemma close_cell: "names_ok s \<Longrightarrow> refs_ok s \<Longrightarrow> command_of s (close_id s) = Some r \<Longrightarrow> lc_name (cmd s r) = close_name"
  using command_of_bound [of s "close_id s" r] by (auto simp: names_ok_def command_of_def dest: map_of_SomeD)

section \<open>The line of commands\<close>

definition in_line :: "session \<Rightarrow> nat list" where
  "in_line s = taken s @ ss_queue s"

definition order_ok :: "session \<Rightarrow> bool" where
  "order_ok s \<longleftrightarrow> sorted_wrt (<) (ss_started s @ filter (\<lambda>r. user_command (cmd s r)) (in_line s))
     \<and> (\<forall>r \<in> set (ss_started s). r < length (ss_heap s) \<and> user_command (cmd s r) \<and> lc_state (cmd s r) \<noteq> Queued \<and> lc_state (cmd s r) \<noteq> Cancelled)"

lemma taken_simps [simp]:
  "taken (s\<lparr>ss_waiting := w\<rparr>) = taken s" "taken (s\<lparr>ss_starting := b\<rparr>) = taken s" "taken (s\<lparr>ss_queue := q\<rparr>) = taken s"
  "taken (s\<lparr>ss_putting := p\<rparr>) = taken s" "taken (s\<lparr>ss_requires_save := b\<rparr>) = taken s"
  "taken (at_owner ph s) = (case ph of OTaken r \<Rightarrow> [r] | _ \<Rightarrow> [])" "taken (upd r f s) = taken s"
  "taken (admitted name dirty s) = taken s" "taken (close_admitted dirty s) = taken s" "taken (enqueued s) = taken s"
  "taken (cancel_pending_commands s) = taken s" "taken (quarantine s) = taken s" "taken (register c s) = taken s"
  "taken (reconcile_command cid ok s) = taken s" "taken (begin_acknowledgement cid s) = taken s" "taken (finish_acknowledgement r ok s) = taken s"
  by (simp_all add: taken_def)

inductive line_moves :: "session \<Rightarrow> session \<Rightarrow> bool" for s s' where
  shrinks: "ss_started s' = ss_started s \<Longrightarrow> in_line s' \<in> {in_line s, ss_queue s, taken s, tl (in_line s), []} \<Longrightarrow> line_moves s s'"
| enters: "ss_started s' = ss_started s \<Longrightarrow> in_line s' = in_line s @ [length (ss_heap s)] \<Longrightarrow> length (ss_heap s') = Suc (length (ss_heap s)) \<Longrightarrow> line_moves s s'"
| recovers: "ss_started s' = ss_started s \<Longrightarrow> r \<in> set (ss_putting s) \<Longrightarrow> in_line s' = in_line s @ [r] \<Longrightarrow> line_moves s s'"
| starts: "ss_owner s = OTaken r \<Longrightarrow> user_command (cmd s r) \<Longrightarrow> lc_state (cmd s r) = Queued \<Longrightarrow> ss_terminal s = None
    \<Longrightarrow> ss_started s' = ss_started s @ [r] \<Longrightarrow> in_line s' = ss_queue s \<Longrightarrow> lc_state (cmd s' r) = Running \<Longrightarrow> line_moves s s'"

lemma enqueued_line [simp]: "in_line (enqueued s) = in_line s @ [length (ss_heap s) - 1]"
  by (simp add: in_line_def taken_def enqueued_def Let_def)

lemma admitted_line [simp]: "in_line (admitted name dirty s) = in_line s" "in_line (close_admitted dirty s) = in_line s"
  by (simp_all add: in_line_def)

lemma step_line:
  assumes "session_step s s'" and "refs_ok s"
  shows "line_moves s s'"
  using assms(1)
proof cases
  case by_caller
  then show ?thesis
  proof cases
    case (call_execute name dirty ok reply)
    from call_execute(3) show ?thesis
    proof (cases rule: execute_cases)
      case waits
      then show ?thesis by (intro enters) (simp_all add: admitted_heap)
    qed (auto intro: shrinks)
  next
    case (call_close dirty ok reply)
    then show ?thesis
    proof (cases rule: close_cases)
      case waits
      then show ?thesis by (intro enters) (simp_all add: admitted_heap)
    next
      case refused
      then show ?thesis by (intro shrinks) (simp_all add: in_line_def)
    qed (auto intro: shrinks)
  next
    case (caller_times_out r)
    then show ?thesis by (auto intro!: shrinks simp: in_line_def terminalize_timeout_def)
  next
    case start_times_out
    then show ?thesis by (auto intro!: shrinks simp: in_line_def taken_def terminalize_start_def Let_def)
  next
    case (put_recovery r)
    then show ?thesis by (intro recovers [of _ _ r]) (simp_all add: in_line_def)
  qed (auto intro!: shrinks simp: in_line_def)
next
  case by_start
  then show ?thesis by cases (auto intro!: shrinks simp: in_line_def taken_def)
next
  case by_command
  then show ?thesis
  proof cases
    case (begin_command r)
    then have r: "r < length (ss_heap s)" using assms(2) by (auto simp: refs_ok_def refs_def)
    show ?thesis
    proof (cases "lc_state (cmd s r) \<noteq> Queued \<or> ss_terminal s \<noteq> None")
      case True
      with begin_command show ?thesis by (intro shrinks) (auto simp: in_line_def take_command_def)
    next
      case False
      with begin_command r show ?thesis
        by (intro starts [of s r]) (auto simp: in_line_def take_command_def user_command_def upd_cmd taken_def at_owner_def)
    qed
  next
    case (left_command r propagates ok)
    then show ?thesis by (intro shrinks) (auto simp: in_line_def taken_def leave_command_def Let_def run_fails_def)
  next
    case (settle r ok)
    then show ?thesis by (intro shrinks) (auto simp: in_line_def taken_def settle_returned_def Let_def)
  next
    case (handler_copies r clean)
    then show ?thesis by (intro shrinks) (auto simp: in_line_def taken_def private_copy_def)
  next
    case (handler_records r clean epoch)
    then show ?thesis by (intro shrinks) (auto simp: in_line_def taken_def record_package_def split: option.split_asm if_split_asm)
  qed (auto intro!: shrinks simp: in_line_def taken_def enter_handler_def after_handler_def settle_exception_def settle_signal_def Let_def)
next
  case by_recovery
  then show ?thesis by cases (auto intro!: shrinks simp: in_line_def taken_def split: option.split)
next
  case by_closing
  then show ?thesis
  proof cases
    case (reported b ok)
    then show ?thesis by (intro shrinks) (auto simp: in_line_def taken_def report_end_def Let_def split: option.split)
  next
    case (close_decided r m)
    then show ?thesis by (intro shrinks) (auto simp: in_line_def taken_def decide_close_def split: option.split)
  qed (auto intro!: shrinks simp: in_line_def taken_def answer_refused_def)
qed

lemma line_refs: "set (in_line s) \<subseteq> refs s"
  by (cases "ss_owner s") (auto simp: in_line_def taken_def refs_def)

lemma sorted_filter_end: "sorted_wrt (<) (xs @ filter P (ys @ zs)) \<Longrightarrow> sorted_wrt (<) (xs @ filter P ys)" 
  "sorted_wrt (<) (xs @ filter P (ys @ zs)) \<Longrightarrow> sorted_wrt (<) (xs @ filter P zs)"
  by (auto simp: sorted_wrt_append)

lemma sorted_filter_tl: "sorted_wrt (<) (xs @ filter P ys) \<Longrightarrow> sorted_wrt (<) (xs @ filter P (tl ys))"
  by (cases ys) (auto simp: sorted_wrt_append split: if_split_asm)

lemma step_order:
  assumes "session_step s s'" and "order_ok s" and "names_ok s" and "refs_ok s"
  shows "order_ok s'"
proof -
  let ?n = "length (ss_heap s)"
  have user: "user_command (cmd s' r) = user_command (cmd s r)" if "r < ?n" for r
    using step_same [OF assms(1) that] by (simp add: same_identity_def user_command_def)
  have line: "set (in_line s) \<subseteq> {..<?n}" using line_refs [of s] assms(4) by (auto simp: refs_ok_def)
  have same: "filter (\<lambda>r. user_command (cmd s' r)) xs = filter (\<lambda>r. user_command (cmd s r)) xs" if "set xs \<subseteq> {..<?n}" for xs
    using that user by (intro filter_cong) auto
  have sorted: "sorted_wrt (<) (ss_started s @ filter (\<lambda>r. user_command (cmd s r)) (taken s @ ss_queue s))"
    using assms(2) by (simp add: order_ok_def in_line_def)
  have started: "r < ?n \<and> user_command (cmd s r) \<and> lc_state (cmd s r) \<noteq> Queued \<and> lc_state (cmd s r) \<noteq> Cancelled"
    if "r \<in> set (ss_started s)" for r using assms(2) that by (simp add: order_ok_def)
  have keeps: "r < length (ss_heap s') \<and> user_command (cmd s' r) \<and> lc_state (cmd s' r) \<noteq> Queued \<and> lc_state (cmd s' r) \<noteq> Cancelled"
    if r: "r \<in> set (ss_started s)" for r
  proof -
    have n: "r < ?n" using started [OF r] by simp
    have "r \<notin> set (in_line s)" using r started [OF r] sorted by (auto simp: sorted_wrt_append in_line_def)
    moreover have "next_cell (in_hand s) s r (cmd s' r)" using step_cells [OF assms(1)] step_grows [OF assms(1)] n by (simp add: all_cells_def)
    ultimately have "not_cancelled (cmd s r) (cmd s' r)" "follows (cmd s r) (cmd s' r)" using n by (auto simp: next_cell_def in_line_def)
    with started [OF r] user [OF n] n step_grows [OF assms(1)] show ?thesis by (auto simp: not_cancelled_def follows_def)
  qed
  from step_line [OF assms(1,4)] show ?thesis
  proof cases
    case shrinks
    have "set (ss_queue s) \<subseteq> {..<?n}" "set (taken s) \<subseteq> {..<?n}" using line by (simp_all add: in_line_def)
    moreover have "set (tl (in_line s)) \<subseteq> {..<?n}" using line by (cases "in_line s") simp_all
    ultimately have "set (in_line s') \<subseteq> {..<?n}" using shrinks(2) line by auto
    moreover have "sorted_wrt (<) (ss_started s @ filter (\<lambda>r. user_command (cmd s r)) xs)"
      if "xs \<in> {in_line s, ss_queue s, taken s, tl (in_line s), []}" for xs
      using that sorted sorted_filter_end [OF sorted] sorted_filter_tl [OF sorted]
      by (elim insertE emptyE) (simp_all add: in_line_def sorted_wrt_append)
    note this [OF shrinks(2)]
    ultimately show ?thesis using keeps by (simp add: order_ok_def shrinks(1) same)
  next
    case enters
    have "sorted_wrt (<) (ss_started s @ filter (\<lambda>r. user_command (cmd s' r)) (in_line s @ [?n]))"
      using sorted started line by (auto simp: sorted_wrt_append same in_line_def)
    with keeps show ?thesis by (simp add: order_ok_def enters(1,2))
  next
    case (recovers r)
    have "r \<in> refs s" using recovers(2) by (simp add: refs_def)
    then have r: "r < ?n" using assms(4) by (auto simp: refs_ok_def)
    have "\<not> user_command (cmd s' r)" using recovers(2) assms(3) user [OF r] by (simp add: names_ok_def user_command_def)
    then have "filter (\<lambda>r. user_command (cmd s' r)) (in_line s') = filter (\<lambda>r. user_command (cmd s r)) (in_line s)"
      using line by (simp add: recovers(3) same)
    with sorted keeps show ?thesis by (simp add: order_ok_def recovers(1) in_line_def)
  next
    case (starts r)
    have r: "taken s = [r]" using starts(1) by (simp add: taken_def)
    then have n: "r < ?n" using line by (simp add: in_line_def)
    have "sorted_wrt (<) ((ss_started s @ [r]) @ filter (\<lambda>r. user_command (cmd s' r)) (ss_queue s))"
      using sorted line starts(2) by (simp add: r same in_line_def)
    moreover have "user_command (cmd s' r)" "r < length (ss_heap s')" using user [OF n] starts(2) n step_grows [OF assms(1)] by simp_all
    ultimately show ?thesis using keeps starts(7) by (auto simp: order_ok_def starts(5,6))
  qed
qed

definition orderly :: "session \<Rightarrow> bool" where
  "orderly s \<longleftrightarrow> custody_ok s \<and> names_ok s \<and> order_ok s"

lemma live_orderly: "live sid s \<Longrightarrow> orderly s"
proof (induction rule: live.induct)
  case opened
  have "custody_ok (new_session sid)" by (rule live_custody) (rule live.opened)
  then show ?case by (simp add: orderly_def names_ok_def order_ok_def in_line_def taken_def new_session_def)
next
  case (moved s s')
  then have "refs_ok s" by (simp add: orderly_def custody_ok_def)
  with moved show ?case by (auto simp: orderly_def intro: step_custody step_names step_order)
qed

text \<open>
  C29. Commands run one at a time in the order in which they were admitted: the numbers of the commands whose
  handlers were started are strictly increasing (so none is started twice), a command that is still in the
  queue has a higher number than every one that was started, and no command that was started is ever
  recorded as still queued or as cancelled.
\<close>

theorem commands_start_once_in_order:
  assumes "live sid s"
  shows "sorted_wrt (<) (map (\<lambda>r. lc_sequence (cmd s r)) (ss_started s))
    \<and> (\<forall>r \<in> set (ss_started s). user_command (cmd s r) \<and> lc_state (cmd s r) \<noteq> Queued \<and> lc_state (cmd s r) \<noteq> Cancelled
        \<and> (\<forall>q \<in> set (ss_queue s). user_command (cmd s q) \<longrightarrow> lc_sequence (cmd s r) < lc_sequence (cmd s q)))"
proof -
  have names: "names_ok s" and order: "order_ok s" and refs: "refs_ok s"
    using live_orderly [OF assms] by (simp_all add: orderly_def custody_ok_def)
  have seq: "lc_sequence (cmd s q) < lc_sequence (cmd s r)"
    if "q < r" "r < length (ss_heap s)" "user_command (cmd s q)" "user_command (cmd s r)" for q r
    using names that by (simp add: names_ok_def user_command_def)
  have started: "r < length (ss_heap s)" "user_command (cmd s r)" if "r \<in> set (ss_started s)" for r
    using order that by (simp_all add: order_ok_def)
  have queue: "q < length (ss_heap s)" if "q \<in> set (ss_queue s)" for q using refs that by (auto simp: refs_ok_def refs_def)
  have "sorted_wrt (<) (ss_started s)" using order by (simp add: order_ok_def sorted_wrt_append)
  then have "sorted_wrt (\<lambda>q r. lc_sequence (cmd s q) < lc_sequence (cmd s r)) (ss_started s)"
    by (rule sorted_wrt_mono_rel [rotated]) (simp add: seq started)
  moreover have "r < q" if "r \<in> set (ss_started s)" "q \<in> set (ss_queue s)" "user_command (cmd s q)" for q r
    using order that by (auto simp: order_ok_def sorted_wrt_append in_line_def)
  ultimately show ?thesis using order started queue seq by (auto simp: sorted_wrt_map order_ok_def)
qed

section \<open>Waiting callers\<close>

definition timely :: "nat \<Rightarrow> live_command \<Rightarrow> bool" where
  "timely r c \<longleftrightarrow> (lc_timed_out c \<and> lc_future c = FPending \<longrightarrow> lc_state c \<noteq> Queued)"

lemma timed_out_same:
  "lc_timed_out (apply_outcome v e c) = lc_timed_out c" "lc_timed_out (answer f c) = lc_timed_out c" "lc_timed_out (ensure_data c) = lc_timed_out c"
  "lc_timed_out (hold_command b c) = lc_timed_out c" "lc_timed_out (late_start w c) = lc_timed_out c" "lc_timed_out (cancel_command c) = lc_timed_out c"
  "lc_timed_out (end_state c) = lc_timed_out c" "lc_timed_out (settle_command b c) = lc_timed_out c" "lc_timed_out (finish_close b t c) = lc_timed_out c"
  "lc_timed_out (stop_command t c) = lc_timed_out c"
  by (auto simp: apply_outcome_def answer_def ensure_data_def hold_command_def late_start_def end_state_def settle_command_def
      finish_close_def stop_command_def cancel_command_def Let_def)

lemma timely_stable: "stable UNIV UNIV timely"
  by (auto simp: stable_def timely_def timed_out_same state_choices future_choices cancel_command_def)

lemma timely_new: "timely r (new_command cid name n)" "timely r (recover_command s cid)" "timely r (start_command s)" "timely r (time_out_command c)"
  by (auto simp: timely_def new_command_def recover_command_def start_command_def time_out_command_def state_choices future_choices Let_def
      settled_state_def split: command_state.split)

lemma step_timely:
  assumes "session_step s s'" and "all_cells timely s"
  shows "all_cells timely s'"
  using assms(1)
proof cases
  case by_caller
  then show ?thesis by (rule caller_cells [OF _ timely_stable assms(2)]) (simp_all add: timely_new)
next
  case by_start
  then show ?thesis by (rule start_cells [OF _ timely_stable assms(2)])
next
  case by_command
  then show ?thesis by (rule command_cells [OF _ timely_stable assms(2)]) (simp_all add: timely_def state_choices)
next
  case by_recovery
  then show ?thesis by (rule recovery_cells [OF _ timely_stable assms(2)]) (simp add: timely_def)
next
  case by_closing
  then show ?thesis by (rule closing_cells [OF _ timely_stable assms(2)]) simp_all
qed

definition working :: "session \<Rightarrow> nat set" where
  "working s = (case ss_owner s of OStarted r \<Rightarrow> {r} | OHandler r _ \<Rightarrow> {r} | OReturned r _ \<Rightarrow> {r} | OSettling r \<Rightarrow> {r}
     | OException r \<Rightarrow> {r} | OSignal r \<Rightarrow> {r} | _ \<Rightarrow> {})"

text \<open>What the owning thread has in hand fits the phase it is in.\<close>

definition hand_ok :: "session \<Rightarrow> bool" where
  "hand_ok s \<longleftrightarrow>
    (case ss_owner s of
       OStarted r \<Rightarrow> r \<in> set (ss_started s) | OHandler r _ \<Rightarrow> r \<in> set (ss_started s) | OReturned r _ \<Rightarrow> r \<in> set (ss_started s)
     | OSettling r \<Rightarrow> r \<in> set (ss_started s) | OException r \<Rightarrow> r \<in> set (ss_started s) | OSignal r \<Rightarrow> r \<in> set (ss_started s)
     | OFinally r _ \<Rightarrow> r \<in> set (ss_started s)
     | OCloseRead r _ \<Rightarrow> lc_name (cmd s r) = close_name | ORefused r \<Rightarrow> lc_name (cmd s r) = close_name
     | ORecovered r _ \<Rightarrow> lc_name (cmd s r) = recover_name
     | OReport exited \<Rightarrow> exited \<or> ss_terminal s \<noteq> None
     | OHeldLoop \<Rightarrow> (ss_closed s \<or> ss_terminal s \<noteq> None) \<and> filter (\<lambda>r. user_command (cmd s r)) (ss_queue s) = []
     | OHeldWait \<Rightarrow> (ss_closed s \<or> ss_terminal s \<noteq> None) \<and> filter (\<lambda>r. user_command (cmd s r)) (ss_queue s) = []
     | ODone \<Rightarrow> (ss_closed s \<or> ss_terminal s \<noteq> None) \<and> filter (\<lambda>r. user_command (cmd s r)) (ss_queue s) = []
     | _ \<Rightarrow> True)"

lemma fold_cancel:
  assumes "r \<in> set rs" and "r < length (ss_heap s)" and "\<not> (lc_timed_out (cmd s r) \<and> lc_future (cmd s r) = FPending)"
  shows "lc_future (cmd (fold (\<lambda>r. upd r cancel_command) rs s) r) \<noteq> FPending"
proof -
  have stays: "lc_future (cmd (fold (\<lambda>r. upd r cancel_command) rs t) r) \<noteq> FPending" if "lc_future (cmd t r) \<noteq> FPending" for rs t
    using that
  proof (induction rs arbitrary: t)
    case (Cons a rs)
    then have "lc_future (cmd (upd a cancel_command t) r) \<noteq> FPending" by (auto simp: upd_cmd cancel_command_def)
    with Cons show ?case by simp
  qed simp
  show ?thesis using assms
  proof (induction rs arbitrary: s)
    case (Cons q rs)
    show ?case
    proof (cases "q = r")
      case True
      have "lc_future (cmd (upd r cancel_command s) r) \<noteq> FPending"
        using Cons.prems by (auto simp: upd_cmd cancel_command_def)
      from stays [OF this] show ?thesis by (simp add: True)
    next
      case False
      with Cons show ?thesis by (simp add: upd_cmd)
    qed
  qed simp
qed

lemma cancel_answers:
  assumes "r \<in> set (ss_queue s)" and "r < length (ss_heap s)" and "\<not> (lc_timed_out (cmd s r) \<and> lc_future (cmd s r) = FPending)"
  shows "lc_future (cmd (cancel_pending_commands s) r) \<noteq> FPending"
  using fold_cancel [OF assms] by (simp add: cancel_pending_commands_def)

lemma hold_terminal: "ss_terminal (hold_native_custody r may s) = Some (case ss_terminal s of None \<Rightarrow> HeldOutcome | Some e \<Rightarrow> e)"
  by (simp add: hold_native_custody_def split: option.split)

lemma teardown_terminal: "ss_terminal (hold_teardown s) = Some (case command_of s (close_id s) of None \<Rightarrow> CleanupFailed
    | Some r \<Rightarrow> (case ss_terminal s of None \<Rightarrow> HeldOutcome | Some e \<Rightarrow> e))"
  by (simp add: hold_teardown_def hold_terminal split: option.split)

lemma terminal_stays: "session_step s s' \<Longrightarrow> ss_terminal s \<noteq> None \<Longrightarrow> ss_terminal s' \<noteq> None"
  and closed_stays: "session_step s s' \<Longrightarrow> ss_closed s \<Longrightarrow> ss_closed s'"
proof -
  show "ss_terminal s' \<noteq> None" if "session_step s s'" "ss_terminal s \<noteq> None"
    using that(1)
  proof cases
    case by_caller
    then show ?thesis using that(2)
      by cases (auto simp: terminalize_timeout_def terminalize_start_def Let_def dest: execute_step close_step)
  next
    case by_start
    then show ?thesis using that(2) by cases (auto simp: run_fails_def at_owner_def)
  next
    case by_command
    then show ?thesis using that(2)
      by cases (auto simp: private_copy_def record_package_def enter_handler_def after_handler_def settle_exception_def settle_signal_def
          leave_command_def run_fails_def hold_terminal Let_def split: option.split_asm if_split_asm)
  next
    case by_recovery
    then show ?thesis using that(2) by cases (auto split: option.split)
  next
    case by_closing
    then show ?thesis using that(2) by cases (auto simp: hold_session_def hold_terminal teardown_terminal)
  qed
  show "ss_closed s'" if "session_step s s'" "ss_closed s"
    using that(1)
  proof cases
    case by_caller
    then show ?thesis using that(2)
      by cases (auto simp: terminalize_timeout_def terminalize_start_def Let_def dest: execute_step close_step)
  next
    case by_start
    then show ?thesis using that(2) by cases auto
  next
    case by_command
    then show ?thesis using that(2)
      by cases (auto simp: private_copy_def record_package_def split: option.split_asm if_split_asm)
  next
    case by_recovery
    then show ?thesis using that(2) by cases (auto split: option.split)
  next
    case by_closing
    then show ?thesis using that(2) by cases (auto simp: report_end_def Let_def split: option.split)
  qed
qed

text \<open>What another thread does to the queue of a session that admits nothing.\<close>

lemma caller_queue:
  assumes "caller_step s s'" and "ss_closed s \<or> ss_terminal s \<noteq> None" and "names_ok s" and "refs_ok s"
    and "r \<in> set (ss_queue s')" and "r \<notin> set (ss_queue s)"
  shows "\<not> user_command (cmd s' r)"
  using assms(1)
proof cases
  case (call_execute name dirty ok reply)
  from call_execute(3) assms(2,5,6) show ?thesis by (cases rule: execute_cases) auto
next
  case (call_close dirty ok reply)
  then show ?thesis using assms(5,6)
    by (cases rule: close_cases) (auto simp: enqueued_def Let_def admitted_heap write_record_def nth_append user_command_def)
next
  case (caller_times_out q)
  with assms(5,6) show ?thesis by (auto simp: terminalize_timeout_def split: if_split_asm)
next
  case start_times_out
  with assms(5,6) show ?thesis by (auto simp: terminalize_start_def Let_def split: if_split_asm)
next
  case (put_recovery q)
  with assms(3,5,6) show ?thesis by (auto simp: names_ok_def user_command_def)
qed (use assms(5,6) in auto)

lemma caller_owner: "caller_step s s' \<Longrightarrow> ss_owner s' = ss_owner s \<and> ss_started s' = ss_started s"
  by (erule caller_step.cases)
    (auto simp: terminalize_timeout_def terminalize_start_def Let_def dest: execute_step close_step)

lemma caller_hand:
  assumes "caller_step s s'" and "hand_ok s" and "names_ok s" and "refs_ok s"
  shows "hand_ok s'"
proof -
  have step: "session_step s s'" using assms(1) by (rule session_step.by_caller)
  have names: "lc_name (cmd s' r) = lc_name (cmd s r)" if "r \<in> owner_refs (ss_owner s) \<union> set (ss_queue s)" for r
    using step_same [OF step, of r] that assms(4) by (auto simp: refs_ok_def refs_def same_identity_def)
  have late: "(ss_closed s' \<or> ss_terminal s' \<noteq> None) \<and> filter (\<lambda>r. user_command (cmd s' r)) (ss_queue s') = []"
    if idle: "(ss_closed s \<or> ss_terminal s \<noteq> None) \<and> filter (\<lambda>r. user_command (cmd s r)) (ss_queue s) = []"
  proof -
    have "\<not> user_command (cmd s' r)" if r: "r \<in> set (ss_queue s')" for r
    proof (cases "r \<in> set (ss_queue s)")
      case True
      with idle names [of r] show ?thesis by (simp add: filter_empty_conv user_command_def)
    next
      case False
      with caller_queue [OF assms(1) _ assms(3,4) r] idle show ?thesis by blast
    qed
    then show ?thesis using idle closed_stays [OF step] terminal_stays [OF step] by (auto simp: filter_empty_conv)
  qed
  from caller_owner [OF assms(1)] assms(2) names late terminal_stays [OF step] show ?thesis
    unfolding hand_ok_def by (cases "ss_owner s") auto
qed

lemma hand_simps [simp]:
  "hand_ok (at_owner OIdle s)" "hand_ok (at_owner OReady s)" "hand_ok (at_owner OFinalizing s)" "hand_ok (at_owner OTeardown s)"
  "hand_ok (at_owner OStarting s)" "hand_ok (at_owner (OTaken r) s)" "hand_ok (at_owner OQuit s)" "hand_ok (at_owner (OChecked d a) s)"
  "hand_ok (at_owner (OReport True) s)" "hand_ok (at_owner (OReport False) s) \<longleftrightarrow> ss_terminal s \<noteq> None"
  "hand_ok (at_owner (OStarted r) s) \<longleftrightarrow> r \<in> set (ss_started s)" "hand_ok (at_owner (OHandler r b) s) \<longleftrightarrow> r \<in> set (ss_started s)"
  "hand_ok (at_owner (OReturned r b) s) \<longleftrightarrow> r \<in> set (ss_started s)" "hand_ok (at_owner (OSettling r) s) \<longleftrightarrow> r \<in> set (ss_started s)"
  "hand_ok (at_owner (OException r) s) \<longleftrightarrow> r \<in> set (ss_started s)" "hand_ok (at_owner (OSignal r) s) \<longleftrightarrow> r \<in> set (ss_started s)"
  "hand_ok (at_owner (OFinally r b) s) \<longleftrightarrow> r \<in> set (ss_started s)"
  "hand_ok (at_owner (OCloseRead r b) s) \<longleftrightarrow> lc_name (cmd s r) = close_name" "hand_ok (at_owner (ORefused r) s) \<longleftrightarrow> lc_name (cmd s r) = close_name"
  "hand_ok (at_owner (ORecovered r f) s) \<longleftrightarrow> lc_name (cmd s r) = recover_name"
  by (simp_all add: hand_ok_def)

lemma hand_working: "hand_ok s \<Longrightarrow> r \<in> working s \<Longrightarrow> r \<in> set (ss_started s)"
  by (cases "ss_owner s") (auto simp: hand_ok_def working_def)

lemma hand_holding:
  assumes "hand_ok s" and "ss_owner s \<in> {OHeldLoop, OHeldWait}" and "ph \<in> {OHeldLoop, OHeldWait, ODone}"
  shows "hand_ok (at_owner ph s)"
  using assms by (auto simp: hand_ok_def)

lemma step_hand:
  assumes "session_step s s'" and "hand_ok s" and "names_ok s" and "refs_ok s" and "flags_ok s"
  shows "hand_ok s'"
  using assms(1)
proof cases
  case by_caller
  then show ?thesis by (rule caller_hand [OF _ assms(2-4)])
next
  case by_start
  then show ?thesis using assms(2) by cases (auto simp: run_fails_def hand_ok_def)
next
  case by_command
  then show ?thesis
  proof cases
    case (begin_command r)
    then show ?thesis by (simp add: take_command_def)
  next
    case (handler_edits r clean)
    with assms(2) show ?thesis by (simp add: hand_ok_def)
  next
    case (handler_holds r clean may)
    with assms(2) show ?thesis by (simp add: hand_ok_def)
  next
    case (handler_copies r clean)
    with assms(2) show ?thesis by (auto simp: hand_ok_def private_copy_def)
  next
    case (handler_records r clean epoch)
    with assms(2) show ?thesis by (auto simp: hand_ok_def record_package_def split: option.split_asm if_split_asm)
  next
    case (settle r ok)
    with assms(2) show ?thesis by (simp add: hand_ok_def settle_returned_def Let_def)
  next
    case (left_command r propagates ok)
    then show ?thesis by (simp add: leave_command_def run_fails_def Let_def)
  next
    case (raises r)
    with assms(2) hand_working [of s r] show ?thesis by (auto simp: working_def)
  next
    case (interrupted r)
    with assms(2) hand_working [of s r] show ?thesis by (auto simp: working_def)
  qed (use assms(2) in \<open>auto simp: hand_ok_def enter_handler_def after_handler_def settle_exception_def settle_signal_def Let_def\<close>)
next
  case by_recovery
  then show ?thesis by cases (auto simp: upd_cmd split: option.split)
next
  case by_closing
  then show ?thesis
  proof cases
    case (read_fails r)
    then show ?thesis by (simp add: hold_native_custody_def upd_cmd hold_command_def)
  next
    case (close_decided r m)
    with assms(2) have "lc_name (cmd s r) = close_name" by (simp add: hand_ok_def)
    then show ?thesis using close_decided
      by (simp add: decide_close_def refuse_close_def upd_cmd apply_outcome_def ensure_data_def Let_def split: option.split)
  next
    case (not_permitted)
    with assms(5) show ?thesis by (simp add: flags_ok_def permitted_def)
  next
    case (watchdog_stays)
    with assms(5) show ?thesis by (auto simp: flags_ok_def hold_session_def)
  next
    case (teardown_raises)
    then show ?thesis by (simp add: teardown_terminal)
  next
    case (reported b ok)
    with assms(2) show ?thesis
      by (cases b) (auto simp: hand_ok_def report_end_def Let_def split: option.split)
  next
    case (keeps_holding)
    with assms(2) show ?thesis by (simp add: hand_holding)
  next
    case (thread_ends)
    with assms(2) show ?thesis by (simp add: hand_holding)
  next
    case (refuses_pending r q)
    have "user_command (cmd (upd r (answer (FError CloseHeld)) (s\<lparr>ss_queue := q\<rparr>)) x) = user_command (cmd s x)" for x
      by (simp add: upd_cmd user_command_def answer_def)
    with refuses_pending assms(2) show ?thesis by (auto simp: hand_ok_def split: if_split_asm)
  next
    case (close_refused r)
    then show ?thesis by (simp add: answer_refused_def)
  qed (auto simp: upd_cmd)
qed

definition waiting_ok :: "session \<Rightarrow> bool" where
  "waiting_ok s \<longleftrightarrow>
    (\<forall>r \<in> ss_waiting s. user_command (cmd s r) \<and> lc_future (cmd s r) = FPending
       \<longrightarrow> lc_state (cmd s r) = Queued \<and> r \<in> set (in_line s) \<or> r \<in> working s)"

text \<open>A command in the hands of the owning thread leaves them with an answer.\<close>

lemma answered_upd: "r < length (ss_heap s) \<Longrightarrow> f \<noteq> FPending \<Longrightarrow> lc_future (cmd (upd r (answer f) s) r) \<noteq> FPending"
  by (simp add: upd_cmd answer_def)

lemma settled_answers:
  "r < length (ss_heap s) \<Longrightarrow> lc_future (cmd (settle_held_command r v escaped ok s) r) \<noteq> FPending"
  by (simp add: settle_held_command_def upd_cmd answer_def Let_def)

lemma settled_returned:
  assumes "r < length (ss_heap s)"
  shows "ss_owner (settle_returned r ok s) = OException r \<or> lc_future (cmd (settle_returned r ok s) r) \<noteq> FPending"
proof -
  have "lc_future (cmd (upd r (answer (FResult v)) t) r) \<noteq> FPending" if "length (ss_heap t) = length (ss_heap s)" for v t
    using assms that by (intro answered_upd) simp_all
  then show ?thesis using assms by (auto simp: settle_returned_def Let_def settled_answers)
qed

lemma working_step:
  assumes "session_step s s'" and "r \<in> working s" and "r < length (ss_heap s)" and "lc_future (cmd s' r) = FPending"
  shows "r \<in> working s'"
  using assms(1)
proof cases
  case by_caller
  with caller_owner [OF this] assms(2) show ?thesis by (simp add: working_def)
next
  case by_command
  then show ?thesis
  proof cases
    case (settle q ok)
    with assms(2-4) settled_returned [OF assms(3), of ok] show ?thesis by (auto simp: working_def)
  next
    case (exception_settled q ok)
    with assms(2-4) show ?thesis by (auto simp: working_def settle_exception_def Let_def settled_answers)
  next
    case (signal_settled q ok)
    have "lc_future (cmd (upd q (\<lambda>c. answer (FError SignalError) (c\<lparr>lc_error := Some SignalError, lc_state := Failed, lc_ok := Some False\<rparr>)) s) q) \<noteq> FPending"
      if "q = r" using that assms(3) by (simp add: upd_cmd answer_def)
    with signal_settled assms(2-4) show ?thesis by (auto simp: working_def settle_signal_def settled_answers split: if_split_asm)
  next
    case (handler_copies q clean)
    with assms(2) show ?thesis by (auto simp: working_def private_copy_def)
  next
    case (handler_records q clean epoch)
    with assms(2) show ?thesis by (auto simp: working_def record_package_def split: option.split_asm if_split_asm)
  qed (use assms(2) in \<open>auto simp: working_def enter_handler_def after_handler_def Let_def\<close>)
next
  case by_start
  then show ?thesis using assms(2) by cases (auto simp: working_def)
next
  case by_recovery
  then show ?thesis using assms(2) by cases (auto simp: working_def)
next
  case by_closing
  then show ?thesis using assms(2) by cases (auto simp: working_def)
qed

text \<open>A command leaves the line into the hands of the owning thread, or with an answer.\<close>

lemma terminalize_answers:
  assumes "r \<in> set (ss_queue s)" and "r < length (ss_heap s)" and "ss_terminal s = None" and "timely r (cmd s r)"
    and "lc_state (cmd s r) = Queued"
  shows "lc_future (cmd (terminalize_timeout q s) r) \<noteq> FPending"
proof -
  let ?t = "quarantine (upd q time_out_command s)"
  have "\<not> (lc_timed_out (cmd ?t r) \<and> lc_future (cmd ?t r) = FPending)"
  proof (cases "q = r")
    case True
    with assms(2,5) show ?thesis
      by (simp add: upd_cmd time_out_command_def settled_state_def future_choices state_choices Let_def)
  next
    case False
    with assms(4,5) show ?thesis by (auto simp: upd_cmd timely_def)
  qed
  then show ?thesis using assms(1-3) cancel_answers [of r ?t] by (simp add: terminalize_timeout_def)
qed

lemma report_answers:
  assumes "r \<in> set (ss_queue s)" and "r < length (ss_heap s)" and "timely r (cmd s r)" and "lc_state (cmd s r) = Queued"
    and "command_of s (close_id s) \<noteq> Some r"
  shows "lc_future (cmd (report_end b ok s) r) \<noteq> FPending"
proof -
  define close where "close = command_of s (close_id s)"
  define s1 where "s1 = s\<lparr>ss_closed := ss_closed s \<or> b\<rparr>"
  define s2 where "s2 = (case close of None \<Rightarrow> s1 | Some r \<Rightarrow> upd r (finish_close b (ss_terminal s1)) s1)"
  define s3 where "s3 = (if b then fold (\<lambda>r. upd r (stop_command (ss_terminal s2))) (filter (\<lambda>r. Some r \<noteq> close) (map snd (ss_by_id s2))) s2 else s2)"
  have 2: "cmd s2 r = cmd s r" using assms(5) by (simp add: s2_def s1_def close_def upd_cmd split: option.split)
  have stopped: "lc_timed_out (cmd (fold (\<lambda>r. upd r (stop_command t)) rs u) r) = lc_timed_out (cmd u r)
      \<and> (lc_future (cmd (fold (\<lambda>r. upd r (stop_command t)) rs u) r) = FPending \<longrightarrow> lc_future (cmd u r) = FPending)" for t rs u
  proof (induction rs arbitrary: u)
    case (Cons a rs)
    have "lc_timed_out (cmd (upd a (stop_command t) u) r) = lc_timed_out (cmd u r)"
      "lc_future (cmd (upd a (stop_command t) u) r) = FPending \<longrightarrow> lc_future (cmd u r) = FPending"
      by (auto simp: upd_cmd timed_out_same future_choices)
    with Cons [of "upd a (stop_command t) u"] show ?case by simp
  qed simp
  have "\<not> (lc_timed_out (cmd s r) \<and> lc_future (cmd s r) = FPending)" using assms(3,4) by (auto simp: timely_def)
  with stopped [of "ss_terminal s2" _ s2] have "\<not> (lc_timed_out (cmd s3 r) \<and> lc_future (cmd s3 r) = FPending)"
    by (auto simp: s3_def 2)
  moreover have "ss_queue s3 = ss_queue s" "length (ss_heap s3) = length (ss_heap s)"
    by (simp_all add: s3_def s2_def s1_def split: option.split)
  ultimately have "lc_future (cmd (cancel_pending_commands s3) r) \<noteq> FPending" using assms(1,2) by (intro cancel_answers) simp_all
  then have "lc_future (cmd (case close of None \<Rightarrow> cancel_pending_commands s3
      | Some q \<Rightarrow> upd q (\<lambda>c. answer (g c) c) (cancel_pending_commands s3)) r) \<noteq> FPending" for g
    by (auto simp: upd_cmd answer_def split: option.split)
  then show ?thesis unfolding report_end_def Let_def s3_def s2_def s1_def close_def by simp
qed

lemma line_step:
  assumes "session_step s s'" and "r \<in> set (in_line s)" and "r < length (ss_heap s)" and "lc_state (cmd s r) = Queued"
    and "timely r (cmd s r)" and "lc_future (cmd s' r) = FPending" and "user_command (cmd s r)" and "names_ok s" and "refs_ok s"
    and "\<And>b. ss_owner s = OReport b \<Longrightarrow> r \<in> set (ss_queue s)"
  shows "r \<in> set (in_line s') \<or> r \<in> working s'"
  using assms(1)
proof cases
  case by_caller
  then show ?thesis
  proof cases
    case (call_execute name dirty ok reply)
    from call_execute(3) assms(2) show ?thesis by (cases rule: execute_cases) auto
  next
    case (call_close dirty ok reply)
    then show ?thesis
    proof (cases rule: close_cases)
      case refused
      with assms(2) show ?thesis by (simp add: in_line_def)
    qed (use assms(2) in auto)
  next
    case (caller_times_out q)
    let ?s = "s\<lparr>ss_waiting := ss_waiting s - {q}\<rparr>"
    have "r \<in> set (ss_queue s) \<Longrightarrow> ss_terminal s = None \<Longrightarrow> lc_future (cmd s' r) \<noteq> FPending"
      using terminalize_answers [of r ?s q] assms(3-5) caller_times_out(1) by simp
    with assms(2,6) caller_times_out(1) show ?thesis by (auto simp: in_line_def terminalize_timeout_def)
  next
    case start_times_out
    let ?s = "register (start_command (s\<lparr>ss_starting := False\<rparr>)) (s\<lparr>ss_starting := False, ss_counter := ss_counter s + 1\<rparr>)"
    have "r \<in> set (ss_queue s) \<Longrightarrow> lc_future (cmd (cancel_pending_commands (quarantine ?s)) r) \<noteq> FPending"
      using assms(3-5) by (intro cancel_answers) (auto simp: register_heap nth_append timely_def)
    with assms(2,6) start_times_out(1) show ?thesis
      by (auto simp: in_line_def taken_def terminalize_start_def Let_def split: if_split_asm)
  qed (use assms(2) in \<open>auto simp: in_line_def\<close>)
next
  case by_start
  then show ?thesis using assms(2) by cases (auto simp: in_line_def taken_def)
next
  case by_command
  then show ?thesis
  proof cases
    case (begin_command q)
    show ?thesis
    proof (cases "q = r")
      case True
      with begin_command assms(3,4,6) show ?thesis by (auto simp: take_command_def working_def upd_cmd answer_def at_owner_def split: if_split_asm)
    next
      case False
      with begin_command assms(2) show ?thesis by (auto simp: in_line_def taken_def take_command_def)
    qed
  next
    case (handler_copies q clean)
    with assms(2) show ?thesis by (auto simp: in_line_def taken_def private_copy_def)
  next
    case (handler_records q clean epoch)
    with assms(2) show ?thesis by (auto simp: in_line_def taken_def record_package_def split: option.split_asm if_split_asm)
  qed (use assms(2) in \<open>auto simp: in_line_def taken_def\<close>)
next
  case by_recovery
  then show ?thesis using assms(2,7) by cases (auto simp: in_line_def taken_def user_command_def split: option.split)
next
  case by_closing
  then show ?thesis
  proof cases
    case (reported b ok)
    have "command_of s (close_id s) \<noteq> Some r" using close_cell [OF assms(8,9)] assms(7) by (auto simp: user_command_def)
    from report_answers [OF assms(10) [OF reported(2)] assms(3,5,4) this] reported(1) assms(6) show ?thesis by simp
  next
    case (refuses_pending q qs)
    have "r = q \<Longrightarrow> lc_future (cmd s' r) \<noteq> FPending" using refuses_pending(1) assms(3) by (simp add: upd_cmd answer_def)
    with refuses_pending assms(2,6) show ?thesis by (auto simp: in_line_def taken_def)
  next
    case (read_modified q m)
    with assms(2,7) show ?thesis by (auto simp: in_line_def taken_def user_command_def)
  next
    case (read_fails q)
    with assms(2,7) show ?thesis by (auto simp: in_line_def taken_def user_command_def)
  qed (use assms(2) in \<open>auto simp: in_line_def taken_def\<close>)
qed

lemma taken_step:
  assumes "session_step s s'" and "ss_owner s = OTaken r" and "r < length (ss_heap s)" and "lc_state (cmd s r) = Queued"
    and "lc_future (cmd s' r) = FPending" and "user_command (cmd s r)" and "r \<notin> working s'"
  shows "lc_state (cmd s' r) = Queued"
  using assms(1)
proof cases
  case by_caller
  have "next_cell {} s r (cmd s' r)"
    using caller_next [OF by_caller] step_grows [OF assms(1)] assms(3) by (simp add: all_cells_def)
  with assms(3-5) show ?thesis by (simp add: next_cell_def stays_queued_def)
next
  case by_command
  then show ?thesis
  proof cases
    case (begin_command q)
    with assms show ?thesis by (auto simp: take_command_def working_def upd_cmd answer_def at_owner_def split: if_split_asm)
  qed (use assms(2) in auto)
next
  case by_start
  then show ?thesis using assms(2) by cases auto
next
  case by_recovery
  then show ?thesis using assms(2,6) by cases (auto simp: user_command_def)
next
  case by_closing
  then show ?thesis using assms(2,6) by cases (auto simp: user_command_def)
qed

lemma step_waiting:
  assumes "session_step s s'" and "r \<in> ss_waiting s'" and "r \<notin> ss_waiting s"
  shows "r \<in> set (ss_queue s') \<and> lc_state (cmd s' r) = Queued"
  using assms(1)
proof cases
  case by_caller
  then show ?thesis
  proof cases
    case (call_execute name dirty ok reply)
    from call_execute(3) assms(2,3) show ?thesis
      by (cases rule: execute_cases) (auto simp: enqueued_def Let_def write_record_def admitted_heap nth_append)
  next
    case (call_close dirty ok reply)
    then show ?thesis using assms(2,3)
      by (cases rule: close_cases) (auto simp: enqueued_def Let_def write_record_def admitted_heap nth_append)
  next
    case (caller_times_out q)
    with assms(2,3) show ?thesis by (auto simp: terminalize_timeout_def split: if_split_asm)
  next
    case start_times_out
    with assms(2,3) show ?thesis by (auto simp: terminalize_start_def Let_def split: if_split_asm)
  qed (use assms(2,3) in auto)
next
  case by_start
  then show ?thesis using assms(2,3) by cases auto
next
  case by_command
  then show ?thesis using assms(2,3)
    by cases (auto simp: private_copy_def record_package_def split: option.split_asm if_split_asm)
next
  case by_recovery
  then show ?thesis using assms(2,3) by cases (auto split: option.split_asm)
next
  case by_closing
  then show ?thesis using assms(2,3) by cases (auto split: if_split_asm)
qed

lemma waiting_step:
  assumes "session_step s s'" and "waiting_ok s" and "names_ok s" and "order_ok s" and "hand_ok s" and "refs_ok s" and "all_cells timely s"
  shows "waiting_ok s'"
  unfolding waiting_ok_def
proof (intro ballI impI)
  fix r
  assume r: "r \<in> ss_waiting s'" and "user_command (cmd s' r) \<and> lc_future (cmd s' r) = FPending"
  then have user': "user_command (cmd s' r)" and pending': "lc_future (cmd s' r) = FPending" by simp_all
  show "lc_state (cmd s' r) = Queued \<and> r \<in> set (in_line s') \<or> r \<in> working s'"
  proof (cases "r \<in> ss_waiting s")
    case False
    with step_waiting [OF assms(1) r] show ?thesis by (simp add: in_line_def)
  next
    case True
    then have n: "r < length (ss_heap s)" using assms(6) by (auto simp: refs_ok_def refs_def)
    note follows = step_follows [OF assms(1) n]
    have user: "user_command (cmd s r)" and pending: "lc_future (cmd s r) = FPending"
      using follows user' pending' by (auto simp: follows_def same_identity_def user_command_def)
    with assms(2) True consider "lc_state (cmd s r) = Queued" "r \<in> set (in_line s)" | "r \<in> working s" by (auto simp: waiting_ok_def)
    then show ?thesis
    proof cases
      case 1
      have "r \<notin> set (ss_started s)" using assms(4) 1 by (auto simp: order_ok_def)
      then have idle: "r \<in> owner_refs (ss_owner s) \<Longrightarrow> r \<in> set (taken s)"
        using user assms(5) by (cases "ss_owner s") (auto simp: hand_ok_def taken_def user_command_def)
      have line: "r \<in> set (in_line s') \<or> r \<in> working s'"
      proof (rule line_step [OF assms(1) 1(2) n 1(1) _ pending' user assms(3,6)])
        show "timely r (cmd s r)" using assms(7) n by (simp add: all_cells_def)
        show "r \<in> set (ss_queue s)" if "ss_owner s = OReport b" for b using 1(2) that by (simp add: in_line_def taken_def)
      qed
      have next_c: "next_cell (in_hand s) s r (cmd s' r)" using step_cells [OF assms(1)] step_grows [OF assms(1)] n by (simp add: all_cells_def)
      show ?thesis
      proof (cases "r \<in> in_hand s")
        case False
        with next_c n 1(1) pending' line show ?thesis by (auto simp: next_cell_def stays_queued_def)
      next
        case True
        then have taken: "ss_owner s = OTaken r"
          using idle close_cell [OF assms(3,6), of r] user by (cases "ss_owner s") (auto simp: in_hand_def taken_def user_command_def)
        have "lc_state (cmd s' r) = Queued" if "r \<notin> working s'"
          by (rule taken_step [OF assms(1) taken n 1(1) pending' user that])
        with line show ?thesis by blast
      qed
    next
      case 2
      with working_step [OF assms(1) 2 n pending'] show ?thesis by simp
    qed
  qed
qed

section \<open>The owning thread is never stuck\<close>

definition owner_step :: "session \<Rightarrow> session \<Rightarrow> bool" where
  "owner_step s s' \<longleftrightarrow> start_step s s' \<or> command_step s s' \<or> recovery_step s s' \<or> closing_step s s'"

lemma owner_progress:
  assumes "hand_ok s" and "names_ok s" and "refs_ok s" and "ss_owner s \<noteq> ODone"
    and "ss_queue s = [] \<Longrightarrow> ss_owner s \<noteq> OIdle \<and> ss_owner s \<noteq> OHeldWait"
  shows "\<exists>s'. owner_step s s'"
proof -
  have start: "start_step s t \<Longrightarrow> ?thesis" and com: "command_step s t \<Longrightarrow> ?thesis" and rec: "recovery_step s t \<Longrightarrow> ?thesis"
    and clos: "closing_step s t \<Longrightarrow> ?thesis" for t by (auto simp: owner_step_def)
  show ?thesis
  proof (cases "ss_owner s")
    case (OTaken r)
    then have n: "r < length (ss_heap s)" using assms(3) by (auto simp: refs_ok_def refs_def)
    consider "lc_name (cmd s r) = close_name" | "lc_name (cmd s r) = recover_name"
      | "lc_name (cmd s r) \<noteq> close_name" "lc_name (cmd s r) \<noteq> recover_name" by blast
    then show ?thesis
    proof cases
      case 1
      show ?thesis by (rule clos [OF closing_step.read_modified [OF OTaken 1, where m = False]]) simp
    next
      case 2
      then obtain cid where "lc_recovery_for (cmd s r) = Some cid" using assms(2) n by (auto simp: names_ok_def)
      from rec [OF recovery_step.not_recovered [OF OTaken 2 this]] show ?thesis .
    next
      case 3
      from com [OF command_step.begin_command [OF OTaken 3]] show ?thesis .
    qed
  next
    case OIdle
    with assms(5) obtain r q where "ss_queue s = r # q" by (cases "ss_queue s") auto
    from com [OF command_step.take [OF OIdle this]] show ?thesis .
  next
    case OHeldWait
    with assms(5) obtain r q where "ss_queue s = r # q" by (cases "ss_queue s") auto
    from clos [OF closing_step.refuses_pending [OF OHeldWait this]] show ?thesis .
  next
    case (OStarted r)
    show ?thesis by (rule com [OF command_step.enter [OF OStarted, where clean = False]]) simp
  next
    case (OReturned r clean)
    show ?thesis by (rule com [OF command_step.outcome_read [OF OReturned, where still_clean = False]]) simp
  next
    case OFinalizing
    show ?thesis
      by (cases "permitted s") (blast intro: clos closing_step.teardown closing_step.not_permitted OFinalizing)+
  next
    case OHeldLoop
    show ?thesis
      by (cases "ss_held s \<and> \<not> ss_allow s") (blast intro: clos closing_step.keeps_holding closing_step.thread_ends OHeldLoop)+
  qed (use assms(4) in \<open>blast intro: start com rec clos start_step.start_fails start_step.location_fails command_step.intros
      recovery_step.recovery_answered closing_step.intros\<close>)+
qed

definition attended :: "session \<Rightarrow> bool" where
  "attended s \<longleftrightarrow> orderly s \<and> hand_ok s \<and> all_cells timely s \<and> waiting_ok s"

lemma live_attended: "live sid s \<Longrightarrow> attended s"
proof (induction rule: live.induct)
  case opened
  have "orderly (new_session sid)" by (rule live_orderly) (rule live.opened)
  then show ?case by (simp add: attended_def hand_ok_def all_cells_def waiting_ok_def new_session_def)
next
  case (moved s s')
  then have "orderly s'" using live_orderly [OF live.moved] by blast
  with moved show ?case
    by (auto simp: attended_def orderly_def custody_ok_def intro: step_hand step_timely waiting_step)
qed


text \<open>Two commands of different callers, the second admitted while the first runs.\<close>

definition two_commands :: "action list" where
  "two_commands = start_acts @ [Execute ''find'' False True, Take, Begin, Execute ''info'' False True, Enter False, HandlerReturns ok_result,
     Outcome False, Settle True, Leave True]"

lemma two_commands_run:
  "map_option (\<lambda>s. (ss_started s, 1 \<in> ss_waiting s, user_command (cmd s 1), lc_future (cmd s 1), lc_sequence (cmd s 0)))
     (run two_commands (new_session ''s'')) = Some ([0], True, True, FPending, 1)"
  by code_simp


theorem commands_start_once_in_order_witness:
  "\<exists>s. live ''s'' s \<and> ss_started s = [0] \<and> lc_state (cmd s 0) \<noteq> Cancelled"
proof -
  obtain s where s: "live ''s'' s" "ss_started s = [0]"
    using run_reaches [OF two_commands_run] by auto
  with commands_start_once_in_order [OF s(1)] show ?thesis by auto
qed

end
