(* ===== verification/SessionDebt.thy ===== *)
theory SessionDebt
  imports SessionOrder
begin

text \<open>
  When the debt of unproved edits is discharged, and corner cases of the session in which a caller, a journal
  failure or a time-out meets a decision of the owning thread half way.
\<close>

section \<open>The debt of unproved edits\<close>

text \<open>A handler that runs under the clean exemption belongs to an exempt command.\<close>

definition exempt_ok :: "session \<Rightarrow> bool" where
  "exempt_ok s \<longleftrightarrow>
    (case ss_owner s of
       OHandler r clean \<Rightarrow> clean \<longrightarrow> lc_name (cmd s r) \<in> set clean_exempt
     | OReturned r clean \<Rightarrow> clean \<longrightarrow> lc_name (cmd s r) \<in> set clean_exempt
     | _ \<Rightarrow> True)"

lemma owner_name: "session_step s s' \<Longrightarrow> refs_ok s \<Longrightarrow> r \<in> owner_refs (ss_owner s) \<Longrightarrow> lc_name (cmd s' r) = lc_name (cmd s r)"
  using step_same [of s s' r] by (auto simp: refs_ok_def refs_def same_identity_def)

lemma exempt_at_owner [simp]:
  "exempt_ok (at_owner ph s) = (case ph of OHandler r clean \<Rightarrow> clean \<longrightarrow> lc_name (cmd s r) \<in> set clean_exempt
     | OReturned r clean \<Rightarrow> clean \<longrightarrow> lc_name (cmd s r) \<in> set clean_exempt | _ \<Rightarrow> True)"
  by (simp add: exempt_ok_def split: owner.split)

lemma step_exempt:
  assumes "session_step s s'" and "exempt_ok s" and "refs_ok s"
  shows "exempt_ok s'"
proof (cases "ss_owner s' = ss_owner s")
  case True
  with owner_name [OF assms(1,3)] assms(2) show ?thesis by (cases "ss_owner s") (simp_all add: exempt_ok_def)
next
  case False
  from assms(1) show ?thesis
  proof cases
    case by_caller
    with caller_owner [OF this] False show ?thesis by simp
  next
    case by_start
    then show ?thesis using False by cases (auto simp: run_fails_def)
  next
    case by_command
    then show ?thesis
    proof cases
      case (enter r clean)
      then show ?thesis by (auto simp: enter_handler_def clean_possible_def)
    next
      case (handler_returns r clean v)
      with assms(2) show ?thesis by (simp add: exempt_ok_def upd_cmd)
    next
      case (handler_copies r clean)
      with False show ?thesis by (auto simp: private_copy_def)
    next
      case (handler_records r clean epoch)
      with False show ?thesis by (auto simp: record_package_def split: option.split_asm if_split_asm)
    next
      case (begin_command r)
      then show ?thesis by (simp add: take_command_def)
    next
      case (settle r ok)
      then show ?thesis by (simp add: settle_returned_def Let_def)
    next
      case (left_command r propagates ok)
      then show ?thesis by (simp add: leave_command_def run_fails_def Let_def)
    qed (use False in \<open>auto simp: after_handler_def settle_exception_def settle_signal_def Let_def\<close>)
  next
    case by_recovery
    then show ?thesis using False by cases auto
  next
    case by_closing
    then show ?thesis using False
      by cases (auto simp: decide_close_def answer_refused_def report_end_def Let_def split: option.split)
  qed
qed

lemma live_exempt: "live sid s \<Longrightarrow> exempt_ok s"
proof (induction rule: live.induct)
  case opened
  show ?case by (simp add: exempt_ok_def new_session_def)
next
  case (moved s s')
  with live_orderly [OF moved(1)] show ?case by (auto simp: orderly_def custody_ok_def intro: step_exempt)
qed

lemma settled_debt:
  assumes "ss_requires_save s" and "\<not> ss_requires_save (settle_returned r ok s)"
  shows "proved_save (cmd (upd r end_state s) r) \<and> \<not> lc_timed_out (cmd (upd r end_state s) r) \<and> \<not> ss_quarantined s
    \<and> \<not> lc_held (cmd (upd r end_state s) r) \<and> ok"
  using assms by (auto simp: settle_returned_def Let_def split: if_split_asm)

lemma proved_after_end: "proved_save (cmd (upd r end_state s) r) = proved_save (cmd s r)"
  "lc_timed_out (cmd (upd r end_state s) r) = lc_timed_out (cmd s r)" "lc_held (cmd (upd r end_state s) r) = lc_held (cmd s r)"
  by (auto simp: upd_cmd end_state_def ensure_data_def proved_save_def Let_def)

lemma save_name: "proved_save c \<Longrightarrow> lc_name c = ''save''"
  by (auto simp: proved_save_def Let_def)


definition save_result :: json where
  "save_result = JObj [(''ok'', JBool True), (''ordinary_save_confirmed'', JBool True)]"

text \<open>An edit, and a save up to the point where its result is to be settled.\<close>

definition edit_and_save :: "action list" where
  "edit_and_save = start_acts @ [Execute ''type'' False True] @ command_acts ok_result @ [Execute ''save'' False True]
     @ [Take, Begin, Enter False, HandlerReturns save_result, Outcome False]"

lemma edit_and_save_runs:
  "map_option (\<lambda>s. (ss_requires_save s, ss_owner s, ss_requires_save (settle_returned 1 True s))) (run edit_and_save (new_session ''s''))
    = Some (True, OSettling 1, False)"
  by code_simp


section \<open>Corner cases\<close>

text \<open>
  C32. A handler that returns something other than an object: for a command that only reads, the reader of
  outcomes accepts it as a success, but the settlement then fails on it, the session is held, and the caller
  gets the error of a held session instead of the result.
\<close>

theorem plain_result_holds_session:
  assumes "command \<in> set known_commands" and "command \<notin> set mutating_commands" and "\<not> is_dict v"
    and "r < length (ss_heap s)" and "lc_name (cmd s r) = command" and "lc_result (cmd s r) = Some v"
    and "lc_future (cmd s r) = FPending" and "\<not> lc_held (cmd s r)"
  shows "nm_ok (normalize_command_outcome command v None) = Some True
    \<and> ss_owner (settle_returned r ok s) = OException r
    \<and> ss_held (settle_exception r ok' (settle_returned r ok s))
    \<and> lc_future (cmd (settle_exception r ok' (settle_returned r ok s)) r) = FError HeldOutcome"
proof -
  let ?t = "settle_returned r ok s"
  have 1: "nm_ok (normalize_command_outcome command v None) = Some True"
    using assms(1-3) by (cases v) (simp_all add: normalize_command_outcome_def is_dict_def)
  have c: "lc_result (cmd (upd r end_state s) r) = Some v" "\<not> lc_held (cmd (upd r end_state s) r)"
    "lc_future (cmd (upd r end_state s) r) = FPending"
    using assms(4-8) by (simp_all add: upd_cmd end_state_def ensure_data_def Let_def)
  with assms(3) have t: "?t = at_owner (OException r) (if ok then write_record r (upd r end_state s) else upd r end_state s)"
    by (simp add: settle_returned_def Let_def)
  then have "\<not> lc_held (cmd ?t r)" "lc_future (cmd ?t r) = FPending" "r < length (ss_heap ?t)" using c assms(4) by simp_all
  then show ?thesis using 1 t
    by (simp add: settle_exception_def settle_held_command_def hold_native_custody_def upd_cmd answer_def settle_command_def
        hold_command_def Let_def)
qed

definition plain_result :: "action list" where
  "plain_result = start_acts @ [Execute ''find'' False True, Take, Begin, Enter False, HandlerReturns (JStr ''here''), Outcome False]"

lemma plain_result_runs:
  "map_option (\<lambda>s. (length (ss_heap s), lc_name (cmd s 0), lc_result (cmd s 0), lc_future (cmd s 0), lc_held (cmd s 0)))
     (run plain_result (new_session ''s'')) = Some (1, ''find'', Some (JStr ''here''), FPending, False)"
  by code_simp

theorem plain_result_holds_session_witness:
  "\<exists>s. live ''s'' s \<and> lc_result (cmd s 0) = Some (JStr ''here'') \<and> ss_held (settle_exception 0 True (settle_returned 0 True s))"
proof -
  obtain s where s: "live ''s'' s" "length (ss_heap s) = 1" "lc_name (cmd s 0) = ''find''" "lc_result (cmd s 0) = Some (JStr ''here'')"
    "lc_future (cmd s 0) = FPending" "\<not> lc_held (cmd s 0)"
    using run_reaches [OF plain_result_runs] by auto
  have "''find'' \<in> set known_commands" "''find'' \<notin> set mutating_commands" "\<not> is_dict (JStr ''here'')"
    by (simp_all add: known_commands_def mutating_commands_def is_dict_def)
  from plain_result_holds_session [OF this, of 0 s True True] s show ?thesis by auto
qed

text \<open>
  The entry of a command reached through an admitted close whose journal write fails: the session stays
  closing with no close in its queue.
\<close>

lemma close_without_sentinel:
  fixes s :: session and dirty :: bool
  assumes "\<not> ss_closed s" and "\<not> ss_closing s" and "permitted s" and "\<not> (ss_held s \<and> \<not> ss_allow s)" and "ss_terminal s = None"
  defines "s' \<equiv> fst (close_session dirty False s)"
  shows "snd (close_session dirty False s) = CloseRefused JournalFailed" "ss_queue s' = ss_queue s"
    "snd (execute name dirty' ok s') = Inl SessionClosing" "snd (close_session dirty'' ok' s') = CloseRefused SessionClosing"
proof -
  have "(ss_held s \<and> \<not> ss_allow s) = False" "(ss_quarantined s \<and> \<not> ss_allow s) = False"
    using assms(3,4) by (auto simp: permitted_def)
  note c = this assms(1,2,5)
  then have s': "s' = close_admitted dirty s" "snd (close_session dirty False s) = CloseRefused JournalFailed"
    unfolding s'_def by (cases "ss_allow s"; simp add: close_session_def Let_def close_admitted_def close_id_def)+
  from s'(2) show "snd (close_session dirty False s) = CloseRefused JournalFailed" .
  have closing: "ss_closing s'" by (simp add: s' close_admitted_def)
  show "ss_queue s' = ss_queue s" by (simp add: s')
  show "snd (execute name dirty' ok s') = Inl SessionClosing" using closing c by (simp add: s' execute_def)
  show "snd (close_session dirty'' ok' s') = CloseRefused SessionClosing"
    using closing c by (cases "ss_allow s") (simp_all add: s' close_session_def Let_def)
qed

text \<open>
  An acknowledgement whose journal write ends after a later hold: the session is held, yet cleanup is
  allowed, and the owning thread leaves the loop that keeps it.
\<close>

definition acknowledged_after_hold :: "action list" where
  "acknowledged_after_hold = start_acts @ [Execute ''find'' False True, Take, Begin, Enter False, TimeOut 0, HandlerReturns ok_result,
     Outcome False, Settle True, Leave True, Reconcile ''s:command-1'' True, PutRecovery 1, Take, Recover True, RecoveryEnds,
     Acknowledge ''s:command-1'', Acknowledged 0 True, Acknowledge ''s:command-1'', CloseCall False True, Take, ReadModified False,
     DecideClose, Teardown, TeardownRaises, Report True, Acknowledged 0 True, EndThread]"

lemma acknowledged_after_hold_runs:
  "map_option (\<lambda>s. (ss_held s, ss_allow s, ss_quits s, ss_owner s)) (run acknowledged_after_hold (new_session ''s''))
    = Some (True, True, [], ODone)"
  by code_simp

text \<open>
  A close that times out after it was taken and before the finalizer reads whether teardown is permitted:
  the owning thread ends, with the native document neither torn down nor held.
\<close>

definition close_times_out_late :: "action list" where
  "close_times_out_late = start_acts @ [CloseCall False True, Take, ReadModified False, DecideClose, TimeOut 0, NotPermitted, Report True, EndThread]"

lemma close_times_out_late_runs:
  "map_option (\<lambda>s. (ss_native s, ss_held s, ss_closed s, ss_quits s, ss_owner s)) (run close_times_out_late (new_session ''s''))
    = Some (True, False, False, [], ODone)"
  by code_simp

text \<open>
  A debt announced by a caller while an exempt command runs: the clean check of that command discharges it,
  and the session quits without a save.
\<close>

definition announced_debt :: "action list" where
  "announced_debt = start_acts @ [Execute ''move'' False True, Take, Begin, Enter True, Execute ''find'' True True, HandlerReturns ok_result,
     Outcome True, Settle True, Leave True] @ command_acts ok_result @ [CloseCall False True] @ close_acts"

lemma announced_debt_runs:
  "map_option (\<lambda>s. (ss_requires_save s, ss_quits s, ss_closed s)) (run announced_debt (new_session ''s''))
    = Some (False, [(False, False, False)], True)"
  by code_simp

end
