(* ===== verification/SessionManager.thy ===== *)
theory SessionManager
  imports SessionDebt
begin

text \<open>
  The registry of live sessions (class \<open>LocalCliRuntimeManager\<close> of app/local_cli_runtime.py): which session
  answers for a session id, and when its entry is dropped. A session is a cell, because a call keeps the
  object it looked up while the registry may change. The registry's own lock makes each of its sections one
  step; the sessions move on their own between them.
\<close>

section \<open>State and operations\<close>

record manager =
  mg_sessions :: "session list"
  mg_map :: "(string \<times> nat) list"
  mg_roots :: "string list"
  mg_opening :: "(string \<times> nat) list"
  mg_calls :: "(string \<times> nat) list"

definition new_manager :: manager where
  "new_manager = \<lparr>mg_sessions = [], mg_map = [], mg_roots = [], mg_opening = [], mg_calls = []\<rparr>"

abbreviation sess :: "manager \<Rightarrow> nat \<Rightarrow> session" where
  "sess m r \<equiv> mg_sessions m ! r"

definition session_of :: "manager \<Rightarrow> string \<Rightarrow> nat option" where
  "session_of m sid = map_of (mg_map m) sid"

definition is_terminal :: "session \<Rightarrow> bool" where
  "is_terminal s \<longleftrightarrow> ss_terminal s \<noteq> None"

definition is_alive :: "session \<Rightarrow> bool" where
  "is_alive s \<longleftrightarrow> thread_alive s \<and> \<not> ss_closed s"

definition dict_pop :: "'k \<Rightarrow> ('k \<times> 'v) list \<Rightarrow> ('k \<times> 'v) list" where
  "dict_pop k d = filter (\<lambda>(a, _). a \<noteq> k) d"

definition pop_session :: "string \<Rightarrow> manager \<Rightarrow> manager" where
  "pop_session sid m = m\<lparr>mg_map := dict_pop sid (mg_map m)\<rparr>"

definition pop_root :: "string \<Rightarrow> manager \<Rightarrow> manager" where
  "pop_root sid m = m\<lparr>mg_roots := removeAll sid (mg_roots m)\<rparr>"

datatype open_error = NeedsReconciliation | CleanupInProgress | AlreadyOpen

definition register_session :: "string \<Rightarrow> manager \<Rightarrow> manager" where
  "register_session sid m =
    m\<lparr>mg_sessions := mg_sessions m @ [new_session sid], mg_map := dict_put sid (length (mg_sessions m)) (mg_map m),
      mg_roots := (if sid \<in> set (mg_roots m) then mg_roots m else mg_roots m @ [sid]),
      mg_opening := (sid, length (mg_sessions m)) # mg_opening m\<rparr>"

text \<open>\<open>open_session\<close> up to the start of the session, which the caller waits for.\<close>

definition open_session :: "string \<Rightarrow> manager \<Rightarrow> (open_error + nat) \<times> manager" where
  "open_session sid m =
    (case session_of m sid of
       None \<Rightarrow> (Inr (length (mg_sessions m)), register_session sid m)
     | Some r \<Rightarrow>
       if is_terminal (sess m r) \<and> has_unreconciled (sess m r) then (Inl NeedsReconciliation, m)
       else if is_terminal (sess m r) \<and> is_alive (sess m r) then (Inl CleanupInProgress, m)
       else
         let m1 = (if is_terminal (sess m r) then pop_session sid m else m) in
         if is_alive (sess m r) then (Inl AlreadyOpen, m1)
         else (Inr (length (mg_sessions m)), register_session sid m1))"

text \<open>The start raised: a session that is not terminal is forgotten.\<close>

definition open_failed :: "string \<Rightarrow> nat \<Rightarrow> manager \<Rightarrow> manager" where
  "open_failed sid r m =
    (let m1 = m\<lparr>mg_opening := remove1 (sid, r) (mg_opening m)\<rparr> in
     if \<not> is_terminal (sess m r) then pop_root sid (pop_session sid m1) else m1)"

definition require_session :: "string \<Rightarrow> manager \<Rightarrow> nat option" where
  "require_session sid m = (case session_of m sid of None \<Rightarrow> None | Some r \<Rightarrow> if is_alive (sess m r) then Some r else None)"

definition has_session :: "string option \<Rightarrow> manager \<Rightarrow> bool" where
  "has_session sid m \<longleftrightarrow> (case sid of None \<Rightarrow> False | Some k \<Rightarrow>
     k \<noteq> [] \<and> (case session_of m k of None \<Rightarrow> False | Some r \<Rightarrow> is_alive (sess m r)))"

text \<open>A command raised an error of the runtime.\<close>

definition execute_failed :: "string \<Rightarrow> nat \<Rightarrow> manager \<Rightarrow> manager" where
  "execute_failed sid r m =
    (if \<not> is_alive (sess m r) \<and> \<not> is_terminal (sess m r) then pop_session sid m else m)"

text \<open>The close of a session returned.\<close>

definition close_returned :: "string \<Rightarrow> nat \<Rightarrow> manager \<Rightarrow> manager" where
  "close_returned sid r m =
    (if session_of m sid = Some r \<and> \<not> has_unreconciled (sess m r) then pop_root sid (pop_session sid m) else m)"

definition native_custody_held :: "string \<Rightarrow> manager \<Rightarrow> bool" where
  "native_custody_held sid m = (case session_of m sid of None \<Rightarrow> False | Some r \<Rightarrow> ss_held (sess m r))"

definition journal_sequence :: "fields option \<Rightarrow> int" where
  "journal_sequence payload =
    (let kvs = (case payload of None \<Rightarrow> [] | Some kvs \<Rightarrow> kvs) in
     if has kvs ''latest_sequence'' then (case int_of_value (get kvs ''latest_sequence'') of None \<Rightarrow> 0 | Some n \<Rightarrow> n) else 0)"

text \<open>\<open>given\<close>: the journal under the session root of the call, or under the one that is registered.\<close>

definition manager_latest_sequence :: "string \<Rightarrow> (string \<Rightarrow> fields option) \<Rightarrow> fields option option \<Rightarrow> manager \<Rightarrow> int" where
  "manager_latest_sequence sid journal given m =
    (case session_of m sid of
       Some r \<Rightarrow> int (latest_command_sequence (sess m r))
     | None \<Rightarrow> (case given of
         Some payload \<Rightarrow> journal_sequence payload
       | None \<Rightarrow> if sid \<in> set (mg_roots m) then journal_sequence (journal sid) else 0))"

definition reapable :: "session \<Rightarrow> bool" where
  "reapable s \<longleftrightarrow> \<not> is_alive s \<and> \<not> has_unreconciled s"

definition reap_settled_sessions :: "manager \<Rightarrow> nat \<times> manager" where
  "reap_settled_sessions m =
    (let gone = map fst (filter (\<lambda>(sid, r). reapable (sess m r)) (mg_map m))
     in (length gone, m\<lparr>mg_map := filter (\<lambda>(sid, r). \<not> reapable (sess m r)) (mg_map m),
          mg_roots := filter (\<lambda>sid. sid \<notin> set gone) (mg_roots m)\<rparr>))"

section \<open>The manager and its sessions together\<close>

text \<open>
  \<open>mg_calls\<close> are calls that have looked their session up (\<open>require_session\<close>, \<open>close_session\<close>) and go on with
  it. A session that was registered and not started does not move by itself; its thread's first step is a
  step of \<open>session_step\<close>.
\<close>

inductive manager_step :: "manager \<Rightarrow> manager \<Rightarrow> bool" where
  opens: "manager_step m (snd (open_session sid m))"
| start_raised: "(sid, r) \<in> set (mg_opening m) \<Longrightarrow> is_terminal (sess m r) \<or> (\<exists>e. ss_start (sess m r) = FError e)
    \<Longrightarrow> manager_step m (open_failed sid r m)"
| start_answered: "(sid, r) \<in> set (mg_opening m) \<Longrightarrow> manager_step m (m\<lparr>mg_opening := remove1 (sid, r) (mg_opening m)\<rparr>)"
| looks_up: "session_of m sid = Some r \<Longrightarrow> manager_step m (m\<lparr>mg_calls := (sid, r) # mg_calls m\<rparr>)"
| execute_raised: "(sid, r) \<in> set (mg_calls m) \<Longrightarrow> manager_step m (execute_failed sid r (m\<lparr>mg_calls := remove1 (sid, r) (mg_calls m)\<rparr>))"
| closed: "(sid, r) \<in> set (mg_calls m) \<Longrightarrow> ss_closed (sess m r)
    \<Longrightarrow> manager_step m (close_returned sid r (m\<lparr>mg_calls := remove1 (sid, r) (mg_calls m)\<rparr>))"
| call_ended: "(sid, r) \<in> set (mg_calls m) \<Longrightarrow> manager_step m (m\<lparr>mg_calls := remove1 (sid, r) (mg_calls m)\<rparr>)"
| reaps: "manager_step m (snd (reap_settled_sessions m))"
| session_moves: "r < length (mg_sessions m) \<Longrightarrow> session_step (sess m r) s'
    \<Longrightarrow> manager_step m (m\<lparr>mg_sessions := (mg_sessions m)[r := s']\<rparr>)"

inductive managed :: "manager \<Rightarrow> bool" where
  created: "managed new_manager"
| changed: "managed m \<Longrightarrow> manager_step m m' \<Longrightarrow> managed m'"

section \<open>Invariants\<close>

definition registry_ok :: "manager \<Rightarrow> bool" where
  "registry_ok m \<longleftrightarrow>
    (\<forall>(sid, r) \<in> set (mg_map m) \<union> set (mg_opening m) \<union> set (mg_calls m). r < length (mg_sessions m) \<and> ss_sid (sess m r) = sid)
    \<and> distinct (map fst (mg_map m)) \<and> (\<forall>s \<in> set (mg_sessions m). live (ss_sid s) s)"

lemma dict_put_distinct: "distinct (map fst d) \<Longrightarrow> distinct (map fst (dict_put k v d))"
  by (induction k v d rule: dict_put.induct) (auto simp: dict_put_keys)

lemma map_of_pop: "map_of (dict_pop k d) = (map_of d)(k := None)"
  by (induction d) (auto simp: dict_pop_def fun_eq_iff)

lemma pop_facts [simp]:
  "mg_sessions (pop_session sid m) = mg_sessions m" "mg_opening (pop_session sid m) = mg_opening m" "mg_calls (pop_session sid m) = mg_calls m"
  "mg_map (pop_session sid m) = dict_pop sid (mg_map m)"
  "mg_sessions (pop_root sid m) = mg_sessions m" "mg_opening (pop_root sid m) = mg_opening m" "mg_calls (pop_root sid m) = mg_calls m"
  "mg_map (pop_root sid m) = mg_map m"
  by (simp_all add: pop_session_def pop_root_def)

lemma dict_pop_set [simp]: "set (dict_pop k d) = {x \<in> set d. fst x \<noteq> k}" "distinct (map fst d) \<Longrightarrow> distinct (map fst (dict_pop k d))"
  by (auto simp: dict_pop_def distinct_map_filter)

lemma new_session_sid [simp]: "ss_sid (new_session sid) = sid"
  by (simp add: new_session_def)

lemma registry_less:
  assumes "registry_ok m" and "mg_sessions m' = mg_sessions m" and "set (mg_map m') \<subseteq> set (mg_map m)" and "distinct (map fst (mg_map m'))"
    and "set (mg_opening m') \<subseteq> set (mg_opening m)" and "set (mg_calls m') \<subseteq> set (mg_map m) \<union> set (mg_calls m)"
  shows "registry_ok m'"
proof -
  have "x \<in> set (mg_map m) \<union> set (mg_opening m) \<union> set (mg_calls m)"
    if "x \<in> set (mg_map m') \<union> set (mg_opening m') \<union> set (mg_calls m')" for x
    using that assms(3,5,6) by auto
  with assms(1,2,4) show ?thesis by (simp add: registry_ok_def)
qed

lemma register_registry:
  assumes "registry_ok m"
  shows "registry_ok (register_session sid m)"
proof -
  let ?n = "length (mg_sessions m)" and ?m = "register_session sid m"
  have entries: "r < ?n \<and> ss_sid (sess m r) = k"
    if "(k, r) \<in> set (mg_map m) \<union> set (mg_opening m) \<union> set (mg_calls m)" for k r
    using assms that unfolding registry_ok_def by blast
  have new: "sess ?m r = (if r < ?n then sess m r else new_session sid)" if "r \<le> ?n" for r
    using that by (simp add: register_session_def nth_append)
  have "r < length (mg_sessions ?m) \<and> ss_sid (sess ?m r) = k"
    if "(k, r) \<in> set (mg_map ?m) \<union> set (mg_opening ?m) \<union> set (mg_calls ?m)" for k r
  proof -
    have "k = sid \<and> r = ?n \<or> (k, r) \<in> set (mg_map m) \<union> set (mg_opening m) \<union> set (mg_calls m)"
      using that by (auto simp: register_session_def dest: dict_put_mem)
    then show ?thesis
    proof
      assume "k = sid \<and> r = ?n"
      then show ?thesis using new [of r] by (simp add: register_session_def)
    next
      assume "(k, r) \<in> set (mg_map m) \<union> set (mg_opening m) \<union> set (mg_calls m)"
      from entries [OF this] new [of r] show ?thesis by (simp add: register_session_def)
    qed
  qed
  moreover have "distinct (map fst (mg_map ?m))" using assms by (simp add: registry_ok_def register_session_def dict_put_distinct)
  moreover have "\<forall>s \<in> set (mg_sessions ?m). live (ss_sid s) s"
    using assms live.opened [of sid] by (auto simp: registry_ok_def register_session_def)
  ultimately show ?thesis unfolding registry_ok_def by blast
qed

lemma manager_registry:
  assumes "manager_step m m'" and "registry_ok m"
  shows "registry_ok m'"
proof -
  have distinct: "distinct (map fst (mg_map m))" using assms(2) by (simp add: registry_ok_def)
  note less = registry_less [OF assms(2)]
  have fewer: "set (remove1 x xs) \<subseteq> set xs" for x :: "string \<times> nat" and xs by (rule set_remove1_subset)
  from assms(1) show ?thesis
  proof cases
    case (opens sid)
    have "registry_ok (pop_session sid m)" by (rule less) (use distinct in auto)
    with opens assms(2) register_registry show ?thesis by (auto simp: open_session_def Let_def split: option.split)
  next
    case (start_raised sid r)
    then show ?thesis using distinct fewer by (intro less) (auto simp: open_failed_def Let_def dest: subsetD)
  next
    case (start_answered sid r)
    then show ?thesis using distinct fewer by (intro less) (auto dest: subsetD)
  next
    case (looks_up sid r)
    then show ?thesis using distinct by (intro less) (auto simp: session_of_def dest: map_of_SomeD)
  next
    case (execute_raised sid r)
    then show ?thesis using distinct fewer by (intro less) (auto simp: execute_failed_def dest: subsetD)
  next
    case (closed sid r)
    then show ?thesis using distinct fewer by (intro less) (auto simp: close_returned_def dest: subsetD)
  next
    case (call_ended sid r)
    then show ?thesis using distinct fewer by (intro less) (auto dest: subsetD)
  next
    case reaps
    then show ?thesis using distinct by (intro less) (auto simp: reap_settled_sessions_def Let_def distinct_map_filter)
  next
    case (session_moves r s')
    have sid: "ss_sid s' = ss_sid (sess m r)" by (rule step_sid [OF session_moves(3)])
    have "live (ss_sid (sess m r)) (sess m r)" using assms(2) session_moves(2) by (simp add: registry_ok_def)
    from live.moved [OF this session_moves(3)] have "live (ss_sid s') s'" by (simp add: sid)
    moreover have "ss_sid (mg_sessions m' ! q) = ss_sid (sess m q)" for q using session_moves by (cases "q = r") (simp_all add: sid)
    ultimately show ?thesis using assms(2) session_moves set_update_subset_insert [of "mg_sessions m" r s']
      by (auto simp: registry_ok_def)
  qed
qed

lemma managed_registry: "managed m \<Longrightarrow> registry_ok m"
proof (induction rule: managed.induct)
  case created
  show ?case by (simp add: registry_ok_def new_manager_def)
next
  case (changed m m')
  then show ?case by (blast intro: manager_registry)
qed

section \<open>A session without a terminal error\<close>

text \<open>A time-out leaves a terminal error, so a session without one has nothing to reconcile.\<close>

definition timeouts_ok :: "session \<Rightarrow> bool" where
  "timeouts_ok s \<longleftrightarrow> ss_terminal s = None \<longrightarrow> all_cells (\<lambda>_ c. \<not> lc_timed_out c) s"

lemma untimed_stable: "stable UNIV UNIV (\<lambda>_ c. \<not> lc_timed_out c)"
  by (simp add: stable_def timed_out_same)

lemma untimed_new: "\<not> lc_timed_out (new_command cid name n)" "\<not> lc_timed_out (recover_command s cid)"
  by (simp_all add: new_command_def recover_command_def)

lemma step_timeouts:
  assumes "session_step s s'" and "timeouts_ok s"
  shows "timeouts_ok s'"
proof (cases "ss_terminal s' = None")
  case True
  then have cells: "all_cells (\<lambda>_ c. \<not> lc_timed_out c) s" and none: "ss_terminal s = None"
    using assms(2) terminal_stays [OF assms(1)] by (cases "ss_terminal s"; simp add: timeouts_ok_def)+
  from assms(1) have "all_cells (\<lambda>_ c. \<not> lc_timed_out c) s'"
  proof cases
    case by_caller
    have ends: "ss_terminal (terminalize_start t) \<noteq> None" "ss_terminal (terminalize_timeout r t) \<noteq> None" for r t
      by (simp_all add: terminalize_start_def terminalize_timeout_def Let_def)
    have late: "s' = terminalize_start t \<Longrightarrow> False" "s' = terminalize_timeout r t \<Longrightarrow> False" for r t using True ends by metis+
    show ?thesis
      by (rule caller_cells [OF by_caller untimed_stable cells]) ((rule FalseE, erule late) | simp add: untimed_new)+
  next
    case by_start
    then show ?thesis by (rule start_cells [OF _ untimed_stable cells])
  next
    case by_command
    then show ?thesis by (rule command_cells [OF _ untimed_stable cells]) (simp_all add: timed_out_same)
  next
    case by_recovery
    then show ?thesis by (rule recovery_cells [OF _ untimed_stable cells]) simp
  next
    case by_closing
    then show ?thesis by (rule closing_cells [OF _ untimed_stable cells]) simp_all
  qed
  then show ?thesis by (simp add: timeouts_ok_def)
next
  case False
  then show ?thesis by (auto simp: timeouts_ok_def)
qed

lemma live_timeouts: "live sid s \<Longrightarrow> timeouts_ok s"
proof (induction rule: live.induct)
  case opened
  show ?case by (simp add: timeouts_ok_def all_cells_def new_session_def)
next
  case (moved s s')
  then show ?case by (blast intro: step_timeouts)
qed

lemma settled_without_error:
  assumes "live sid s" and "\<not> is_terminal s"
  shows "\<not> ss_held s \<and> \<not> has_unreconciled s"
proof -
  have ok: "flags_ok s" "refs_ok s" using live_custody [OF assms(1)] by (simp_all add: custody_ok_def)
  have "\<not> ss_held s" using ok(1) assms(2) by (auto simp: flags_ok_def is_terminal_def)
  moreover have "\<not> lc_timed_out (cmd s r)" if "(cid, r) \<in> set (ss_by_id s)" for cid r
  proof -
    have "r < length (ss_heap s)" using ok(2) that by (force simp: refs_ok_def refs_def)
    with live_timeouts [OF assms(1)] assms(2) show ?thesis by (simp add: timeouts_ok_def is_terminal_def all_cells_def)
  qed
  ultimately show ?thesis by (auto simp: has_unreconciled_def list_ex_iff)
qed

section \<open>The registry\<close>

text \<open>A call that goes on with a session that no longer answers for its id.\<close>

definition stale_call :: "manager \<Rightarrow> string \<Rightarrow> bool" where
  "stale_call m sid \<longleftrightarrow>
    (\<exists>q. ((sid, q) \<in> set (mg_opening m) \<or> (sid, q) \<in> set (mg_calls m) \<and> \<not> is_alive (sess m q))
       \<and> session_of m sid \<noteq> Some q \<and> \<not> is_terminal (sess m q))"

lemma session_of_pop [simp]: "session_of (pop_session sid m) k = (if k = sid then None else session_of m k)"
  "session_of (pop_root sid m) k = session_of m k" "session_of (m\<lparr>mg_opening := xs\<rparr>) k = session_of m k"
  "session_of (m\<lparr>mg_calls := xs\<rparr>) k = session_of m k"
  by (simp_all add: session_of_def map_of_pop pop_root_def)

lemma session_of_register [simp]:
  "session_of (register_session sid m) k = (if k = sid then Some (length (mg_sessions m)) else session_of m k)"
  by (simp add: register_session_def session_of_def)

lemma session_of_reap:
  assumes "distinct (map fst (mg_map m))" and "session_of m k = Some r"
  shows "session_of (snd (reap_settled_sessions m)) k = (if reapable (sess m r) then None else Some r)"
proof -
  have mem: "(k, r) \<in> set (mg_map m)" using assms(2) by (auto simp: session_of_def dest: map_of_SomeD)
  show ?thesis
  proof (cases "reapable (sess m r)")
    case True
    have "(k, q) \<in> set (mg_map m) \<Longrightarrow> q = r" for q using assms(1) mem by (metis eq_key_imp_eq_value)
    with True have "map_of (filter (\<lambda>(sid, r). \<not> reapable (sess m r)) (mg_map m)) k = None"
      by (force simp: map_of_eq_None_iff)
    with True show ?thesis by (simp add: reap_settled_sessions_def session_of_def Let_def)
  next
    case False
    with assms(1) mem have "map_of (filter (\<lambda>(sid, r). \<not> reapable (sess m r)) (mg_map m)) k = Some r"
      by (intro map_of_is_SomeI) (auto simp: distinct_map_filter)
    with False show ?thesis by (simp add: reap_settled_sessions_def session_of_def Let_def)
  qed
qed


lemma run_steps: "run as s = Some s' \<Longrightarrow> session_step\<^sup>*\<^sup>* s s'"
proof (induction "as" s rule: run.induct)
  case (2 a as s)
  then show ?case by (auto split: option.split_asm dest!: act_sound intro: converse_rtranclp_into_rtranclp)
qed simp

lemma managed_moves:
  assumes "session_step\<^sup>*\<^sup>* s s'" and "managed m" and "r < length (mg_sessions m)" and "sess m r = s"
  shows "managed (m\<lparr>mg_sessions := (mg_sessions m)[r := s']\<rparr>)"
  using assms(1)
proof induction
  case base
  then show ?case using assms(2-4) by (metis list_update_id manager.surjective manager.update_convs(1))
next
  case (step t u)
  let ?m = "m\<lparr>mg_sessions := (mg_sessions m)[r := t]\<rparr>"
  have "manager_step ?m (?m\<lparr>mg_sessions := (mg_sessions ?m)[r := u]\<rparr>)"
    by (rule session_moves) (use assms(3) step(2) in simp_all)
  with step(3) show ?case by (auto intro: changed)
qed

lemma read_and_close_settled:
  "map_option (\<lambda>s. (is_alive s, has_unreconciled s)) (run read_and_close (new_session ''s'')) = Some (False, False)"
  by code_simp


text \<open>
  The exception: an open whose session was closed before it had started forgets the next session of that id,
  although that one is alive.
\<close>

lemma stale_open_forgets_successor:
  assumes "\<not> is_terminal (sess m q)"
  shows "session_of (open_failed sid q m) sid = None"
  using assms by (simp add: open_failed_def Let_def)

end
