(* ===== verification/HistoryText.thy ===== *)
theory HistoryText
  imports CliState
begin

text \<open>
  What the command history of an interactive session may keep (app/interactive_session_manager.py
  129--229): texts are redacted and cut, values are bounded in depth, breadth and length, and the payload
  of a command goes through a list of allowed names. The two regular expressions are matchers that give
  the number of characters matched at a position (0: no match); neither can backtrack to another match.
  They are written for code points below 256. The values are those of JSON.

  \<open>ellipsis\<close> is the character U+2026, which the type \<open>char\<close> does not have; \<open>shown\<close> and \<open>repr_of\<close> are
  \<open>str()\<close> and \<open>repr()\<close>, \<open>sha256_hex\<close> is hashlib's digest of the encoded text.
\<close>

record text_env =
  ellipsis :: char
  shown :: "json \<Rightarrow> string"
  repr_of :: "json \<Rightarrow> string"
  sha256_hex :: "string \<Rightarrow> string"

section \<open>\<open>re.sub\<close>\<close>

type_synonym matcher = "char option \<Rightarrow> string \<Rightarrow> nat"

text \<open>\<open>pattern.sub\<close>: the first argument of a matcher is the character before the position.\<close>

function re_sub :: "matcher \<Rightarrow> (string \<Rightarrow> string) \<Rightarrow> char option \<Rightarrow> string \<Rightarrow> string" where
  "re_sub m repl prev [] = []"
| "re_sub m repl prev (c # s) =
    (let n = m prev (c # s) in
     if n = 0 then c # re_sub m repl (Some c) s
     else repl (take n (c # s)) @ re_sub m repl (Some (last (take n (c # s)))) (drop n (c # s)))"
  by pat_completeness auto
termination by (relation "measure (\<lambda>(_, _, _, s). length s)") (auto simp: Let_def)

text \<open>\<open>\w\<close>, and a letter of either case read as lower case.\<close>

definition word_char :: "char \<Rightarrow> bool" where
  "word_char c \<longleftrightarrow>
    (let n = (of_char c :: nat) in
     is_ascii_letter c \<or> is_digit c \<or> c = CHR ''_'' \<or> n \<in> {170, 178, 179, 181, 185, 186, 188, 189, 190}
     \<or> (192 \<le> n \<and> n \<noteq> 215 \<and> n \<noteq> 247))"

definition ascii_lower :: "char \<Rightarrow> char" where
  "ascii_lower c = (if is_ascii_upper c then char_of (of_char c + (32 :: nat)) else c)"

definition prev_in :: "(char \<Rightarrow> bool) \<Rightarrow> char option \<Rightarrow> bool" where
  "prev_in P prev \<longleftrightarrow> (case prev of None \<Rightarrow> False | Some c \<Rightarrow> P c)"

subsection \<open>\<open>_HISTORY_SECRET_PATTERN\<close>\<close>

definition secret_words :: "string list" where
  "secret_words = [''password'', ''token'', ''secret'', ''cookie'', ''credential'']"

definition secret_word :: "string \<Rightarrow> string option" where
  "secret_word s = find (\<lambda>k. starts_with k (map ascii_lower s)) secret_words"

definition secret_char :: "char \<Rightarrow> bool" where
  "secret_char c \<longleftrightarrow> \<not> py_space c \<and> c \<noteq> CHR '','' \<and> c \<noteq> CHR '';''"

definition secret_match :: matcher where
  "secret_match prev s =
    (if prev_in word_char prev then 0
     else
       (case secret_word s of
          None \<Rightarrow> 0
        | Some k \<Rightarrow>
          (case dropWhile py_space (drop (length k) s) of
             [] \<Rightarrow> 0
           | c # rest \<Rightarrow>
             if c = CHR '':'' \<or> c = CHR ''='' then
               (let t = dropWhile py_space rest in
                if takeWhile secret_char t = [] then 0 else length s - length (dropWhile secret_char t))
             else 0)))"

definition secret_replacement :: "string \<Rightarrow> string" where
  "secret_replacement found =
    (case secret_word found of None \<Rightarrow> [] | Some k \<Rightarrow> take (length k) found) @ ''=<redacted>''"

subsection \<open>\<open>_HISTORY_LOCAL_PATH_PATTERN\<close>\<close>

definition path_char :: "char \<Rightarrow> bool" where
  "path_char c \<longleftrightarrow> \<not> py_space c \<and> c \<notin> {CHR 0x22, CHR 0x27, CHR ''<'', CHR ''>''}"

definition before_path :: "char option \<Rightarrow> bool" where
  "before_path prev \<longleftrightarrow> \<not> prev_in (\<lambda>c. word_char c \<or> c = CHR '':'' \<or> c = CHR ''/'') prev"

text \<open>The start \<open>X:\\<close>, \<open>X:/\<close> or a single \<open>/\<close>: its length.\<close>

definition path_start :: "string \<Rightarrow> nat" where
  "path_start s =
    (case s of
       [] \<Rightarrow> 0
     | c # t \<Rightarrow>
       if is_ascii_letter c then
         (case t of a # d # _ \<Rightarrow> if a = CHR '':'' \<and> (d = CHR 0x5C \<or> d = CHR ''/'') then 3 else 0 | _ \<Rightarrow> 0)
       else if c = CHR ''/'' \<and> \<not> starts_with ''/'' t then 1
       else 0)"

definition path_match :: matcher where
  "path_match prev s =
    (let n = path_start s; body = takeWhile path_char (drop n s) in
     if before_path prev \<and> n \<noteq> 0 \<and> body \<noteq> [] then n + length body else 0)"

section \<open>Texts and values\<close>

abbreviation (input) "max_value_chars \<equiv> (2048 :: int)"

abbreviation (input) "max_history_items \<equiv> (100 :: int)"

text \<open>\<open>len(x) > n\<close> and \<open>x[:n]\<close> for a number that is not negative.\<close>

definition longer :: "int \<Rightarrow> 'a list \<Rightarrow> bool" where
  "longer n xs \<longleftrightarrow> int (length xs) > n"

definition py_prefix :: "int \<Rightarrow> 'a list \<Rightarrow> 'a list" where
  "py_prefix n xs = (if longer n xs then take (nat n) xs else xs)"

lemma longer_numeral [simp]: "longer (numeral k) xs \<longleftrightarrow> numeral k < length xs"
proof -
  have "int (numeral k) < int (length xs) \<longleftrightarrow> numeral k < length xs" by (rule of_nat_less_iff)
  then show ?thesis by (simp add: longer_def)
qed

lemma py_prefix_numeral [simp]: "py_prefix (numeral k) xs = take (numeral k) xs"
  by (simp add: py_prefix_def)

definition redact_secrets :: "string \<Rightarrow> string" where
  "redact_secrets s = re_sub secret_match secret_replacement None s"

definition redact_paths :: "string \<Rightarrow> string" where
  "redact_paths s = re_sub path_match (\<lambda>_. ''<redacted-path>'') None s"

definition sanitize_history_text :: "text_env \<Rightarrow> string \<Rightarrow> string" where
  "sanitize_history_text e s =
    (let t = redact_paths (redact_secrets s) in
     if longer max_value_chars t then py_prefix max_value_chars t @ [ellipsis e] else t)"

text \<open>
  \<open>str.casefold\<close>, but that the micro sign (whose folding is above 255, and in no marker) stays.
\<close>

definition casefold_char :: "char \<Rightarrow> string" where
  "casefold_char c =
    (let n = (of_char c :: nat) in
     if n = 223 then ''ss''
     else if is_ascii_upper c \<or> (192 \<le> n \<and> n \<le> 222 \<and> n \<noteq> 215) then [char_of (n + 32)]
     else [c])"

definition casefold :: "string \<Rightarrow> string" where
  "casefold s = concat (map casefold_char s)"

definition sensitive_markers :: "string list" where
  "sensitive_markers =
    [''text'', ''content'', ''preview'', ''query'', ''path'', ''filename'', ''document'', ''token'', ''secret'',
     ''password'', ''cookie'', ''credential'', ''exception'', ''raw'']"

definition sensitive_key :: "string \<Rightarrow> bool" where
  "sensitive_key k \<longleftrightarrow> (\<exists>marker \<in> set sensitive_markers. contains marker (casefold k))"

text \<open>The loop over the items both functions below have, with what it keeps of an item.\<close>

definition items_loop :: "(string \<Rightarrow> json \<Rightarrow> json) \<Rightarrow> fields \<Rightarrow> fields \<Rightarrow> fields" where
  "items_loop item start kvs =
    (let kept = fold (\<lambda>(k, v). let key = py_prefix max_value_chars k in put key (item key v)) (py_prefix max_history_items kvs) start
     in if longer max_history_items kvs then put ''__truncated__'' (JBool True) kept else kept)"

definition bounded_items :: "(json \<Rightarrow> json) \<Rightarrow> fields \<Rightarrow> fields" where
  "bounded_items bounded =
    items_loop (\<lambda>key v. if sensitive_key key then JStr ''<redacted>'' else bounded v) []"

text \<open>\<open>_bounded_history_value(value, depth)\<close>, the number being the levels left (5 at the outermost).\<close>

primrec bounded_at :: "nat \<Rightarrow> text_env \<Rightarrow> json \<Rightarrow> json" where
  "bounded_at 0 e v = JStr ''<nested value omitted>''"
| "bounded_at (Suc d) e v =
    (case v of
       JStr s \<Rightarrow> JStr (sanitize_history_text e s)
     | JObj kvs \<Rightarrow> JObj (bounded_items (bounded_at d e) kvs)
     | JList xs \<Rightarrow>
       JList (map (bounded_at d e) (py_prefix max_history_items xs)
              @ (if longer max_history_items xs then [JStr ''<items omitted>''] else []))
     | _ \<Rightarrow> v)"

definition bounded_history_value :: "text_env \<Rightarrow> json \<Rightarrow> json" where
  "bounded_history_value = bounded_at 5"

section \<open>Payloads\<close>

definition opaque_history_marker :: "text_env \<Rightarrow> json \<Rightarrow> string \<Rightarrow> json" where
  "opaque_history_marker e v reason =
    JObj [(''omitted'', JBool True), (''reason'', JStr reason),
          (''sha256'', JStr (sha256_hex e (py_prefix max_value_chars (repr_of e v))))]"

definition safe_string_keys :: "string list" where
  "safe_string_keys =
    [''state'', ''status'', ''outcome'', ''command'', ''result_state'', ''position'', ''resolved_target_id'',
     ''operation'', ''code'', ''reason_code'', ''failure_code'', ''step'', ''command_id'', ''session_id'',
     ''verification_state'', ''capture_state'']"

definition safe_history_keys :: "string list" where
  "safe_history_keys =
    [''state'', ''status'', ''ok'', ''dirty'', ''outcome'', ''command'', ''result_state'', ''candidate_count'',
     ''match_count'', ''selected_candidate_index'', ''page'', ''requested_page'', ''dpi'', ''width'', ''height'',
     ''position'', ''embedded'', ''treat_as_char'', ''resolved_target_id'', ''operation'', ''code'', ''reason_code'',
     ''failure_code'', ''step'', ''index'', ''count'', ''total'', ''matched'', ''found'', ''available'', ''ready'',
     ''proof_fresh'', ''reconciled'', ''timed_out'', ''sequence'', ''command_id'', ''session_id'',
     ''verification_state'', ''capture_state'']"

definition is_scalar :: "json \<Rightarrow> bool" where
  "is_scalar v = (case v of JNull \<Rightarrow> True | JBool _ \<Rightarrow> True | JInt _ \<Rightarrow> True | JReal _ \<Rightarrow> True | JNonFinite \<Rightarrow> True | _ \<Rightarrow> False)"

definition history_item :: "text_env \<Rightarrow> string \<Rightarrow> json \<Rightarrow> json" where
  "history_item e key v =
    (if key \<notin> set safe_history_keys
     then opaque_history_marker e v (if sensitive_key key then ''sensitive_field'' else ''not_allowlisted'')
     else
       (case v of
          JStr s \<Rightarrow>
          if key \<notin> set safe_string_keys then opaque_history_marker e v ''string_field_not_allowlisted''
          else JStr (sanitize_history_text e s)
        | _ \<Rightarrow> if is_scalar v then v else opaque_history_marker e v ''non_scalar_field''))"

definition bounded_command_payload :: "text_env \<Rightarrow> string \<Rightarrow> json \<Rightarrow> fields" where
  "bounded_command_payload e command payload =
    (case payload of
       JObj kvs \<Rightarrow> items_loop (history_item e) [(''command'', JStr (sanitize_history_text e command))] kvs
     | _ \<Rightarrow> [(''omitted_payload'', opaque_history_marker e payload ''payload_not_mapping'')])"

end
