(* ===== verification/VerifyEvidence.thy ===== *)
theory VerifyEvidence
  imports HistoryText
begin

text \<open>
  app/interactive/verify_evidence.py and app/interactive/operator_status.py: how fresh and how trusted the
  frozen frame of a verify step is, and the progress and the lines the operator sees of a session.
  \<open>None\<close> in place of a text or of the lines: the call raises. \<open>fstr\<close> is the value in an f-string.
\<close>

abbreviation fstr :: "text_env \<Rightarrow> json \<Rightarrow> string" where
  "fstr e \<equiv> py_str (shown e)"

text \<open>\<open>a or b\<close>, \<open>value or 'text'\<close>, \<open>payload.get(name, default)\<close>, and \<open>None\<close> or a text as a value.\<close>

definition or_value :: "json \<Rightarrow> json \<Rightarrow> json" where
  "or_value a b = (if truthy a then a else b)"

definition get_default :: "fields \<Rightarrow> string \<Rightarrow> json \<Rightarrow> json" where
  "get_default kvs name d = (case map_of kvs name of None \<Rightarrow> d | Some v \<Rightarrow> v)"

definition text_value :: "string option \<Rightarrow> json" where
  "text_value t = (case t of None \<Rightarrow> JNull | Some s \<Rightarrow> JStr s)"

definition int_value :: "int option \<Rightarrow> json" where
  "int_value n = (case n of None \<Rightarrow> JNull | Some i \<Rightarrow> JInt i)"

section \<open>Freshness and trust\<close>

definition summarize_verify_evidence_policy :: "string \<Rightarrow> string \<Rightarrow> int option \<Rightarrow> string list \<Rightarrow> string" where
  "summarize_verify_evidence_policy freshness trust age warnings =
    ''freshness='' @ freshness @ ''; trust='' @ trust @ ''; age=''
    @ (case age of None \<Rightarrow> ''unknown-age'' | Some a \<Rightarrow> str_int a @ ''ms'')
    @ (if warnings = [] then [] else ''; warnings='' @ py_join '','' warnings)"

definition evidence_freshness :: "int option \<Rightarrow> string \<Rightarrow> int \<Rightarrow> int \<Rightarrow> string \<times> string list" where
  "evidence_freshness age relation soft hard =
    (case age of
       None \<Rightarrow> (''unknown'', [''frame_age_unknown''])
     | Some a \<Rightarrow>
       if a < 0 \<or> relation = ''captured_after_verify_step'' then (''temporal_mismatch'', [''frame_captured_after_step''])
       else if a \<le> soft then (''fresh'', [])
       else if a \<le> hard then (''warning'', [''frame_stale_soft''])
       else (''stale'', [''frame_stale_hard'']))"

definition evidence_trust :: "bool \<Rightarrow> string \<Rightarrow> string" where
  "evidence_trust frozen freshness =
    (if \<not> frozen \<or> freshness \<in> {''temporal_mismatch'', ''stale''} then ''low''
     else if freshness \<in> {''warning'', ''unknown''} then ''caution''
     else ''trusted'')"

definition build_verify_evidence_policy :: "int option \<Rightarrow> string \<Rightarrow> bool \<Rightarrow> int \<Rightarrow> int \<Rightarrow> fields" where
  "build_verify_evidence_policy age relation frozen soft hard =
    (let (freshness, reasons) = evidence_freshness age relation soft hard;
         warnings = (if frozen then [] else [''frame_not_frozen'']) @ reasons;
         trust = evidence_trust frozen freshness
     in [(''schema_version'', JStr ''verify-evidence-trust-policy/v1''), (''advisory_only'', JBool True),
         (''freshness'', JObj
           [(''state'', JStr freshness), (''frame_age_ms'', int_value age), (''capture_relation'', JStr relation),
            (''soft_warn_age_ms'', JInt soft), (''hard_stale_age_ms'', JInt hard)]),
         (''trust'', JObj
           [(''state'', JStr trust), (''review_required'', JBool (trust \<noteq> ''trusted'')), (''image_frozen'', JBool frozen)]),
         (''warning_codes'', JList (map JStr warnings)),
         (''summary'', JStr (summarize_verify_evidence_policy freshness trust age warnings))])"

text \<open>
  Instants in microseconds; \<open>millis d\<close> is \<open>int(delta.total_seconds() * 1000)\<close> of the float arithmetic for a
  difference of \<open>d\<close> microseconds.
\<close>

definition resolve_verify_capture_timing :: "(int \<Rightarrow> int) \<Rightarrow> int option \<Rightarrow> int option \<Rightarrow> int option \<times> string" where
  "resolve_verify_capture_timing millis recorded captured =
    (case (recorded, captured) of
       (Some r, Some c) \<Rightarrow>
       (let age = millis (r - c) in
        (Some age,
         if age > 0 then ''captured_before_verify_step''
         else if age < 0 then ''captured_after_verify_step''
         else ''captured_at_verify_step''))
     | _ \<Rightarrow> (None, ''unknown''))"

definition build_verify_step_binding ::
  "text_env \<Rightarrow> string \<Rightarrow> string \<Rightarrow> json \<Rightarrow> string option \<Rightarrow> string option \<Rightarrow> json \<Rightarrow> json \<Rightarrow> bool
   \<Rightarrow> int option \<Rightarrow> string \<Rightarrow> int \<Rightarrow> int \<Rightarrow> fields \<times> fields" where
  "build_verify_step_binding e step_name recorded_at captured_at image_path metadata_path status reason frozen age relation soft hard =
    (let policy = build_verify_evidence_policy age relation frozen soft hard;
         binding =
           [(''mode'', JStr (if frozen then ''step-bound-frozen-copy'' else ''step-bound-metadata-only'')),
            (''step'', JStr step_name), (''verify_recorded_at'', JStr recorded_at), (''frame_captured_at'', captured_at),
            (''frame_age_ms'', int_value age), (''capture_relation'', JStr relation), (''image_frozen'', JBool frozen),
            (''source_image_path'', text_value image_path), (''source_metadata_path'', text_value metadata_path),
            (''observation_status'', status), (''observation_reason_code'', reason),
            (''freshness_policy'', get policy ''freshness''), (''trust_policy'', get policy ''trust''),
            (''warning_codes'', get policy ''warning_codes''), (''policy_summary'', get policy ''summary'')];
         summary = step_name @ '' bound at '' @ recorded_at @ ''; frame captured_at=''
           @ fstr e (or_value captured_at (JStr ''unknown'')) @ ''; age_ms=''
           @ (case age of None \<Rightarrow> ''unknown'' | Some a \<Rightarrow> str_int a) @ ''; observation=''
           @ fstr e (or_value status (or_value reason (JStr ''unknown''))) @ ''; policy='' @ fstr e (get policy ''summary'')
     in (put ''summary'' (JStr summary) binding, policy))"

lemma policy_trust: "get (as_obj (get (build_verify_evidence_policy age relation frozen soft hard) ''trust'')) ''state'' =
    JStr (evidence_trust frozen (fst (evidence_freshness age relation soft hard)))"
  by (simp add: build_verify_evidence_policy_def get_def as_obj_def Let_def split_beta)

lemma trusted_freshness:
  "evidence_trust frozen (fst (evidence_freshness age relation soft hard)) = ''trusted'' \<longleftrightarrow>
   frozen \<and> (\<exists>a. age = Some a \<and> 0 \<le> a \<and> a \<le> soft \<and> relation \<noteq> ''captured_after_verify_step'')"
  by (cases age) (simp_all add: evidence_trust_def evidence_freshness_def)

section \<open>The operator's view\<close>

text \<open>\<open>value in set\<close>: a list or an object raises.\<close>

definition state_in :: "json \<Rightarrow> string list \<Rightarrow> bool option" where
  "state_in v names =
    (case v of JList _ \<Rightarrow> None | JObj _ \<Rightarrow> None | JStr s \<Rightarrow> Some (s \<in> set names) | _ \<Rightarrow> Some False)"

definition terminal_states :: "string list" where
  "terminal_states = [''closed'', ''failed'']"

definition command_sequence :: "string list" where
  "command_sequence =
    [''open'', ''status'', ''find'', ''choose'', ''enter'', ''lock'', ''verify-pre'', ''apply'', ''verify-post'', ''undo'', ''close'']"

definition progress_sequence :: "string list" where
  "progress_sequence = filter (\<lambda>c. c \<noteq> ''status'') command_sequence"

definition as_list :: "json \<Rightarrow> json list" where
  "as_list v = (case v of JList xs \<Rightarrow> xs | _ \<Rightarrow> [])"

definition completed_command :: "json \<Rightarrow> string option" where
  "completed_command item =
    (case item of
       JObj kvs \<Rightarrow>
       (case get kvs ''command'' of
          JStr c \<Rightarrow> if get kvs ''state'' = JStr ''succeeded'' \<and> c \<in> set progress_sequence then Some c else None
        | _ \<Rightarrow> None)
     | _ \<Rightarrow> None)"

definition build_command_progress :: "text_env \<Rightarrow> string \<Rightarrow> fields \<Rightarrow> fields option" where
  "build_command_progress e now session =
    (let history = as_list (get session ''command_history'');
         completed = List.map_filter completed_command history;
         state = (if history = [] then ''idle''
                  else (case List.last history of
                          JObj kvs \<Rightarrow> fstr e (or_value (get kvs ''state'') (JStr ''idle'')) | _ \<Rightarrow> ''idle''))
     in map_option (\<lambda>over.
          [(''command'', get session ''current_command''), (''state'', JStr state),
           (''completed_count'', JInt (int (length completed))), (''total_count'', JInt (int (length progress_sequence))),
           (''next_expected_command'',
             text_value (if over then None else find (\<lambda>c. c \<notin> set completed) progress_sequence)),
           (''last_updated_at'', JStr now)])
        (state_in (get session ''state'') terminal_states))"

definition build_verify_gui_brief :: "text_env \<Rightarrow> fields \<Rightarrow> string option" where
  "build_verify_gui_brief e verify =
    (let binding = as_obj (get (as_obj (get verify ''gui'')) ''step_binding'');
         word = (\<lambda>v. fstr e (or_value v (JStr ''unknown'')))
     in if binding = [] then None
        else Some
          (word (get binding ''mode'') @ '' | '' @ word (get binding ''capture_relation'') @ '' | age=''
           @ (case get binding ''frame_age_ms'' of
                JInt n \<Rightarrow> str_int n @ ''ms'' | JBool b \<Rightarrow> fstr e (JBool b) @ ''ms'' | _ \<Rightarrow> ''unknown-age'')
           @ '' | freshness='' @ word (get (as_obj (get binding ''freshness_policy'')) ''state'')
           @ '' | trust='' @ word (get (as_obj (get binding ''trust_policy'')) ''state'')
           @ '' | observation='' @ word (or_value (get binding ''observation_status'') (get binding ''observation_reason_code''))))"

text \<open>\<open>int(value or 0)\<close>, and \<open>(value or {}).get(name)\<close>.\<close>

definition int_or_zero :: "json \<Rightarrow> int option" where
  "int_or_zero v =
    (if \<not> truthy v then Some 0
     else (case v of
             JBool _ \<Rightarrow> Some 1 | JInt n \<Rightarrow> Some n
           | JReal x \<Rightarrow> Some (if x < 0 then \<lceil>x\<rceil> else \<lfloor>x\<rfloor>)
           | JStr s \<Rightarrow> py_int s | _ \<Rightarrow> None))"

definition inner_get :: "json \<Rightarrow> string \<Rightarrow> json option" where
  "inner_get v name = (if \<not> truthy v then Some JNull else (case v of JObj kvs \<Rightarrow> Some (get kvs name) | _ \<Rightarrow> None))"

text \<open>\<open>a or b\<close> where evaluating \<open>b\<close> may raise.\<close>

definition or_else :: "json option \<Rightarrow> json option \<Rightarrow> json option" where
  "or_else a b = (case a of None \<Rightarrow> None | Some v \<Rightarrow> if truthy v then Some v else b)"

definition selected_target_id :: "fields \<Rightarrow> fields \<Rightarrow> json option" where
  "selected_target_id preparation chosen =
    or_else (Some (get preparation ''resolved_target_id''))
     (or_else (inner_get (get preparation ''selected_target_variant'') ''resolved_target_id'')
       (or_else (inner_get (get chosen ''selected_candidate'') ''resolved_target_id'') (Some (JStr ''-''))))"

definition with_line_at :: "nat \<Rightarrow> 'a \<Rightarrow> 'a list \<Rightarrow> 'a list" where
  "with_line_at i x xs = take i xs @ x # drop i xs"

definition operator_lines :: "text_env \<Rightarrow> fields \<Rightarrow> fields \<Rightarrow> int \<Rightarrow> json \<Rightarrow> string list" where
  "operator_lines e session progress candidates selected =
    (let part = (\<lambda>name. as_obj (get session name));
         dash = (\<lambda>v. fstr e (or_value v (JStr ''-'')));
         preparation = part ''runtime_preparation''; pre = part ''verify_pre''; post = part ''verify_post'';
         popup = part ''popup_status''; failure = part ''failure_reason''; ready = part ''readiness''; live = part ''live_runtime'';
         brief = (\<lambda>label. map_option (\<lambda>t. label @ t));
         pre_brief = brief ''Verify-pre GUI: '' (build_verify_gui_brief e pre);
         post_brief = brief ''Verify-post GUI: '' (build_verify_gui_brief e post);
         lines =
           [''Session state : '' @ fstr e (get_default session ''state'' (JStr ''unknown'')),
            ''Current cmd   : '' @ dash (get progress ''command'') @ '' ['' @ fstr e (get progress ''state'') @ '']'',
            ''Progress      : '' @ fstr e (get progress ''completed_count'') @ ''/'' @ fstr e (get progress ''total_count'')
              @ '' complete; next='' @ dash (get progress ''next_expected_command''),
            ''Source        : '' @ dash (get session ''source_path''),
            ''Find/choose   : candidates='' @ str_int candidates @ '' | selected='' @ fstr e selected,
            ''Bridge        : '' @ fstr e (or_value (get preparation ''state'') (JStr ''not_prepared''))
              @ '' | next='' @ dash (get preparation ''next_step''),
            ''Live runtime  : '' @ fstr e (get_default live ''mode'' (JStr ''telemetry-only'')) @ '' | doc=''
              @ fstr e (get_default live ''document_state'' (JStr ''-'')) @ '' | last='' @ dash (get live ''last_command''),
            ''Readiness     : '' @ fstr e (get_default ready ''status'' (JStr ''unknown'')) @ '' | ready=''
              @ fstr e (get ready ''ready'') @ '' | worker='' @ fstr e (get_default ready ''worker_name'' (JStr ''-'')),
            ''Verify-pre    : '' @ fstr e (get_default pre ''state'' (JStr ''pending'')) @ '' | '' @ dash (get pre ''summary''),
            ''Verify-post   : '' @ fstr e (get_default post ''state'' (JStr ''pending'')) @ '' | '' @ dash (get post ''summary''),
            ''Popup/module  : '' @ fstr e (get_default popup ''state'' (JStr ''unknown'')) @ '' | module=''
              @ dash (get popup ''security_module_name'') @ '' | popup_detected='' @ fstr e (get popup ''popup_detected''),
            ''Failure       : ''
              @ (if failure = [] then ''none''
                 else fstr e (or_value (get failure ''message'') (or_value (get failure ''code'') (JStr ''reported''))))];
         with_pre = (case pre_brief of None \<Rightarrow> lines | Some t \<Rightarrow> with_line_at 7 t lines)
     in (case post_brief of None \<Rightarrow> with_pre | Some t \<Rightarrow> with_line_at (if pre_brief = None then 8 else 9) t with_pre))"

definition render_operator_status :: "text_env \<Rightarrow> string \<Rightarrow> fields \<Rightarrow> (fields \<times> string list \<times> string) option" where
  "render_operator_status e now session =
    (case (build_command_progress e now session,
           int_or_zero (get (as_obj (get session ''find_result'')) ''candidate_count''),
           selected_target_id (as_obj (get session ''runtime_preparation'')) (as_obj (get session ''choose_result''))) of
       (Some progress, Some candidates, Some selected) \<Rightarrow>
       (let lines = operator_lines e session progress candidates selected
        in Some (progress, lines, py_join [CHR 0x0A] lines))
     | _ \<Rightarrow> None)"

end
