(* ===== verification/EventLog.thy ===== *)
theory EventLog
  imports VerifyEvidence
begin

text \<open>
  \<open>_append_jsonl\<close> of app/interactive_session_manager.py: the event file of a session and its five rotated
  predecessors, under their lock. \<open>encode_line\<close> is \<open>json.dumps\<close> with compact separators, the newline and
  the encoding; \<open>sha256_bytes\<close> is hashlib's digest. A write may stop after some of its bytes and raise.
\<close>

record event_env = text_env +
  encode_line :: "json \<Rightarrow> bytes"
  sha256_bytes :: "bytes \<Rightarrow> string"

record event_files =
  ev_current :: "bytes option"
  ev_rotated :: "bytes option list"

definition no_events :: event_files where
  "no_events = \<lparr>ev_current = None, ev_rotated = [None, None, None, None, None]\<rparr>"

abbreviation (input) "max_event_bytes \<equiv> (65536 :: int)"

definition omitted_event :: "('x) event_env_scheme \<Rightarrow> bytes \<Rightarrow> json" where
  "omitted_event e b =
    JObj [(''schema_version'', JStr ''interactive/event-omitted/v1''), (''payload_sha256'', JStr (sha256_bytes e b)),
          (''reason'', JStr ''event exceeded bounded serialized size'')]"

definition event_bytes :: "('x) event_env_scheme \<Rightarrow> json \<Rightarrow> bytes" where
  "event_bytes e payload =
    (let b = encode_line e (bounded_history_value (text_env.truncate e) payload)
     in if int (length b) > max_event_bytes then encode_line e (omitted_event e b) else b)"

text \<open>
  The oldest file is removed and each of the others takes the next number; a number that was missing is
  missing one further on.
\<close>

definition rotate_events :: "event_files \<Rightarrow> event_files" where
  "rotate_events f = \<lparr>ev_current = None, ev_rotated = take 5 (ev_current f # ev_rotated f)\<rparr>"

definition file_bytes :: "bytes option \<Rightarrow> bytes" where
  "file_bytes f = (case f of None \<Rightarrow> [] | Some b \<Rightarrow> b)"

definition append_bytes :: "nat option \<Rightarrow> bytes \<Rightarrow> event_files \<Rightarrow> event_files" where
  "append_bytes torn b f =
    (let g = (if int (length (file_bytes (ev_current f)) + length b) > max_event_bytes
              then rotate_events f else f)
     in g\<lparr>ev_current := Some (file_bytes (ev_current g) @ (case torn of None \<Rightarrow> b | Some n \<Rightarrow> take n b))\<rparr>)"

definition append_jsonl :: "('x) event_env_scheme \<Rightarrow> nat option \<Rightarrow> json \<Rightarrow> event_files \<Rightarrow> event_files" where
  "append_jsonl e torn payload = append_bytes torn (event_bytes e payload)"

text \<open>Everything the files hold, oldest first.\<close>

definition event_stream :: "event_files \<Rightarrow> bytes" where
  "event_stream f = concat (map file_bytes (rev (ev_rotated f))) @ file_bytes (ev_current f)"

definition events_bounded :: "event_files \<Rightarrow> bool" where
  "events_bounded f \<longleftrightarrow>
    length (ev_rotated f) = 5 \<and> list_all (\<lambda>x. int (length (file_bytes x)) \<le> max_event_bytes) (ev_current f # ev_rotated f)"

lemma file_bytes_simps [simp]: "file_bytes None = []" "file_bytes (Some b) = b"
  by (simp_all add: file_bytes_def)

lemma five_files: "length xs = 5 \<Longrightarrow> \<exists>a b c d e. xs = [a, b, c, d, e]"
  by (auto simp: numeral_eq_Suc length_Suc_conv)

text \<open>
  However long a session runs, its events are six files of at most 64 KiB; one more event never
  changes or reorders what is kept: the files then hold the end of what they held and the event.
\<close>
theorem event_files_bounded:
  assumes "events_bounded f" and "int (length b) \<le> max_event_bytes"
  shows "events_bounded (append_bytes None b f)
    \<and> (\<exists>lost kept. event_stream f = lost @ kept \<and> event_stream (append_bytes None b f) = kept @ b
         \<and> (int (length (file_bytes (ev_current f)) + length b) \<le> max_event_bytes \<longrightarrow> lost = []))"
proof -
  from assms(1) obtain r1 r2 r3 r4 r5 where r: "ev_rotated f = [r1, r2, r3, r4, r5]"
    unfolding events_bounded_def using five_files by blast
  show ?thesis
  proof (cases "int (length (file_bytes (ev_current f)) + length b) > max_event_bytes")
    case False
    with assms r have "events_bounded (append_bytes None b f)" by (simp add: append_bytes_def events_bounded_def)
    moreover from False r have "event_stream (append_bytes None b f) = event_stream f @ b"
      by (simp add: append_bytes_def event_stream_def)
    ultimately show ?thesis by (metis append_Nil)
  next
    case True
    have out: "append_bytes None b f = \<lparr>ev_current = Some b, ev_rotated = [ev_current f, r1, r2, r3, r4]\<rparr>"
      using True r by (cases "ev_current f") (simp_all add: append_bytes_def rotate_events_def)
    from assms r have "events_bounded (append_bytes None b f)" by (simp add: out events_bounded_def)
    moreover have "event_stream f = file_bytes r5 @ (concat (map file_bytes [r4, r3, r2, r1]) @ file_bytes (ev_current f))"
      by (simp add: event_stream_def r)
    moreover have "event_stream (append_bytes None b f) =
        (concat (map file_bytes [r4, r3, r2, r1]) @ file_bytes (ev_current f)) @ b"
      by (simp add: out event_stream_def)
    ultimately show ?thesis using True by (metis linorder_not_less)
  qed
qed

lemma event_files_bounded_witness:
  "events_bounded (append_bytes None ''x'' no_events)
    \<and> (\<exists>lost kept. event_stream no_events = lost @ kept \<and> event_stream (append_bytes None ''x'' no_events) = kept @ ''x''
         \<and> (int (length (file_bytes (ev_current no_events)) + length ''x'') \<le> 65536 \<longrightarrow> lost = []))"
  by (rule event_files_bounded) (simp_all add: events_bounded_def no_events_def)

end
