(* ===== verification/InteractiveSession.thy ===== *)
theory InteractiveSession
  imports EventLog
begin

text \<open>
  app/interactive_session_manager.py, what its operations compute of one session: the frozen evidence of a
  verify step, the merging of popup state, failure and metadata, the changes a recorded command makes, and
  the projections every save adds. A session is the JSON object of its state file.

  What a call reads outside the session is its environment: the clock at each place the code reads it,
  files, the runtime and viewer states, and the outcome of each of its writes. \<open>fromiso\<close> and \<open>toiso\<close> are
  \<open>datetime.fromisoformat\<close> (naive read as UTC) and the code's \<open>_datetime_to_iso\<close>, instants in microseconds.
\<close>

datatype write_outcome = WriteDone | WriteRaises | WriteDoneRaises

record call_env = event_env +
  t_recorded :: string
  t_popup :: string
  t_failure :: string
  t_closed :: string
  t_saved :: string
  runtime_status :: fields
  observation_status :: "fields option"
  popup_module_name :: json
  popup_module_dll :: json
  is_file :: "string \<Rightarrow> bool"
  latest_frame :: string
  latest_frame_metadata :: string
  suffix_of :: "string \<Rightarrow> string"
  copied_frame :: "string \<Rightarrow> (int \<times> string) option"
  frame_metadata :: "string \<Rightarrow> json option"
  canonical_sha :: "fields \<Rightarrow> string option"
  millis :: "int \<Rightarrow> int"
  fromiso :: "string \<Rightarrow> int option"
  toiso :: "int \<Rightarrow> string"
  api_base_url :: string
  path_in_session :: "string \<Rightarrow> string list \<Rightarrow> string"
  uuid_hex :: string
  retention_days :: int
  state_bytes :: "fields \<Rightarrow> int"
  evidence_write :: write_outcome
  state_write :: write_outcome
  status_write :: write_outcome
  event_torn :: "nat option"
  event_fails :: bool

datatype interactive_error =
    GenerationInvalid
  | GenerationChanged
  | NoOpenSession
  | SessionNotFound string
  | SessionAlreadyOpen string
  | SessionExists string
  | EmptySessionId
  | StateTooLarge
  | ProvenanceMalformed
  | ProvenanceNotMapping
  | ProvenanceOverwritten string
  | BadEvidenceToken string
  | EvidenceUnreadable
  | EvidenceNotSerializable
  | WriteFailed
  | OtherRaise

abbreviation texts :: "('x) call_env_scheme \<Rightarrow> text_env" where
  "texts e \<equiv> text_env.truncate e"

section \<open>Small helpers\<close>

definition parse_iso_datetime :: "('x) call_env_scheme \<Rightarrow> json \<Rightarrow> int option" where
  "parse_iso_datetime e v =
    (case v of
       JStr s \<Rightarrow>
       (let t = py_strip s in
        if t = [] then None
        else fromiso e (if List.last t = CHR ''Z'' then butlast t @ ''+00:00'' else t))
     | _ \<Rightarrow> None)"

definition strip_chars :: "char \<Rightarrow> string \<Rightarrow> string" where
  "strip_chars c s = rev (dropWhile (\<lambda>x. x = c) (rev (dropWhile (\<lambda>x. x = c) s)))"

text \<open>\<open>str.isalnum\<close> of a character below 256 is \<open>\w\<close> without the underscore.\<close>

definition timestamp_slug :: "string \<Rightarrow> string" where
  "timestamp_slug s =
    (let slug = take 80 (strip_chars CHR ''-'' (map (\<lambda>c. if word_char c \<and> c \<noteq> CHR ''_'' then c else CHR ''-'') s))
     in if slug = [] then ''step'' else slug)"

definition evidence_token :: "string \<Rightarrow> string \<Rightarrow> interactive_error + string" where
  "evidence_token label s =
    (let token = py_strip s in
     if token = [] \<or> \<not> list_all (\<lambda>c. is_ascii_letter c \<or> is_digit c \<or> c = CHR ''_'' \<or> c = CHR ''-'') token
     then Inl (BadEvidenceToken label) else Inr token)"

definition strict_generation :: "json \<Rightarrow> interactive_error + int" where
  "strict_generation v =
    (case v of JNull \<Rightarrow> Inr 0 | JInt n \<Rightarrow> if n < 0 then Inl GenerationInvalid else Inr n | _ \<Rightarrow> Inl GenerationInvalid)"

definition is_obj :: "json \<Rightarrow> bool" where
  "is_obj v = (case v of JObj _ \<Rightarrow> True | _ \<Rightarrow> False)"

definition set_default :: "string \<Rightarrow> json \<Rightarrow> fields \<Rightarrow> fields" where
  "set_default name v kvs = (if has kvs name then kvs else put name v kvs)"

definition merge_mapping :: "json \<Rightarrow> fields \<Rightarrow> fields" where
  "merge_mapping current upd = put_all (as_obj current) upd"

section \<open>Popup, failure, metadata\<close>

definition default_popup_status :: "('x) call_env_scheme \<Rightarrow> string \<Rightarrow> fields" where
  "default_popup_status e now =
    [(''state'', JStr ''not_reported''), (''security_module_name'', popup_module_name e),
     (''security_module_dll'', popup_module_dll e), (''popup_detected'', JNull),
     (''summary'', JStr ''Popup/security-module status has not been reported yet.''),
     (''detail'', JStr ''The MVP exposes these fields immediately so logs/TUI clients can see blocking popup state once live probes are wired.''),
     (''updated_at'', JStr now)]"

definition popup_keys :: "string list" where
  "popup_keys = [''state'', ''security_module_name'', ''security_module_dll'', ''popup_detected'', ''summary'', ''detail'']"

definition merge_popup_status :: "('x) call_env_scheme \<Rightarrow> string \<Rightarrow> json \<Rightarrow> fields option \<Rightarrow> fields" where
  "merge_popup_status e now current upd =
    (let popup = (case current of JObj kvs \<Rightarrow> kvs | _ \<Rightarrow> default_popup_status e now) in
     case upd of
       None \<Rightarrow> popup
     | Some new \<Rightarrow>
       put ''updated_at'' (JStr now)
         (fold (\<lambda>key p. if get new key \<noteq> JNull then put key (get new key) p else p) popup_keys popup))"

definition normalize_failure_reason :: "('x) call_env_scheme \<Rightarrow> json \<Rightarrow> string \<Rightarrow> string option \<Rightarrow> fields option" where
  "normalize_failure_reason e reason command summary =
    (let said = (\<lambda>text. [(''code'', JStr ''interactive_failure''), (''command'', JStr command),
                         (''message'', JStr (sanitize_history_text (texts e) text)), (''detail'', JNull),
                         (''updated_at'', JStr (t_failure e))]) in
     case reason of
       JNull \<Rightarrow> None
     | JObj kvs \<Rightarrow>
       Some (put ''updated_at'' (JStr (t_failure e))
         (set_default ''message'' (JStr (sanitize_history_text (texts e)
             (case summary of None \<Rightarrow> ''Interactive command failed.'' | Some s \<Rightarrow> or_str s ''Interactive command failed.'')))
         (set_default ''command'' (JStr command)
         (set_default ''code'' (JStr ''interactive_failure'')
           (as_obj (bounded_history_value (texts e) (JObj kvs)))))))
     | _ \<Rightarrow> Some (said (py_str (shown e) reason)))"

text \<open>The origin of a session, which no later client may rewrite.\<close>

definition immutable_keys :: "string list" where
  "immutable_keys = [''opened_via'', ''bridge'', ''closed_via'']"

definition unset :: "json \<Rightarrow> bool" where
  "unset v \<longleftrightarrow> v = JNull \<or> v = JStr []"

definition provenance_of :: "fields \<Rightarrow> fields" where
  "provenance_of local_cli = filter (\<lambda>(k, v). k \<in> set immutable_keys \<and> \<not> unset v) local_cli"

fun merge_local_cli :: "fields \<Rightarrow> fields \<Rightarrow> fields \<Rightarrow> interactive_error + fields" where
  "merge_local_cli [] provenance local_cli = Inr local_cli"
| "merge_local_cli ((key, v) # incoming) provenance local_cli =
    (if key \<in> set immutable_keys then
       (if unset v then merge_local_cli incoming provenance local_cli
        else if list_ex (\<lambda>(_, w). \<not> py_eq w v) provenance then Inl (ProvenanceOverwritten key)
        else merge_local_cli incoming (put key v provenance) (put key v local_cli))
     else merge_local_cli incoming provenance (if v = JNull then local_cli else put key v local_cli))"

definition merge_metadata :: "json \<Rightarrow> fields \<Rightarrow> interactive_error + fields" where
  "merge_metadata current upd =
    (let merged = merge_mapping current upd; existing = get (as_obj current) ''local_cli_v1''; incoming = get upd ''local_cli_v1'' in
     if existing \<noteq> JNull \<and> \<not> is_obj existing then Inl ProvenanceMalformed
     else
       (case incoming of
          JNull \<Rightarrow> Inr (case existing of JObj kvs \<Rightarrow> put ''local_cli_v1'' (JObj kvs) merged | _ \<Rightarrow> merged)
        | JObj new \<Rightarrow>
          (case merge_local_cli new (provenance_of (as_obj existing)) (as_obj existing) of
             Inl err \<Rightarrow> Inl err | Inr local_cli \<Rightarrow> Inr (put ''local_cli_v1'' (JObj local_cli) merged))
        | _ \<Rightarrow> Inl ProvenanceNotMapping))"

section \<open>Frozen evidence of a verify step\<close>

definition retention_anchor :: "('x) call_env_scheme \<Rightarrow> fields \<Rightarrow> (string \<times> int) option" where
  "retention_anchor e session =
    first_some (\<lambda>key. map_option (\<lambda>t. (key, t)) (parse_iso_datetime e (get session key)))
      [''closed_at'', ''updated_at'', ''created_at'']"

text \<open>\<open>anchor + timedelta(days=...)\<close>, in microseconds and without the end of the calendar.\<close>

definition expiry_of :: "('x) call_env_scheme \<Rightarrow> int \<Rightarrow> int" where
  "expiry_of e anchor = anchor + retention_days e * 86400000000"

definition retention_policy :: "('x) call_env_scheme \<Rightarrow> fields \<Rightarrow> fields" where
  "retention_policy e session =
    (let state = fstr (texts e) (or_value (get session ''state'') (JStr ''unknown''));
         over = state \<in> set terminal_states;
         anchor = (if over then retention_anchor e session else None);
         stamp = (\<lambda>t. case t of None \<Rightarrow> JNull | Some x \<Rightarrow> JStr (toiso e x))
     in [(''schema_version'', JStr ''interactive-verify-evidence-retention/v1''),
         (''cleanup_mode'', JStr ''delete_frozen_verify_evidence_after_terminal_session_ttl''),
         (''retention_days'', JInt (retention_days e)), (''retention_anchor'', JStr ''session_closed_at''),
         (''effective_anchor_field'', text_value (map_option fst anchor)),
         (''effective_anchor_at'', stamp (map_option snd anchor)),
         (''expires_at'', stamp (map_option (\<lambda>a. expiry_of e (snd a)) anchor)),
         (''session_state'', JStr state), (''active_session_exempt'', JBool (\<not> over)),
         (''cleanup_state'', JStr (if \<not> over then ''active_session_exempt''
            else if anchor = None then ''terminal_session_missing_anchor'' else ''eligible_when_expired''))])"

definition existing_file :: "('x) call_env_scheme \<Rightarrow> json \<Rightarrow> string option" where
  "existing_file e v = (case v of JStr s \<Rightarrow> if is_file e s then Some s else None | _ \<Rightarrow> None)"

definition frame_image_source :: "('x) call_env_scheme \<Rightarrow> fields \<Rightarrow> fields \<Rightarrow> string option" where
  "frame_image_source e gui frame =
    first_some (existing_file e)
      [get (as_obj (get gui ''primary_image'')) ''path'', get frame ''frame_path'',
       get (as_obj (get gui ''artifacts'')) ''latest_frame_path'', JStr (latest_frame e)]"

definition frame_metadata_source :: "('x) call_env_scheme \<Rightarrow> fields \<Rightarrow> string option" where
  "frame_metadata_source e gui =
    first_some (existing_file e)
      [get (as_obj (get gui ''artifacts'')) ''latest_frame_metadata_path'', JStr (latest_frame_metadata e)]"

record evidence_urls =
  artifact_url :: string
  frame_url :: string
  metadata_url :: string

definition build_verify_evidence_urls :: "('x) call_env_scheme \<Rightarrow> string \<Rightarrow> string \<Rightarrow> string \<Rightarrow> interactive_error + evidence_urls" where
  "build_verify_evidence_urls e session_id step_name recorded_at =
    (case evidence_token ''session_id'' session_id of
       Inl err \<Rightarrow> Inl err
     | Inr sid \<Rightarrow>
       (case evidence_token ''step'' step_name of
          Inl err \<Rightarrow> Inl err
        | Inr st \<Rightarrow>
          (case evidence_token ''recorded_at'' (timestamp_slug recorded_at) of
             Inl err \<Rightarrow> Inl err
           | Inr slug \<Rightarrow>
             (let base = api_base_url e @ ''/interactive/session/'' @ sid @ ''/verify-evidence/'' @ st @ ''/'' @ slug in
              Inr \<lparr>artifact_url = base, frame_url = base @ ''/frame'', metadata_url = base @ ''/frame.json''\<rparr>))))"

text \<open>Where the evidence of a step goes: a directory of its own, named by the time and a fresh number.\<close>

definition evidence_dir_name :: "('x) call_env_scheme \<Rightarrow> string" where
  "evidence_dir_name e = timestamp_slug (t_recorded e) @ ''-'' @ uuid_hex e"

record frozen_frame =
  ff_source :: "string option"
  ff_metadata_source :: "string option"
  ff_path :: "string option"
  ff_size :: int
  ff_sha :: "string option"

definition freeze_frame :: "('x) call_env_scheme \<Rightarrow> string \<Rightarrow> string \<Rightarrow> fields \<Rightarrow> fields \<Rightarrow> interactive_error + frozen_frame" where
  "freeze_frame e sid step_name gui frame =
    (let picture = frame_image_source e gui frame; metadata = frame_metadata_source e gui in
     case picture of
       None \<Rightarrow> Inr \<lparr>ff_source = None, ff_metadata_source = metadata, ff_path = None, ff_size = 0, ff_sha = None\<rparr>
     | Some source \<Rightarrow>
       (case copied_frame e source of
          None \<Rightarrow> Inl EvidenceUnreadable
        | Some (bytes_read, sha) \<Rightarrow>
          Inr \<lparr>ff_source = picture, ff_metadata_source = metadata,
               ff_path = Some (path_in_session e sid [''verify_evidence'', step_name, evidence_dir_name e,
                 step_name @ ''-frame'' @ or_str (suffix_of e source) ''.png'']),
               ff_size = bytes_read, ff_sha = Some sha\<rparr>))"

definition bound_frame :: "('x) call_env_scheme \<Rightarrow> evidence_urls \<Rightarrow> frozen_frame \<Rightarrow> fields \<Rightarrow> fields \<Rightarrow> fields" where
  "bound_frame e urls ff binding frame =
    (let f1 = put ''step_bound_at'' (JStr (t_recorded e)) (put ''step_binding'' (JObj binding) frame) in
     case ff_path ff of
       None \<Rightarrow> put ''step_bound_frame_metadata_url'' (JStr (metadata_url urls)) f1
     | Some p \<Rightarrow>
       put ''step_bound_frame_sha256'' (text_value (ff_sha ff))
        (put ''step_bound_frame_size_bytes'' (JInt (ff_size ff))
          (put ''step_bound_frame_metadata_url'' (JStr (metadata_url urls))
            (put ''step_bound_frame_url'' (JStr (frame_url urls)) (put ''step_bound_frame_path'' (JStr p) f1)))))"

definition bound_primary_image :: "evidence_urls \<Rightarrow> frozen_frame \<Rightarrow> string \<Rightarrow> fields \<Rightarrow> fields \<Rightarrow> fields" where
  "bound_primary_image urls ff step_name frame picture =
    (case ff_path ff of
       None \<Rightarrow> picture
     | Some p \<Rightarrow>
       put_all picture
         [(''kind'', JStr ''hancom_gui_verify_step_bound_frame''),
          (''label'', JStr (''Hancom GUI '' @ step_name @ '' step-bound frame'')),
          (''path'', JStr p), (''url'', JStr (frame_url urls)), (''captured_at'', get frame ''captured_at''),
          (''ok'', get frame ''ok''), (''reason_code'', get frame ''reason_code''), (''window_handle'', get frame ''window_handle''),
          (''window_pid'', get frame ''window_pid''), (''window_title'', get frame ''window_title''),
          (''window_class'', get frame ''window_class'')])"

definition step_metadata ::
  "('x) call_env_scheme \<Rightarrow> fields \<Rightarrow> string \<Rightarrow> frozen_frame \<Rightarrow> fields \<Rightarrow> fields \<Rightarrow> fields \<Rightarrow> fields \<Rightarrow> fields" where
  "step_metadata e session step_name ff binding frame status viewer =
    (let payload =
       [(''ok'', JBool (ff_path ff \<noteq> None \<or> frame \<noteq> [])), (''session_id'', get session ''session_id''), (''step'', JStr step_name),
        (''recorded_at'', JStr (t_recorded e)), (''artifact_id'', JStr (evidence_dir_name e)),
        (''retention'', JObj (retention_policy e session)), (''binding'', JObj binding), (''frame'', JObj frame),
        (''observation_status'', JObj status), (''viewer'', JObj viewer)] in
     case ff_metadata_source ff of
       None \<Rightarrow> payload
     | Some p \<Rightarrow>
       (case frame_metadata e p of
          Some v \<Rightarrow> put ''source_frame_metadata'' v payload
        | None \<Rightarrow> put ''source_frame_metadata_error'' (JStr (''failed_to_read:'' @ p)) payload))"

definition bound_gui :: "('x) call_env_scheme \<Rightarrow> evidence_urls \<Rightarrow> frozen_frame \<Rightarrow> fields \<Rightarrow> fields \<Rightarrow>
    fields \<Rightarrow> fields \<Rightarrow> fields \<Rightarrow> fields \<Rightarrow> fields \<Rightarrow> fields \<Rightarrow> fields" where
  "bound_gui e urls ff binding policy artifacts picture frame viewer status gui =
    put_all gui
      [(''artifacts'', JObj artifacts),
       (''primary_image'', if picture = [] then JNull else JObj picture),
       (''images'', JList (if picture = [] then [] else [JObj picture])),
       (''frame'', JObj frame), (''viewer'', JObj viewer), (''observation_status'', JObj status),
       (''step_binding'', JObj binding), (''freshness_policy'', get policy ''freshness''), (''trust_policy'', get policy ''trust''),
       (''warning_codes'', get policy ''warning_codes''), (''policy_summary'', get policy ''summary''),
       (''source'', JStr ''verify-step.step-bound-frozen-frame''),
       (''capture_state'', JStr (if ff_path ff \<noteq> None then ''bound'' else ''metadata-only'')),
       (''updated_at'', JStr (t_recorded e)), (''artifact_url'', JStr (artifact_url urls))]"

text \<open>
  \<open>_bind_verify_step_gui_evidence\<close>: nothing made on disk, the directory made and then a failure, or the
  enriched result, the artifacts and the metadata file written into the directory.
\<close>

datatype bind_result =
    BindRefused interactive_error
  | BindFailed interactive_error "fields option"
  | Bound fields fields fields

definition write_result :: "write_outcome \<Rightarrow> bool \<times> bool" where
  "write_result out = (case out of WriteDone \<Rightarrow> (True, True) | WriteRaises \<Rightarrow> (False, False) | WriteDoneRaises \<Rightarrow> (True, False))"

definition bind_frozen ::
  "('x) call_env_scheme \<Rightarrow> fields \<Rightarrow> string \<Rightarrow> string \<Rightarrow> fields \<Rightarrow> fields \<Rightarrow> evidence_urls \<Rightarrow> frozen_frame \<Rightarrow> bind_result" where
  "bind_frozen e session sid step_name result gui urls ff =
    (let frame0 = as_obj (get gui ''frame'');
         status = as_obj (get gui ''observation_status''); viewer = as_obj (get gui ''viewer'');
         captured_at = get frame0 ''captured_at'';
         (age, relation) = resolve_verify_capture_timing (millis e)
           (parse_iso_datetime e (JStr (t_recorded e))) (parse_iso_datetime e captured_at);
         (binding, policy) = build_verify_step_binding (texts e) step_name (t_recorded e) captured_at (ff_source ff)
           (ff_metadata_source ff) (get status ''observation_status'') (get status ''reason_code'') (ff_path ff \<noteq> None)
           age relation 5000 30000;
         frame = bound_frame e urls ff binding frame0;
         picture = bound_primary_image urls ff step_name frame (as_obj (get gui ''primary_image''));
         payload = step_metadata e session step_name ff binding frame status viewer;
         metadata_path = path_in_session e sid [''verify_evidence'', step_name, evidence_dir_name e, step_name @ ''-frame.json''];
         frame_link = (case ff_path ff of None \<Rightarrow> JNull | Some _ \<Rightarrow> JStr (frame_url urls))
     in case canonical_sha e payload of
          None \<Rightarrow> BindFailed EvidenceNotSerializable None
        | Some sha \<Rightarrow>
          (let saved = put ''metadata_sha256'' (JStr sha) payload in
           if state_bytes e saved > 4194304 then BindFailed StateTooLarge None
           else if \<not> snd (write_result (evidence_write e))
           then BindFailed WriteFailed (if fst (write_result (evidence_write e)) then Some saved else None)
           else
             (let artifacts = put_all (as_obj (get gui ''artifacts''))
                [(''step_bound_frame_path'', text_value (ff_path ff)), (''step_bound_frame_url'', frame_link),
                 (''step_bound_frame_metadata_path'', JStr metadata_path),
                 (''step_bound_frame_metadata_url'', JStr (metadata_url urls)),
                 (''step_bound_evidence_dir'', JStr (path_in_session e sid [''verify_evidence'', step_name, evidence_dir_name e])),
                 (''step_bound_evidence_url'', JStr (artifact_url urls)),
                 (''verify_evidence_retention_path'', JStr (path_in_session e sid [''verify_evidence_retention.json'']))]
              in Bound (put ''gui'' (JObj (bound_gui e urls ff binding policy artifacts picture frame viewer status gui)) result)
                   [(step_name @ ''_frame_path'', JStr (case ff_path ff of None \<Rightarrow> [] | Some p \<Rightarrow> p)),
                    (step_name @ ''_frame_metadata_path'', JStr metadata_path),
                    (step_name @ ''_frame_url'', case ff_path ff of None \<Rightarrow> JStr [] | Some _ \<Rightarrow> JStr (frame_url urls)),
                    (step_name @ ''_frame_metadata_url'', JStr (metadata_url urls)),
                    (step_name @ ''_evidence_url'', JStr (artifact_url urls))]
                   saved)))"

definition bind_verify_evidence :: "('x) call_env_scheme \<Rightarrow> fields \<Rightarrow> string \<Rightarrow> fields \<Rightarrow> bind_result" where
  "bind_verify_evidence e session step_name result =
    (let gui = as_obj (get result ''gui'');
         sid = fstr (texts e) (get session ''session_id'') in
     if \<not> has session ''session_id'' then BindRefused OtherRaise
     else case evidence_token ''recorded_at'' (evidence_dir_name e) of
       Inl err \<Rightarrow> BindRefused err
     | Inr _ \<Rightarrow>
       (case build_verify_evidence_urls e sid step_name (evidence_dir_name e) of
          Inl err \<Rightarrow> BindFailed err None
        | Inr urls \<Rightarrow>
          (case freeze_frame e sid step_name gui (as_obj (get gui ''frame'')) of
             Inl err \<Rightarrow> BindFailed err None
           | Inr ff \<Rightarrow> bind_frozen e session sid step_name result gui urls ff)))"

end
