(* ===== verification/InteractiveStore.thy ===== *)
theory InteractiveStore
  imports InteractiveSession "HOL-Library.AList"
begin

text \<open>
  app/interactive_session_manager.py, the store: the session directories, the active session's pointer, and
  the operations on them, each up to the end of the lock that covers it. A session directory holds the
  state file, the status text, the events, the frozen evidence by step and the ledger of removed evidence.
\<close>

section \<open>Recording a command\<close>

record command_update =
  u_command :: string
  u_state :: string
  u_summary :: "string option"
  u_payload :: "fields option"
  u_find :: "fields option"
  u_choose :: "fields option"
  u_selected :: "fields option"
  u_target :: "fields option"
  u_preparation :: "fields option"
  u_lock :: "fields option"
  u_verify_stage :: "string option"
  u_verify_result :: "fields option"
  u_apply :: "fields option"
  u_undo :: "fields option"
  u_popup :: "fields option"
  u_failure :: json
  u_metadata :: "fields option"
  u_live :: "fields option"
  u_artifacts :: "fields option"
  u_session_state :: "string option"

definition given :: "fields option \<Rightarrow> fields" where
  "given v = (case v of None \<Rightarrow> [] | Some kvs \<Rightarrow> kvs)"

definition put_given :: "string \<Rightarrow> fields option \<Rightarrow> fields \<Rightarrow> fields" where
  "put_given name v session = (if given v = [] then session else put name (JObj (given v)) session)"

definition merge_given :: "string \<Rightarrow> fields option \<Rightarrow> fields \<Rightarrow> fields" where
  "merge_given name v session =
    (if given v = [] then session else put name (JObj (merge_mapping (get session name) (given v))) session)"

definition metadata_given :: "fields option \<Rightarrow> fields \<Rightarrow> interactive_error + fields" where
  "metadata_given v session =
    (if given v = [] then Inr session
     else (case merge_metadata (get session ''metadata'') (given v) of
             Inl err \<Rightarrow> Inl err | Inr merged \<Rightarrow> Inr (put ''metadata'' (JObj merged) session)))"

definition record_fields :: "command_update \<Rightarrow> fields \<Rightarrow> fields" where
  "record_fields u session =
    (let s1 = put ''current_command'' (JStr (u_command u)) session;
         s2 = put_given ''active_target'' (u_target u) (put_given ''selected_candidate'' (u_selected u)
                (put_given ''choose_result'' (u_choose u) (put_given ''find_result'' (u_find u) s1)))
     in put_given ''undo_result'' (u_undo u) (put_given ''apply_result'' (u_apply u)
          (put_given ''lock_status'' (u_lock u) (merge_given ''runtime_preparation'' (u_preparation u) s2))))"

definition record_results :: "command_update \<Rightarrow> fields \<Rightarrow> interactive_error + fields" where
  "record_results u session =
    (case metadata_given (u_metadata u) (record_fields u session) of
       Inl err \<Rightarrow> Inl err
     | Inr s \<Rightarrow> Inr (merge_given ''artifacts'' (u_artifacts u) (merge_given ''live_runtime'' (u_live u) s)))"

definition record_popup :: "('x) call_env_scheme \<Rightarrow> command_update \<Rightarrow> fields \<Rightarrow> fields" where
  "record_popup e u session =
    put ''popup_status'' (JObj (merge_popup_status e (t_popup e) (get session ''popup_status'') (u_popup u))) session"

text \<open>What a verify step leaves on disk: its step, and the metadata file if it was written.\<close>

type_synonym evidence_effect = "(string \<times> fields option) option"

definition record_verify ::
  "('x) call_env_scheme \<Rightarrow> command_update \<Rightarrow> fields \<Rightarrow> (interactive_error + fields) \<times> evidence_effect" where
  "record_verify e u session =
    (if u_verify_stage u \<noteq> Some ''pre'' \<and> u_verify_stage u \<noteq> Some ''post'' then (Inr session, None)
     else
       (let stage = the (u_verify_stage u); key = (if stage = ''pre'' then ''verify_pre'' else ''verify_post'');
            step_name = ''verify-'' @ stage; existing = as_obj (get session key);
            finish = (\<lambda>merged s. put key (JObj (put ''updated_at'' (JStr (t_recorded e))
              (set_default ''summary'' (text_value (u_summary u)) (put ''state'' (JStr (u_state u)) merged)))) s) in
        case u_verify_result u of
          None \<Rightarrow> (Inr (finish existing session), None)
        | Some result \<Rightarrow>
          (case bind_verify_evidence e session step_name result of
             BindRefused err \<Rightarrow> (Inl err, None)
           | BindFailed err written \<Rightarrow> (Inl err, Some (step_name, written))
           | Bound enriched artifacts written \<Rightarrow>
             (Inr (finish (put_all existing enriched)
                (put ''artifacts'' (JObj (merge_mapping (get session ''artifacts'') artifacts)) session)),
              Some (step_name, Some written)))))"

definition record_outcome :: "('x) call_env_scheme \<Rightarrow> command_update \<Rightarrow> fields \<Rightarrow> interactive_error + fields" where
  "record_outcome e u session =
    (let normalized = (case normalize_failure_reason e (u_failure u) (u_command u) (u_summary u) of
           None \<Rightarrow> if u_state u = ''failed'' then normalize_failure_reason e (JObj []) (u_command u) (u_summary u) else None
         | Some f \<Rightarrow> Some f);
         decided = (case normalized of
           Some f \<Rightarrow> Inr (put ''state'' (JStr ''failed'') (put ''failure_reason'' (JObj f) session))
         | None \<Rightarrow>
           (case u_session_state u of
              Some st \<Rightarrow> Inr (put ''state'' (JStr st) session)
            | None \<Rightarrow>
              if u_command u = ''close'' then Inr (put ''state'' (JStr ''closed'') session)
              else
                (case state_in (get session ''state'') terminal_states of
                   None \<Rightarrow> Inl OtherRaise
                 | Some over \<Rightarrow> Inr (if over then session else put ''state'' (JStr ''ready'') session))))
     in case decided of
          Inl err \<Rightarrow> Inl err
        | Inr s \<Rightarrow> Inr (if u_command u = ''close'' then put ''closed_at'' (JStr (t_closed e)) s else s))"

definition history_entry :: "('x) call_env_scheme \<Rightarrow> command_update \<Rightarrow> fields" where
  "history_entry e u =
    [(''recorded_at'', JStr (t_recorded e)), (''command'', JStr (u_command u)), (''state'', JStr (u_state u)),
     (''summary'', bounded_history_value (texts e) (text_value (u_summary u))),
     (''payload'', JObj (bounded_command_payload (texts e) (u_command u) (JObj (given (u_payload u)))))]"

definition last_items :: "nat \<Rightarrow> 'a list \<Rightarrow> 'a list" where
  "last_items n xs = drop (length xs - n) xs"

definition record_history :: "('x) call_env_scheme \<Rightarrow> command_update \<Rightarrow> fields \<Rightarrow> fields" where
  "record_history e u session =
    put ''command_history''
      (JList (last_items 100 (as_list (get session ''command_history'') @ [JObj (history_entry e u)]))) session"

definition apply_command ::
  "('x) call_env_scheme \<Rightarrow> command_update \<Rightarrow> fields \<Rightarrow> (interactive_error + fields) \<times> evidence_effect" where
  "apply_command e u session =
    (case record_results u session of
       Inl err \<Rightarrow> (Inl err, None)
     | Inr s1 \<Rightarrow>
       (case record_verify e u (record_popup e u s1) of
          (Inl err, made) \<Rightarrow> (Inl err, made)
        | (Inr s2, made) \<Rightarrow>
          (case record_outcome e u s2 of
             Inl err \<Rightarrow> (Inl err, made)
           | Inr s3 \<Rightarrow> (Inr (record_history e u s3), made))))"

section \<open>Saving\<close>

text \<open>What \<open>_save_session_locked\<close> computes before it writes: the session with its projections, and the status text.\<close>

definition prepare_save :: "('x) call_env_scheme \<Rightarrow> fields \<Rightarrow> fields option \<Rightarrow> interactive_error + fields \<times> string" where
  "prepare_save e session current =
    (case strict_generation (case current of None \<Rightarrow> JNull | Some c \<Rightarrow> get c ''state_generation'') of
       Inl err \<Rightarrow> Inl err
     | Inr n \<Rightarrow>
       (let requested = (if current \<noteq> None \<and> has session ''state_generation''
                         then strict_generation (get session ''state_generation'') else Inr n) in
        case requested of
          Inl err \<Rightarrow> Inl err
        | Inr m \<Rightarrow>
          if m \<noteq> n then Inl GenerationChanged
          else
            (case observation_status e of
               None \<Rightarrow> Inl OtherRaise
             | Some seen \<Rightarrow>
               (let s1 = put ''observation'' (JObj seen)
                          (put ''readiness'' (JObj (runtime_status e)) (put ''updated_at'' (JStr (t_saved e)) session));
                    s2 = put ''popup_status'' (JObj (merge_popup_status e (t_saved e) (get s1 ''popup_status'') None)) s1
                in case render_operator_status (texts e) (t_saved e) s2 of
                     None \<Rightarrow> Inl OtherRaise
                   | Some (progress, lines, text) \<Rightarrow>
                     Inr (put ''state_generation'' (JInt (n + 1))
                           (put ''operator_status_text'' (JStr text)
                             (put ''operator_status_lines'' (JList (map JStr lines))
                               (put ''command_progress'' (JObj progress) s2))), text)))))"

section \<open>The store\<close>

datatype state_file = NoFile | BadFile | Good fields

datatype evidence_entry = StrayFile | EvidenceDir "fields option"

record session_dir =
  sd_state :: state_file
  sd_status :: "string option"
  sd_events :: event_files
  sd_evidence :: "(string \<times> (string \<times> evidence_entry) list) list option"
  sd_ledger :: state_file

definition empty_dir :: session_dir where
  "empty_dir = \<lparr>sd_state = NoFile, sd_status = None, sd_events = no_events, sd_evidence = None, sd_ledger = NoFile\<rparr>"

record istore =
  is_dirs :: "(string \<times> session_dir) list"
  is_active :: "string option"
  is_central :: state_file

definition empty_store :: istore where
  "empty_store = \<lparr>is_dirs = [], is_active = None, is_central = NoFile\<rparr>"

definition dir_of :: "istore \<Rightarrow> string \<Rightarrow> session_dir" where
  "dir_of w sid = (case map_of (is_dirs w) sid of None \<Rightarrow> empty_dir | Some d \<Rightarrow> d)"

text \<open>A directory that is changed is there afterwards (\<open>mkdir(parents=True, exist_ok=True)\<close>).\<close>

definition set_dir :: "string \<Rightarrow> session_dir \<Rightarrow> istore \<Rightarrow> istore" where
  "set_dir sid d w = w\<lparr>is_dirs := AList.update sid d (is_dirs w)\<rparr>"

definition file_content :: "state_file \<Rightarrow> fields option" where
  "file_content f = (case f of Good x \<Rightarrow> Some x | _ \<Rightarrow> None)"

definition load_session :: "istore \<Rightarrow> string \<Rightarrow> fields option" where
  "load_session w sid = file_content (sd_state (dir_of w sid))"

definition find_session :: "istore \<Rightarrow> string option \<Rightarrow> interactive_error + fields" where
  "find_session w sid =
    (let resolved = (case sid of Some (c # s) \<Rightarrow> Some (c # s) | _ \<Rightarrow> is_active w) in
     case resolved of
       None \<Rightarrow> Inl NoOpenSession
     | Some name \<Rightarrow> (case load_session w name of None \<Rightarrow> Inl (SessionNotFound name) | Some session \<Rightarrow> Inr session))"

text \<open>\<open>str(session['session_id'])\<close>\<close>

definition resolved_id :: "('x) call_env_scheme \<Rightarrow> fields \<Rightarrow> interactive_error + string" where
  "resolved_id e session =
    (if has session ''session_id'' then Inr (fstr (texts e) (get session ''session_id'')) else Inl OtherRaise)"

text \<open>\<open>_json_dump\<close> and \<open>_write_operator_status\<close>: what is on disk, and whether the calls returned.\<close>

definition write_session :: "('x) call_env_scheme \<Rightarrow> fields \<Rightarrow> string \<Rightarrow> session_dir \<Rightarrow> interactive_error option \<times> session_dir" where
  "write_session e session text d =
    (if state_bytes e session > 4194304 then (Some StateTooLarge, d)
     else
       (let d1 = (if fst (write_result (state_write e)) then d\<lparr>sd_state := Good session\<rparr> else d) in
        if \<not> snd (write_result (state_write e)) then (Some WriteFailed, d1)
        else
          (let d2 = (if fst (write_result (status_write e)) then d1\<lparr>sd_status := Some (text @ [CHR 0x0A])\<rparr> else d1) in
           (if snd (write_result (status_write e)) then None else Some WriteFailed, d2))))"

definition save_session_locked ::
  "('x) call_env_scheme \<Rightarrow> fields \<Rightarrow> fields option \<Rightarrow> istore \<Rightarrow> (interactive_error + fields) \<times> istore" where
  "save_session_locked e session current w =
    (case prepare_save e session current of
       Inl err \<Rightarrow> (Inl err, w)
     | Inr (saved, text) \<Rightarrow>
       (case resolved_id e saved of
          Inl err \<Rightarrow> (Inl err, w)
        | Inr sid \<Rightarrow>
          (let (failure, d) = write_session e saved text (dir_of w sid) in
           (case failure of None \<Rightarrow> Inr saved | Some err \<Rightarrow> Inl err, set_dir sid d w))))"

definition append_event :: "('x) call_env_scheme \<Rightarrow> string \<Rightarrow> fields \<Rightarrow> istore \<Rightarrow> interactive_error option \<times> istore" where
  "append_event e sid payload w =
    (let event = set_default ''recorded_at'' (JStr (t_saved e)) payload; d = dir_of w sid in
     if event_fails e then (Some WriteFailed, set_dir sid d w)
     else
       (if event_torn e = None then None else Some WriteFailed,
        set_dir sid (d\<lparr>sd_events := append_jsonl (event_env.truncate e) (event_torn e) (JObj event) (sd_events d)\<rparr>) w))"

text \<open>\<open>_session_transaction\<close>, without an event.\<close>

definition session_transaction ::
  "('x) call_env_scheme \<Rightarrow> string \<Rightarrow> (fields \<Rightarrow> interactive_error + fields) \<Rightarrow> istore \<Rightarrow> (interactive_error + fields) \<times> istore" where
  "session_transaction e sid mutator w =
    (case load_session w sid of
       None \<Rightarrow> (Inl (SessionNotFound sid), w)
     | Some current \<Rightarrow>
       (case mutator current of
          Inl err \<Rightarrow> (Inl err, w)
        | Inr updated \<Rightarrow> save_session_locked e updated (Some current) w))"

definition update_mutator ::
  "fields option \<Rightarrow> fields option \<Rightarrow> fields option \<Rightarrow> fields option \<Rightarrow> string option \<Rightarrow> fields \<Rightarrow> interactive_error + fields" where
  "update_mutator live target metadata artifacts state session =
    (case metadata_given metadata (put_given ''active_target'' target session) of
       Inl err \<Rightarrow> Inl err
     | Inr s1 \<Rightarrow>
       (let s2 = merge_given ''live_runtime'' live (merge_given ''artifacts'' artifacts s1) in
        Inr (case state of None \<Rightarrow> s2 | Some st \<Rightarrow> put ''state'' (JStr st) s2)))"

text \<open>The part of \<open>record_command\<close> under the state lock.\<close>

definition record_locked ::
  "('x) call_env_scheme \<Rightarrow> string \<Rightarrow> command_update \<Rightarrow> istore \<Rightarrow> (interactive_error + fields) \<times> istore" where
  "record_locked e sid u w =
    (case load_session w sid of
       None \<Rightarrow> (Inl (SessionNotFound sid), w)
     | Some session \<Rightarrow>
       (let (result, made) = apply_command e u session;
            w1 = (case made of
                    None \<Rightarrow> w
                  | Some (step_name, written) \<Rightarrow>
                    (let home = fstr (texts e) (get session ''session_id''); d = dir_of w home;
                         steps = (case sd_evidence d of None \<Rightarrow> [] | Some xs \<Rightarrow> xs);
                         old = (case map_of steps step_name of None \<Rightarrow> [] | Some xs \<Rightarrow> xs)
                     in set_dir home
                          (d\<lparr>sd_evidence := Some (AList.update step_name
                              (AList.update (evidence_dir_name e) (EvidenceDir written) old) steps)\<rparr>) w)) in
        case result of
          Inl err \<Rightarrow> (Inl err, w1)
        | Inr s \<Rightarrow>
          (case save_session_locked e s (Some s) w1 of
             (Inl err, w2) \<Rightarrow> (Inl err, w2)
           | (Inr saved, w2) \<Rightarrow>
             (case append_event e sid (history_entry e u) w2 of
                (Some err, w3) \<Rightarrow> (Inl err, w3)
              | (None, w3) \<Rightarrow> (Inr saved, w3)))))"

section \<open>The active session\<close>

definition read_active :: "istore \<Rightarrow> string option" where
  "read_active w = (case is_active w of None \<Rightarrow> None | Some s \<Rightarrow> if nonblank s then Some s else None)"

definition write_active :: "write_outcome \<Rightarrow> string option \<Rightarrow> istore \<Rightarrow> interactive_error option \<times> istore" where
  "write_active out sid w =
    (if snd (write_result out) then None else Some WriteFailed,
     if fst (write_result out) then w\<lparr>is_active := sid\<rparr> else w)"

record open_request =
  o_source_path :: string
  o_source_filename :: string
  o_file_size :: int
  o_content_type :: "string option"
  o_label :: "string option"
  o_metadata :: "fields option"
  o_session_id :: "string option"

definition open_id :: "('x) call_env_scheme \<Rightarrow> open_request \<Rightarrow> interactive_error + string" where
  "open_id e r =
    (let sid = py_strip (case o_session_id r of None \<Rightarrow> uuid_hex e | Some s \<Rightarrow> or_str s (uuid_hex e)) in
     if sid = [] then Inl EmptySessionId else Inr sid)"

definition pending_verify :: json where
  "pending_verify =
    JObj [(''state'', JStr ''pending''), (''verification_mode'', JNull), (''summary'', JNull), (''result'', JObj []),
          (''gui'', JObj []), (''updated_at'', JNull)]"

definition new_interactive_session :: "('x) call_env_scheme \<Rightarrow> open_request \<Rightarrow> string \<Rightarrow> fields" where
  "new_interactive_session e r sid =
    (let now = JStr (t_recorded e); nothing = JObj []; here = (\<lambda>parts. JStr (path_in_session e sid parts)) in
     [(''session_id'', JStr sid), (''state'', JStr ''open''), (''workflow_mode'', JStr ''interactive''), (''runtime_lane'', JStr ''.51''),
      (''source_path'', JStr (o_source_path r)), (''source_filename'', JStr (o_source_filename r)),
      (''file_size_bytes'', JInt (o_file_size r)), (''content_type'', text_value (o_content_type r)),
      (''session_label'', text_value (o_label r)), (''created_at'', now), (''updated_at'', now), (''closed_at'', JNull),
      (''current_command'', JStr ''open''), (''command_progress'', nothing),
      (''command_history'', JList [JObj [(''recorded_at'', now), (''command'', JStr ''open''), (''state'', JStr ''succeeded''),
         (''summary'', JStr ''Interactive session opened.'')]]),
      (''find_result'', nothing), (''choose_result'', nothing), (''selected_candidate'', JNull), (''active_target'', nothing),
      (''runtime_preparation'', nothing), (''lock_status'', nothing), (''verify_pre'', pending_verify), (''apply_result'', nothing),
      (''verify_post'', pending_verify), (''undo_result'', nothing),
      (''popup_status'', JObj (default_popup_status e (t_popup e))), (''failure_reason'', JNull), (''readiness'', nothing),
      (''observation'', nothing), (''live_runtime'', nothing), (''operator_status_lines'', JList []), (''operator_status_text'', JStr []),
      (''artifacts'', JObj
        [(''session_state_path'', here [''session_state.json'']), (''session_events_path'', here [''session_events.jsonl'']),
         (''operator_status_path'', here [''operator_status.txt'']),
         (''verify_evidence_retention_path'', here [''verify_evidence_retention.json''])]),
      (''metadata'', JObj (given (o_metadata r)))])"

definition open_event :: "open_request \<Rightarrow> fields" where
  "open_event r =
    [(''kind'', JStr ''session_opened''), (''command'', JStr ''open''), (''state'', JStr ''succeeded''),
     (''summary'', JStr ''Interactive session opened.''), (''source_path'', JStr (o_source_path r))]"

text \<open>Admission under the active lock: the current session, if its state can be read, must have ended.\<close>

definition open_admitted :: "istore \<Rightarrow> interactive_error option" where
  "open_admitted w =
    (case read_active w of
       None \<Rightarrow> None
     | Some sid \<Rightarrow>
       (case load_session w sid of
          None \<Rightarrow> None
        | Some existing \<Rightarrow>
          (case state_in (get existing ''state'') terminal_states of
             None \<Rightarrow> Some OtherRaise
           | Some over \<Rightarrow> if over then None else Some (SessionAlreadyOpen sid))))"

text \<open>The part under the state lock, and the pointer after it.\<close>

definition open_save :: "('x) call_env_scheme \<Rightarrow> open_request \<Rightarrow> string \<Rightarrow> istore \<Rightarrow> (interactive_error + fields) \<times> istore" where
  "open_save e r sid w =
    (if sd_state (dir_of w sid) \<noteq> NoFile then (Inl (SessionExists sid), w)
     else
       (case save_session_locked e (new_interactive_session e r sid) None w of
          (Inl err, w1) \<Rightarrow> (Inl err, w1)
        | (Inr saved, w1) \<Rightarrow>
          (case append_event e sid (open_event r) w1 of
             (Some err, w2) \<Rightarrow> (Inl err, w2)
           | (None, w2) \<Rightarrow> (Inr saved, w2))))"

section \<open>Expired evidence\<close>

text \<open>
  What \<open>shutil.rmtree\<close> removed: everything (\<open>None\<close>), or these parts before it raised; of an evidence
  directory, whether its metadata was among them.
\<close>

datatype dir_part = StatePart | StatusPart | EventsPart | EvidencePart | LedgerPart

record sweep_env = call_env +
  t_sweep :: string
  listing_fails :: "string \<Rightarrow> bool"
  rm_artifact :: "string \<Rightarrow> string \<Rightarrow> bool option"
  rm_session :: "string \<Rightarrow> dir_part list option"
  ledger_write :: write_outcome
  central_write :: "string \<Rightarrow> write_outcome"

text \<open>Keep the first of the items with the same key.\<close>

fun first_of_key :: "('a \<Rightarrow> 'k) \<Rightarrow> 'k list \<Rightarrow> 'a list \<Rightarrow> 'a list" where
  "first_of_key key seen [] = []"
| "first_of_key key seen (x # xs) =
    (if key x \<in> set seen then first_of_key key seen xs else x # first_of_key key (key x # seen) xs)"

definition text_or_empty :: "('x) call_env_scheme \<Rightarrow> fields \<Rightarrow> string \<Rightarrow> string" where
  "text_or_empty e kvs name = fstr (texts e) (or_value (get kvs name) (JStr []))"

definition object_items :: "json \<Rightarrow> fields list" where
  "object_items v = List.map_filter (\<lambda>x. case x of JObj kvs \<Rightarrow> Some kvs | _ \<Rightarrow> None) (as_list v)"

definition load_retention_ledger :: "session_dir \<Rightarrow> fields list" where
  "load_retention_ledger d =
    (case file_content (sd_ledger d) of None \<Rightarrow> [] | Some x \<Rightarrow> last_items 100 (object_items (get x ''pruned_entries'')))"

definition retention_header :: "('x) call_env_scheme \<Rightarrow> fields" where
  "retention_header e =
    [(''schema_version'', JStr ''interactive-verify-evidence-retention-ledger/v1''),
     (''policy'', JObj
       [(''schema_version'', JStr ''interactive-verify-evidence-retention/v1''),
        (''cleanup_mode'', JStr ''delete_frozen_verify_evidence_after_terminal_session_ttl''),
        (''retention_days'', JInt (retention_days e)), (''retention_anchor'', JStr ''session_closed_at'')])]"

definition merge_retention :: "('x) sweep_env_scheme \<Rightarrow> fields list \<Rightarrow> fields \<Rightarrow> fields" where
  "merge_retention e entries current =
    (let combined = object_items (get current ''pruned_entries'') @ entries;
         key = (\<lambda>x. (text_or_empty e x ''step'', text_or_empty e x ''recorded_at'', text_or_empty e x ''expired_at''))
     in retention_header e @ [(''last_swept_at'', JStr (t_sweep e)),
          (''pruned_entries'', JList (map JObj (last_items 100 (first_of_key key [] combined))))])"

definition central_keys :: "string list" where
  "central_keys =
    [''session_id'', ''step'', ''recorded_at'', ''pruned_at'', ''expired_at'', ''reason'', ''anchor_field'', ''anchor_at'']"

definition central_entry :: "('x) call_env_scheme \<Rightarrow> string option \<Rightarrow> fields \<Rightarrow> fields" where
  "central_entry e dflt raw =
    (let bounded = as_obj (bounded_history_value (texts e) (JObj raw));
         b = (case dflt of None \<Rightarrow> bounded | Some sid \<Rightarrow> put_all [(''session_id'', JStr sid)] bounded)
     in List.map_filter (\<lambda>k. if unset (get b k) then None else Some (k, get b k)) central_keys)"

definition merge_central :: "('x) sweep_env_scheme \<Rightarrow> string \<Rightarrow> fields list \<Rightarrow> fields \<Rightarrow> fields" where
  "merge_central e sid entries central =
    (let all_entries = map (central_entry e None) (object_items (get central ''entries'')) @ map (central_entry e (Some sid)) entries;
         key = (\<lambda>x. (text_or_empty e x ''session_id'', text_or_empty e x ''step'', text_or_empty e x ''recorded_at'',
                  text_or_empty e x ''expired_at''))
     in [(''schema_version'', JStr ''interactive-verify-evidence-retention-ledger/v1''),
         (''entries'', JList (map JObj (last_items 100 (first_of_key key [] all_entries)))),
         (''updated_at'', JStr (t_sweep e))])"

text \<open>\<open>update_json_object\<close>: a damaged file raises \<open>ValueError\<close>, a failed write \<open>OSError\<close>.\<close>

datatype update_failure = Damaged | NotWritten

definition update_file :: "write_outcome \<Rightarrow> (fields \<Rightarrow> fields) \<Rightarrow> fields \<Rightarrow> state_file \<Rightarrow> update_failure option \<times> state_file" where
  "update_file out f dflt file =
    (let change = (\<lambda>current.
        (if snd (write_result out) then None else Some NotWritten,
         if fst (write_result out) then Good (f current) else file)) in
     case file of BadFile \<Rightarrow> (Some Damaged, file) | NoFile \<Rightarrow> change dflt | Good x \<Rightarrow> change x)"

definition session_over :: "('x) call_env_scheme \<Rightarrow> fields \<Rightarrow> bool" where
  "session_over e session \<longleftrightarrow> fstr (texts e) (or_value (get session ''state'') (JStr [])) \<in> set terminal_states"

definition pruned_entry :: "('x) sweep_env_scheme \<Rightarrow> string \<Rightarrow> string \<Rightarrow> string \<times> int \<Rightarrow> fields" where
  "pruned_entry e step_name slug anchor =
    [(''step'', JStr step_name), (''recorded_at'', JStr slug), (''pruned_at'', JStr (t_sweep e)),
     (''expired_at'', JStr (toiso e (expiry_of e (snd anchor)))), (''reason'', JStr ''terminal_session_expired''),
     (''anchor_field'', JStr (fst anchor)), (''anchor_at'', JStr (toiso e (snd anchor)))]"

text \<open>One step's directory: what is left of it, and the names removed.\<close>

definition prune_step ::
  "('x) sweep_env_scheme \<Rightarrow> string \<Rightarrow> (string \<times> evidence_entry) list \<Rightarrow> (string \<times> evidence_entry) list \<times> string list" where
  "prune_step e step_name entries =
    (let outcome = (\<lambda>(slug, x).
        case x of
          StrayFile \<Rightarrow> Some x
        | EvidenceDir meta \<Rightarrow> map_option (\<lambda>lost. EvidenceDir (if lost then None else meta)) (rm_artifact e step_name slug)) in
     (List.map_filter (\<lambda>(slug, x). map_option (\<lambda>y. (slug, y)) (outcome (slug, x))) entries,
      map fst (filter (\<lambda>kx. outcome kx = None) entries)))"

definition prune_evidence ::
  "('x) sweep_env_scheme \<Rightarrow> string \<times> int \<Rightarrow> (string \<times> (string \<times> evidence_entry) list) list
   \<Rightarrow> (string \<times> (string \<times> evidence_entry) list) list option \<times> fields list" where
  "prune_evidence e anchor steps =
    (let left = filter (\<lambda>(_, xs). xs \<noteq> []) (map (\<lambda>(st, xs). (st, fst (prune_step e st xs))) steps);
         removed = concat (map (\<lambda>(st, xs). map (\<lambda>slug. pruned_entry e st slug anchor) (snd (prune_step e st xs))) steps)
     in (if left = [] then None else Some left, removed))"

definition prune_session :: "('x) sweep_env_scheme \<Rightarrow> string \<Rightarrow> istore \<Rightarrow> interactive_error option \<times> istore" where
  "prune_session e sid w =
    (case (map_of (is_dirs w) sid, load_session w sid, parse_iso_datetime e (JStr (t_sweep e))) of
       (Some d, Some session, Some now) \<Rightarrow>
       if \<not> session_over e session then (None, w)
       else
         (case (retention_anchor e session, sd_evidence d) of
            (Some anchor, Some steps) \<Rightarrow>
            if expiry_of e (snd anchor) > now then (None, w)
            else if listing_fails e sid then (Some OtherRaise, w)
            else
              (let (left, removed) = prune_evidence e anchor steps; d1 = d\<lparr>sd_evidence := left\<rparr> in
               if removed = [] then (None, set_dir sid d1 w)
               else
                 (let (failure, file) = update_file (ledger_write e)
                        (merge_retention e (load_retention_ledger d @ removed)) [] (sd_ledger d1)
                  in (map_option (\<lambda>_. WriteFailed) failure, set_dir sid (d1\<lparr>sd_ledger := file\<rparr>) w)))
          | _ \<Rightarrow> (None, w))
     | _ \<Rightarrow> (None, w))"

section \<open>Settled sessions\<close>

definition has_reconcilable_runtime :: "('x) call_env_scheme \<Rightarrow> fields \<Rightarrow> bool" where
  "has_reconcilable_runtime e session \<longleftrightarrow>
    (let live = as_obj (get session ''live_runtime''); pending = as_obj (get live ''pending_command'');
         local_cli = as_obj (get (as_obj (get session ''metadata'')) ''local_cli_v1'')
     in text_or_empty e session ''state'' = ''timed_out_pending_reconciliation''
        \<or> truthy (get live ''reconciliation_pending'')
        \<or> truthy (get pending ''command_id'') \<and> \<not> truthy (get pending ''reconciled'')
        \<or> truthy (get local_cli ''reconciliation_pending'')
        \<or> truthy (get local_cli ''pending_command_id'') \<and> \<not> truthy (get local_cli ''reconciled''))"

text \<open>\<open>datetime.min\<close> stands in for a session without a time.\<close>

definition settled_anchor :: "('x) call_env_scheme \<Rightarrow> fields \<Rightarrow> int" where
  "settled_anchor e session = (case retention_anchor e session of None \<Rightarrow> -62135596800000000 | Some (_, t) \<Rightarrow> t)"

definition is_settled :: "('x) sweep_env_scheme \<Rightarrow> istore \<Rightarrow> string \<Rightarrow> fields \<Rightarrow> bool" where
  "is_settled e w sid session \<longleftrightarrow>
    read_active w \<noteq> Some sid \<and> session_over e session \<and> \<not> has_reconcilable_runtime e session
    \<and> (case sd_evidence (dir_of w sid) of None \<Rightarrow> True | Some steps \<Rightarrow> \<not> listing_fails e sid \<and> steps = [])"

definition settled_sessions :: "('x) sweep_env_scheme \<Rightarrow> istore \<Rightarrow> (int \<times> string) list" where
  "settled_sessions e w =
    List.map_filter (\<lambda>sid.
      case load_session w sid of
        None \<Rightarrow> None
      | Some session \<Rightarrow> if is_settled e w sid session then Some (settled_anchor e session, sid) else None)
      (map fst (is_dirs w))"

definition excess_sessions :: "('x) sweep_env_scheme \<Rightarrow> int \<Rightarrow> istore \<Rightarrow> string list" where
  "excess_sessions e max_settled w =
    (let settled = sort_key id (settled_sessions e w)
     in map snd (take (length settled - nat max_settled) settled))"

definition without_parts :: "dir_part list \<Rightarrow> session_dir \<Rightarrow> session_dir" where
  "without_parts parts d =
    \<lparr>sd_state = (if StatePart \<in> set parts then NoFile else sd_state d),
     sd_status = (if StatusPart \<in> set parts then None else sd_status d),
     sd_events = (if EventsPart \<in> set parts then no_events else sd_events d),
     sd_evidence = (if EvidencePart \<in> set parts then None else sd_evidence d),
     sd_ledger = (if LedgerPart \<in> set parts then NoFile else sd_ledger d)\<rparr>"

text \<open>\<open>_merge_retention_ledger_to_central\<close>, if the directory has a ledger with entries.\<close>

definition keep_expiry_history :: "('x) sweep_env_scheme \<Rightarrow> string \<Rightarrow> istore \<Rightarrow> update_failure option \<times> state_file" where
  "keep_expiry_history e sid w =
    (let d = dir_of w sid; entries = load_retention_ledger d in
     if sd_ledger d = NoFile \<or> entries = [] then (None, is_central w)
     else update_file (central_write e sid) (merge_central e sid entries) [] (is_central w))"

text \<open>
  The removal of one directory; an \<open>OSError\<close> only keeps the directory, a damaged ledger raises out of the
  loop.
\<close>

definition reap_session :: "('x) sweep_env_scheme \<Rightarrow> string \<Rightarrow> istore \<Rightarrow> bool \<times> istore" where
  "reap_session e sid w =
    (let d = dir_of w sid; (failure, central) = keep_expiry_history e sid w; w1 = w\<lparr>is_central := central\<rparr>
     in case failure of
          Some Damaged \<Rightarrow> (True, w1)
        | Some NotWritten \<Rightarrow> (False, w1)
        | None \<Rightarrow>
          (case rm_session e sid of
             None \<Rightarrow> (False, w1\<lparr>is_dirs := AList.delete sid (is_dirs w1)\<rparr>)
           | Some parts \<Rightarrow> (False, set_dir sid (without_parts parts d) w1)))"

fun reap_all :: "('x) sweep_env_scheme \<Rightarrow> string list \<Rightarrow> istore \<Rightarrow> interactive_error option \<times> istore" where
  "reap_all e [] w = (None, w)"
| "reap_all e (sid # sids) w =
    (let (raised, w1) = reap_session e sid w in if raised then (Some OtherRaise, w1) else reap_all e sids w1)"

definition reap_settled :: "('x) sweep_env_scheme \<Rightarrow> int \<Rightarrow> istore \<Rightarrow> interactive_error option \<times> istore" where
  "reap_settled e max_settled w =
    (if max_settled < 0 then (None, w) else reap_all e (excess_sessions e max_settled w) w)"

end
