(* ===== verification/InteractiveRun.thy ===== *)
theory InteractiveRun
  imports InteractiveStore
begin

text \<open>
  The operations of the manager as the code composes them, and the same operations as steps of several
  processes. A section under the state lock is one step. The active lock is held over several of them:
  \<open>im_holder\<close> says what its holder is in the middle of, and the holder may die. A session is looked up
  (\<open>_require_session\<close>) before the lock, so a step takes any session id.
\<close>

section \<open>The calls\<close>

definition prune_expired :: "('x) sweep_env_scheme \<Rightarrow> istore \<Rightarrow> interactive_error option \<times> istore" where
  "prune_expired e w =
    fold (\<lambda>sid (raised, v). if raised = None then prune_session e sid v else (raised, v)) (map fst (is_dirs w)) (None, w)"

definition open_interactive ::
  "sweep_env \<Rightarrow> write_outcome \<Rightarrow> open_request \<Rightarrow> istore \<Rightarrow> (interactive_error + fields) \<times> istore" where
  "open_interactive e pointer r w =
    (case prune_expired e w of
       (Some err, w1) \<Rightarrow> (Inl err, w1)
     | (None, w1) \<Rightarrow>
       (case reap_settled e 100 w1 of
          (Some err, w2) \<Rightarrow> (Inl err, w2)
        | (None, w2) \<Rightarrow>
          (case open_id e r of
             Inl err \<Rightarrow> (Inl err, w2)
           | Inr sid \<Rightarrow>
             (case open_admitted w2 of
                Some err \<Rightarrow> (Inl err, w2)
              | None \<Rightarrow>
                (case open_save e r sid w2 of
                   (Inl err, w3) \<Rightarrow> (Inl err, w3)
                 | (Inr saved, w3) \<Rightarrow>
                   (case write_active pointer (Some sid) w3 of
                      (Some err, w4) \<Rightarrow> (Inl err, w4) | (None, w4) \<Rightarrow> (Inr saved, w4)))))))"

definition clear_active :: "write_outcome \<Rightarrow> string \<Rightarrow> istore \<Rightarrow> interactive_error option \<times> istore" where
  "clear_active pointer sid w = (if read_active w = Some sid then write_active pointer None w else (None, w))"

definition record_command ::
  "call_env \<Rightarrow> write_outcome \<Rightarrow> string option \<Rightarrow> command_update \<Rightarrow> istore \<Rightarrow> (interactive_error + fields) \<times> istore" where
  "record_command e pointer sid u w =
    (case find_session w sid of
       Inl err \<Rightarrow> (Inl err, w)
     | Inr hint \<Rightarrow>
       (case resolved_id e hint of
          Inl err \<Rightarrow> (Inl err, w)
        | Inr name \<Rightarrow>
          (case record_locked e name u w of
             (Inl err, w1) \<Rightarrow> (Inl err, w1)
           | (Inr saved, w1) \<Rightarrow>
             if u_command u \<noteq> ''close'' then (Inr saved, w1)
             else (case clear_active pointer name w1 of (Some err, w2) \<Rightarrow> (Inl err, w2) | (None, w2) \<Rightarrow> (Inr saved, w2)))))"

definition update_session ::
  "call_env \<Rightarrow> string \<Rightarrow> fields option \<Rightarrow> fields option \<Rightarrow> fields option \<Rightarrow> fields option \<Rightarrow> string option
   \<Rightarrow> istore \<Rightarrow> (interactive_error + fields) \<times> istore" where
  "update_session e sid live target metadata artifacts state w =
    (case find_session w (Some sid) of
       Inl err \<Rightarrow> (Inl err, w)
     | Inr hint \<Rightarrow>
       (case resolved_id e hint of
          Inl err \<Rightarrow> (Inl err, w)
        | Inr name \<Rightarrow> session_transaction e name (update_mutator live target metadata artifacts state) w))"

definition get_status :: "call_env \<Rightarrow> string option \<Rightarrow> istore \<Rightarrow> (interactive_error + fields) \<times> istore" where
  "get_status e sid w =
    (case find_session w sid of
       Inl err \<Rightarrow> (Inl err, w)
     | Inr hint \<Rightarrow>
       (case resolved_id e hint of
          Inl err \<Rightarrow> (Inl err, w) | Inr name \<Rightarrow> session_transaction e name Inr w))"

section \<open>Steps\<close>

datatype lock_holder = Unheld | Opening open_request string | Opened string | Closing string

record imachine =
  im_store :: istore
  im_holder :: lock_holder

datatype im_action =
    SweepStep sweep_env string
  | ReapStep sweep_env int
  | OpenStart call_env open_request
  | OpenSaveStep call_env
  | OpenPoint write_outcome
  | RecordStep call_env string command_update
  | CloseStart call_env string command_update
  | ClosePoint write_outcome
  | UpdateStep call_env string "fields option" "fields option" "fields option" "fields option" "string option"
  | StatusStep call_env string
  | HolderDies

definition after_open_save :: "string \<Rightarrow> (interactive_error + fields) \<times> istore \<Rightarrow> imachine" where
  "after_open_save sid r = \<lparr>im_store = snd r, im_holder = (case fst r of Inl _ \<Rightarrow> Unheld | Inr _ \<Rightarrow> Opened sid)\<rparr>"

definition after_close_save :: "string \<Rightarrow> (interactive_error + fields) \<times> istore \<Rightarrow> imachine" where
  "after_close_save sid r = \<lparr>im_store = snd r, im_holder = (case fst r of Inl _ \<Rightarrow> Unheld | Inr _ \<Rightarrow> Closing sid)\<rparr>"

fun im_step :: "im_action \<Rightarrow> imachine \<Rightarrow> imachine" where
  "im_step (SweepStep e sid) m = m\<lparr>im_store := snd (prune_session e sid (im_store m))\<rparr>"
| "im_step (ReapStep e limit) m =
    (if im_holder m = Unheld then m\<lparr>im_store := snd (reap_settled e limit (im_store m))\<rparr> else m)"
| "im_step (OpenStart e r) m =
    (case (im_holder m, open_id e r, open_admitted (im_store m)) of
       (Unheld, Inr sid, None) \<Rightarrow> m\<lparr>im_holder := Opening r sid\<rparr> | _ \<Rightarrow> m)"
| "im_step (OpenSaveStep e) m =
    (case im_holder m of Opening r sid \<Rightarrow> after_open_save sid (open_save e r sid (im_store m)) | _ \<Rightarrow> m)"
| "im_step (OpenPoint pointer) m =
    (case im_holder m of
       Opened sid \<Rightarrow> \<lparr>im_store = snd (write_active pointer (Some sid) (im_store m)), im_holder = Unheld\<rparr> | _ \<Rightarrow> m)"
| "im_step (RecordStep e sid u) m =
    (if u_command u = ''close'' then m else m\<lparr>im_store := snd (record_locked e sid u (im_store m))\<rparr>)"
| "im_step (CloseStart e sid u) m =
    (if u_command u = ''close'' \<and> im_holder m = Unheld then after_close_save sid (record_locked e sid u (im_store m)) else m)"
| "im_step (ClosePoint pointer) m =
    (case im_holder m of
       Closing sid \<Rightarrow> \<lparr>im_store = snd (clear_active pointer sid (im_store m)), im_holder = Unheld\<rparr> | _ \<Rightarrow> m)"
| "im_step (UpdateStep e sid live target metadata artifacts state) m =
    m\<lparr>im_store := snd (session_transaction e sid (update_mutator live target metadata artifacts state) (im_store m))\<rparr>"
| "im_step (StatusStep e sid) m = m\<lparr>im_store := snd (session_transaction e sid Inr (im_store m))\<rparr>"
| "im_step HolderDies m = m\<lparr>im_holder := Unheld\<rparr>"

definition im_start :: imachine where
  "im_start = \<lparr>im_store = empty_store, im_holder = Unheld\<rparr>"

definition im_run :: "im_action list \<Rightarrow> imachine" where
  "im_run acts = fold im_step acts im_start"

text \<open>The states the code calls terminal, and a session that has not reached one.\<close>

definition over :: "fields \<Rightarrow> bool" where
  "over session \<longleftrightarrow> get session ''state'' = JStr ''closed'' \<or> get session ''state'' = JStr ''failed''"

definition unfinished :: "istore \<Rightarrow> string \<Rightarrow> bool" where
  "unfinished w sid \<longleftrightarrow> (case load_session w sid of None \<Rightarrow> False | Some session \<Rightarrow> \<not> over session)"

text \<open>
  The ways a session can be left unfinished without being the active one: an open that fails or dies after
  its state file is written, a call that sets an ended session's state back, and a close that is told to
  leave the session in a state that is not terminal.
\<close>

definition sets_back :: "string option \<Rightarrow> bool" where
  "sets_back state \<longleftrightarrow> (case state of None \<Rightarrow> False | Some st \<Rightarrow> st \<notin> set terminal_states)"

fun strays :: "im_action \<Rightarrow> imachine \<Rightarrow> string list" where
  "strays (OpenSaveStep e) m =
    (case im_holder m of
       Opening r sid \<Rightarrow> (case fst (open_save e r sid (im_store m)) of Inl _ \<Rightarrow> [sid] | Inr _ \<Rightarrow> []) | _ \<Rightarrow> [])"
| "strays (OpenPoint pointer) m =
    (case im_holder m of Opened sid \<Rightarrow> if fst (write_result pointer) then [] else [sid] | _ \<Rightarrow> [])"
| "strays (RecordStep e sid u) m =
    (if sets_back (u_session_state u) \<and> \<not> unfinished (im_store m) sid then [sid] else [])"
| "strays (CloseStart e sid u) m = (if sets_back (u_session_state u) then [sid] else [])"
| "strays (UpdateStep e sid live target metadata artifacts state) m =
    (if sets_back state \<and> \<not> unfinished (im_store m) sid then [sid] else [])"
| "strays HolderDies m = (case im_holder m of Opened sid \<Rightarrow> [sid] | _ \<Rightarrow> [])"
| "strays _ m = []"

fun strays_from :: "imachine \<Rightarrow> im_action list \<Rightarrow> string list" where
  "strays_from m [] = []"
| "strays_from m (a # acts) = strays a m @ strays_from (im_step a m) acts"

end
