(* ===== verification/InteractiveProps.thy ===== *)
theory InteractiveProps
  imports InteractiveRun
begin

text \<open>
  What the manager promises of its sessions, whatever the interleaving of its processes and whichever of
  their writes fail. \<open>session_law\<close> is the contract of one session: a relation between its state before and
  after that every saved change has then holds of every step of the manager.
\<close>

named_theorems store_simps \<open>what the accessors see after a change of the store\<close>

section \<open>Reading after writing\<close>

lemma map_of_dirs [simp]: "map_of (AList.update sid d ds) k = (if k = sid then Some d else map_of ds k)"
  "map_of (AList.delete sid ds) k = (if k = sid then None else map_of ds k)"
  by (simp_all add: update_conv delete_conv)

lemma dir_of_set_dir [store_simps]: "dir_of (set_dir sid d w) k = (if k = sid then d else dir_of w k)"
  by (simp add: dir_of_def set_dir_def)

lemma set_dir_active [store_simps]: "is_active (set_dir sid d w) = is_active w"
  by (simp add: set_dir_def)

lemma load_set_dir [store_simps]:
  "load_session (set_dir sid d w) k = (if k = sid then file_content (sd_state d) else load_session w k)"
  by (simp add: load_session_def store_simps)

lemma load_cong: "is_dirs v = is_dirs w \<Longrightarrow> load_session v = load_session w"
  by (rule ext) (simp add: load_session_def dir_of_def)

lemma file_content_simps [simp]: "file_content (Good x) = Some x" "file_content NoFile = None" "file_content BadFile = None"
  by (simp_all add: file_content_def)

lemma append_event_load [store_simps]:
  "load_session (snd (append_event e sid ev w)) = load_session w" "is_active (snd (append_event e sid ev w)) = is_active w"
  by (rule ext) (auto simp: append_event_def Let_def store_simps load_session_def)

text \<open>What a change leaves alone, and what it may have done to one session's state file.\<close>

definition changes_only :: "istore \<Rightarrow> istore \<Rightarrow> string \<Rightarrow> (fields \<Rightarrow> bool) \<Rightarrow> bool" where
  "changes_only w w' sid F \<longleftrightarrow>
    is_active w' = is_active w \<and> (\<forall>k. k \<noteq> sid \<longrightarrow> load_session w' k = load_session w k)
    \<and> (load_session w' sid = load_session w sid \<or> (\<exists>g. load_session w' sid = Some g \<and> F g))"

lemma touches_refl [simp]: "changes_only w w sid F"
  by (simp add: changes_only_def)

lemma touches_mono: "changes_only w w' sid F \<Longrightarrow> (\<And>g. F g \<Longrightarrow> G g) \<Longrightarrow> changes_only w w' sid G"
  by (auto simp: changes_only_def)

lemma touches_load: "changes_only w w' sid F \<Longrightarrow> load_session w' k = Some g \<Longrightarrow>
    load_session w k = Some g \<or> k = sid \<and> F g"
  by (cases "k = sid") (auto simp: changes_only_def)

text \<open>The store may differ before in what no session's state depends on.\<close>

lemma touches_pre: "load_session v = load_session w \<Longrightarrow> is_active v = is_active w \<Longrightarrow> changes_only v w' sid F \<Longrightarrow> changes_only w w' sid F"
  by (simp add: changes_only_def)

lemma touches_post: "load_session w' = load_session v \<Longrightarrow> is_active w' = is_active v \<Longrightarrow> changes_only w v sid F \<Longrightarrow> changes_only w w' sid F"
  by (simp add: changes_only_def)

lemma write_session_state:
  "sd_state (snd (write_session e s body d)) = sd_state d \<or> sd_state (snd (write_session e s body d)) = Good s"
  "fst (write_session e s body d) = None \<Longrightarrow> sd_state (snd (write_session e s body d)) = Good s"
  by (auto simp: write_session_def Let_def write_result_def split: if_splits write_outcome.splits)

section \<open>What a save keeps\<close>

definition projection_keys :: "string list" where
  "projection_keys =
    [''updated_at'', ''readiness'', ''observation'', ''popup_status'', ''command_progress'', ''operator_status_lines'',
     ''operator_status_text'', ''state_generation'']"

lemma prepare_save_keeps:
  assumes "prepare_save e s current = Inr (saved, body)"
  shows "k \<notin> set projection_keys \<Longrightarrow> get saved k = get s k"
    and "\<exists>n. strict_generation (case current of None \<Rightarrow> JNull | Some c \<Rightarrow> get c ''state_generation'') = Inr n
           \<and> get saved ''state_generation'' = JInt (n + 1)"
  using assms
  by (auto simp: prepare_save_def projection_keys_def Let_def split: sum.splits if_splits option.splits prod.splits)

lemma save_touches:
  assumes "get s ''session_id'' = JStr sid"
  shows "changes_only w (snd (save_session_locked e s current w)) sid
           (\<lambda>g. \<exists>body. prepare_save e s current = Inr (g, body))"
    and "fst (save_session_locked e s current w) = Inr g \<Longrightarrow>
           load_session (snd (save_session_locked e s current w)) sid = Some g \<and> (\<exists>body. prepare_save e s current = Inr (g, body))"
proof -
  have "changes_only w (snd (save_session_locked e s current w)) sid (\<lambda>g. \<exists>body. prepare_save e s current = Inr (g, body))
    \<and> (fst (save_session_locked e s current w) = Inr g \<longrightarrow>
           load_session (snd (save_session_locked e s current w)) sid = Some g \<and> (\<exists>body. prepare_save e s current = Inr (g, body)))"
  proof (cases "prepare_save e s current")
    case (Inr st)
    obtain saved body where st: "st = (saved, body)" by force
    have "get saved ''session_id'' = JStr sid"
      using prepare_save_keeps(1) [of e s current saved body "''session_id''"] Inr st assms by (simp add: projection_keys_def)
    moreover from this have "has saved ''session_id''" using get_absent by fastforce
    ultimately have rid: "resolved_id e saved = Inr sid" by (simp add: resolved_id_def py_str_def)
    obtain failure d where wr: "write_session e saved body (dir_of w sid) = (failure, d)" by force
    have save: "save_session_locked e s current w = (case failure of None \<Rightarrow> Inr saved | Some err \<Rightarrow> Inl err, set_dir sid d w)"
      by (simp add: save_session_locked_def Inr st rid wr)
    have "sd_state d = sd_state (dir_of w sid) \<or> sd_state d = Good saved" "failure = None \<Longrightarrow> sd_state d = Good saved"
      using write_session_state [of e saved body "dir_of w sid"] wr by simp_all
    then show ?thesis
      by (cases failure) (auto simp: save changes_only_def store_simps load_session_def Inr st)
  qed (simp add: save_session_locked_def)
  then show "changes_only w (snd (save_session_locked e s current w)) sid (\<lambda>g. \<exists>body. prepare_save e s current = Inr (g, body))"
    and "fst (save_session_locked e s current w) = Inr g \<Longrightarrow>
           load_session (snd (save_session_locked e s current w)) sid = Some g \<and> (\<exists>body. prepare_save e s current = Inr (g, body))"
    by blast+
qed

section \<open>The origin of a session\<close>

definition origin :: "fields \<Rightarrow> string \<Rightarrow> json" where
  "origin session k = get (as_obj (get (as_obj (get session ''metadata'')) ''local_cli_v1'')) k"

text \<open>A text that is set stays, and whatever else is set later says the same.\<close>

definition origin_kept :: "fields \<Rightarrow> fields \<Rightarrow> bool" where
  "origin_kept f g \<longleftrightarrow>
    (\<forall>k \<in> set immutable_keys. \<forall>s. s \<noteq> [] \<longrightarrow> origin f k = JStr s \<longrightarrow>
       origin g k = JStr s \<and> (\<forall>k' \<in> set immutable_keys. origin g k' = origin f k' \<or> origin g k' = JStr s))"

lemma origin_kept_same: "get g ''metadata'' = get f ''metadata'' \<Longrightarrow> origin_kept f g"
  by (simp add: origin_kept_def origin_def)

lemma put_keeps_text: "(a, JStr s) \<in> set p \<Longrightarrow> \<exists>a. (a, JStr s) \<in> set (put key (JStr s) p)"
  by (induction key "JStr s" p rule: put.induct) auto

lemma put_adds: "\<exists>a. (a, v) \<in> set (put key v p)"
  by (induction key v p rule: put.induct) auto

lemma merge_local_cli_origin:
  assumes "merge_local_cli incoming provenance local_cli = Inr out" and "(a, JStr s) \<in> set provenance"
    and "k \<in> set immutable_keys"
  shows "get out k = get local_cli k \<or> get out k = JStr s"
  using assms(1,2)
proof (induction incoming provenance local_cli arbitrary: a rule: merge_local_cli.induct)
  case (2 key v incoming provenance local_cli)
  show ?case
  proof (cases "key \<in> set immutable_keys \<and> \<not> unset v")
    case True
    with "2.prems" have ok: "\<not> list_ex (\<lambda>(_, w). \<not> py_eq w v) provenance" by (auto split: if_splits)
    with "2.prems"(2) have "py_eq (JStr s) v" by (auto simp: list_ex_iff)
    then have v: "v = JStr s" by simp
    from True ok "2.prems"(1) have "merge_local_cli incoming (put key v provenance) (put key v local_cli) = Inr out" by simp
    moreover obtain b where "(b, JStr s) \<in> set (put key v provenance)" using put_adds v by blast
    ultimately have "get out k = get (put key v local_cli) k \<or> get out k = JStr s" using "2.IH"(2) True ok by simp
    then show ?thesis by (auto simp: v)
  next
    case False
    with "2.prems" "2.IH"(1,3) assms(3) show ?thesis by (cases "key \<in> set immutable_keys") (auto split: if_splits)
  qed
qed simp

lemma merge_metadata_origin:
  assumes "merge_metadata (get f ''metadata'') upd = Inr merged" and "get g ''metadata'' = JObj merged"
  shows "origin_kept f g"
  unfolding origin_kept_def
proof (intro ballI allI impI)
  fix k s
  assume k: "k \<in> set immutable_keys" and s: "s \<noteq> []" "origin f k = JStr s"
  define local_cli where "local_cli = as_obj (get (as_obj (get f ''metadata'')) ''local_cli_v1'')"
  have local_k: "get local_cli k = JStr s" using s by (simp add: origin_def local_cli_def)
  then obtain kvs where kvs: "get (as_obj (get f ''metadata'')) ''local_cli_v1'' = JObj kvs" "local_cli = kvs"
    by (cases "get (as_obj (get f ''metadata'')) ''local_cli_v1''") (auto simp: local_cli_def as_obj_def get_def)
  have "map_of local_cli k = Some (JStr s)" using local_k by (auto simp: get_def split: option.splits)
  then have prov: "(k, JStr s) \<in> set (provenance_of local_cli)"
    using k s by (auto simp: provenance_of_def unset_def dest: map_of_SomeD)
  have out: "origin g k' = get (as_obj (get merged ''local_cli_v1'')) k'" for k'
    by (simp add: origin_def assms(2) as_obj_def)
  have f: "origin f k' = get local_cli k'" for k' by (simp add: origin_def local_cli_def)
  from assms(1) kvs have "get merged ''local_cli_v1'' = JObj local_cli \<or>
      (\<exists>new. merge_local_cli new (provenance_of local_cli) local_cli = Inr (as_obj (get merged ''local_cli_v1'')))"
    by (auto simp: merge_metadata_def Let_def as_obj_def is_obj_def split: json.splits sum.splits)
  then have "origin g k' = origin f k' \<or> origin g k' = JStr s" if "k' \<in> set immutable_keys" for k'
    using merge_local_cli_origin [OF _ prov that] by (auto simp: out f as_obj_def)
  with k s show "origin g k = JStr s \<and> (\<forall>k' \<in> set immutable_keys. origin g k' = origin f k' \<or> origin g k' = JStr s)"
    by (metis json.inject(4))
qed

section \<open>What recording a command changes\<close>

lemma get_put_given [simp]:
  "get (put_given name v session) k = (if k = name \<and> given v \<noteq> [] then JObj (given v) else get session k)"
  "get (merge_given name v session) k =
     (if k = name \<and> given v \<noteq> [] then JObj (merge_mapping (get session name) (given v)) else get session k)"
  by (simp_all add: put_given_def merge_given_def)

lemma metadata_given_keeps:
  assumes "metadata_given v f = Inr g"
  shows "k \<noteq> ''metadata'' \<Longrightarrow> get g k = get f k" and "origin_kept f g"
proof -
  have "(k \<noteq> ''metadata'' \<longrightarrow> get g k = get f k) \<and> origin_kept f g"
  proof (cases "given v = []")
    case True
    with assms show ?thesis by (simp add: metadata_given_def origin_kept_same)
  next
    case False
    with assms obtain merged where "merge_metadata (get f ''metadata'') (given v) = Inr merged"
      "g = put ''metadata'' (JObj merged) f"
      by (auto simp: metadata_given_def split: sum.splits)
    then show ?thesis using merge_metadata_origin [of f "given v" merged g] by simp
  qed
  then show "k \<noteq> ''metadata'' \<Longrightarrow> get g k = get f k" and "origin_kept f g" by blast+
qed

lemma origin_kept_cong: "get f' ''metadata'' = get f ''metadata'' \<Longrightarrow> get g' ''metadata'' = get g ''metadata'' \<Longrightarrow>
    origin_kept f g \<Longrightarrow> origin_kept f' g'"
  by (simp add: origin_kept_def origin_def)

definition result_keys :: "string list" where
  "result_keys =
    [''current_command'', ''find_result'', ''choose_result'', ''selected_candidate'', ''active_target'', ''runtime_preparation'',
     ''lock_status'', ''apply_result'', ''undo_result'', ''metadata'', ''live_runtime'', ''artifacts'']"

lemma record_results_keeps:
  assumes "record_results u f = Inr g"
  shows "k \<notin> set result_keys \<Longrightarrow> get g k = get f k" and "origin_kept f g"
proof -
  have s3: "get (record_fields u f) k = get f k" if "k \<notin> set result_keys \<or> k = ''metadata''" for k
    using that by (elim disjE) (simp_all add: record_fields_def result_keys_def Let_def)
  from assms obtain s4 where s: "metadata_given (u_metadata u) (record_fields u f) = Inr s4"
      "g = merge_given ''artifacts'' (u_artifacts u) (merge_given ''live_runtime'' (u_live u) s4)"
    by (auto simp: record_results_def split: sum.splits)
  show "k \<notin> set result_keys \<Longrightarrow> get g k = get f k"
    using s3 [of k] metadata_given_keeps(1) [OF s(1), of k] by (simp add: s(2) result_keys_def)
  show "origin_kept f g"
    by (rule origin_kept_cong [OF _ _ metadata_given_keeps(2) [OF s(1)]]) (simp_all add: s(2) s3)
qed

lemma record_popup_keeps [simp]: "k \<noteq> ''popup_status'' \<Longrightarrow> get (record_popup e u f) k = get f k"
  by (simp add: record_popup_def)

lemma record_verify_keeps:
  assumes "record_verify e u f = (Inr g, made)" and "k \<notin> {''verify_pre'', ''verify_post'', ''artifacts''}"
  shows "get g k = get f k"
  using assms by (auto simp: record_verify_def Let_def split: if_splits option.splits bind_result.splits)

lemma record_history_keeps [simp]: "k \<noteq> ''command_history'' \<Longrightarrow> get (record_history e u f) k = get f k"
  by (simp add: record_history_def)

lemma over_cong: "get g ''state'' = get f ''state'' \<Longrightarrow> over g = over f"
  by (simp add: over_def)

lemma over_put [simp]:
  "over (put ''state'' (JStr st) f) \<longleftrightarrow> st \<in> set terminal_states" "k \<noteq> ''state'' \<Longrightarrow> over (put k v f) = over f"
  by (auto simp: over_def terminal_states_def)

lemma terminal_names [simp]: "''failed'' \<in> set terminal_states" "''closed'' \<in> set terminal_states"
  by (simp_all add: terminal_states_def)

lemma state_in_over: "state_in (get f ''state'') terminal_states = Some b \<Longrightarrow> b = over f"
  by (auto simp: state_in_def over_def terminal_states_def split: json.splits)

lemma record_outcome_keeps:
  assumes "record_outcome e u f = Inr g"
  shows "k \<notin> {''state'', ''failure_reason'', ''closed_at''} \<Longrightarrow> get g k = get f k"
    and "\<not> over g \<Longrightarrow> sets_back (u_session_state u) \<or> \<not> over f \<and> u_command u \<noteq> ''close''"
proof -
  show "k \<notin> {''state'', ''failure_reason'', ''closed_at''} \<Longrightarrow> get g k = get f k"
    using assms by (auto simp: record_outcome_def Let_def split: sum.splits option.splits if_splits)
  show "\<not> over g \<Longrightarrow> sets_back (u_session_state u) \<or> \<not> over f \<and> u_command u \<noteq> ''close''"
    using assms by (auto simp: record_outcome_def Let_def sets_back_def dest: state_in_over
        split: sum.splits option.splits if_splits)
qed

lemma apply_command_keeps:
  assumes "apply_command e u f = (Inr g, made)"
  shows "get g ''session_id'' = get f ''session_id''" and "get g ''state_generation'' = get f ''state_generation''"
    and "origin_kept f g" and "\<not> over g \<Longrightarrow> sets_back (u_session_state u) \<or> \<not> over f \<and> u_command u \<noteq> ''close''"
proof -
  from assms obtain s1 s2 s3 where s: "record_results u f = Inr s1" "record_verify e u (record_popup e u s1) = (Inr s2, made)"
      "record_outcome e u s2 = Inr s3" "g = record_history e u s3"
    by (auto simp: apply_command_def split: sum.splits prod.splits)
  note keeps = record_results_keeps(1) [OF s(1)] record_verify_keeps [OF s(2)] record_outcome_keeps(1) [OF s(3)]
  show "get g ''session_id'' = get f ''session_id''" "get g ''state_generation'' = get f ''state_generation''"
    using keeps by (simp_all add: s(4) result_keys_def)
  have "get g ''metadata'' = get s1 ''metadata''" using keeps(2,3) by (simp add: s(4))
  then show "origin_kept f g" by (rule origin_kept_cong [OF refl _ record_results_keeps(2) [OF s(1)]])
  have "over s2 = over f" by (rule over_cong) (use keeps in \<open>simp add: result_keys_def\<close>)
  moreover have "over g = over s3" by (rule over_cong) (simp add: s(4))
  ultimately show "\<not> over g \<Longrightarrow> sets_back (u_session_state u) \<or> \<not> over f \<and> u_command u \<noteq> ''close''"
    using record_outcome_keeps(2) [OF s(3)] by simp
qed

lemma update_mutator_keeps:
  assumes "update_mutator live target metadata artifacts state f = Inr g"
  shows "get g ''session_id'' = get f ''session_id''" and "get g ''state_generation'' = get f ''state_generation''"
    and "origin_kept f g" and "\<not> over g \<Longrightarrow> sets_back state \<or> \<not> over f"
proof -
  from assms obtain s1 where s: "metadata_given metadata (put_given ''active_target'' target f) = Inr s1"
      "g = (let s2 = merge_given ''live_runtime'' live (merge_given ''artifacts'' artifacts s1) in
            case state of None \<Rightarrow> s2 | Some st \<Rightarrow> put ''state'' (JStr st) s2)"
    by (auto simp: update_mutator_def Let_def split: sum.splits)
  show "get g ''session_id'' = get f ''session_id''" "get g ''state_generation'' = get f ''state_generation''"
    using metadata_given_keeps(1) [OF s(1)] by (auto simp: s(2) Let_def split: option.splits)
  show "origin_kept f g"
    by (rule origin_kept_cong [OF _ _ metadata_given_keeps(2) [OF s(1)]]) (auto simp: s(2) Let_def split: option.splits)
  show "\<not> over g \<Longrightarrow> sets_back state \<or> \<not> over f"
    using over_cong [of s1 f] over_cong [of "merge_given ''live_runtime'' live (merge_given ''artifacts'' artifacts s1)" s1]
      metadata_given_keeps(1) [OF s(1), of "''state''"]
    by (auto simp: s(2) Let_def sets_back_def split: option.splits)
qed

section \<open>What a step changes\<close>

definition ids_match :: "istore \<Rightarrow> bool" where
  "ids_match w \<longleftrightarrow> (\<forall>k f. load_session w k = Some f \<longrightarrow> get f ''session_id'' = JStr k)"

lemma evidence_load: "load_session (set_dir k ((dir_of w k)\<lparr>sd_evidence := x\<rparr>) w) = load_session w"
  by (rule ext) (simp add: store_simps load_session_def)

definition recorded :: "call_env \<Rightarrow> command_update \<Rightarrow> fields \<Rightarrow> fields \<Rightarrow> bool" where
  "recorded e u f g \<longleftrightarrow> (\<exists>s made body. apply_command e u f = (Inr s, made) \<and> prepare_save e s (Some s) = Inr (g, body))"

definition saved_after :: "call_env \<Rightarrow> (fields \<Rightarrow> interactive_error + fields) \<Rightarrow> fields \<Rightarrow> fields \<Rightarrow> bool" where
  "saved_after e mutator f g \<longleftrightarrow> (\<exists>s body. mutator f = Inr s \<and> prepare_save e s (Some f) = Inr (g, body))"

lemma record_touches:
  assumes "load_session w sid = Some f" and "get f ''session_id'' = JStr sid"
  shows "changes_only w (snd (record_locked e sid u w)) sid (recorded e u f)"
    and "fst (record_locked e sid u w) = Inr g \<Longrightarrow>
      load_session (snd (record_locked e sid u w)) sid = Some g \<and> recorded e u f g"
proof -
  obtain result made where ap: "apply_command e u f = (result, made)" by force
  obtain w1 where w1: "load_session w1 = load_session w" "is_active w1 = is_active w"
    and rec: "record_locked e sid u w =
      (case result of
         Inl err \<Rightarrow> (Inl err, w1)
       | Inr s \<Rightarrow>
         (case save_session_locked e s (Some s) w1 of
            (Inl err, w2) \<Rightarrow> (Inl err, w2)
          | (Inr saved, w2) \<Rightarrow>
            (case append_event e sid (history_entry e u) w2 of
               (Some err, w3) \<Rightarrow> (Inl err, w3) | (None, w3) \<Rightarrow> (Inr saved, w3))))"
    by (rule that [of "case made of None \<Rightarrow> w | Some (step_name, written) \<Rightarrow>
          (let home = fstr (texts e) (get f ''session_id''); d = dir_of w home;
               steps = (case sd_evidence d of None \<Rightarrow> [] | Some xs \<Rightarrow> xs);
               old = (case map_of steps step_name of None \<Rightarrow> [] | Some xs \<Rightarrow> xs)
           in set_dir home (d\<lparr>sd_evidence := Some (AList.update step_name
                (AList.update (evidence_dir_name e) (EvidenceDir written) old) steps)\<rparr>) w)"])
      (auto simp: record_locked_def assms(1) ap Let_def evidence_load set_dir_active split: option.splits)
  have "changes_only w (snd (record_locked e sid u w)) sid (recorded e u f)
    \<and> (fst (record_locked e sid u w) = Inr g \<longrightarrow>
        load_session (snd (record_locked e sid u w)) sid = Some g \<and> recorded e u f g)"
  proof (cases result)
    case (Inl err)
    then show ?thesis by (simp add: rec changes_only_def w1)
  next
    case (Inr s)
    have sid: "get s ''session_id'' = JStr sid" using apply_command_keeps(1) [of e u f s made] ap Inr assms(2) by simp
    obtain r2 w2 where sv: "save_session_locked e s (Some s) w1 = (r2, w2)" by force
    have t: "changes_only w1 w2 sid (recorded e u f)"
      using save_touches(1) [OF sid, where e = e and current = "Some s" and w = w1] sv ap Inr
      by (auto simp: recorded_def elim: touches_mono)
    show ?thesis
    proof (cases r2)
      case (Inl err)
      with t show ?thesis by (simp add: rec Inr sv touches_pre [OF w1])
    next
      case r2: (Inr saved)
      have "load_session w2 sid = Some saved \<and> recorded e u f saved"
        using save_touches(2) [OF sid, where e = e and current = "Some s" and w = w1] sv ap Inr r2
        by (auto simp: recorded_def)
      moreover obtain r3 w3 where ev: "append_event e sid (history_entry e u) w2 = (r3, w3)" by force
      moreover have "load_session w3 = load_session w2" "is_active w3 = is_active w2"
        using append_event_load [of e sid "history_entry e u" w2] ev by simp_all
      ultimately show ?thesis using touches_pre [OF w1 t]
        by (cases r3) (auto simp: rec Inr sv r2 intro: touches_post)
    qed
  qed
  then show "changes_only w (snd (record_locked e sid u w)) sid (recorded e u f)"
    and "fst (record_locked e sid u w) = Inr g \<Longrightarrow>
      load_session (snd (record_locked e sid u w)) sid = Some g \<and> recorded e u f g"
    by blast+
qed

lemma record_missing: "load_session w sid = None \<Longrightarrow> record_locked e sid u w = (Inl (SessionNotFound sid), w)"
  by (simp add: record_locked_def)

lemma transaction_touches:
  assumes "load_session w sid = Some f" and "\<And>s. mutator f = Inr s \<Longrightarrow> get s ''session_id'' = JStr sid"
  shows "changes_only w (snd (session_transaction e sid mutator w)) sid (saved_after e mutator f)"
proof (cases "mutator f")
  case (Inr s)
  then show ?thesis
    using save_touches(1) [OF assms(2) [OF Inr], where e = e and current = "Some f" and w = w]
    by (auto simp: session_transaction_def assms(1) saved_after_def elim: touches_mono)
qed (simp add: session_transaction_def assms(1))

lemma transaction_missing: "load_session w sid = None \<Longrightarrow> snd (session_transaction e sid mutator w) = w"
  by (simp add: session_transaction_def)

lemma open_save_touches:
  "changes_only w (snd (open_save e r sid w)) sid
     (\<lambda>g. load_session w sid = None \<and> (\<exists>body. prepare_save e (new_interactive_session e r sid) None = Inr (g, body)))"
  "fst (open_save e r sid w) = Inr g \<Longrightarrow> load_session (snd (open_save e r sid w)) sid = Some g"
proof -
  have sid: "get (new_interactive_session e r sid) ''session_id'' = JStr sid" by (simp add: new_interactive_session_def get_def Let_def)
  have "changes_only w (snd (open_save e r sid w)) sid
      (\<lambda>g. load_session w sid = None \<and> (\<exists>body. prepare_save e (new_interactive_session e r sid) None = Inr (g, body)))
    \<and> (fst (open_save e r sid w) = Inr g \<longrightarrow> load_session (snd (open_save e r sid w)) sid = Some g)"
  proof (cases "sd_state (dir_of w sid) = NoFile")
    case True
    then have none: "load_session w sid = None" by (simp add: load_session_def)
    obtain r1 w1 where sv: "save_session_locked e (new_interactive_session e r sid) None w = (r1, w1)" by force
    have t: "changes_only w w1 sid (\<lambda>g. load_session w sid = None \<and> (\<exists>body. prepare_save e (new_interactive_session e r sid) None = Inr (g, body)))"
      using save_touches(1) [OF sid, where e = e and current = None and w = w] sv none by (auto elim: touches_mono)
    show ?thesis
    proof (cases r1)
      case (Inl err)
      with t True sv show ?thesis by (simp add: open_save_def)
    next
      case (Inr saved)
      have "load_session w1 sid = Some saved"
        using save_touches(2) [OF sid, where e = e and current = None and w = w] sv Inr by simp
      moreover obtain r2 w2 where ev: "append_event e sid (open_event r) w1 = (r2, w2)" by force
      moreover have "load_session w2 = load_session w1" "is_active w2 = is_active w1"
        using append_event_load [of e sid "open_event r" w1] ev by simp_all
      ultimately show ?thesis using t True sv Inr
        by (cases r2) (auto simp: open_save_def intro: touches_post)
    qed
  qed (simp add: open_save_def)
  then show "changes_only w (snd (open_save e r sid w)) sid
      (\<lambda>g. load_session w sid = None \<and> (\<exists>body. prepare_save e (new_interactive_session e r sid) None = Inr (g, body)))"
    and "fst (open_save e r sid w) = Inr g \<Longrightarrow> load_session (snd (open_save e r sid w)) sid = Some g"
    by blast+
qed

lemma prune_session_shape:
  "snd (prune_session e sid w) = w
   \<or> (\<exists>d x y. map_of (is_dirs w) sid = Some d \<and> snd (prune_session e sid w) = set_dir sid (d\<lparr>sd_evidence := x, sd_ledger := y\<rparr>) w)"
proof -
  have same: "d\<lparr>sd_evidence := x\<rparr> = d\<lparr>sd_evidence := x, sd_ledger := sd_ledger d\<rparr>" for d x by simp
  show ?thesis
  proof (cases "map_of (is_dirs w) sid"; cases "load_session w sid"; cases "parse_iso_datetime e (JStr (t_sweep e))")
    fix d session now
    assume a: "map_of (is_dirs w) sid = Some d" "load_session w sid = Some session"
      "parse_iso_datetime e (JStr (t_sweep e)) = Some now"
    show ?thesis
    proof (cases "retention_anchor e session"; cases "sd_evidence d")
      fix anchor steps
      assume b: "retention_anchor e session = Some anchor" "sd_evidence d = Some steps"
      obtain left removed where c: "prune_evidence e anchor steps = (left, removed)" by force
      show ?thesis
        by (simp add: prune_session_def a b c Let_def split_beta) (metis same)
    qed (simp_all add: prune_session_def a)
  qed (simp_all add: prune_session_def)
qed

lemma prune_session_load: "load_session (snd (prune_session e sid w)) = load_session w"
  "is_active (snd (prune_session e sid w)) = is_active w"
proof -
  have dir: "load_session (set_dir sid (d\<lparr>sd_evidence := x, sd_ledger := y\<rparr>) w) = load_session w"
    if "map_of (is_dirs w) sid = Some d" for d x y
    by (rule ext, simp add: load_set_dir, simp add: load_session_def dir_of_def that)
  show "load_session (snd (prune_session e sid w)) = load_session w"
    using prune_session_shape [of e sid w] dir by auto
  show "is_active (snd (prune_session e sid w)) = is_active w"
    using prune_session_shape [of e sid w] by (auto simp: set_dir_active)
qed

lemma reap_session_load:
  "load_session (snd (reap_session e sid w)) k = load_session w k \<or> k = sid \<and> load_session (snd (reap_session e sid w)) k = None"
  "is_active (snd (reap_session e sid w)) = is_active w"
proof -
  define d where "d = dir_of w sid"
  obtain failure central where fc: "keep_expiry_history e sid w = (failure, central)" by force
  have load: "load_session (w\<lparr>is_central := central\<rparr>) = load_session w" by (rule load_cong) simp
  have shape: "snd (reap_session e sid w) =
      (if failure \<noteq> None then w\<lparr>is_central := central\<rparr>
       else case rm_session e sid of
              None \<Rightarrow> w\<lparr>is_central := central, is_dirs := AList.delete sid (is_dirs w)\<rparr>
            | Some parts \<Rightarrow> set_dir sid (without_parts parts d) (w\<lparr>is_central := central\<rparr>))"
    by (simp add: reap_session_def fc d_def Let_def split: option.split update_failure.split)
  have deleted: "load_session (w\<lparr>is_central := central, is_dirs := AList.delete sid (is_dirs w)\<rparr>) k =
      (if k = sid then None else load_session w k)"
    by (simp add: load_session_def dir_of_def empty_dir_def)
  have partly: "file_content (sd_state (without_parts parts d)) = (if StatePart \<in> set parts then None else load_session w sid)" for parts
    by (simp add: without_parts_def load_session_def d_def)
  show "load_session (snd (reap_session e sid w)) k = load_session w k \<or> k = sid \<and> load_session (snd (reap_session e sid w)) k = None"
    by (simp add: shape load deleted load_set_dir partly split: option.split)
  show "is_active (snd (reap_session e sid w)) = is_active w"
    by (simp add: shape set_dir_active split: option.split)
qed

lemma reap_all_load:
  "load_session (snd (reap_all e sids w)) k = load_session w k \<or> k \<in> set sids \<and> load_session (snd (reap_all e sids w)) k = None"
  "is_active (snd (reap_all e sids w)) = is_active w"
proof (induction sids arbitrary: w)
  case (Cons sid sids)
  { case 1
    show ?case using reap_session_load(1) [of e sid w k] Cons(1) [of "snd (reap_session e sid w)"]
      by (auto split: prod.splits) }
  { case 2
    show ?case using reap_session_load(2) [of e sid w] Cons(2) by (auto split: prod.splits) }
qed simp_all

text \<open>Where the content of a state file comes from.\<close>

abbreviation session_at :: "imachine \<Rightarrow> string \<Rightarrow> fields option" where
  "session_at m \<equiv> load_session (im_store m)"

lemma write_active_load [store_simps]: "load_session (snd (write_active out sid w)) = load_session w"
  by (auto simp: write_active_def intro: load_cong)

lemma clear_active_load [store_simps]: "load_session (snd (clear_active out sid w)) = load_session w"
  by (simp add: clear_active_def write_active_load)

lemma reap_settled_load:
  "load_session (snd (reap_settled e limit w)) k = load_session w k \<or> load_session (snd (reap_settled e limit w)) k = None"
  using reap_all_load(1) [of e "excess_sessions e limit w" w k] by (auto simp: reap_settled_def)

lemma reap_settled_active [store_simps]: "is_active (snd (reap_settled e limit w)) = is_active w"
  by (simp add: reap_settled_def reap_all_load)

lemma record_source:
  assumes "ids_match w" and "load_session (snd (record_locked e sid u w)) k = Some g"
  obtains "load_session w k = Some g" | f where "k = sid" "load_session w sid = Some f" "recorded e u f g"
proof (cases "load_session w sid")
  case None
  with assms(2) that(1) show thesis by (simp add: record_missing)
next
  case (Some f)
  with assms(1) have "get f ''session_id'' = JStr sid" by (simp add: ids_match_def)
  from touches_load [OF record_touches(1) [OF Some this] assms(2)] that Some show thesis by blast
qed

lemma transaction_source:
  assumes "ids_match w" and "load_session (snd (session_transaction e sid mutator w)) k = Some g"
    and "\<And>f s. mutator f = Inr s \<Longrightarrow> get s ''session_id'' = get f ''session_id''"
  obtains "load_session w k = Some g" | f where "k = sid" "load_session w sid = Some f" "saved_after e mutator f g"
proof (cases "load_session w sid")
  case None
  with assms(2) that(1) show thesis by (simp add: transaction_missing)
next
  case (Some f)
  have "get s ''session_id'' = JStr sid" if "mutator f = Inr s" for s
    using assms(3) [OF that] assms(1) Some by (simp add: ids_match_def)
  from touches_load [OF transaction_touches [OF Some this] assms(2)] that Some show thesis by blast
qed

lemma step_source:
  assumes "ids_match (im_store m)" and "session_at (im_step a m) k = Some g"
  obtains (same) "session_at m k = Some g"
  | (command) e u f where "a = RecordStep e k u \<or> a = CloseStart e k u" "session_at m k = Some f" "recorded e u f g"
  | (upd) e live target metadata artifacts state f where
      "a = UpdateStep e k live target metadata artifacts state" "session_at m k = Some f"
      "saved_after e (update_mutator live target metadata artifacts state) f g"
  | (status) e f where "a = StatusStep e k" "session_at m k = Some f" "saved_after e Inr f g"
  | (opened) e r body where "a = OpenSaveStep e" "im_holder m = Opening r k" "session_at m k = None"
      "prepare_save e (new_interactive_session e r k) None = Inr (g, body)"
proof (cases a)
  case (SweepStep e sid)
  with assms(2) same show thesis by (simp add: prune_session_load)
next
  case (ReapStep e limit)
  with assms(2) same reap_settled_load [of e limit "im_store m" k] show thesis by (auto split: if_splits)
next
  case (OpenStart e r)
  with assms(2) same show thesis by (auto split: lock_holder.splits sum.splits option.splits)
next
  case (OpenSaveStep e)
  show thesis
  proof (cases "im_holder m")
    case (Opening r sid)
    with OpenSaveStep assms(2) have "load_session (snd (open_save e r sid (im_store m))) k = Some g"
      by (simp add: after_open_save_def)
    from touches_load [OF open_save_touches(1) this] same opened [of e r] OpenSaveStep Opening show thesis by blast
  qed (use OpenSaveStep assms(2) same in simp_all)
next
  case (OpenPoint pointer)
  with assms(2) same show thesis by (auto simp: store_simps split: lock_holder.splits)
next
  case (RecordStep e sid u)
  show thesis
  proof (cases "u_command u = ''close''")
    case False
    with RecordStep assms(2) have "load_session (snd (record_locked e sid u (im_store m))) k = Some g" by simp
    with assms(1) show thesis by (rule record_source) (use same command [of e u] RecordStep in blast)+
  qed (use RecordStep assms(2) same in simp)
next
  case (CloseStart e sid u)
  show thesis
  proof (cases "u_command u = ''close'' \<and> im_holder m = Unheld")
    case True
    with CloseStart assms(2) have "load_session (snd (record_locked e sid u (im_store m))) k = Some g"
      by (simp add: after_close_save_def)
    with assms(1) show thesis by (rule record_source) (use same command [of e u] CloseStart in blast)+
  qed (use CloseStart assms(2) same in \<open>auto split: if_splits\<close>)
next
  case (ClosePoint pointer)
  with assms(2) same show thesis by (auto simp: store_simps split: lock_holder.splits)
next
  case (UpdateStep e sid live target metadata artifacts state)
  with assms(2) have "load_session (snd (session_transaction e sid (update_mutator live target metadata artifacts state)
      (im_store m))) k = Some g" by simp
  with assms(1) show thesis
    by (rule transaction_source) (use same upd UpdateStep update_mutator_keeps(1) in blast)+
next
  case (StatusStep e sid)
  with assms(2) have "load_session (snd (session_transaction e sid Inr (im_store m))) k = Some g" by simp
  with assms(1) show thesis
    by (rule transaction_source) (use same status StatusStep in auto)
next
  case HolderDies
  with assms(2) same show thesis by simp
qed

section \<open>The contract of one session\<close>

locale session_law =
  fixes law :: "fields \<Rightarrow> fields \<Rightarrow> bool"
  assumes unchanged: "law f f"
    and by_command: "apply_command (e :: call_env) u f = (Inr s, made) \<Longrightarrow> prepare_save e s (Some s) = Inr (g, body) \<Longrightarrow> law f g"
    and change: "update_mutator live target metadata artifacts state f = Inr s \<Longrightarrow>
      prepare_save (e :: call_env) s (Some f) = Inr (g, body) \<Longrightarrow> law f g"
    and view: "prepare_save (e :: call_env) f (Some f) = Inr (g, body) \<Longrightarrow> law f g"
begin

lemma step_law:
  assumes "ids_match (im_store m)" and "session_at m k = Some f" and "session_at (im_step a m) k = Some g"
  shows "law f g"
  using assms(1,3)
proof (cases rule: step_source)
  case same
  with assms(2) unchanged show ?thesis by simp
next
  case (command e u f')
  with assms(2) by_command show ?thesis by (auto simp: recorded_def)
next
  case (upd e live target metadata artifacts state f')
  with assms(2) change show ?thesis by (auto simp: saved_after_def)
next
  case (status e f')
  with assms(2) view show ?thesis by (auto simp: saved_after_def)
next
  case (opened e r body)
  with assms(2) show ?thesis by simp
qed

end

lemma prepare_save_facts:
  assumes "prepare_save e s current = Inr (g, body)"
  shows "get g ''session_id'' = get s ''session_id''" and "get g ''metadata'' = get s ''metadata''"
    and "over g = over s" and "get g ''command_history'' = get s ''command_history''"
  by (simp_all add: prepare_save_keeps(1) [OF assms] projection_keys_def over_def)

text \<open>A law that composes holds between any two moments of a session's life.\<close>

locale lasting_law = session_law +
  assumes composes: "law f g \<Longrightarrow> law g h \<Longrightarrow> law f h"
begin

lemma life_law:
  assumes "ids_match (im_store m)" and "session_at m sid = Some f"
    and "\<And>n. n \<le> length acts \<Longrightarrow> session_at (fold im_step (take n acts) m) sid \<noteq> None"
    and "session_at (fold im_step acts m) sid = Some g" and "\<And>m a. ids_match (im_store m) \<Longrightarrow> ids_match (im_store (im_step a m))"
  shows "law f g"
  using assms(1-4)
proof (induction acts arbitrary: m f)
  case Nil
  then show ?case by (simp add: unchanged)
next
  case (Cons a acts)
  obtain h where h: "session_at (im_step a m) sid = Some h" using Cons.prems(3) [of 1] by auto
  have "law f h" by (rule step_law [OF Cons.prems(1,2) h])
  moreover have "law h g"
  proof (rule Cons.IH [OF assms(5) [OF Cons.prems(1)] h])
    show "session_at (fold im_step (take n acts) (im_step a m)) sid \<noteq> None" if "n \<le> length acts" for n
      using Cons.prems(3) [of "Suc n"] that by simp
    show "session_at (fold im_step acts (im_step a m)) sid = Some g" using Cons.prems(4) by simp
  qed
  ultimately show ?case by (rule composes)
qed

end

interpretation same_id: session_law "\<lambda>f g. get g ''session_id'' = get f ''session_id''"
proof
  show "get g ''session_id'' = get f ''session_id''" if "apply_command e u f = (Inr s, made)" "prepare_save e s (Some s) = Inr (g, body)"
    for e :: call_env and u f s made g body
    using apply_command_keeps(1) [OF that(1)] prepare_save_facts(1) [OF that(2)] by simp
  show "get g ''session_id'' = get f ''session_id''" if "update_mutator live target metadata artifacts state f = Inr s"
    "prepare_save e s (Some f) = Inr (g, body)" for live target metadata artifacts state f s and e :: call_env and g body
    using update_mutator_keeps(1) [OF that(1)] prepare_save_facts(1) [OF that(2)] by simp
  show "get g ''session_id'' = get f ''session_id''" if "prepare_save e f (Some f) = Inr (g, body)" for e :: call_env and f g body
    using prepare_save_facts(1) [OF that] .
qed simp

interpretation same_origin: lasting_law origin_kept
proof
  show "origin_kept f f" for f by (simp add: origin_kept_same)
  show "origin_kept f g" if "apply_command e u f = (Inr s, made)" "prepare_save e s (Some s) = Inr (g, body)" for e :: call_env and u f s made g body
    using apply_command_keeps(3) [OF that(1)] prepare_save_facts(2) [OF that(2)] by (auto intro: origin_kept_cong)
  show "origin_kept f g" if "update_mutator live target metadata artifacts state f = Inr s" "prepare_save e s (Some f) = Inr (g, body)"
    for live target metadata artifacts state f s and e :: call_env and g body
    using update_mutator_keeps(3) [OF that(1)] prepare_save_facts(2) [OF that(2)] by (auto intro: origin_kept_cong)
  show "origin_kept f g" if "prepare_save e f (Some f) = Inr (g, body)" for e :: call_env and f g body
    using prepare_save_facts(2) [OF that] by (rule origin_kept_same)
  show "origin_kept f h" if "origin_kept f g" "origin_kept g h" for f g h
    using that unfolding origin_kept_def by metis
qed

text \<open>Every save that changes the state file takes the next generation.\<close>

definition generation_grows :: "fields \<Rightarrow> fields \<Rightarrow> bool" where
  "generation_grows f g \<longleftrightarrow>
    g = f \<or> (\<exists>n n'. strict_generation (get f ''state_generation'') = Inr n \<and> n < n' \<and> get g ''state_generation'' = JInt n')"

lemma strict_generation_Inr: "strict_generation v = Inr n \<Longrightarrow> 0 \<le> n"
  by (auto simp: strict_generation_def split: json.splits if_splits)

lemma next_generation_grows:
  "strict_generation (get f ''state_generation'') = Inr n \<Longrightarrow> get g ''state_generation'' = JInt (n + 1) \<Longrightarrow> generation_grows f g"
  unfolding generation_grows_def using less_add_one by blast

interpretation generations: lasting_law generation_grows
proof
  show "generation_grows f f" for f by (simp add: generation_grows_def)
  show "generation_grows f g" if "apply_command e u f = (Inr s, made)" "prepare_save e s (Some s) = Inr (g, body)"
    for e :: call_env and u f s made g body
    using prepare_save_keeps(2) [OF that(2)] apply_command_keeps(2) [OF that(1)] next_generation_grows by auto
  show "generation_grows f g" if "update_mutator live target metadata artifacts state f = Inr s" "prepare_save e s (Some f) = Inr (g, body)"
    for live target metadata artifacts state f s and e :: call_env and g body
    using prepare_save_keeps(2) [OF that(2)] next_generation_grows by auto
  show "generation_grows f g" if "prepare_save e f (Some f) = Inr (g, body)" for e :: call_env and f g body
    using prepare_save_keeps(2) [OF that] next_generation_grows by auto
  show "generation_grows f h" if fg: "generation_grows f g" and gh: "generation_grows g h" for f g h
  proof (cases "g = f \<or> h = g")
    case True
    with fg gh show ?thesis by auto
  next
    case False
    with fg obtain n n' where n: "strict_generation (get f ''state_generation'') = Inr n" "n < n'" "get g ''state_generation'' = JInt n'"
      by (auto simp: generation_grows_def)
    with gh False obtain k where "n' < k" "get h ''state_generation'' = JInt k"
      by (auto simp: generation_grows_def strict_generation_def split: if_splits)
    with n show ?thesis unfolding generation_grows_def by (metis order.strict_trans)
  qed
qed

lemma new_session_facts:
  "get (new_interactive_session e r sid) ''session_id'' = JStr sid" "get (new_interactive_session e r sid) ''state'' = JStr ''open''"
  by (simp_all add: new_interactive_session_def get_def Let_def)

lemma step_ids_match:
  assumes "ids_match (im_store m)"
  shows "ids_match (im_store (im_step a m))"
  unfolding ids_match_def
proof (intro allI impI)
  fix k g
  assume g: "session_at (im_step a m) k = Some g"
  show "get g ''session_id'' = JStr k"
  proof (cases "session_at m k")
    case (Some f)
    from same_id.step_law [OF assms Some g] Some assms show ?thesis by (simp add: ids_match_def)
  next
    case None
    from assms g show ?thesis
    proof (cases rule: step_source)
      case (opened e r body)
      then show ?thesis using prepare_save_facts(1) [of e "new_interactive_session e r k" None g body] by (simp add: new_session_facts)
    qed (use None in simp_all)
  qed
qed

lemma fold_step_invariant: "P m \<Longrightarrow> (\<And>a m. P m \<Longrightarrow> P (im_step a m)) \<Longrightarrow> P (fold im_step acts m)"
  by (induction acts arbitrary: m) auto

lemma run_ids_match: "ids_match (im_store (im_run acts))"
proof -
  have "ids_match (im_store im_start)"
    by (simp add: im_start_def empty_store_def ids_match_def load_session_def dir_of_def empty_dir_def)
  then show ?thesis unfolding im_run_def by (rule fold_step_invariant [where P = "\<lambda>m. ids_match (im_store m)"]) (rule step_ids_match)
qed

lemma im_run_append: "im_run (acts @ later) = fold im_step later (im_run acts)"
  by (simp add: im_run_def)

text \<open>
  C35. A session only moves forward while its state can be read, through any calls of any processes and any
  failures: the state found later is the same one or has a greater generation, and the origin that was
  recorded for it is unchanged, whatever metadata later clients send; an origin field set later agrees with it.
\<close>
theorem session_moves_forward:
  assumes "session_at (im_run acts) sid = Some f" and "session_at (im_run (acts @ later)) sid = Some g"
    and "\<forall>n \<le> length later. session_at (im_run (acts @ take n later)) sid \<noteq> None"
  shows "generation_grows f g
    \<and> (\<forall>k \<in> set immutable_keys. \<forall>s. s \<noteq> [] \<longrightarrow> origin f k = JStr s \<longrightarrow>
         origin g k = JStr s \<and> (\<forall>k' \<in> set immutable_keys. origin g k' = origin f k' \<or> origin g k' = JStr s))"
proof -
  note life = run_ids_match assms(1) assms(3) [unfolded im_run_append, rule_format] assms(2) [unfolded im_run_append] step_ids_match
  have "generation_grows f g" by (rule generations.life_law [OF life]) simp_all
  moreover have "origin_kept f g" by (rule same_origin.life_law [OF life]) simp_all
  ultimately show ?thesis by (simp add: origin_kept_def)
qed

end
