(* ===== verification/InteractiveOne.thy ===== *)
theory InteractiveOne
  imports InteractiveProps
begin

text \<open>
  One session at a time: which sessions can be unfinished, what the reaper may remove, and that a command
  is recorded whole or not at all.
\<close>

section \<open>Unfinished sessions\<close>

lemma over_sets_back: "over g \<longleftrightarrow> over f \<Longrightarrow> \<not> over g \<Longrightarrow> \<not> over f"
  by simp

lemma unfinished_iff: "unfinished w sid \<longleftrightarrow> (\<exists>f. load_session w sid = Some f \<and> \<not> over f)"
  by (auto simp: unfinished_def split: option.splits)

lemma recorded_over: "recorded e u f g \<Longrightarrow> \<not> over g \<Longrightarrow> sets_back (u_session_state u) \<or> \<not> over f \<and> u_command u \<noteq> ''close''"
  using apply_command_keeps(4) prepare_save_facts(3) unfolding recorded_def by metis

lemma unfinished_step:
  assumes "ids_match (im_store m)" and "unfinished (im_store (im_step a m)) sid"
  shows "unfinished (im_store m) sid \<or> sid \<in> set (strays a m) \<or> im_holder (im_step a m) = Opened sid"
proof -
  obtain g where g: "session_at (im_step a m) sid = Some g" "\<not> over g" using assms(2) by (auto simp: unfinished_iff)
  from assms(1) g(1) show ?thesis
  proof (cases rule: step_source)
    case same
    with g show ?thesis by (auto simp: unfinished_iff)
  next
    case (command e u f)
    with recorded_over [OF command(3) g(2)] show ?thesis by (auto simp: unfinished_iff)
  next
    case (upd e live target metadata artifacts state f)
    then obtain s body where s: "update_mutator live target metadata artifacts state f = Inr s"
      "prepare_save e s (Some f) = Inr (g, body)" by (auto simp: saved_after_def)
    have "sets_back state \<or> \<not> over f" using update_mutator_keeps(4) [OF s(1)] prepare_save_facts(3) [OF s(2)] g(2) by simp
    with upd show ?thesis by (auto simp: unfinished_iff)
  next
    case (status e f)
    then obtain body where "prepare_save e f (Some f) = Inr (g, body)" by (auto simp: saved_after_def)
    from prepare_save_facts(3) [OF this] g(2) status show ?thesis by (auto simp: unfinished_iff)
  next
    case (opened e r body)
    then show ?thesis by (cases "fst (open_save e r sid (im_store m))") (simp_all add: after_open_save_def)
  qed
qed

text \<open>
  Every unfinished session is accounted for: it is the active one, it has just been opened, or it is in
  \<open>S\<close>. The holder of the active lock relies on the rest.
\<close>

definition accounted :: "imachine \<Rightarrow> string set \<Rightarrow> bool" where
  "accounted m S \<longleftrightarrow>
    (\<forall>sid. unfinished (im_store m) sid \<longrightarrow> read_active (im_store m) = Some sid \<or> im_holder m = Opened sid \<or> sid \<in> S)
    \<and> (case im_holder m of
         Opening r sid \<Rightarrow> nonblank sid \<and> (\<forall>a. read_active (im_store m) = Some a \<longrightarrow> unfinished (im_store m) a \<longrightarrow> a \<in> S)
       | Opened sid \<Rightarrow> nonblank sid \<and> (\<forall>a. read_active (im_store m) = Some a \<longrightarrow> unfinished (im_store m) a \<longrightarrow> a \<in> S \<or> a = sid)
       | Closing sid \<Rightarrow> unfinished (im_store m) sid \<longrightarrow> sid \<in> S
       | Unheld \<Rightarrow> True)"

lemma accounted_unchanged:
  assumes "accounted m S" and "ids_match (im_store m)" and "im_holder (im_step a m) = im_holder m"
    and "read_active (im_store (im_step a m)) = read_active (im_store m)"
  shows "accounted (im_step a m) (S \<union> set (strays a m))"
proof -
  have "unfinished (im_store m) sid \<or> sid \<in> set (strays a m) \<or> im_holder m = Opened sid"
    if "unfinished (im_store (im_step a m)) sid" for sid
    using unfinished_step [OF assms(2) that] assms(3) by simp
  with assms(1,3,4) show ?thesis unfolding accounted_def by (auto split: lock_holder.splits)
qed

lemma read_active_cong: "is_active w' = is_active w \<Longrightarrow> read_active w' = read_active w"
  by (simp add: read_active_def)

lemma record_active:
  assumes "ids_match w" shows "is_active (snd (record_locked (e :: call_env) sid u w)) = is_active w"
proof (cases "load_session w sid")
  case None
  then show ?thesis by (simp add: record_missing)
next
  case (Some f)
  with assms have "get f ''session_id'' = JStr sid" by (simp add: ids_match_def)
  from record_touches(1) [OF Some this, where e = e and u = u] show ?thesis by (simp add: changes_only_def)
qed

lemma transaction_active:
  assumes "ids_match w" and "\<And>f s. mutator f = Inr s \<Longrightarrow> get s ''session_id'' = get f ''session_id''"
  shows "is_active (snd (session_transaction (e :: call_env) sid mutator w)) = is_active w"
proof (cases "load_session w sid")
  case None
  then show ?thesis by (simp add: transaction_missing)
next
  case (Some f)
  have "get s ''session_id'' = JStr sid" if "mutator f = Inr s" for s
    using assms(2) [OF that] assms(1) Some by (simp add: ids_match_def)
  from transaction_touches [OF Some this, where e = e] show ?thesis by (simp add: changes_only_def)
qed

lemma open_id_nonblank: "open_id e r = Inr sid \<Longrightarrow> nonblank sid"
proof -
  assume "open_id e r = Inr sid"
  then obtain s where s: "sid = py_strip s" "py_strip s \<noteq> []" by (auto simp: open_id_def Let_def split: if_splits)
  let ?r = "dropWhile py_space (rev (dropWhile py_space s))"
  have "?r \<noteq> []" using s(2) by (simp add: py_strip_def)
  then have "\<not> py_space (hd ?r)" "hd ?r \<in> set (py_strip s)" by (simp_all add: hd_dropWhile py_strip_def)
  with s(1) show ?thesis by (auto simp: nonblank_iff)
qed

lemma after_open_inr: "fst x = Inr y \<Longrightarrow> after_open_save sid x = \<lparr>im_store = snd x, im_holder = Opened sid\<rparr>"
  "fst x = Inl err \<Longrightarrow> after_open_save sid x = \<lparr>im_store = snd x, im_holder = Unheld\<rparr>"
  by (simp_all add: after_open_save_def)

lemma accounted_step:
  assumes acc: "accounted m S" and ids: "ids_match (im_store m)"
  shows "accounted (im_step a m) (S \<union> set (strays a m))"
proof -
  note unchanged = accounted_unchanged [OF acc ids, of a]
  note un = unfinished_step [OF ids, of a]
  show ?thesis
  proof (cases a)
    case (SweepStep e sid)
    then show ?thesis by (intro unchanged read_active_cong) (simp_all add: prune_session_load)
  next
    case (ReapStep e limit)
    then show ?thesis by (intro unchanged read_active_cong) (simp_all add: reap_settled_active)
  next
    case (OpenStart e r)
    show ?thesis
    proof (cases "im_holder m = Unheld \<and> open_admitted (im_store m) = None \<and> (\<exists>sid. open_id e r = Inr sid)")
      case True
      then obtain sid where sid: "open_id e r = Inr sid" "im_holder m = Unheld" "open_admitted (im_store m) = None" by blast
      have "\<not> unfinished (im_store m) b" if "read_active (im_store m) = Some b" for b
        using sid(3) that by (auto simp: open_admitted_def unfinished_def dest: state_in_over split: option.splits if_splits)
      with acc sid show ?thesis by (auto simp: OpenStart accounted_def open_id_nonblank)
    next
      case False
      then have "im_step a m = m" by (auto simp: OpenStart split: lock_holder.splits sum.splits option.splits)
      with acc show ?thesis by (simp add: OpenStart)
    qed
  next
    case (OpenSaveStep e)
    show ?thesis
    proof (cases "im_holder m")
      case (Opening r sid)
      let ?x = "open_save e r sid (im_store m)"
      have act: "read_active (snd ?x) = read_active (im_store m)"
        using open_save_touches(1) [of "im_store m" e r sid] by (intro read_active_cong) (simp add: changes_only_def)
      have step: "im_step a m = after_open_save sid ?x" by (simp add: OpenSaveStep Opening)
      show ?thesis
      proof (cases "fst ?x")
        case (Inl err)
        have un': "unfinished (im_store m) k \<or> k \<in> set (strays a m)" if "unfinished (snd ?x) k" for k
          using un [of k] that by (simp add: step after_open_inr(2) [OF Inl])
        have "accounted \<lparr>im_store = snd ?x, im_holder = Unheld\<rparr> (S \<union> set (strays a m))"
          using acc un' by (auto simp: accounted_def act Opening)
        then show ?thesis by (simp add: step after_open_inr(2) [OF Inl])
      next
        case (Inr saved)
        have un': "unfinished (im_store m) k \<or> k \<in> set (strays a m) \<or> k = sid" if "unfinished (snd ?x) k" for k
          using un [of k] that by (auto simp: step after_open_inr(1) [OF Inr])
        have "accounted \<lparr>im_store = snd ?x, im_holder = Opened sid\<rparr> (S \<union> set (strays a m))"
          using acc un' by (auto simp: accounted_def act Opening)
        then show ?thesis by (simp add: step after_open_inr(1) [OF Inr])
      qed
    qed (use acc in \<open>simp_all add: OpenSaveStep\<close>)
  next
    case (OpenPoint pointer)
    show ?thesis
    proof (cases "im_holder m")
      case (Opened sid)
      have same: "unfinished (im_store (im_step a m)) k = unfinished (im_store m) k" for k
        by (simp add: OpenPoint Opened unfinished_def write_active_load)
      have holder: "im_holder (im_step a m) = Unheld" by (simp add: OpenPoint Opened)
      show ?thesis
      proof (cases "fst (write_result pointer)")
        case True
        have "read_active (im_store (im_step a m)) = Some sid"
          using acc True by (simp add: OpenPoint Opened write_active_def read_active_def accounted_def)
        with acc show ?thesis by (auto simp: accounted_def same holder Opened)
      next
        case False
        have "read_active (im_store (im_step a m)) = read_active (im_store m)" "sid \<in> set (strays a m)"
          using False by (simp_all add: OpenPoint Opened write_active_def)
        with acc show ?thesis by (auto simp: accounted_def same holder Opened)
      qed
    qed (use acc in \<open>simp_all add: OpenPoint\<close>)
  next
    case (RecordStep e sid u)
    then show ?thesis by (intro unchanged read_active_cong) (simp_all add: record_active [OF ids])
  next
    case (CloseStart e sid u)
    show ?thesis
    proof (cases "u_command u = ''close'' \<and> im_holder m = Unheld")
      case True
      let ?x = "record_locked e sid u (im_store m)"
      have step: "im_step a m = after_close_save sid ?x" using True by (simp add: CloseStart)
      have un': "unfinished (im_store m) k \<or> k \<in> set (strays a m)" if "unfinished (snd ?x) k" for k
        using un [of k] that by (auto simp: step after_close_save_def split: sum.splits)
      have act: "read_active (snd ?x) = read_active (im_store m)"
        by (rule read_active_cong) (rule record_active [OF ids])
      show ?thesis
      proof (cases "fst ?x")
        case (Inl err)
        with acc un' True show ?thesis by (auto simp: step after_close_save_def accounted_def act)
      next
        case (Inr g)
        obtain f where f: "session_at m sid = Some f" using Inr by (cases "session_at m sid") (simp_all add: record_missing)
        with ids have "get f ''session_id'' = JStr sid" by (simp add: ids_match_def)
        from record_touches(2) [OF f this Inr] have "load_session (snd ?x) sid = Some g" "recorded e u f g" by simp_all
        with recorded_over [of e u f g] True have closing: "unfinished (snd ?x) sid \<longrightarrow> sid \<in> set (strays a m)"
          by (auto simp: unfinished_iff CloseStart)
        with acc un' True Inr show ?thesis by (auto simp: step after_close_save_def accounted_def act)
      qed
    qed (use acc in \<open>auto simp: CloseStart accounted_def split: lock_holder.splits\<close>)
  next
    case (ClosePoint pointer)
    show ?thesis
    proof (cases "im_holder m")
      case (Closing sid)
      have same: "unfinished (im_store (im_step a m)) k = unfinished (im_store m) k" for k
        by (simp add: ClosePoint Closing unfinished_def clear_active_load)
      have "read_active (im_store (im_step a m)) = read_active (im_store m) \<or> read_active (im_store m) = Some sid"
        by (simp add: ClosePoint Closing clear_active_def)
      with acc show ?thesis by (auto simp: accounted_def same Closing) (auto simp: ClosePoint Closing)
    qed (use acc in \<open>simp_all add: ClosePoint\<close>)
  next
    case (UpdateStep e sid live target metadata artifacts state)
    then show ?thesis
      by (intro unchanged read_active_cong) (simp_all add: transaction_active [OF ids update_mutator_keeps(1)])
  next
    case (StatusStep e sid)
    have "is_active (snd (session_transaction e sid Inr (im_store m))) = is_active (im_store m)"
      by (rule transaction_active [OF ids]) simp
    with StatusStep show ?thesis by (intro unchanged read_active_cong) simp_all
  next
    case HolderDies
    with acc show ?thesis by (auto simp: accounted_def split: lock_holder.splits)
  qed
qed

lemma accounted_run:
  "accounted m S \<Longrightarrow> ids_match (im_store m) \<Longrightarrow> accounted (fold im_step acts m) (S \<union> set (strays_from m acts))"
proof (induction acts arbitrary: m S)
  case (Cons a acts)
  from Cons.IH [OF accounted_step [OF Cons.prems] step_ids_match [OF Cons.prems(2)]] show ?case by (simp add: Un_assoc)
qed simp


section \<open>A run\<close>

text \<open>An environment in which nothing fails, and one process that opens a session and records a command.\<close>

definition sample_env :: call_env where
  "sample_env =
    \<lparr>ellipsis = CHR ''.'', shown = (\<lambda>_. ''?''), repr_of = (\<lambda>_. ''?''), sha256_hex = (\<lambda>_. ''0''),
     encode_line = (\<lambda>_. ''{}''), sha256_bytes = (\<lambda>_. ''0''),
     t_recorded = ''10'', t_popup = ''11'', t_failure = ''12'', t_closed = ''13'', t_saved = ''14'',
     runtime_status = [], observation_status = Some [], popup_module_name = JNull, popup_module_dll = JNull,
     is_file = (\<lambda>_. True), latest_frame = ''frame.png'', latest_frame_metadata = ''frame.json'', suffix_of = (\<lambda>_. ''.png''),
     copied_frame = (\<lambda>_. Some (1, ''0'')), frame_metadata = (\<lambda>_. Some JNull), canonical_sha = (\<lambda>_. Some ''0''),
     millis = (\<lambda>d. d), fromiso = py_int, toiso = str_int, api_base_url = [], path_in_session = (\<lambda>sid parts. py_join ''/'' (sid # parts)),
     uuid_hex = ''ab'', retention_days = 7, state_bytes = (\<lambda>_. 0),
     evidence_write = WriteDone, state_write = WriteDone, status_write = WriteDone, event_torn = None, event_fails = False\<rparr>"

definition sample_request :: open_request where
  "sample_request =
    \<lparr>o_source_path = ''a'', o_source_filename = ''a'', o_file_size = 1, o_content_type = None, o_label = None,
     o_metadata = Some [(''local_cli_v1'', JObj [(''opened_via'', JStr ''cli'')])], o_session_id = Some ''s''\<rparr>"

definition plain_update :: "string \<Rightarrow> command_update" where
  "plain_update command =
    \<lparr>u_command = command, u_state = ''succeeded'', u_summary = None, u_payload = None, u_find = None, u_choose = None,
     u_selected = None, u_target = None, u_preparation = None, u_lock = None, u_verify_stage = None, u_verify_result = None,
     u_apply = None, u_undo = None, u_popup = None, u_failure = JNull, u_metadata = None, u_live = None, u_artifacts = None,
     u_session_state = None\<rparr>"

definition sample_open :: "im_action list" where
  "sample_open = [OpenStart sample_env sample_request, OpenSaveStep sample_env, OpenPoint WriteDone]"

definition sample_find :: "im_action list" where
  "sample_find = [RecordStep sample_env ''s'' (plain_update ''find'')]"

lemma save_succeeds:
  assumes "prepare_save e s current = Inr (g, body)" and "has g ''session_id''" and "state_bytes e g \<le> 4194304"
    and "state_write e = WriteDone" and "status_write e = WriteDone"
  shows "fst (save_session_locked e s current w) = Inr g"
  using assms by (simp add: save_session_locked_def resolved_id_def write_session_def write_result_def)

lemma open_succeeds:
  assumes "prepare_save e (new_interactive_session e r sid) None = Inr (g, body)" and "state_bytes e g \<le> 4194304"
    and "state_write e = WriteDone" "status_write e = WriteDone" "\<not> event_fails e" "event_torn e = None"
    and "sd_state (dir_of w sid) = NoFile"
  shows "fst (open_save e r sid w) = Inr g"
proof -
  have "get g ''session_id'' = JStr sid" using prepare_save_facts(1) [OF assms(1)] by (simp add: new_session_facts)
  then have "has g ''session_id''" using get_absent by fastforce
  from save_succeeds [OF assms(1) this assms(2-4), of w]
  obtain w1 where "save_session_locked e (new_interactive_session e r sid) None w = (Inr g, w1)" by (metis prod.collapse)
  with assms(5-7) show ?thesis by (simp add: open_save_def append_event_def Let_def)
qed

lemma sample_admitted: "open_id sample_env sample_request = Inr ''s''" "open_admitted empty_store = None"
  by code_simp+

lemma sample_saved:
  "(case prepare_save sample_env (new_interactive_session sample_env sample_request ''s'') None of Inr _ \<Rightarrow> True | Inl _ \<Rightarrow> False)"
  by code_simp

lemma sample_opened:
  obtains f body where "prepare_save sample_env (new_interactive_session sample_env sample_request ''s'') None = Inr (f, body)"
    "session_at (im_run sample_open) ''s'' = Some f" "im_holder (im_run sample_open) = Unheld"
    "read_active (im_store (im_run sample_open)) = Some ''s''" "strays_from im_start sample_open = []"
proof -
  obtain f body where f: "prepare_save sample_env (new_interactive_session sample_env sample_request ''s'') None = Inr (f, body)"
    using sample_saved by (cases "prepare_save sample_env (new_interactive_session sample_env sample_request ''s'') None") auto
  have ok: "fst (open_save sample_env sample_request ''s'' empty_store) = Inr f"
    by (rule open_succeeds [OF f]) (simp_all add: sample_env_def empty_store_def dir_of_def empty_dir_def)
  let ?w = "snd (open_save sample_env sample_request ''s'' empty_store)"
  have run: "im_run sample_open = \<lparr>im_store = ?w\<lparr>is_active := Some ''s''\<rparr>, im_holder = Unheld\<rparr>"
    "strays_from im_start sample_open = []"
    using ok by (simp_all add: im_run_def sample_open_def im_start_def sample_admitted after_open_save_def write_active_def write_result_def)
  have "load_session (?w\<lparr>is_active := Some ''s''\<rparr>) = load_session ?w" by (rule load_cong) simp
  with open_save_touches(2) [OF ok] run
  have "session_at (im_run sample_open) ''s'' = Some f" "read_active (im_store (im_run sample_open)) = Some ''s''"
    by (simp_all add: read_active_def nonblank_iff py_space_def)
  with f run show thesis by (intro that) simp_all
qed

lemma session_moves_forward_witness:
  "\<exists>f g. session_at (im_run sample_open) ''s'' = Some f \<and> origin f ''opened_via'' = JStr ''cli''
     \<and> session_at (im_run (sample_open @ sample_find)) ''s'' = Some g
     \<and> generation_grows f g \<and> origin g ''opened_via'' = JStr ''cli''"
proof -
  obtain f body where f: "prepare_save sample_env (new_interactive_session sample_env sample_request ''s'') None = Inr (f, body)"
      "session_at (im_run sample_open) ''s'' = Some f"
    by (rule sample_opened)
  have "get f ''metadata'' = JObj [(''local_cli_v1'', JObj [(''opened_via'', JStr ''cli'')])]"
    using prepare_save_facts(2) [OF f(1)] by (simp add: new_interactive_session_def get_def Let_def sample_request_def given_def)
  then have o: "origin f ''opened_via'' = JStr ''cli''" by (simp add: origin_def as_obj_def get_def)
  have id: "get f ''session_id'' = JStr ''s''" using prepare_save_facts(1) [OF f(1)] by (simp add: new_session_facts)
  have "im_run (sample_open @ sample_find) =
      (im_run sample_open)\<lparr>im_store := snd (record_locked sample_env ''s'' (plain_update ''find'') (im_store (im_run sample_open)))\<rparr>"
    by (simp add: im_run_append sample_find_def plain_update_def)
  with record_touches(1) [OF f(2) id, of sample_env "plain_update ''find''"]
  obtain g where g: "session_at (im_run (sample_open @ sample_find)) ''s'' = Some g"
    using f(2) by (auto simp: changes_only_def)
  have "session_at (im_run (sample_open @ take n sample_find)) ''s'' \<noteq> None" if "n \<le> length sample_find" for n
    using that f(2) g by (cases "n = 0") (auto simp: sample_find_def)
  then have "\<forall>n \<le> length sample_find. session_at (im_run (sample_open @ take n sample_find)) ''s'' \<noteq> None" by blast
  from session_moves_forward [OF f(2) g this] f(2) g o show ?thesis by (auto simp: immutable_keys_def)
qed


section \<open>Settled sessions\<close>

lemma reap_session_dir: "dir_of (snd (reap_session e sid w)) k = dir_of w k \<or> k = sid"
proof -
  obtain failure central where fc: "keep_expiry_history e sid w = (failure, central)" by force
  show ?thesis
    by (auto simp: reap_session_def fc Let_def set_dir_def dir_of_def split: option.split update_failure.split)
qed

lemma reap_all_dir: "dir_of (snd (reap_all e sids w)) k = dir_of w k \<or> k \<in> set sids"
proof (induction sids arbitrary: w)
  case (Cons sid sids)
  show ?case using reap_session_dir [of e sid w k] Cons [of "snd (reap_session e sid w)"] by (auto split: prod.splits)
qed simp

lemma settled_entry: "(t, sid) \<in> set (settled_sessions e w) \<Longrightarrow>
    \<exists>f. load_session w sid = Some f \<and> is_settled e w sid f \<and> t = settled_anchor e f"
  by (auto simp: settled_sessions_def List.map_filter_def split: option.splits if_splits)

text \<open>Taking all but \<open>n\<close> of a sorted list leaves at least \<open>n\<close> that are not smaller.\<close>

lemma take_sorted_rest:
  assumes "x \<in> set (take (length xs - n) (sort xs))"
  shows "n < length (filter (\<lambda>y. x \<le> y) xs)"
proof -
  let ?ys = "sort xs" and ?k = "length xs - n"
  obtain i where i: "i < length (take ?k ?ys)" "take ?k ?ys ! i = x" using assms by (auto simp: in_set_conv_nth)
  then have less: "i < ?k" "i < length ?ys" by simp_all
  have "\<forall>y \<in> set (drop i ?ys). x \<le> y"
    using sorted_nth_mono [of ?ys i] i less by (auto simp: in_set_conv_nth)
  then have all: "filter (\<lambda>y. x \<le> y) (drop i ?ys) = drop i ?ys" by simp
  have "n < length (drop i ?ys)" using less by simp
  also have "length (drop i ?ys) \<le> length (filter (\<lambda>y. x \<le> y) ?ys)"
    by (subst append_take_drop_id [of i ?ys, symmetric]) (simp del: append_take_drop_id add: all)
  also have "length (filter (\<lambda>y. x \<le> y) ?ys) = length (filter (\<lambda>y. x \<le> y) xs)"
    by (simp add: filter_sort)
  finally show ?thesis .
qed

text \<open>
  C37. The reaper changes a session's directory only if the session is not the active one, has ended, waits
  for no reconciliation and holds no frozen evidence, and only the oldest of these: at least \<open>limit\<close> others
  that ended no earlier are kept.
\<close>
theorem reaper_removes_only_settled:
  "dir_of (snd (reap_settled e limit w)) sid = dir_of w sid
   \<or> (\<exists>f. load_session w sid = Some f \<and> read_active w \<noteq> Some sid \<and> session_over e f \<and> \<not> has_reconcilable_runtime e f
        \<and> (sd_evidence (dir_of w sid) = None \<or> sd_evidence (dir_of w sid) = Some []) \<and> 0 \<le> limit
        \<and> nat limit < length (filter (\<lambda>x. (settled_anchor e f, sid) \<le> x) (settled_sessions e w)))"
proof (cases "sid \<in> set (excess_sessions e limit w) \<and> 0 \<le> limit")
  case True
  let ?s = "settled_sessions e w"
  from True obtain t where t: "(t, sid) \<in> set (take (length ?s - nat limit) (sort ?s))"
    by (auto simp: excess_sessions_def Let_def id_def)
  then have "(t, sid) \<in> set ?s" by (metis in_set_takeD set_sort)
  from settled_entry [OF this] obtain f where f: "load_session w sid = Some f" "is_settled e w sid f" "t = settled_anchor e f"
    by blast
  with take_sorted_rest [OF t] True show ?thesis by (auto simp: is_settled_def split: option.splits)
next
  case False
  then have "dir_of (snd (reap_settled e limit w)) sid = dir_of w sid"
    using reap_all_dir [of e "excess_sessions e limit w" w sid] by (auto simp: reap_settled_def)
  then show ?thesis by simp
qed

text \<open>
  A damaged central ledger is not only kept from being extended: the reaper raises at it, leaves everything
  as it was, and so the next open raises again.
\<close>

lemma damaged_ledger_stops_the_reaper:
  assumes "is_central w = BadFile" and "excess_sessions e limit w = sid # sids" and "0 \<le> limit"
    and "sd_ledger (dir_of w sid) \<noteq> NoFile" and "load_retention_ledger (dir_of w sid) \<noteq> []"
  shows "reap_settled e limit w = (Some OtherRaise, w)"
proof -
  have "keep_expiry_history e sid w = (Some Damaged, BadFile)"
    using assms by (simp add: keep_expiry_history_def update_file_def Let_def)
  moreover have "w\<lparr>is_central := BadFile\<rparr> = w" using assms(1) by (cases w) simp
  ultimately show ?thesis using assms(2,3) by (simp add: reap_settled_def reap_session_def Let_def)
qed

lemma damaged_ledger_stops_opening:
  assumes "prune_expired e w = (None, w)" and "is_central w = BadFile" and "excess_sessions e 100 w = sid # sids"
    and "sd_ledger (dir_of w sid) \<noteq> NoFile" and "load_retention_ledger (dir_of w sid) \<noteq> []"
  shows "open_interactive e pointer r w = (Inl OtherRaise, w)"
  using damaged_ledger_stops_the_reaper [OF assms(2,3) _ assms(4,5)] by (simp add: open_interactive_def assms(1))

section \<open>Recorded whole or not at all\<close>

lemma record_history_get: "get (record_history e u f) ''command_history'' =
    JList (last_items 100 (as_list (get f ''command_history'') @ [JObj (history_entry e u)]))"
  by (simp add: record_history_def)

lemma recorded_history:
  assumes "recorded e u f g"
  shows "get g ''command_history'' = JList (last_items 100 (as_list (get f ''command_history'') @ [JObj (history_entry e u)]))"
proof -
  from assms obtain s made body where s: "apply_command e u f = (Inr s, made)" "prepare_save e s (Some s) = Inr (g, body)"
    by (auto simp: recorded_def)
  then obtain s1 s2 s3 where r: "record_results u f = Inr s1" "record_verify e u (record_popup e u s1) = (Inr s2, made)"
      "record_outcome e u s2 = Inr s3" "s = record_history e u s3"
    by (auto simp: apply_command_def split: sum.splits prod.splits)
  have "get s3 ''command_history'' = get f ''command_history''"
    using record_results_keeps(1) [OF r(1)] record_verify_keeps [OF r(2)] record_outcome_keeps(1) [OF r(3)]
    by (simp add: result_keys_def)
  with prepare_save_facts(4) [OF s(2)] show ?thesis by (simp add: r(4) record_history_get)
qed


section \<open>Trusted evidence\<close>

lemma timing_relation:
  "resolve_verify_capture_timing ms r c = (Some a, relation) \<Longrightarrow> 0 \<le> a \<Longrightarrow> relation \<noteq> ''captured_after_verify_step''"
  by (auto simp: resolve_verify_capture_timing_def Let_def split: option.splits if_splits)

lemma bound_trust:
  assumes "bind_frozen e session sid step_name result gui urls ff = Bound enriched artifacts saved"
    and "resolve_verify_capture_timing (millis e) (parse_iso_datetime e (JStr (t_recorded e)))
      (parse_iso_datetime e (get (as_obj (get gui ''frame'')) ''captured_at'')) = (age, relation)"
  shows "get (as_obj (get (as_obj (get enriched ''gui'')) ''trust_policy'')) ''state'' =
    JStr (evidence_trust (ff_path ff \<noteq> None) (fst (evidence_freshness age relation 5000 30000)))"
proof -
  obtain binding policy where b: "build_verify_step_binding (texts e) step_name (t_recorded e)
      (get (as_obj (get gui ''frame'')) ''captured_at'') (ff_source ff) (ff_metadata_source ff)
      (get (as_obj (get gui ''observation_status'')) ''observation_status'')
      (get (as_obj (get gui ''observation_status'')) ''reason_code'') (ff_path ff \<noteq> None) age relation 5000 30000 = (binding, policy)"
    by force
  then have policy: "policy = build_verify_evidence_policy age relation (ff_path ff \<noteq> None) 5000 30000"
    by (simp add: build_verify_step_binding_def Let_def)
  from assms(1) obtain arts img frm where
    "enriched = put ''gui'' (JObj (bound_gui e urls ff binding policy arts img frm
        (as_obj (get gui ''viewer'')) (as_obj (get gui ''observation_status'')) gui)) result"
    unfolding bind_frozen_def Let_def assms(2) prod.case b by (auto split: option.splits if_splits)
  then have "get (as_obj (get (as_obj (get enriched ''gui'')) ''trust_policy'')) ''state'' =
      get (as_obj (get policy ''trust'')) ''state''"
    by (simp add: bound_gui_def as_obj_def)
  then show ?thesis by (simp add: policy policy_trust)
qed


end
