(* ===== verification/HistoryProps.thy ===== *)
theory HistoryProps
  imports HistoryText
begin

text \<open>
  What reaches the durable history: no local path is left by the redaction, every value is bounded in
  depth, breadth and length, and a payload leaves only scalars, redacted texts under the allowed names,
  and digests.
\<close>

section \<open>\<open>re.sub\<close> leaves no match\<close>

text \<open>No match of \<open>m\<close> anywhere in the text, \<open>prev\<close> being the character before it.\<close>

fun unmatched :: "matcher \<Rightarrow> char option \<Rightarrow> string \<Rightarrow> bool" where
  "unmatched m prev [] = True"
| "unmatched m prev (c # s) \<longleftrightarrow> m prev (c # s) = 0 \<and> unmatched m (Some c) s"

lemma re_sub_unmatched: "unmatched m prev s \<Longrightarrow> re_sub m repl prev s = s"
  by (induction m prev s rule: unmatched.induct) simp_all

lemma re_sub_copied [simp]: "m prev (c # s) = 0 \<Longrightarrow> re_sub m repl prev (c # s) = c # re_sub m repl (Some c) s"
  by simp

lemma re_sub_replaced:
  "m prev (c # s) \<noteq> 0 \<Longrightarrow> re_sub m repl prev (c # s) =
    repl (take (m prev (c # s)) (c # s))
      @ re_sub m repl (Some (last (take (m prev (c # s)) (c # s)))) (drop (m prev (c # s)) (c # s))"
  by (simp add: Let_def)

declare re_sub.simps(2) [simp del]

section \<open>Local paths\<close>

abbreviation path_gone :: "char option \<Rightarrow> string \<Rightarrow> string" where
  "path_gone \<equiv> re_sub path_match (\<lambda>_. ''<redacted-path>'')"

lemma not_path_chars [simp]: "\<not> path_char CHR ''<''" "\<not> path_char CHR ''>''"
  by (simp_all add: path_char_def)

lemma path_match_guard: "\<not> before_path prev \<Longrightarrow> path_match prev s = 0"
  by (simp add: path_match_def Let_def)

lemma path_match_prev: "path_match p s = 0 \<Longrightarrow> before_path p \<Longrightarrow> path_match q s = 0"
  by (simp add: path_match_def Let_def split: if_splits)

text \<open>A match begins at a letter or a slash and ends where the rest does not begin with a path character.\<close>

lemma path_match_head: "path_match prev (c # s) \<noteq> 0 \<Longrightarrow> is_ascii_letter c \<or> c = CHR ''/''"
  by (auto simp: path_match_def path_start_def Let_def split: if_splits)

lemma path_match_end:
  assumes "path_match prev s \<noteq> 0" and "drop (path_match prev s) s = c # t"
  shows "\<not> path_char c"
proof -
  define n where "n = path_start s"
  from assms(1) have m: "path_match prev s = n + length (takeWhile path_char (drop n s))"
    by (auto simp: path_match_def n_def Let_def split: if_splits)
  have "drop (path_match prev s) s = dropWhile path_char (drop n s)"
    unfolding m by (metis add.commute drop_drop dropWhile_eq_drop)
  with assms(2) have "dropWhile path_char (drop n s) = c # t" by simp
  then show ?thesis by (metis hd_dropWhile list.distinct(1) list.sel(1))
qed

lemma path_char_starts: "is_ascii_letter c \<Longrightarrow> path_char c" "path_char CHR ''/''" "path_char CHR '':''"
  by (auto simp: path_char_def is_ascii_letter_def is_ascii_upper_def py_space_def)

text \<open>The first character of the text is copied or the replacement begins.\<close>

lemma path_gone_head:
  "path_gone prev s = [] \<longleftrightarrow> s = []"
  "path_gone prev (c # s) = d # t \<Longrightarrow> d = CHR ''<'' \<or> d = c \<and> path_match prev (c # s) = 0 \<and> t = path_gone (Some c) s"
proof -
  show "path_gone prev s = [] \<longleftrightarrow> s = []"
    by (cases s; cases "path_match prev s = 0") (auto simp: re_sub_replaced)
  show "path_gone prev (c # s) = d # t \<Longrightarrow> d = CHR ''<'' \<or> d = c \<and> path_match prev (c # s) = 0 \<and> t = path_gone (Some c) s"
    by (cases "path_match prev (c # s) = 0") (auto simp: re_sub_replaced)
qed

text \<open>What the text did not begin with, the redacted text does not begin with.\<close>

lemma head_class: "path_gone prev s = d # t \<Longrightarrow> d \<noteq> CHR ''<'' \<Longrightarrow> \<exists>u. s = d # u \<and> t = path_gone (Some d) u"
  by (cases s) (auto dest: path_gone_head(2))

lemma takeWhile_gone: "takeWhile path_char (path_gone prev s) \<noteq> [] \<Longrightarrow> takeWhile path_char s \<noteq> []"
  by (cases "path_gone prev s") (auto dest!: head_class split: if_splits)

lemma path_start_gone:
  assumes "path_start (c # path_gone (Some c) s) \<noteq> 0" "path_match prev (c # s) = 0" "before_path prev"
  shows "takeWhile path_char (drop (path_start (c # path_gone (Some c) s)) (c # path_gone (Some c) s)) = []"
proof (cases "is_ascii_letter c")
  case True
  with assms(1) obtain d t where out: "path_gone (Some c) s = CHR '':'' # d # t" "d = CHR 0x5C \<or> d = CHR ''/''"
    by (auto simp: path_start_def split: list.splits if_splits)
  then obtain u where u: "s = CHR '':'' # u" "d # t = path_gone (Some CHR '':'') u" by (auto dest: head_class)
  from u(2) [symmetric] out(2) obtain v where v: "u = d # v" "t = path_gone (Some d) v" by (auto dest: head_class)
  have "path_start (c # s) = 3" using True u v out(2) by (simp add: path_start_def)
  with assms(3) u v have "path_match prev (c # s) = (if takeWhile path_char v = [] then 0 else 3 + length (takeWhile path_char v))"
    by (simp add: path_match_def numeral_3_eq_3)
  with assms(2) have "takeWhile path_char v = []" by (simp split: if_splits)
  then have "takeWhile path_char t = []" using takeWhile_gone v(2) by blast
  with True out show ?thesis by (auto simp: path_start_def)
next
  case False
  with assms(1) have c: "c = CHR ''/''" and ns: "\<not> starts_with ''/'' (path_gone (Some c) s)"
    by (auto simp: path_start_def split: if_splits)
  have start: "path_start (c # path_gone (Some c) s) = 1" using False c ns by (simp add: path_start_def)
  have "takeWhile path_char (path_gone (Some c) s) = []"
  proof (cases "starts_with ''/'' s")
    case True
    then obtain t where "s = CHR ''/'' # t" by (auto simp: starts_with_prefix)
    moreover have "path_match (Some c) s = 0" using c by (intro path_match_guard) (simp add: before_path_def prev_in_def)
    ultimately have "path_gone (Some c) s = CHR ''/'' # path_gone (Some CHR ''/'') t" by simp
    with ns show ?thesis by simp
  next
    case no: False
    with False c have "path_start (c # s) = 1" by (simp add: path_start_def)
    with assms(3) have "path_match prev (c # s) = (if takeWhile path_char s = [] then 0 else 1 + length (takeWhile path_char s))"
      by (simp add: path_match_def)
    with assms(2) have "takeWhile path_char s = []" by (simp split: if_splits)
    then show ?thesis using takeWhile_gone by blast
  qed
  with start show ?thesis by simp
qed

lemma copied_unmatched:
  assumes "path_match prev (c # s) = 0" "before_path prev"
  shows "path_match q (c # path_gone (Some c) s) = 0"
proof (cases "path_start (c # path_gone (Some c) s) = 0")
  case False
  from path_start_gone [OF False assms] show ?thesis by (simp add: path_match_def Let_def)
qed (simp add: path_match_def)

lemma no_path_start: "c \<noteq> CHR ''/'' \<Longrightarrow> (case s of [] \<Rightarrow> True | d # _ \<Rightarrow> d \<noteq> CHR '':'') \<Longrightarrow> path_match prev (c # s) = 0"
  by (auto simp: path_match_def path_start_def Let_def split: list.splits)

lemma no_path_at_end [simp]: "path_match prev (CHR ''>'' # s) = 0"
  by (simp add: path_match_def path_start_def is_ascii_letter_def is_ascii_upper_def)

lemma replacement_unmatched:
  assumes "unmatched path_match (Some CHR ''>'') t"
  shows "unmatched path_match q (''<redacted-path>'' @ t)"
  using assms by (simp add: no_path_start)

lemma path_gone_unmatched:
  "q = p \<or> (case s of [] \<Rightarrow> True | c # _ \<Rightarrow> \<not> path_char c) \<Longrightarrow> unmatched path_match q (path_gone p s)"
proof (induction s arbitrary: p q rule: length_induct)
  case (1 s)
  show ?case
  proof (cases s)
    case (Cons c t)
    show ?thesis
    proof (cases "path_match p s = 0")
      case True
      have head: "path_match q (c # path_gone (Some c) t) = 0"
      proof (cases "q = p \<and> \<not> before_path p")
        case True
        then show ?thesis by (simp add: path_match_guard)
      next
        case False
        show ?thesis
        proof (cases "before_path p")
          case bp: True
          from copied_unmatched [of p c t q] bp \<open>path_match p s = 0\<close> Cons show ?thesis by simp
        next
          case False
          with \<open>\<not> (q = p \<and> \<not> before_path p)\<close> "1.prems" Cons have "\<not> path_char c" by auto
          then show ?thesis using path_match_head path_char_starts by blast
        qed
      qed
      moreover have "unmatched path_match (Some c) (path_gone (Some c) t)" using "1.IH" Cons by simp
      ultimately show ?thesis using True Cons by simp
    next
      case False
      let ?n = "path_match p s"
      have "unmatched path_match (Some CHR ''>'') (path_gone (Some (last (take ?n s))) (drop ?n s))"
        using "1.IH" path_match_end [OF False] False Cons by (auto split: list.splits)
      then have "unmatched path_match q (''<redacted-path>'' @ path_gone (Some (last (take ?n s))) (drop ?n s))"
        by (rule replacement_unmatched)
      moreover from False Cons have "path_gone p s = ''<redacted-path>'' @ path_gone (Some (last (take ?n s))) (drop ?n s)"
        by (simp only: re_sub_replaced not_False_eq_True)
      ultimately show ?thesis by simp
    qed
  qed simp
qed


section \<open>Bounds\<close>

text \<open>What a loop of \<open>d[key] = value\<close> leaves: its length, and a property all its items have.\<close>

lemma put_item: "(k, v) \<in> set (put name x kvs) \<Longrightarrow> (k, v) = (name, x) \<or> (k, v) \<in> set kvs"
  by (induction name x kvs rule: put.induct) (auto split: if_splits)

lemma length_put: "length (put name v kvs) \<le> Suc (length kvs)"
  by (induction name v kvs rule: put.induct) auto

lemma items_loop_all:
  assumes "(k, v) \<in> set (items_loop item start kvs)" and "\<And>k v. (k, v) \<in> set start \<Longrightarrow> P k v"
    and "\<And>k v. length k \<le> 2048 \<Longrightarrow> P k (item k v)" and "P ''__truncated__'' (JBool True)"
  shows "P k v"
proof -
  have loop: "P k v" if "(k, v) \<in> set (fold (\<lambda>(k, v). put (take 2048 k) (item (take 2048 k) v)) xs ys)"
    and "\<And>k v. (k, v) \<in> set ys \<Longrightarrow> P k v" for k v xs ys
    using that
  proof (induction xs arbitrary: ys)
    case (Cons ab xs)
    obtain a b where ab: "ab = (a, b)" by force
    have "P k v" if "(k, v) \<in> set (put (take 2048 a) (item (take 2048 a) b) ys)" for k v
      using put_item [OF that] Cons.prems(2) [of k v] assms(3) [of "take 2048 a" b] by auto
    with Cons.IH [OF _ this] Cons.prems(1) show ?case by (simp add: ab)
  qed simp
  show ?thesis
  proof (cases "length kvs > 100")
    case True
    with assms(1) have "(k, v) = (''__truncated__'', JBool True)
        \<or> (k, v) \<in> set (fold (\<lambda>(k, v). put (take 2048 k) (item (take 2048 k) v)) (take 100 kvs) start)"
      by (intro put_item) (simp add: items_loop_def Let_def)
    with loop [OF _ assms(2)] assms(4) show ?thesis by blast
  next
    case False
    with assms(1) loop [OF _ assms(2)] show ?thesis by (simp add: items_loop_def Let_def)
  qed
qed

lemma items_loop_length: "length (items_loop item start kvs) \<le> length start + 101"
proof -
  have loop: "length (fold (\<lambda>(k, v). put (take 2048 k) (item (take 2048 k) v)) xs ys) \<le> length ys + length xs" for xs ys
  proof (induction xs arbitrary: ys)
    case (Cons ab xs)
    obtain a b where ab: "ab = (a, b)" by force
    have "length (put (take 2048 a) (item (take 2048 a) b) ys) \<le> Suc (length ys)" by (rule length_put)
    with Cons [of "put (take 2048 a) (item (take 2048 a) b) ys"] show ?case by (simp add: ab)
  qed simp
  define kept where "kept = fold (\<lambda>(k, v). put (take 2048 k) (item (take 2048 k) v)) (take 100 kvs) start"
  have "length kept \<le> length start + 100" using loop [where xs = "take 100 kvs" and ys = start] by (simp add: kept_def)
  moreover have "length (put ''__truncated__'' (JBool True) kept) \<le> Suc (length kept)" by (rule length_put)
  moreover have "items_loop item start kvs = (if length kvs > 100 then put ''__truncated__'' (JBool True) kept else kept)"
    by (simp only: items_loop_def Let_def kept_def py_prefix_numeral longer_numeral)
  ultimately show ?thesis by (simp split: if_splits)
qed

lemma sanitized_length: "length (sanitize_history_text e s) \<le> 2049"
  by (simp add: sanitize_history_text_def Let_def)

text \<open>At most \<open>d\<close> levels of lists and objects, 101 items in each, 2049 characters in each text.\<close>

primrec fits :: "nat \<Rightarrow> json \<Rightarrow> bool" where
  "fits 0 v = (case v of JList _ \<Rightarrow> False | JObj _ \<Rightarrow> False | JStr s \<Rightarrow> length s \<le> 2049 | _ \<Rightarrow> True)"
| "fits (Suc d) v =
    (case v of
       JList xs \<Rightarrow> length xs \<le> 101 \<and> list_all (fits d) xs
     | JObj kvs \<Rightarrow> length kvs \<le> 101 \<and> list_all (\<lambda>(k, w). length k \<le> 2048 \<and> fits d w) kvs
     | JStr s \<Rightarrow> length s \<le> 2049
     | _ \<Rightarrow> True)"

lemma fits_text [simp]: "fits d (JStr s) = (length s \<le> 2049)" "fits d (JBool b)"
  by (cases d; simp)+

lemma bounded_items_fit:
  assumes "\<And>v. fits d (f v)"
  shows "length (bounded_items f kvs) \<le> 101"
    and "(k, v) \<in> set (bounded_items f kvs) \<Longrightarrow> length k \<le> 2048 \<and> fits d v"
proof -
  show "length (bounded_items f kvs) \<le> 101"
    using items_loop_length [where start = "[]" and kvs = kvs] by (simp add: bounded_items_def)
  assume "(k, v) \<in> set (bounded_items f kvs)"
  from this [unfolded bounded_items_def] show "length k \<le> 2048 \<and> fits d v"
    by (rule items_loop_all) (simp_all add: assms)
qed

lemma bounded_at_fits: "fits d (bounded_at d e v)"
proof (induction d arbitrary: v)
  case (Suc d)
  show ?case
  proof (cases v)
    case (JList xs)
    then show ?thesis by (auto simp: list_all_iff Suc)
  next
    case (JObj kvs)
    with bounded_items_fit [of d "bounded_at d e", OF Suc] show ?thesis by (auto simp: list_all_iff)
  next
    case (JStr s)
    then show ?thesis using sanitized_length [of e s] by simp
  qed simp_all
qed simp

section \<open>Payloads\<close>

definition marker_reasons :: "string list" where
  "marker_reasons =
    [''payload_not_mapping'', ''sensitive_field'', ''not_allowlisted'', ''string_field_not_allowlisted'', ''non_scalar_field'']"

definition storable :: "text_env \<Rightarrow> string \<Rightarrow> json \<Rightarrow> bool" where
  "storable e k v \<longleftrightarrow>
    (is_scalar v \<and> (k \<in> set safe_history_keys \<or> k = ''__truncated__''))
    \<or> (\<exists>s. v = JStr (sanitize_history_text e s) \<and> k \<in> set safe_string_keys)
    \<or> (\<exists>w reason. v = opaque_history_marker e w reason \<and> reason \<in> set marker_reasons)"

lemma storable_marker: "reason \<in> set marker_reasons \<Longrightarrow> storable e k (opaque_history_marker e w reason)"
  by (auto simp: storable_def)

lemma history_item_storable: "storable e k (history_item e k v)"
proof (cases "k \<in> set safe_history_keys")
  case False
  then show ?thesis by (simp add: history_item_def storable_marker marker_reasons_def)
next
  case safe: True
  show ?thesis
  proof (cases v)
    case (JStr s)
    show ?thesis
    proof (cases "k \<in> set safe_string_keys")
      case True
      with safe JStr have "history_item e k v = JStr (sanitize_history_text e s)" by (simp add: history_item_def)
      with True show ?thesis unfolding storable_def by blast
    next
      case False
      with safe JStr show ?thesis by (simp add: history_item_def storable_marker marker_reasons_def)
    qed
  qed (use safe in \<open>simp_all add: history_item_def is_scalar_def storable_marker marker_reasons_def,
        simp_all add: storable_def is_scalar_def\<close>)
qed


end
