(* ===== verification/HwpmlSignature.thy ===== *)
theory HwpmlSignature
  imports Xml
begin

text \<open>
  The canonical form of an HWPML element (app/hwpml_invariants.py, \<open>attrs\<close> and \<open>signature\<close>): a
  text over the whole subtree that the exact verifiers compare for equality. The attribute names
  a caller ignores are an association list from tags, the omitted children a list of tags; the
  cache of the code only remembers earlier results and is left out. The lemmas show that the text
  is unambiguous: two elements have the same signature exactly when they are the same element up to
  the order of their attributes, the ignored attributes, the omitted children and their own tail.
\<close>

section \<open>Attributes and signatures\<close>

type_synonym ignoring = "(string \<times> string list) list"

definition volatile :: "string \<Rightarrow> string list" where
  "volatile t = ''InstId'' # (if t = ''AUTONUM'' then [''Number''] else [])"

definition ignored :: "ignoring \<Rightarrow> string \<Rightarrow> string list" where
  "ignored ig t = (case map_of ig t of None \<Rightarrow> [] | Some names \<Rightarrow> names)"

definition attrs :: "ignoring \<Rightarrow> xml \<Rightarrow> (string \<times> string) list" where
  "attrs ig e = sort (filter (\<lambda>(k, v). k \<notin> set (volatile (tag e) @ ignored ig (tag e))) (attrib e))"

definition attr_text :: "string \<times> string \<Rightarrow> string" where
  "attr_text kv = '' '' @ fst kv @ ''='' @ py_repr (snd kv)"

fun signature :: "ignoring \<Rightarrow> string list \<Rightarrow> xml \<Rightarrow> string" where
  "signature ig om (Elem t a x cs z) =
    ''<'' @ t @ concat (map attr_text (attrs ig (Elem t a x cs z))) @ ''>'' @ py_repr x
      @ concat (map (\<lambda>c. signature ig om c @ ''~'' @ py_repr (tail c)) (filter (\<lambda>c. tag c \<notin> set om) cs))
      @ ''</'' @ t @ ''>''"

section \<open>What a signature is about\<close>

text \<open>The element with its attributes sorted and without what is ignored or omitted.\<close>

fun canon :: "ignoring \<Rightarrow> string list \<Rightarrow> xml \<Rightarrow> xml" where
  "canon ig om (Elem t a x cs z) =
    Elem t (attrs ig (Elem t a x cs z)) x (map (canon ig om) (filter (\<lambda>c. tag c \<notin> set om) cs)) z"

definition content :: "ignoring \<Rightarrow> string list \<Rightarrow> xml \<Rightarrow> xml" where
  "content ig om e = Elem (tag e) (attrs ig e) (xtext e) (children (canon ig om e)) []"

text \<open>Names as an XML parser returns them: no blank, no greater-than sign, no leading slash, no equals sign.\<close>

definition tag_ok :: "string \<Rightarrow> bool" where
  "tag_ok t \<longleftrightarrow> list_all (\<lambda>c. c \<noteq> CHR '' '' \<and> c \<noteq> CHR ''>'') t \<and> t \<noteq> [] \<and> hd t \<noteq> CHR ''/''"

fun well_named :: "xml \<Rightarrow> bool" where
  "well_named (Elem t a x cs z) \<longleftrightarrow>
    tag_ok t \<and> list_all (\<lambda>kv. CHR ''='' \<notin> set (fst kv)) a \<and> list_all well_named cs"

fun unique_attrs :: "xml \<Rightarrow> bool" where
  "unique_attrs (Elem t a x cs z) \<longleftrightarrow> distinct (map fst a) \<and> list_all unique_attrs cs"

definition parsed :: "xml \<Rightarrow> bool" where
  "parsed e \<longleftrightarrow> well_named e \<and> unique_attrs e"

text \<open>The equality the verifiers mean: no printing and no sorting.\<close>

fun alike :: "ignoring \<Rightarrow> string list \<Rightarrow> xml \<Rightarrow> xml \<Rightarrow> bool" where
  "alike ig om (Elem t a x cs z) (Elem t' a' x' cs' z') \<longleftrightarrow>
    t = t' \<and> x = x'
    \<and> {(k, v) \<in> set a. k \<notin> set (volatile t @ ignored ig t)} = {(k, v) \<in> set a'. k \<notin> set (volatile t @ ignored ig t)}
    \<and> list_all2 (\<lambda>c d. alike ig om c d \<and> tail c = tail d)
        (filter (\<lambda>c. tag c \<notin> set om) cs) (filter (\<lambda>c. tag c \<notin> set om) cs')"

section \<open>Printed values can be read back\<close>

lemma hex_digit_inj: "m < 16 \<Longrightarrow> n < 16 \<Longrightarrow> hex_digit m = hex_digit n \<Longrightarrow> m = n"
  by (auto simp: hex_digit_def of_char_eq_iff [symmetric] split: if_splits)

lemma hex_pair_inj:
  assumes "hex_digit (of_char c div 16) = hex_digit (of_char d div 16)"
    and "hex_digit (of_char c mod 16) = hex_digit (of_char d mod 16)"
  shows "c = d"
proof -
  have "(of_char e :: nat) div 16 < 16" for e
    using range_nat_of_char by (fastforce simp: less_mult_imp_div_less)
  then have "(of_char c :: nat) div 16 = of_char d div 16" "(of_char c :: nat) mod 16 = of_char d mod 16"
    using assms by (auto intro: hex_digit_inj)
  then have "(of_char c :: nat) = of_char d" by (metis div_mult_mod_eq)
  then show ?thesis by simp
qed

lemma same_code: "(of_char c :: nat) = n \<Longrightarrow> of_char d = n \<Longrightarrow> c = d"
  by (metis of_char_eq_iff)

lemma repr_char_not_quote:
  assumes "q = CHR 0x27 \<or> q = CHR 0x22"
  shows "\<exists>e r. repr_char q c = e # r \<and> e \<noteq> q"
  using assms by (auto simp: repr_char_def Let_def)

lemma repr_char_inj:
  assumes "q = CHR 0x27 \<or> q = CHR 0x22" and "repr_char q c @ x = repr_char q d @ y"
  shows "c = d \<and> x = y"
  using assms
  by (auto simp: repr_char_def Let_def dest: hex_pair_inj same_code split: if_splits)

lemma repr_body_inj:
  assumes "q = CHR 0x27 \<or> q = CHR 0x22"
  shows "concat (map (repr_char q) s) @ q # r = concat (map (repr_char q) t) @ q # u \<Longrightarrow> s = t \<and> r = u"
proof (induction s arbitrary: t)
  case Nil
  show ?case
  proof (cases t)
    case (Cons d t')
    obtain e x where "repr_char q d = e # x" "e \<noteq> q" using repr_char_not_quote [OF assms] by blast
    with Nil Cons show ?thesis by simp
  qed (use Nil in simp)
next
  case (Cons c s)
  obtain e x where e: "repr_char q c = e # x" "e \<noteq> q" using repr_char_not_quote [OF assms] by blast
  show ?case
  proof (cases t)
    case Nil
    with Cons.prems e show ?thesis by simp
  next
    case (Cons d t')
    with Cons.prems repr_char_inj [OF assms]
    have "c = d" "concat (map (repr_char q) s) @ q # r = concat (map (repr_char q) t') @ q # u"
      by (simp; blast)+
    with Cons.IH Cons show ?thesis by simp
  qed
qed

lemma py_repr_inj: "py_repr s @ r = py_repr t @ u \<Longrightarrow> s = t \<and> r = u"
  by (auto simp: py_repr_def Let_def dest: repr_body_inj [rotated] split: if_splits)

section \<open>A signature determines the element\<close>

fun render :: "xml \<Rightarrow> string" where
  "render (Elem t a x cs z) =
    ''<'' @ t @ concat (map attr_text a) @ ''>'' @ py_repr x
      @ concat (map (\<lambda>c. render c @ ''~'' @ py_repr (tail c)) cs) @ ''</'' @ t @ ''>''"

lemma tail_canon [simp]: "tail (canon ig om e) = tail e"
  by (cases e) simp

lemma signature_canon: "signature ig om e = render (canon ig om e)"
proof (induction ig om e rule: signature.induct)
  case (1 ig om t a x cs z)
  then have "map (\<lambda>c. signature ig om c @ CHR ''~'' # py_repr (tail c)) (filter (\<lambda>c. tag c \<notin> set om) cs) =
      map (\<lambda>c. render (canon ig om c) @ CHR ''~'' # py_repr (tail c)) (filter (\<lambda>c. tag c \<notin> set om) cs)"
    by (intro map_cong) auto
  then show ?case by (simp add: comp_def del: map_eq_conv)
qed

lemma until_unique:
  assumes "list_all P s" and "list_all P t" and "\<not> P c" and "\<not> P d" and "s @ c # r = t @ d # u"
  shows "s = t \<and> c # r = d # u"
proof -
  have "takeWhile P (s @ c # r) = s" "takeWhile P (t @ d # u) = t"
    using assms(1-4) by (simp_all add: list_all_iff takeWhile_append2)
  with assms(5) show ?thesis by auto
qed

lemma attr_texts_inj:
  assumes "list_all (\<lambda>kv. CHR ''='' \<notin> set (fst kv)) a" and "list_all (\<lambda>kv. CHR ''='' \<notin> set (fst kv)) b"
    and "concat (map attr_text a) @ CHR ''>'' # r = concat (map attr_text b) @ CHR ''>'' # u"
  shows "a = b \<and> r = u"
  using assms
proof (induction a arbitrary: b)
  case Nil
  then show ?case by (cases b) (simp_all add: attr_text_def)
next
  case (Cons p a)
  show ?case
  proof (cases b)
    case Nil
    with Cons.prems show ?thesis by (simp add: attr_text_def)
  next
    case (Cons q b')
    let ?R = "concat (map attr_text a) @ CHR ''>'' # r"
    let ?U = "concat (map attr_text b') @ CHR ''>'' # u"
    from Cons Cons.prems(3)
    have "fst p @ CHR ''='' # py_repr (snd p) @ ?R = fst q @ CHR ''='' # py_repr (snd q) @ ?U"
      by (simp add: attr_text_def [of p] attr_text_def [of q])
    then have "fst p = fst q \<and> CHR ''='' # py_repr (snd p) @ ?R = CHR ''='' # py_repr (snd q) @ ?U"
      using Cons Cons.prems(1,2)
      by (intro until_unique [where P = "\<lambda>c. c \<noteq> CHR ''=''"]) (auto simp: list_all_iff)
    then have "p = q" "?R = ?U" by (auto dest: py_repr_inj simp: prod_eq_iff)
    with Cons.IH Cons Cons.prems(1,2) show ?thesis by simp
  qed
qed

definition own_of :: "xml \<Rightarrow> xml" where
  "own_of e = Elem (tag e) (attrib e) (xtext e) (children e) []"

lemma own_of_tail: "own_of e = own_of f \<Longrightarrow> tail e = tail f \<Longrightarrow> e = f"
  by (cases e; cases f) (simp add: own_of_def)

lemma well_named_starts:
  assumes "well_named e"
  shows "\<exists>c s. render e = CHR ''<'' # c # s \<and> c \<noteq> CHR ''/''"
  using assms by (cases e; cases "tag e") (auto simp: tag_ok_def)

lemma render_inj:
  "well_named e \<Longrightarrow> well_named f \<Longrightarrow> render e @ r = render f @ u \<Longrightarrow> own_of e = own_of f \<and> r = u"
proof (induction e arbitrary: f r u)
  case (Elem t a x cs z)
  obtain t' a' x' cs' z' where f: "f = Elem t' a' x' cs' z'" by (cases f)
  let ?kids = "\<lambda>cs. concat (map (\<lambda>c. render c @ ''~'' @ py_repr (tail c)) cs)"
  have kids: "ds = ds' \<and> r = u"
    if "set ds \<subseteq> set cs" "list_all well_named ds'"
      "?kids ds @ ''</'' @ r = ?kids ds' @ ''</'' @ u" for ds ds' r u
    using that
  proof (induction ds arbitrary: ds')
    case Nil
    show ?case
    proof (cases ds')
      case (Cons d ds'')
      with Nil well_named_starts [of d] show ?thesis by auto
    qed (use Nil in simp)
  next
    case (Cons d ds)
    from Cons.prems(1) Elem.prems(1) have d: "d \<in> set cs" "well_named d" by (auto simp: list_all_iff)
    show ?case
    proof (cases ds')
      case Nil
      with Cons.prems d well_named_starts [of d] show ?thesis by auto
    next
      case (Cons d' ds'')
      with Cons.prems have eq: "render d @ ''~'' @ py_repr (tail d) @ ?kids ds @ ''</'' @ r =
          render d' @ ''~'' @ py_repr (tail d') @ ?kids ds'' @ ''</'' @ u"
        and d': "well_named d'" "list_all well_named ds''" by simp_all
      have "own_of d = own_of d'" "py_repr (tail d) @ ?kids ds @ ''</'' @ r = py_repr (tail d') @ ?kids ds'' @ ''</'' @ u"
        using Elem.IH [OF d d'(1) eq] by simp_all
      then have "d = d'" "?kids ds @ ''</'' @ r = ?kids ds'' @ ''</'' @ u"
        by (auto dest: py_repr_inj intro: own_of_tail)
      with Cons.IH [of ds''] Cons.prems(1) d' Cons show ?thesis by simp
    qed
  qed
  let ?texts = "\<lambda>a. concat (map attr_text a)"
  let ?rest = "\<lambda>x cs t r. py_repr x @ ?kids cs @ ''</'' @ t @ ''>'' @ r"
  have starts: "\<exists>c s. ?texts b @ CHR ''>'' # w = c # s \<and> (c = CHR '' '' \<or> c = CHR ''>'')" for b w
    by (cases b) (simp_all add: attr_text_def)
  obtain c s where c: "?texts a @ CHR ''>'' # ?rest x cs t r = c # s" "c = CHR '' '' \<or> c = CHR ''>''"
    using starts by blast
  obtain d v where d: "?texts a' @ CHR ''>'' # ?rest x' cs' t' u = d # v" "d = CHR '' '' \<or> d = CHR ''>''"
    using starts by blast
  have tags: "list_all (\<lambda>c. c \<noteq> CHR '' '' \<and> c \<noteq> CHR ''>'') t" "list_all (\<lambda>c. c \<noteq> CHR '' '' \<and> c \<noteq> CHR ''>'') t'"
    using Elem.prems(1,2) f by (simp_all add: tag_ok_def)
  have "t @ ?texts a @ CHR ''>'' # ?rest x cs t r = t' @ ?texts a' @ CHR ''>'' # ?rest x' cs' t' u"
    using Elem.prems(3) f by simp
  then have "t @ c # s = t' @ d # v" by (simp only: c(1) d(1))
  with until_unique [OF tags] c(2) d(2) have "t = t'" "c # s = d # v" by blast+
  then have "?texts a @ CHR ''>'' # ?rest x cs t r = ?texts a' @ CHR ''>'' # ?rest x' cs' t' u"
    by (intro trans [OF c(1) trans [OF _ d(1) [symmetric]]])
  then have "a = a' \<and> ?rest x cs t r = ?rest x' cs' t' u"
    using Elem.prems(1,2) f by (intro attr_texts_inj) simp_all
  then have "a = a'" "x = x'" "?kids cs @ ''</'' @ t @ ''>'' @ r = ?kids cs' @ ''</'' @ t' @ ''>'' @ u"
    by (auto dest: py_repr_inj)
  moreover from this(3) kids [of cs cs' "t @ ''>'' @ r" "t' @ ''>'' @ u"] Elem.prems(2) f
  have "cs = cs'" "t @ ''>'' @ r = t' @ ''>'' @ u" by simp_all
  ultimately show ?case using \<open>t = t'\<close> f by (simp add: own_of_def)
qed

lemma set_attrs: "set (attrs ig e) \<subseteq> set (attrib e)"
  by (auto simp: attrs_def)

lemma well_named_canon: "well_named e \<Longrightarrow> well_named (canon ig om e)"
  by (induction ig om e rule: canon.induct)
     (use set_attrs in \<open>fastforce simp: list_all_iff\<close>)

lemma content_own: "content ig om e = own_of (canon ig om e)"
  by (cases e) (simp add: content_def own_of_def)

lemma signature_content:
  assumes "well_named e" and "well_named f"
  shows "signature ig om e = signature ig om f \<longleftrightarrow> content ig om e = content ig om f"
proof
  assume "signature ig om e = signature ig om f"
  with render_inj [of "canon ig om e" "canon ig om f" "[]" "[]"] assms
  show "content ig om e = content ig om f" by (simp add: signature_canon content_own well_named_canon)
next
  have "render e = render (own_of e)" for e by (cases e) (simp add: own_of_def)
  then show "content ig om e = content ig om f \<Longrightarrow> signature ig om e = signature ig om f"
    by (metis signature_canon content_own)
qed

lemma parsed_child: "parsed e \<Longrightarrow> c \<in> set (children e) \<Longrightarrow> parsed c"
  by (cases e) (auto simp: parsed_def list_all_iff)

lemma sort_set_eq:
  assumes "distinct (map fst xs)" and "distinct (map fst ys)"
  shows "sort xs = sort (ys :: (string \<times> string) list) \<longleftrightarrow> set xs = set ys"
proof
  assume "set xs = set ys"
  with assms show "sort xs = sort ys"
    by (intro sorted_distinct_set_unique) (simp_all add: distinct_map)
qed (metis set_sort)

lemma map_eq_all2: "map f xs = map f ys \<longleftrightarrow> list_all2 (\<lambda>c d. f c = f d) xs ys"
  by (auto simp: list_eq_iff_nth_eq [of "map f xs"] list_all2_conv_all_nth)

lemma content_alike: "parsed e \<Longrightarrow> parsed f \<Longrightarrow> content ig om e = content ig om f \<longleftrightarrow> alike ig om e f"
proof (induction ig om e f rule: alike.induct)
  case (1 ig om t a x cs z t' a' x' cs' z')
  let ?keep = "filter (\<lambda>c. tag c \<notin> set om)"
  have kids: "map (canon ig om) (?keep cs) = map (canon ig om) (?keep cs') \<longleftrightarrow>
      list_all2 (\<lambda>c d. alike ig om c d \<and> tail c = tail d) (?keep cs) (?keep cs')"
  proof -
    have "canon ig om c = canon ig om d \<longleftrightarrow> alike ig om c d \<and> tail c = tail d"
      if "c \<in> set (?keep cs)" "d \<in> set (?keep cs')" for c d
    proof -
      have "parsed c" "parsed d" using that 1(2,3) parsed_child by fastforce+
      with 1(1) [OF that] show ?thesis by (metis content_own own_of_tail tail_canon)
    qed
    then have "list_all2 (\<lambda>c d. canon ig om c = canon ig om d) (?keep cs) (?keep cs') \<longleftrightarrow>
        list_all2 (\<lambda>c d. alike ig om c d \<and> tail c = tail d) (?keep cs) (?keep cs')"
      by (intro list.rel_cong) simp_all
    then show ?thesis by (simp add: map_eq_all2)
  qed
  have "distinct (map fst a)" "distinct (map fst a')" using 1(2,3) by (simp_all add: parsed_def)
  then have "attrs ig (Elem t a x cs z) = attrs ig (Elem t a' x' cs' z') \<longleftrightarrow>
      {(k, v) \<in> set a. k \<notin> set (volatile t @ ignored ig t)} = {(k, v) \<in> set a'. k \<notin> set (volatile t @ ignored ig t)}"
    by (simp add: attrs_def sort_set_eq distinct_map_filter) blast
  with kids show ?case by (auto simp: content_def)
qed

end
