(* ===== verification/HwpmlHead.thy ===== *)
theory HwpmlHead
  imports HwpmlSignature
begin

text \<open>
  The whole-document invariants of the exact object and layout verifiers
  (app/hwpml_invariants.py): two readbacks of a document are compared outside their BODY. HEAD may
  only grow, by entries appended to a definition list, and the lists a section owns change only by
  the entry Ids a \<open>DefinitionDelta\<close> names, which the section edits bind to the references of their own
  SECDEF. A reason is a value of \<open>head_reason\<close> that carries what its message shows; the list handed down as
  \<open>out\<close> is passed and returned. Code points are below 256, as everywhere.
\<close>

section \<open>Names\<close>

definition list_count_attr :: string where "list_count_attr = ''Count''"
definition entry_id_attr :: string where "entry_id_attr = ''Id''"
definition body_tag :: string where "body_tag = ''BODY''"
definition head_tag :: string where "head_tag = ''HEAD''"
definition mappingtable_tag :: string where "mappingtable_tag = ''MAPPINGTABLE''"
definition max_reasons :: nat where "max_reasons = 5"

definition growable_head_lists :: "(string \<times> string) list" where
  "growable_head_lists = [(''CHARSHAPELIST'', ''CHARSHAPE''), (''PARASHAPELIST'', ''PARASHAPE''),
    (''TABDEFLIST'', ''TABDEF''), (''BORDERFILLLIST'', ''BORDERFILL'')]"

definition reference_bound_lists :: "(string \<times> string) list" where
  "reference_bound_lists = [(''NUMBERINGLIST'', ''NUMBERING''), (''MEMOSHAPELIST'', ''MEMO'')]"

definition is_bound_list :: "string \<Rightarrow> bool" where
  "is_bound_list t \<longleftrightarrow> t \<in> set (map fst reference_bound_lists)"

text \<open>\<open>REFERENCE_BOUND_LISTS[tag]\<close>, read only for the tags it holds.\<close>

definition bound_entry_tag :: "string \<Rightarrow> string" where
  "bound_entry_tag t = (case map_of reference_bound_lists t of Some u \<Rightarrow> u | None \<Rightarrow> [])"

definition mappingtable_order :: "string list" where
  "mappingtable_order = [''BINDATALIST'', ''FACENAMELIST'', ''BORDERFILLLIST'', ''CHARSHAPELIST'', ''TABDEFLIST'',
    ''NUMBERINGLIST'', ''BULLETLIST'', ''PARASHAPELIST'', ''STYLELIST'', ''MEMOSHAPELIST'']"

definition view_state_head_tags :: "string list" where
  "view_state_head_tags = [''CARETPOS'']"

section \<open>Values\<close>

text \<open>\<open>DefinitionDelta\<close>: entry Ids by list tag; a tag the dictionaries lack has none.\<close>

record definition_delta =
  d_created :: "string \<Rightarrow> string list"
  d_removable :: "string \<Rightarrow> string list"

definition no_delta :: definition_delta where
  "no_delta = \<lparr>d_created = (\<lambda>_. []), d_removable = (\<lambda>_. [])\<rparr>"

datatype bound_problem =
    OtherEntries string
  | NoNumericId
  | RepeatedId
  | CountNotEntries "string option" nat
  | ListRepeated string nat

datatype head_reason =
    BecameTag string string
  | AttributesChanged string "string list"
  | TextChanged string
  | LostEntries string nat
  | ForeignEntries string string
  | CountNotFollowing string "string option" nat "string option"
  | IdsNotNew string "string option list"
  | IdsNotContinued string "string option list" nat
  | EntryChanged string nat string
  | MalformedList string bool bound_problem
  | EntriesNotRemovable string "string list"
  | EntriesNotCreated string "string list"
  | GoneMalformed string string bound_problem
  | GoneKept string string "string list"
  | NewListElsewhere string string
  | NewListMalformed string string bound_problem
  | NewListUnbound string string "string list"
  | NewListUnknownPlace string string
  | NewListMisplaced string string
  | ChildrenMisaligned string "string list"
  | GainedChildren string "string list"
  | LostChildren string "string list"

text \<open>\<open>text.isdigit()\<close>: the decimal digits and the three superscripts.\<close>

definition py_isdigit :: "string \<Rightarrow> bool" where
  "py_isdigit s \<longleftrightarrow> s \<noteq> [] \<and> list_all (\<lambda>c. is_digit c \<or> of_char c \<in> {178, 179, 185 :: nat}) s"

definition attr_or_empty :: "string option \<Rightarrow> string" where
  "attr_or_empty v = (case v of None \<Rightarrow> [] | Some s \<Rightarrow> s)"

text \<open>\<open>(entry.get(ENTRY_ID_ATTR) or '').strip()\<close>.\<close>

definition entry_id :: "xml \<Rightarrow> string" where
  "entry_id e = py_strip (attr_or_empty (get_attr e entry_id_attr))"

definition entry_ids :: "xml \<Rightarrow> string list" where
  "entry_ids e = map entry_id (children e)"

text \<open>The keys at which two dictionaries differ, sorted; none exactly when they are equal.\<close>

definition changed_keys :: "(string \<times> string) list \<Rightarrow> (string \<times> string) list \<Rightarrow> string list" where
  "changed_keys a b = sort (filter (\<lambda>k. map_of a k \<noteq> map_of b k) (remdups (map fst a @ map fst b)))"

definition attrs_without :: "string list \<Rightarrow> xml \<Rightarrow> (string \<times> string) list" where
  "attrs_without free e = filter (\<lambda>(k, v). k \<notin> set free) (attrs [] e)"

abbreviation plain_signature :: "xml \<Rightarrow> string" where
  "plain_signature \<equiv> signature [] []"

section \<open>Growing lists\<close>

text \<open>\<open>int(v) if v is not None else None\<close>; no value where \<open>int\<close> raises.\<close>

definition count_reading :: "string option \<Rightarrow> int option option" where
  "count_reading v = (case v of None \<Rightarrow> Some None | Some s \<Rightarrow> map_option Some (py_int s))"

definition count_follows :: "string option \<Rightarrow> string option \<Rightarrow> nat \<Rightarrow> bool" where
  "count_follows old new n =
    (case (count_reading old, count_reading new) of
       (Some expected, Some got) \<Rightarrow> got = map_option (\<lambda>i. i + int n) expected
     | _ \<Rightarrow> False)"

definition list_growth_reasons :: "string \<Rightarrow> xml \<Rightarrow> xml \<Rightarrow> nat \<Rightarrow> xml list \<Rightarrow> head_reason list" where
  "list_growth_reasons loc before after old_len appended =
    (let old_count = get_attr before list_count_attr; new_count = get_attr after list_count_attr;
         old_ids = map (\<lambda>c. get_attr c entry_id_attr) (take old_len (children after));
         new_ids = map (\<lambda>c. get_attr c entry_id_attr) appended
     in (if (old_count \<noteq> None \<or> new_count \<noteq> None) \<and> \<not> count_follows old_count new_count (length appended)
         then [CountNotFollowing loc new_count (length appended) old_count] else [])
      @ (if list_all (\<lambda>v. v = None) (old_ids @ new_ids) then []
         else if None \<in> set new_ids \<or> \<not> distinct new_ids \<or> list_ex (\<lambda>v. v \<in> set old_ids) new_ids
         then [IdsNotNew loc new_ids]
         else if old_ids = map (\<lambda>i. Some (nat_digits i)) [0..<old_len]
           \<and> new_ids \<noteq> map (\<lambda>i. Some (nat_digits i)) [old_len..<old_len + length appended]
         then [IdsNotContinued loc new_ids old_len]
         else []))"

section \<open>Lists a section owns\<close>

definition bound_entries_problem :: "xml \<Rightarrow> string \<Rightarrow> bound_problem option" where
  "bound_entries_problem e entry_tag =
    (if list_ex (\<lambda>c. tag c \<noteq> entry_tag) (children e) then Some (OtherEntries entry_tag)
     else if list_ex (\<lambda>v. \<not> py_isdigit v) (entry_ids e) then Some NoNumericId
     else if \<not> distinct (entry_ids e) then Some RepeatedId
     else if py_strip (attr_or_empty (get_attr e list_count_attr)) \<noteq> nat_digits (length (children e))
     then Some (CountNotEntries (get_attr e list_count_attr) (length (children e)))
     else None)"

text \<open>The walk over the old entries: the reasons, the Ids that are gone, and the entries after the last match.\<close>

fun match_entries :: "string \<Rightarrow> nat \<Rightarrow> xml list \<Rightarrow> xml list \<Rightarrow> head_reason list \<times> string list \<times> xml list" where
  "match_entries loc index [] new = ([], [], new)"
| "match_entries loc index (entry # old) new =
    (case new of
       n # rest \<Rightarrow>
         if entry_id n = entry_id entry
         then (case match_entries loc (Suc index) old rest of (rs, lost, left) \<Rightarrow>
           ((if plain_signature n \<noteq> plain_signature entry then [EntryChanged loc index (tag entry)] else []) @ rs, lost, left))
         else (case match_entries loc index old new of (rs, lost, left) \<Rightarrow> (rs, entry_id entry # lost, left))
     | [] \<Rightarrow> (case match_entries loc index old new of (rs, lost, left) \<Rightarrow> (rs, entry_id entry # lost, left)))"

definition bound_list_reasons :: "string \<Rightarrow> xml \<Rightarrow> xml \<Rightarrow> definition_delta \<Rightarrow> head_reason list" where
  "bound_list_reasons loc before after delta =
    (if plain_signature before = plain_signature after then []
     else case bound_entries_problem before (bound_entry_tag (tag before)) of
       Some p \<Rightarrow> [MalformedList loc True p]
     | None \<Rightarrow> (case bound_entries_problem after (bound_entry_tag (tag before)) of
         Some p \<Rightarrow> [MalformedList loc False p]
       | None \<Rightarrow>
         (let changed = changed_keys (attrs_without [list_count_attr] before) (attrs_without [list_count_attr] after);
              (rs, lost, left) = match_entries loc 0 (children before) (children after);
              not_removable = filter (\<lambda>i. i \<notin> set (d_removable delta (tag before))) lost;
              not_created = filter (\<lambda>i. i \<notin> set (d_created delta (tag before)) \<or> i \<in> set (entry_ids before)) (map entry_id left)
          in (if changed \<noteq> [] then [AttributesChanged loc changed] else []) @ rs
           @ (if not_removable \<noteq> [] then [EntriesNotRemovable loc not_removable] else [])
           @ (if not_created \<noteq> [] then [EntriesNotCreated loc not_created] else []))))"

definition bound_list_gone_reasons :: "string \<Rightarrow> xml \<Rightarrow> definition_delta \<Rightarrow> head_reason list" where
  "bound_list_gone_reasons loc e delta =
    (case bound_entries_problem e (bound_entry_tag (tag e)) of
       Some p \<Rightarrow> [GoneMalformed loc (tag e) p]
     | None \<Rightarrow>
       (let kept = filter (\<lambda>i. i \<notin> set (d_removable delta (tag e))) (entry_ids e)
        in if kept \<noteq> [] then [GoneKept loc (tag e) kept] else []))"

fun index_in :: "'a list \<Rightarrow> 'a \<Rightarrow> nat" where
  "index_in [] x = 0"
| "index_in (y # ys) x = (if y = x then 0 else Suc (index_in ys x))"

definition bound_list_new_reasons :: "string \<Rightarrow> xml \<Rightarrow> xml \<Rightarrow> xml list \<Rightarrow> definition_delta \<Rightarrow> head_reason list" where
  "bound_list_new_reasons loc parent e siblings delta =
    (if tag parent \<noteq> mappingtable_tag then [NewListElsewhere loc (tag e)]
     else case bound_entries_problem e (bound_entry_tag (tag e)) of
       Some p \<Rightarrow> [NewListMalformed loc (tag e) p]
     | None \<Rightarrow>
       (let created = d_created delta (tag e); ids = entry_ids e; order = map tag siblings;
            ranks = map (index_in mappingtable_order) order
        in if ids = [] \<or> list_ex (\<lambda>i. i \<notin> set created) ids
           then [NewListUnbound loc (tag e) (case filter (\<lambda>i. i \<notin> set created) ids of [] \<Rightarrow> ids | is \<Rightarrow> is)]
           else if list_ex (\<lambda>t. t \<notin> set mappingtable_order) order then [NewListUnknownPlace loc (tag e)]
           else if ranks \<noteq> sort ranks \<or> \<not> distinct ranks then [NewListMisplaced loc (tag e)]
           else []))"

section \<open>Growth of HEAD\<close>

definition entry_tag_of :: "xml \<Rightarrow> string option" where
  "entry_tag_of before =
    (case map_of growable_head_lists (tag before) of
       None \<Rightarrow> None
     | Some t \<Rightarrow> (case children before of
         [] \<Rightarrow> Some t
       | c # cs \<Rightarrow> if list_all (\<lambda>d. tag d = tag c) cs then Some (tag c) else Some t))"

definition own_reasons :: "(string \<Rightarrow> string list) \<Rightarrow> string \<Rightarrow> xml \<Rightarrow> xml \<Rightarrow> head_reason list" where
  "own_reasons allow loc before after =
    (let appended = (if entry_tag_of before = None then [] else drop (length (children before)) (children after));
         free = allow (tag before) @ (if appended = [] then [] else [list_count_attr]);
         changed = (if tag before \<in> set view_state_head_tags then []
           else changed_keys (attrs_without free before) (attrs_without free after))
     in (if changed \<noteq> [] then [AttributesChanged loc changed] else [])
      @ (if py_strip (xtext before) \<noteq> py_strip (xtext after) then [TextChanged loc] else []))"

definition entries_reasons :: "string \<Rightarrow> string \<Rightarrow> xml \<Rightarrow> xml \<Rightarrow> head_reason list" where
  "entries_reasons loc entry_tag before after =
    (let old = children before; new = children after; appended = drop (length old) new
     in if length new < length old then [LostEntries loc (length old - length new)]
        else (if list_ex (\<lambda>c. tag c \<noteq> entry_tag) appended then [ForeignEntries loc entry_tag] else [])
          @ (if appended \<noteq> [] then list_growth_reasons loc before after (length old) appended else [])
          @ concat (map (\<lambda>(i, o', n). if plain_signature o' \<noteq> plain_signature n then [EntryChanged loc i (tag o')] else [])
              (enumerate 0 (zip old new))))"

text \<open>The reason at which the walk over the children stops.\<close>

definition stopped_reason :: "string \<Rightarrow> xml list \<Rightarrow> xml list \<Rightarrow> head_reason" where
  "stopped_reason loc old new =
    (let olds = map tag old; news = map tag new;
         added = sort (fold remove1 olds news); removed = sort (fold remove1 news olds)
     in if removed = [] \<and> filter (\<lambda>t. t \<in> set olds) news \<noteq> olds then ChildrenMisaligned loc added
        else if added \<noteq> [] then GainedChildren loc added
        else LostChildren loc removed)"

definition may_appear :: "xml list \<Rightarrow> xml list \<Rightarrow> string \<Rightarrow> bool" where
  "may_appear old new t \<longleftrightarrow> is_bound_list t \<and> count_list (map tag new) t = 1 \<and> count_list (map tag old) t = 0"

definition may_go :: "xml list \<Rightarrow> xml list \<Rightarrow> string \<Rightarrow> bool" where
  "may_go old new t \<longleftrightarrow> is_bound_list t \<and> count_list (map tag old) t = 1 \<and> count_list (map tag new) t = 0"

text \<open>
  The walk over the old and the new children, with the element and its delta in hand: the reasons met on the
  way, and the pairs to compare, or none where the walk stops.
\<close>

fun align ::
  "string \<Rightarrow> xml \<Rightarrow> xml list \<Rightarrow> definition_delta \<Rightarrow> xml list \<Rightarrow> xml list \<Rightarrow> head_reason list \<times> (xml \<times> xml) list option" where
  "align loc before siblings delta [] [] = ([], Some [])"
| "align loc before siblings delta [] (n # ns) =
    (if may_appear (children before) siblings (tag n)
     then apfst (append (bound_list_new_reasons loc before n siblings delta)) (align loc before siblings delta [] ns)
     else ([stopped_reason loc (children before) siblings], None))"
| "align loc before siblings delta (ol # os) [] =
    (if may_go (children before) siblings (tag ol)
     then apfst (append (bound_list_gone_reasons loc ol delta)) (align loc before siblings delta os [])
     else ([stopped_reason loc (children before) siblings], None))"
| "align loc before siblings delta (ol # os) (n # ns) =
    (if tag ol = tag n then apsnd (map_option ((#) (ol, n))) (align loc before siblings delta os ns)
     else if may_appear (children before) siblings (tag n)
     then apfst (append (bound_list_new_reasons loc before n siblings delta)) (align loc before siblings delta (ol # os) ns)
     else if may_go (children before) siblings (tag ol)
     then apfst (append (bound_list_gone_reasons loc ol delta)) (align loc before siblings delta os (n # ns))
     else ([stopped_reason loc (children before) siblings], None))"

lemma apfst_result: "apfst f p = (r, q) \<longleftrightarrow> (\<exists>r'. p = (r', q) \<and> r = f r')"
  by (cases p) auto

lemma apsnd_pairs: "apsnd (map_option ((#) x)) p = (r, Some ps) \<longleftrightarrow> (\<exists>qs. p = (r, Some qs) \<and> ps = x # qs)"
  by (cases p) auto

lemma align_pairs_old:
  "align loc before siblings delta old new = (rs, Some ps) \<Longrightarrow> (o', n) \<in> set ps \<Longrightarrow> o' \<in> set old"
proof (induction loc before siblings delta old new arbitrary: rs ps rule: align.induct)
  case (4 loc before siblings delta ol os n' ns)
  then show ?case by (auto simp: apfst_result apsnd_pairs simp del: list.set simp add: list.set(2) split: if_splits)
qed (auto simp: apfst_result split: if_splits)

lemma child_size: "c \<in> set (children e) \<Longrightarrow> size c < size e"
  by (cases e) (simp add: less_Suc_eq_le size_list_estimation' [OF _ order_refl])

lemma enumerate_mem: "(i, p) \<in> set (enumerate k ps) \<Longrightarrow> p \<in> set ps"
  by (auto simp: in_set_enumerate_eq)

text \<open>\<open>_head_growth_reasons\<close>, from the reasons found so far to those with its own.\<close>

function head_growth ::
  "(string \<Rightarrow> string list) \<Rightarrow> definition_delta \<Rightarrow> xml \<Rightarrow> xml \<Rightarrow> string \<Rightarrow> head_reason list \<Rightarrow> head_reason list" where
  "head_growth allow delta before after path out =
    (if max_reasons \<le> length out then out
     else let loc = path @ ''/'' @ tag before
     in if tag after \<noteq> tag before then out @ [BecameTag loc (tag after)]
     else if is_bound_list (tag before) then out @ bound_list_reasons loc before after delta
     else case entry_tag_of before of
       Some t \<Rightarrow> out @ own_reasons allow loc before after @ entries_reasons loc t before after
     | None \<Rightarrow>
       (case align loc before (children after) delta (children before) (children after) of
          (rs, None) \<Rightarrow> out @ own_reasons allow loc before after @ rs
        | (rs, Some ps) \<Rightarrow>
            fold (\<lambda>(i, o', n) found. head_growth allow delta o' n (loc @ ''['' @ nat_digits i @ '']'') found)
              (enumerate 0 ps) (out @ own_reasons allow loc before after @ rs)))"
  by pat_completeness auto

termination
proof (relation "measure (\<lambda>(allow, delta, before, after, path, out). size before)")
  fix allow delta before after path out loc rs and y :: "(xml \<times> xml) list option" and ps and x :: "nat \<times> xml \<times> xml" and i p and o' n :: xml and z :: "head_reason list"
  assume a: "(rs, y) = align loc before (children after) delta (children before) (children after)" "y = Some ps"
    "x \<in> set (enumerate 0 ps)" "(i, p) = x" "(o', n) = p"
  then have "(i, o', n) \<in> set (enumerate 0 ps)" by simp
  then have "(o', n) \<in> set ps" by (rule enumerate_mem)
  then have "o' \<in> set (children before)" using align_pairs_old a(1,2) by metis
  then show "((allow, delta, o', n, loc @ ''['' @ nat_digits i @ '']'', z), allow, delta, before, after, path, out)
      \<in> measure (\<lambda>(allow, delta, before, after, path, out). size before)"
    by (simp add: child_size)
qed simp

declare head_growth.simps [simp del]

end
