(* ===== verification/HwpmlSection.thy ===== *)
theory HwpmlSection
  imports HwpmlHead
begin

text \<open>
  References to the definitions a section owns, and the two ways a section edit is allowed to change them
  (app/hwpml_invariants.py, from \<open>SECDEF_REFERENCES\<close> on), and the comparison of two readbacks outside BODY.
  The dictionary of references is the list of its entries (list tag, entry Id, referrer) in document
  order; the texts of the problems are values.
\<close>

section \<open>Definitions of a document\<close>

definition secdef_references :: "(string \<times> string) list" where
  "secdef_references = [(''OutlineShape'', ''NUMBERINGLIST''), (''MemoShapeId'', ''MEMOSHAPELIST'')]"

definition first_child :: "string \<Rightarrow> xml \<Rightarrow> xml option" where
  "first_child t e = find (\<lambda>c. tag c = t) (children e)"

definition head_of :: "xml \<Rightarrow> xml option" where
  "head_of root = (if tag root = head_tag then Some root else first_child head_tag root)"

definition mapping_lists :: "xml \<Rightarrow> xml list" where
  "mapping_lists root =
    (case head_of root of
       None \<Rightarrow> []
     | Some head \<Rightarrow> (case first_child mappingtable_tag head of None \<Rightarrow> [] | Some mapping \<Rightarrow> children mapping))"

text \<open>\<open>_bound_index\<close>: entry Id to entry, or the problem.\<close>

definition bound_index :: "xml \<Rightarrow> string \<Rightarrow> bound_problem + (string \<times> xml) list" where
  "bound_index root list_tag =
    (case filter (\<lambda>c. tag c = list_tag) (mapping_lists root) of
       [] \<Rightarrow> Inr []
     | [l] \<Rightarrow> (case bound_entries_problem l (bound_entry_tag list_tag) of
         Some p \<Rightarrow> Inl p
       | None \<Rightarrow> Inr (map (\<lambda>e. (entry_id e, e)) (children l)))
     | ls \<Rightarrow> Inl (ListRepeated list_tag (length ls)))"

section \<open>References\<close>

definition lower_char :: "char \<Rightarrow> char" where
  "lower_char c =
    (let n = (of_char c :: nat) in
     if (65 \<le> n \<and> n \<le> 90) \<or> (192 \<le> n \<and> n \<le> 222 \<and> n \<noteq> 215) then char_of (n + 32) else c)"

definition py_lower :: "string \<Rightarrow> string" where
  "py_lower s = map lower_char s"

definition not_numbering_headings :: "string list" where
  "not_numbering_headings = [''none'', ''bullet'', ''0'', ''3'']"

definition memo_shape_none :: "string list" where
  "memo_shape_none = [''65535'']"

text \<open>\<open>_MEMO_COMMAND.match(command)\<close>, the group of a match.\<close>

definition memo_command :: "string \<Rightarrow> string option" where
  "memo_command s =
    (if starts_with ''MEMO/'' s
     then let r = drop 5 s; ds = takeWhile is_digit r
          in if ds \<noteq> [] \<and> starts_with ''/'' (dropWhile is_digit r) then Some ds else None
     else None)"

datatype memo_problem =
    NotAMemoField string "string option"
  | CommandMissing string
  | CommandUnreadable string
  | NoSuchMemoShape string string

text \<open>\<open>_memo_field_reference\<close>: the problem, or the memo shape it names, if any.\<close>

definition memo_field_reference :: "xml \<Rightarrow> string \<Rightarrow> string list option \<Rightarrow> memo_problem + string option" where
  "memo_field_reference e who memo_ids =
    (if get_attr e ''Type'' \<noteq> Some ''Memo'' then Inl (NotAMemoField who (get_attr e ''Type''))
     else case memo_command (attr_or_empty (get_attr e ''Command'')) of
       None \<Rightarrow> Inl (if get_attr e ''Command'' = None then CommandMissing who else CommandUnreadable who)
     | Some v \<Rightarrow>
       if v \<in> set memo_shape_none then Inr None
       else case memo_ids of
         None \<Rightarrow> Inl (NoSuchMemoShape who v)
       | Some ids \<Rightarrow> if v \<in> set ids then Inr (Some v) else Inl (NoSuchMemoShape who v))"

definition is_memo_field :: "xml \<Rightarrow> bool" where
  "is_memo_field e \<longleftrightarrow> py_lower (attr_or_empty (get_attr e ''Type'')) = ''memo''
    \<or> starts_with ''MEMO/'' (attr_or_empty (get_attr e ''Command''))"

definition memo_ids_of :: "xml \<Rightarrow> string list option" where
  "memo_ids_of root = (case bound_index root ''MEMOSHAPELIST'' of Inl _ \<Rightarrow> None | Inr ix \<Rightarrow> Some (map fst ix))"

definition indexed_name :: "string \<Rightarrow> nat \<Rightarrow> string \<Rightarrow> string" where
  "indexed_name t i a = t @ ''['' @ nat_digits i @ ''].'' @ a"

definition memo_field_problems :: "xml \<Rightarrow> memo_problem list" where
  "memo_field_problems root =
    concat (map (\<lambda>(i, e). case memo_field_reference e (indexed_name ''FIELDBEGIN'' i ''Command'') (memo_ids_of root) of
        Inl p \<Rightarrow> [p] | Inr _ \<Rightarrow> [])
      (enumerate 0 (filter is_memo_field (iter_tag root ''FIELDBEGIN''))))"

type_synonym reference = "string \<times> string \<times> string"

definition add_reference :: "string \<Rightarrow> string option \<Rightarrow> string \<Rightarrow> reference list" where
  "add_reference list_tag v who = (case v of None \<Rightarrow> [] | Some s \<Rightarrow> [(list_tag, py_strip s, who)])"

definition memo_references :: "string list option \<Rightarrow> nat \<Rightarrow> xml \<Rightarrow> reference list" where
  "memo_references memo_ids memo_index e =
    (let who = indexed_name ''FIELDBEGIN'' memo_index ''Command'' in
     case memo_field_reference e who memo_ids of Inl _ \<Rightarrow> [] | Inr v \<Rightarrow> add_reference ''MEMOSHAPELIST'' v who)"

definition secdef_refs :: "nat \<Rightarrow> xml \<Rightarrow> reference list" where
  "secdef_refs secdef_index e =
    concat (map (\<lambda>(a, list_tag). add_reference list_tag (get_attr e a) (indexed_name ''SECDEF'' secdef_index a)) secdef_references)"

definition other_refs :: "xml \<Rightarrow> reference list" where
  "other_refs e =
    (if tag e = ''PARASHAPE'' \<and> py_lower (py_strip (attr_or_empty (get_attr e ''HeadingType''))) \<notin> set not_numbering_headings
     then add_reference ''NUMBERINGLIST'' (get_attr e ''Heading'')
       (''PARASHAPE[Id='' @ (case get_attr e entry_id_attr of None \<Rightarrow> ''None'' | Some i \<Rightarrow> i) @ ''].Heading'')
     else [])
    @ concat (map (\<lambda>(a, v). if contains ''memoshape'' (py_lower a)
        then add_reference ''MEMOSHAPELIST'' (Some v) (tag e @ ''.'' @ a) else []) (attrib e))"

fun references_from :: "string list option \<Rightarrow> nat \<Rightarrow> nat \<Rightarrow> xml list \<Rightarrow> reference list" where
  "references_from memo_ids secdef_index memo_index [] = []"
| "references_from memo_ids secdef_index memo_index (e # es) =
    (let memo = tag e = ''FIELDBEGIN'' \<and> is_memo_field e;
         memo_index' = (if memo then Suc memo_index else memo_index)
     in (if memo then memo_references memo_ids memo_index e else [])
      @ (if tag e = ''SECDEF''
         then secdef_refs secdef_index e @ references_from memo_ids (Suc secdef_index) memo_index' es
         else other_refs e @ references_from memo_ids secdef_index memo_index' es))"

definition definition_references :: "xml \<Rightarrow> reference list" where
  "definition_references root = references_from (memo_ids_of root) 0 0 (iter_all root)"

text \<open>\<open>refs[list_tag].get(ident)\<close>, with no referrers for a missing Id.\<close>

definition referrers :: "reference list \<Rightarrow> string \<Rightarrow> string \<Rightarrow> string list" where
  "referrers refs list_tag i = map (snd \<circ> snd) (filter (\<lambda>(l, j, who). l = list_tag \<and> j = i) refs)"

section \<open>Section edits\<close>

definition default_memo_shape :: "(string \<times> string) list" where
  "default_memo_shape = [(''ActiveColor'', ''13103567''), (''FillColor'', ''15335408''), (''LineColor'', ''11458486''),
    (''LineType'', ''1''), (''LineWidth'', ''1''), (''MemoType'', ''0''), (''Width'', ''15591'')]"

datatype section_ref_problem = Dropped | Substituted | Dangling | Shared | Unresolved | NotEquivalent | NotDefault

definition without_id :: "xml \<Rightarrow> string" where
  "without_id e = signature [(tag e, [entry_id_attr])] [] e"

definition is_default_memo :: "xml \<Rightarrow> bool" where
  "is_default_memo e \<longleftrightarrow>
    changed_keys (filter (\<lambda>(k, v). k \<noteq> entry_id_attr) (attrib e)) default_memo_shape = []
    \<and> children e = [] \<and> py_strip (xtext e) = []"

text \<open>
  One reference of the new SECDEF: the problem, no change, or the Id of the entry the edit created for it.
\<close>

definition bind_reference :: "xml \<Rightarrow> xml \<Rightarrow> xml \<Rightarrow> xml \<Rightarrow> nat \<Rightarrow> string \<Rightarrow> string \<Rightarrow> section_ref_problem + string option" where
  "bind_reference before_root after_root split new new_index a list_tag =
    (let old = get_attr split a; v = get_attr new a in
     if v = old then Inr None
     else case v of
       None \<Rightarrow> Inl Dropped
     | Some value' \<Rightarrow>
       (case (bound_index before_root list_tag, bound_index after_root list_tag) of
          (Inr before_index, Inr after_index) \<Rightarrow>
            (let ident = py_strip value' in
             if map_of before_index ident \<noteq> None then Inl Substituted
             else case map_of after_index ident of
               None \<Rightarrow> Inl Dangling
             | Some entry \<Rightarrow>
               if referrers (definition_references after_root) list_tag ident \<noteq> [indexed_name ''SECDEF'' new_index a]
               then Inl Shared
               else case old of
                 None \<Rightarrow>
                   if a \<noteq> ''MemoShapeId'' then Inl Unresolved
                   else if \<not> is_default_memo entry then Inl NotDefault
                   else Inr (Some ident)
               | Some o' \<Rightarrow>
                 (case map_of before_index (py_strip o') of
                    None \<Rightarrow> Inl Unresolved
                  | Some original \<Rightarrow>
                    if without_id entry \<noteq> without_id original then Inl NotEquivalent else Inr (Some ident)))
        | _ \<Rightarrow> Inl Unresolved))"

definition section_insert_definitions ::
  "xml \<Rightarrow> xml \<Rightarrow> xml \<Rightarrow> xml \<Rightarrow> nat \<Rightarrow> definition_delta \<times> (string \<times> section_ref_problem) list \<times> string list" where
  "section_insert_definitions before_root after_root split new new_index =
    (let found = map (\<lambda>(a, list_tag). (a, list_tag, bind_reference before_root after_root split new new_index a list_tag)) secdef_references
     in (\<lparr>d_created = (\<lambda>l. concat (map (\<lambda>(a, list_tag, r).
              case r of Inr (Some i) \<Rightarrow> if list_tag = l then [i] else [] | _ \<Rightarrow> []) found)),
          d_removable = (\<lambda>_. [])\<rparr>,
         concat (map (\<lambda>(a, list_tag, r). case r of Inl p \<Rightarrow> [(a, p)] | Inr _ \<Rightarrow> []) found),
         concat (map (\<lambda>(a, list_tag, r). case r of Inr (Some _) \<Rightarrow> [a] | _ \<Rightarrow> []) found)))"

definition removable_ids :: "xml \<Rightarrow> xml \<Rightarrow> xml \<Rightarrow> nat \<Rightarrow> string \<Rightarrow> string list" where
  "removable_ids before_root after_root removed removed_index l =
    concat (map (\<lambda>(a, list_tag).
      case get_attr removed a of
        None \<Rightarrow> []
      | Some v \<Rightarrow>
        if list_tag = ''MEMOSHAPELIST'' \<and> (memo_field_problems before_root \<noteq> [] \<or> memo_field_problems after_root \<noteq> []) then []
        else if list_tag = l
          \<and> referrers (definition_references before_root) list_tag (py_strip v) = [indexed_name ''SECDEF'' removed_index a]
          \<and> referrers (definition_references after_root) list_tag (py_strip v) = []
        then [py_strip v] else []) secdef_references)"

definition section_delete_definitions :: "xml \<Rightarrow> xml \<Rightarrow> xml \<Rightarrow> nat \<Rightarrow> definition_delta" where
  "section_delete_definitions before_root after_root removed removed_index =
    \<lparr>d_created = (\<lambda>_. []), d_removable = removable_ids before_root after_root removed removed_index\<rparr>"

section \<open>Everything outside BODY\<close>

datatype document_reason =
    PartsChanged "string list" "string list"
  | HeadChanged head_reason
  | PartChanged string

definition tail_ignore :: ignoring where
  "tail_ignore = [(''BINDATA'', [''Size''])]"

definition parts_outside_body :: "xml \<Rightarrow> xml list" where
  "parts_outside_body root = filter (\<lambda>c. tag c \<noteq> body_tag) (children root)"

definition part_reasons :: "(string \<Rightarrow> string list) \<Rightarrow> definition_delta \<Rightarrow> xml \<times> xml \<Rightarrow> document_reason list" where
  "part_reasons allow delta pair =
    (case pair of (old, new) \<Rightarrow>
       if tag old = head_tag then map HeadChanged (head_growth allow delta old new [] [])
       else if signature tail_ignore [] old \<noteq> signature tail_ignore [] new then [PartChanged (tag old)]
       else [])"

definition head_tail_reasons :: "(string \<Rightarrow> string list) \<Rightarrow> definition_delta \<Rightarrow> xml \<Rightarrow> xml \<Rightarrow> document_reason list" where
  "head_tail_reasons allow delta before_root after_root =
    (let olds = parts_outside_body before_root; news = parts_outside_body after_root in
     if map tag olds \<noteq> map tag news then [PartsChanged (map tag olds) (map tag news)]
     else take max_reasons (concat (map (part_reasons allow delta) (zip olds news))))"

end
