(* ===== verification/HeadProps.thy ===== *)
theory HeadProps
  imports HwpmlSection
begin

text \<open>
  What an accepted comparison of two readbacks guarantees: every definition the document could name
  before still has the same content, apart from those the delta lets go, so the references of the
  document keep their meaning through a section edit.
\<close>

section \<open>Definitions and their content\<close>

definition same_content :: "xml \<Rightarrow> xml \<Rightarrow> bool" where
  "same_content e f \<longleftrightarrow> content [] [] e = content [] [] f"

text \<open>The definition that a reference with the given Id finds in a list of MAPPINGTABLE.\<close>

definition definition_at :: "xml \<Rightarrow> string \<Rightarrow> string \<Rightarrow> xml option" where
  "definition_at root l i =
    (case find (\<lambda>c. tag c = l) (mapping_lists root) of
       None \<Rightarrow> None
     | Some list \<Rightarrow> find (\<lambda>e. entry_id e = i) (children list))"

lemma plain_signature_iff: "parsed e \<Longrightarrow> parsed f \<Longrightarrow> plain_signature e = plain_signature f \<longleftrightarrow> same_content e f"
  by (simp add: signature_content same_content_def parsed_def)

lemma map_of_sort:
  assumes "distinct (map fst xs)"
  shows "map_of (sort xs) = map_of (xs :: (string \<times> string) list)"
proof -
  have "distinct (map fst (sort xs))"
    using assms by (metis distinct_map distinct_sort set_sort)
  with assms show ?thesis by (simp add: map_of_inject_set)
qed

lemma map_of_filter_key: "k \<notin> K \<Longrightarrow> map_of (filter (\<lambda>(j, v). j \<notin> K) xs) k = map_of xs k"
  by (induction xs) auto

lemma attrs_get:
  assumes "parsed e" and "k \<notin> set (volatile (tag e))"
  shows "map_of (attrs [] e) k = get_attr e k"
proof -
  from assms(1) have "distinct (map fst (attrib e))" by (cases e) (simp add: parsed_def)
  then have "distinct (map fst (filter (\<lambda>(k, v). k \<notin> set (volatile (tag e) @ ignored [] (tag e))) (attrib e)))"
    by (rule distinct_map_filter)
  then have "map_of (attrs [] e) k = map_of (filter (\<lambda>(k, v). k \<notin> set (volatile (tag e) @ ignored [] (tag e))) (attrib e)) k"
    by (simp add: attrs_def map_of_sort)
  also have "\<dots> = map_of (attrib e) k"
    by (rule map_of_filter_key) (use assms(2) in \<open>simp add: ignored_def\<close>)
  finally show ?thesis by (simp add: get_attr_def)
qed

lemma same_content_id:
  assumes "same_content e f" and "parsed e" and "parsed f"
  shows "entry_id e = entry_id f"
proof -
  from assms(1) have "attrs [] e = attrs [] f" "tag e = tag f" by (simp_all add: same_content_def content_def)
  moreover have "entry_id_attr \<notin> set (volatile t)" for t by (simp add: volatile_def entry_id_attr_def)
  ultimately have "get_attr e entry_id_attr = get_attr f entry_id_attr" using attrs_get assms(2,3) by metis
  then show ?thesis by (simp add: entry_id_def)
qed

lemma same_content_children:
  assumes "same_content e f"
  shows "list_all2 same_content (children e) (children f)"
proof -
  have same: "map (canon [] []) (children e) = map (canon [] []) (children f)"
    using assms by (cases e; cases f) (simp add: same_content_def content_def)
  then have "length (children e) = length (children f)" by (rule map_eq_imp_length_eq)
  with same show ?thesis
    by (auto simp: list_all2_conv_all_nth same_content_def content_own list_eq_iff_nth_eq)
qed

section \<open>Reasons add up\<close>

lemma fold_grows: "(\<And>x out. x \<in> set xs \<Longrightarrow> out \<noteq> [] \<Longrightarrow> f x out \<noteq> []) \<Longrightarrow> out \<noteq> [] \<Longrightarrow> fold f xs out \<noteq> []"
  by (induction xs arbitrary: out) simp_all

lemma fold_none:
  assumes "\<And>x out. x \<in> set xs \<Longrightarrow> out \<noteq> [] \<Longrightarrow> f x out \<noteq> []" and "fold f xs [] = []" and "x \<in> set xs"
  shows "f x [] = []"
  using assms
proof (induction xs)
  case (Cons y ys)
  have "f y [] = []" using Cons.prems fold_grows [of ys f "f y []"] by auto
  with Cons show ?case by auto
qed simp

lemma head_growth_grows: "out \<noteq> [] \<Longrightarrow> head_growth allow delta before after path out \<noteq> []"
proof (induction allow delta before after path out rule: head_growth.induct)
  case (1 allow delta before after path out)
  let ?loc = "path @ ''/'' @ tag before"
  show ?case
  proof (cases "max_reasons \<le> length out \<or> tag after \<noteq> tag before \<or> is_bound_list (tag before) \<or> entry_tag_of before \<noteq> None")
    case True
    with 1(2) show ?thesis by (subst head_growth.simps) (auto simp: Let_def split: option.split)
  next
    case False
    obtain rs found where al: "align ?loc before (children after) delta (children before) (children after) = (rs, found)"
      by force
    show ?thesis
    proof (cases found)
      case None
      with False al 1(2) show ?thesis by (subst head_growth.simps) (simp add: Let_def)
    next
      case (Some ps)
      let ?f = "\<lambda>(i, o', n) found. head_growth allow delta o' n (?loc @ ''['' @ nat_digits i @ '']'') found"
      have "fold ?f (enumerate 0 ps) (out @ own_reasons allow ?loc before after @ rs) \<noteq> []"
      proof (rule fold_grows)
        fix x and out' :: "head_reason list"
        assume "x \<in> set (enumerate 0 ps)" and "out' \<noteq> []"
        moreover obtain i o' n where "x = (i, o', n)" by (cases x)
        ultimately show "?f x out' \<noteq> []" using 1(1) [OF _ refl] False al Some by auto
      qed (use 1(2) in simp)
      with False al Some show ?thesis by (subst head_growth.simps) (simp add: Let_def)
    qed
  qed
qed

lemma align_stops: "align loc before siblings delta old new = (rs, None) \<Longrightarrow> rs \<noteq> []"
proof (induction loc before siblings delta old new arbitrary: rs rule: align.induct)
  case (4 loc before siblings delta ol os n ns)
  then show ?case by (auto simp: apfst_result apsnd_def map_prod_def split: if_splits prod.splits)
qed (auto simp: apfst_result split: if_splits)

text \<open>Two elements of HEAD that an edit may leave as they are.\<close>

definition accepted :: "(string \<Rightarrow> string list) \<Rightarrow> definition_delta \<Rightarrow> xml \<Rightarrow> xml \<Rightarrow> bool" where
  "accepted allow delta before after \<longleftrightarrow> (\<exists>path. head_growth allow delta before after path [] = [])"

lemma accepted_facts:
  assumes "accepted allow delta before after"
  shows "tag after = tag before"
    and "is_bound_list (tag before) \<Longrightarrow> \<exists>loc. bound_list_reasons loc before after delta = []"
    and "\<not> is_bound_list (tag before) \<Longrightarrow> entry_tag_of before = Some t \<Longrightarrow> \<exists>loc. entries_reasons loc t before after = []"
    and "\<not> is_bound_list (tag before) \<Longrightarrow> entry_tag_of before = None \<Longrightarrow>
      \<exists>loc ps. align loc before (children after) delta (children before) (children after) = ([], Some ps)
        \<and> (\<forall>(o', n) \<in> set ps. accepted allow delta o' n)"
proof -
  obtain path where none: "head_growth allow delta before after path [] = []" using assms by (auto simp: accepted_def)
  let ?loc = "path @ ''/'' @ tag before"
  have max: "\<not> max_reasons \<le> length []" by (simp add: max_reasons_def)
  show tags: "tag after = tag before"
    using none max by (subst (asm) head_growth.simps) (simp add: Let_def split: if_splits)
  show "is_bound_list (tag before) \<Longrightarrow> \<exists>loc. bound_list_reasons loc before after delta = []"
    using none max tags by (subst (asm) head_growth.simps) (auto simp: Let_def)
  show "\<not> is_bound_list (tag before) \<Longrightarrow> entry_tag_of before = Some t \<Longrightarrow> \<exists>loc. entries_reasons loc t before after = []"
    using none max tags by (subst (asm) head_growth.simps) (auto simp: Let_def)
  assume plain: "\<not> is_bound_list (tag before)" "entry_tag_of before = None"
  obtain rs found where al: "align ?loc before (children after) delta (children before) (children after) = (rs, found)"
    by force
  let ?f = "\<lambda>(i, o', n) found. head_growth allow delta o' n (?loc @ ''['' @ nat_digits i @ '']'') found"
  have "found \<noteq> None"
  proof
    assume "found = None"
    with none max tags plain al have "rs = []" by (subst (asm) head_growth.simps) (simp add: Let_def)
    with al \<open>found = None\<close> align_stops show False by metis
  qed
  then obtain ps where ps: "found = Some ps" by blast
  with none max tags plain al
  have folded: "fold ?f (enumerate 0 ps) (own_reasons allow ?loc before after @ rs) = []"
    by (subst (asm) head_growth.simps) (simp add: Let_def)
  have grows: "?f x out \<noteq> []" if "out \<noteq> []" for x out
    using head_growth_grows [OF that] by (auto split: prod.split)
  from folded fold_grows [of "enumerate 0 ps" ?f "own_reasons allow ?loc before after @ rs", OF grows]
  have start: "own_reasons allow ?loc before after @ rs = []" by blast
  have "accepted allow delta o' n" if "(o', n) \<in> set ps" for o' n
  proof -
    from that obtain i where "(i, o', n) \<in> set (enumerate 0 ps)"
      by (metis in_set_conv_nth in_set_enumerate_eq add_0 add_0_right diff_zero fst_conv snd_conv le0)
    with fold_none [of "enumerate 0 ps" ?f, OF grows] folded start have "?f (i, o', n) [] = []" by metis
    then show ?thesis by (auto simp: accepted_def)
  qed
  with al ps start show "\<exists>loc ps. align loc before (children after) delta (children before) (children after) = ([], Some ps)
      \<and> (\<forall>(o', n) \<in> set ps. accepted allow delta o' n)" by auto
qed

section \<open>Pairs of children\<close>

lemma align_kept:
  assumes "align loc before siblings delta old new = (rs, Some ps)"
    and "\<not> may_appear (children before) siblings t" and "\<not> may_go (children before) siblings t"
  shows "filter (\<lambda>c. tag c = t) old = map fst (filter (\<lambda>p. tag (fst p) = t) ps)
    \<and> filter (\<lambda>c. tag c = t) new = map snd (filter (\<lambda>p. tag (fst p) = t) ps)"
  using assms
proof (induction loc before siblings delta old new arbitrary: rs ps rule: align.induct)
  case (4 loc before siblings delta ol os n ns)
  then show ?case by (auto simp: apfst_result apsnd_pairs split: if_splits)
qed (auto simp: apfst_result split: if_splits)

lemma align_gone:
  assumes "align loc before siblings delta old new = (rs, Some ps)" and "ol \<in> set old"
    and "may_go (children before) siblings (tag ol)" and "tag ol \<notin> tag ` set new"
  shows "set (bound_list_gone_reasons loc ol delta) \<subseteq> set rs"
  using assms
proof (induction loc before siblings delta old new arbitrary: rs ps rule: align.induct)
  case (4 loc before siblings delta o' os n ns)
  then show ?case by (auto simp: apfst_result apsnd_pairs may_appear_def may_go_def split: if_splits)
qed (auto simp: apfst_result split: if_splits)

lemma align_new:
  assumes "align loc before siblings delta old new = (rs, Some ps)" and "nl \<in> set new"
    and "may_appear (children before) siblings (tag nl)" and "tag nl \<notin> tag ` set old"
  shows "set (bound_list_new_reasons loc before nl siblings delta) \<subseteq> set rs"
  using assms
proof (induction loc before siblings delta old new arbitrary: rs ps rule: align.induct)
  case (4 loc before siblings delta o' os n ns)
  then show ?case by (auto simp: apfst_result apsnd_pairs may_appear_def may_go_def split: if_splits)
qed (auto simp: apfst_result split: if_splits)

lemma find_filter: "find P xs = (case filter P xs of [] \<Rightarrow> None | x # _ \<Rightarrow> Some x)"
  by (induction xs) auto

lemma count_find: "count_list (map tag xs) t = 0 \<longleftrightarrow> find (\<lambda>c. tag c = t) xs = None"
  by (auto simp: count_list_0_iff find_None_iff)

text \<open>The first child with a tag, before and after an accepted change.\<close>

lemma accepted_first:
  assumes "accepted allow delta before after" and "\<not> is_bound_list (tag before)" and "entry_tag_of before = None"
  shows "find (\<lambda>c. tag c = t) (children before) = Some o' \<Longrightarrow> \<not> may_go (children before) (children after) t \<Longrightarrow>
      \<exists>n. find (\<lambda>c. tag c = t) (children after) = Some n \<and> accepted allow delta o' n"
    and "find (\<lambda>c. tag c = t) (children after) = Some n \<Longrightarrow> \<not> may_appear (children before) (children after) t \<Longrightarrow>
      \<exists>o'. find (\<lambda>c. tag c = t) (children before) = Some o' \<and> accepted allow delta o' n"
    and "find (\<lambda>c. tag c = t) (children before) = Some o' \<Longrightarrow> may_go (children before) (children after) t \<Longrightarrow>
      \<exists>loc. bound_list_gone_reasons loc o' delta = []"
    and "find (\<lambda>c. tag c = t) (children after) = Some n \<Longrightarrow> may_appear (children before) (children after) t \<Longrightarrow>
      \<exists>loc. bound_list_new_reasons loc before n (children after) delta = []"
proof -
  obtain loc ps where al: "align loc before (children after) delta (children before) (children after) = ([], Some ps)"
    and pairs: "\<And>o' n. (o', n) \<in> set ps \<Longrightarrow> accepted allow delta o' n"
    using accepted_facts(4) [OF assms] by blast
  have both: "find (\<lambda>c. tag c = t) (children before) = map_option fst (find (\<lambda>p. tag (fst p) = t) ps)
      \<and> find (\<lambda>c. tag c = t) (children after) = map_option snd (find (\<lambda>p. tag (fst p) = t) ps)"
    if "\<not> may_appear (children before) (children after) t" "\<not> may_go (children before) (children after) t"
    using align_kept [OF al that] by (simp add: find_filter split: list.split)
  have mem: "find (\<lambda>p. tag (fst p) = t) ps = Some p \<Longrightarrow> p \<in> set ps" for p
    by (auto simp: find_Some_iff)
  show "\<exists>n. find (\<lambda>c. tag c = t) (children after) = Some n \<and> accepted allow delta o' n"
    if "find (\<lambda>c. tag c = t) (children before) = Some o'" "\<not> may_go (children before) (children after) t"
  proof -
    from that(1) have "\<not> may_appear (children before) (children after) t" by (auto simp: may_appear_def count_find)
    with both that pairs mem show ?thesis by fastforce
  qed
  show "\<exists>o'. find (\<lambda>c. tag c = t) (children before) = Some o' \<and> accepted allow delta o' n"
    if "find (\<lambda>c. tag c = t) (children after) = Some n" "\<not> may_appear (children before) (children after) t"
  proof -
    from that(1) have "\<not> may_go (children before) (children after) t" by (auto simp: may_go_def count_find)
    with both that pairs mem show ?thesis by fastforce
  qed
  show "\<exists>loc. bound_list_gone_reasons loc o' delta = []"
    if "find (\<lambda>c. tag c = t) (children before) = Some o'" "may_go (children before) (children after) t"
  proof -
    from that(1) have "o' \<in> set (children before)" "tag o' = t" by (auto simp: find_Some_iff)
    moreover from that(2) have "t \<notin> tag ` set (children after)" by (auto simp: may_go_def count_list_0_iff)
    ultimately show ?thesis using align_gone [OF al, of o'] that(2) by auto
  qed
  show "\<exists>loc. bound_list_new_reasons loc before n (children after) delta = []"
    if "find (\<lambda>c. tag c = t) (children after) = Some n" "may_appear (children before) (children after) t"
  proof -
    from that(1) have "n \<in> set (children after)" "tag n = t" by (auto simp: find_Some_iff)
    moreover from that(2) have "t \<notin> tag ` set (children before)" by (auto simp: may_appear_def count_list_0_iff)
    ultimately show ?thesis using align_new [OF al, of n] that(2) by auto
  qed
qed

section \<open>Entries of a list\<close>

lemma find_pairs:
  assumes "length old \<le> length new" and "\<And>p. p \<in> set (zip old new) \<Longrightarrow> (P (fst p) \<longleftrightarrow> P (snd p)) \<and> R (fst p) (snd p)"
    and "find P old = Some e"
  shows "\<exists>f. find P new = Some f \<and> R e f"
  using assms
proof (induction old arbitrary: new)
  case (Cons x old)
  then obtain y new' where new: "new = y # new'" by (cases new) auto
  show ?case
  proof (cases "P x")
    case True
    with Cons.prems new show ?thesis by force
  next
    case False
    with Cons.prems(2) [of "(x, y)"] new have "\<not> P y" by simp
    moreover have "\<exists>f. find P new' = Some f \<and> R e f"
      by (rule Cons.IH) (use Cons.prems new False in auto)
    ultimately show ?thesis using new by simp
  qed
qed simp

lemma grown_list_keeps:
  assumes "entries_reasons loc t before after = []" and "parsed before" and "parsed after"
    and "find (\<lambda>e. entry_id e = i) (children before) = Some e"
  shows "\<exists>f. find (\<lambda>e. entry_id e = i) (children after) = Some f \<and> same_content e f"
proof (rule find_pairs [OF _ _ assms(4)])
  show "length (children before) \<le> length (children after)"
    using assms(1) by (auto simp: entries_reasons_def Let_def split: if_splits)
  fix p assume p: "p \<in> set (zip (children before) (children after))"
  then obtain k where k: "(k, p) \<in> set (enumerate 0 (zip (children before) (children after)))"
    by (metis in_set_enumerate_eq in_set_conv_nth add_0_right diff_zero fst_conv le0 snd_conv)
  obtain o' n where on: "p = (o', n)" by (cases p)
  from assms(1) k on have "plain_signature o' = plain_signature n"
    by (fastforce simp: entries_reasons_def Let_def split: if_splits)
  moreover have "parsed o'" "parsed n" using p on assms(2,3) parsed_child by (meson set_zip_leftD set_zip_rightD)+
  ultimately show "(entry_id (fst p) = i \<longleftrightarrow> entry_id (snd p) = i) \<and> same_content (fst p) (snd p)"
    using on by (simp add: plain_signature_iff same_content_id)
qed

lemma match_kept:
  assumes "match_entries loc k old new = ([], lost, left)" and "e \<in> set old" and "entry_id e \<notin> set lost"
  shows "\<exists>f \<in> set new. entry_id f = entry_id e \<and> plain_signature e = plain_signature f"
  using assms
proof (induction loc k old new arbitrary: lost left rule: match_entries.induct)
  case (2 loc k entry old new)
  then show ?case by (fastforce split: list.splits if_splits prod.splits)
qed simp

lemma match_left:
  assumes "match_entries loc k old new = (rs, lost, left)" and "f \<in> set new"
  shows "entry_id f \<in> entry_id ` set old \<or> f \<in> set left"
  using assms
proof (induction loc k old new arbitrary: rs lost left rule: match_entries.induct)
  case (2 loc k entry old new)
  then show ?case by (fastforce split: list.splits if_splits prod.splits)
qed simp

lemma bound_list_cases:
  assumes "bound_list_reasons loc before after delta = []" and "parsed before" and "parsed after"
  obtains "same_content before after"
  | lost left where "match_entries loc 0 (children before) (children after) = ([], lost, left)"
    and "distinct (entry_ids after)"
    and "set lost \<subseteq> set (d_removable delta (tag before))"
    and "set (map entry_id left) \<subseteq> set (d_created delta (tag before))"
proof (cases "plain_signature before = plain_signature after")
  case True
  with assms that(1) show ?thesis by (simp add: plain_signature_iff)
next
  case False
  obtain rs lost left where m: "match_entries loc 0 (children before) (children after) = (rs, lost, left)" by (metis prod_cases3)
  have ok: "bound_entries_problem before (bound_entry_tag (tag before)) = None"
      "bound_entries_problem after (bound_entry_tag (tag before)) = None"
    using assms(1) False by (auto simp: bound_list_reasons_def split: option.splits)
  have "rs = []" "set lost \<subseteq> set (d_removable delta (tag before))"
      "set (map entry_id left) \<subseteq> set (d_created delta (tag before))"
    using assms(1) False ok m
    by (auto simp: bound_list_reasons_def Let_def filter_empty_conv split: if_splits)
  moreover have "distinct (entry_ids after)"
    using ok(2) by (auto simp: bound_entries_problem_def split: if_splits)
  ultimately show ?thesis using that(2) m by blast
qed

lemma bound_list_keeps:
  assumes "bound_list_reasons loc before after delta = []" and "parsed before" and "parsed after"
    and "find (\<lambda>e. entry_id e = i) (children before) = Some e" and "i \<notin> set (d_removable delta (tag before))"
  shows "\<exists>f. find (\<lambda>e. entry_id e = i) (children after) = Some f \<and> same_content e f"
  using assms(1-3)
proof (cases rule: bound_list_cases)
  case 1
  then have pairs: "list_all2 same_content (children before) (children after)" by (rule same_content_children)
  show ?thesis
  proof (rule find_pairs [OF _ _ assms(4)])
    fix p assume p: "p \<in> set (zip (children before) (children after))"
    then have "same_content (fst p) (snd p)" using pairs by (auto simp: list_all2_iff)
    moreover have "parsed (fst p)" "parsed (snd p)"
      using p assms(2,3) parsed_child by (metis prod.collapse set_zip_leftD, metis prod.collapse set_zip_rightD)
    ultimately show "(entry_id (fst p) = i \<longleftrightarrow> entry_id (snd p) = i) \<and> same_content (fst p) (snd p)"
      by (simp add: same_content_id)
  qed (use pairs in \<open>simp add: list_all2_lengthD\<close>)
next
  case (2 lost left)
  from assms(4) have e: "e \<in> set (children before)" "entry_id e = i" by (auto simp: find_Some_iff)
  with 2 assms(5) have "entry_id e \<notin> set lost" by auto
  with match_kept [OF 2(1) e(1)] obtain f where f: "f \<in> set (children after)" "entry_id f = i" "plain_signature e = plain_signature f"
    using e(2) by auto
  have "find (\<lambda>e. entry_id e = i) (children after) = Some f"
    using find_key_mem [of entry_id "children after" f] 2(2) f(1,2) by (simp add: entry_ids_def)
  moreover have "same_content e f"
    using f(1,3) e(1) assms(2,3) by (simp add: plain_signature_iff parsed_child)
  ultimately show ?thesis by blast
qed

lemma bound_list_adds:
  assumes "bound_list_reasons loc before after delta = []" and "parsed before" and "parsed after"
    and "find (\<lambda>e. entry_id e = i) (children before) = None" and "find (\<lambda>e. entry_id e = i) (children after) = Some f"
  shows "i \<in> set (d_created delta (tag before))"
  using assms(1-3)
proof (cases rule: bound_list_cases)
  case 1
  have f: "f \<in> set (children after)" "entry_id f = i" using assms(5) by (auto simp: find_Some_iff)
  with same_content_children [OF 1] obtain e where "e \<in> set (children before)" "same_content e f"
    by (metis in_set_conv_nth list_all2_conv_all_nth)
  with f assms(2,3) have "entry_id e = i" by (metis parsed_child same_content_id)
  with \<open>e \<in> set (children before)\<close> assms(4) show ?thesis by (auto simp: find_None_iff)
next
  case (2 lost left)
  have f: "f \<in> set (children after)" "entry_id f = i" using assms(5) by (auto simp: find_Some_iff)
  with match_left [OF 2(1) f(1)] assms(4) have "f \<in> set left" by (auto simp: find_None_iff)
  with f(2) 2(4) show ?thesis by auto
qed

lemma gone_removable:
  "bound_list_gone_reasons loc e delta = [] \<Longrightarrow> c \<in> set (children e) \<Longrightarrow> entry_id c \<in> set (d_removable delta (tag e))"
  by (auto simp: bound_list_gone_reasons_def Let_def entry_ids_def filter_empty_conv split: option.splits if_splits)

lemma new_created:
  "bound_list_new_reasons loc parent e siblings delta = [] \<Longrightarrow> c \<in> set (children e) \<Longrightarrow>
    entry_id c \<in> set (d_created delta (tag e))"
  by (auto simp: bound_list_new_reasons_def Let_def entry_ids_def list_ex_iff split: option.splits if_splits)

section \<open>Accepted documents\<close>

text \<open>The lists an edit may change: those that grow and those a section owns.\<close>

definition definition_list :: "string \<Rightarrow> bool" where
  "definition_list l \<longleftrightarrow> l \<in> set (map fst growable_head_lists) \<or> is_bound_list l"

lemma tag_facts:
  "\<not> is_bound_list head_tag" "\<not> is_bound_list mappingtable_tag"
  "tag e = head_tag \<Longrightarrow> entry_tag_of e = None" "tag e = mappingtable_tag \<Longrightarrow> entry_tag_of e = None"
  "head_tag \<noteq> body_tag"
  by (simp_all add: is_bound_list_def reference_bound_lists_def head_tag_def mappingtable_tag_def body_tag_def
      entry_tag_of_def growable_head_lists_def)

lemma find_zip_both:
  assumes "map tag olds = map tag news"
  shows "find (\<lambda>c. tag c = t) olds = map_option fst (find (\<lambda>p. tag (fst p) = t) (zip olds news))
    \<and> find (\<lambda>c. tag c = t) news = map_option snd (find (\<lambda>p. tag (fst p) = t) (zip olds news))"
  using map_eq_imp_length_eq [OF assms] assms
  by (induction olds news rule: list_induct2) simp_all

lemma find_zip_tags:
  assumes "map tag olds = map tag news"
  shows "find (\<lambda>c. tag c = t) olds = Some o' \<Longrightarrow> \<exists>n. find (\<lambda>c. tag c = t) news = Some n \<and> (o', n) \<in> set (zip olds news)"
    and "find (\<lambda>c. tag c = t) news = Some n \<Longrightarrow> \<exists>o'. find (\<lambda>c. tag c = t) olds = Some o' \<and> (o', n) \<in> set (zip olds news)"
proof -
  have mem: "find P ps = Some p \<Longrightarrow> p \<in> set ps" for P and ps :: "(xml \<times> xml) list" and p
    by (auto simp: find_Some_iff)
  note both = find_zip_both [OF assms, of t]
  show "find (\<lambda>c. tag c = t) olds = Some o' \<Longrightarrow> \<exists>n. find (\<lambda>c. tag c = t) news = Some n \<and> (o', n) \<in> set (zip olds news)"
    using both mem by fastforce
  show "find (\<lambda>c. tag c = t) news = Some n \<Longrightarrow> \<exists>o'. find (\<lambda>c. tag c = t) olds = Some o' \<and> (o', n) \<in> set (zip olds news)"
    using both mem by fastforce
qed

lemma find_outside_body:
  "find (\<lambda>c. tag c = head_tag) (parts_outside_body root) = first_child head_tag root"
proof -
  have "find (\<lambda>c. tag c = head_tag) (filter (\<lambda>c. tag c \<noteq> body_tag) cs) = find (\<lambda>c. tag c = head_tag) cs" for cs
    using tag_facts(5) by (induction cs) auto
  then show ?thesis by (simp add: parts_outside_body_def first_child_def)
qed

lemma accepted_parts:
  assumes "head_tail_reasons allow delta before after = []"
  shows "map tag (parts_outside_body before) = map tag (parts_outside_body after)"
    and "p \<in> set (zip (parts_outside_body before) (parts_outside_body after)) \<Longrightarrow> part_reasons allow delta p = []"
proof -
  show tags: "map tag (parts_outside_body before) = map tag (parts_outside_body after)"
    using assms by (auto simp: head_tail_reasons_def Let_def split: if_splits)
  show "p \<in> set (zip (parts_outside_body before) (parts_outside_body after)) \<Longrightarrow> part_reasons allow delta p = []"
    using assms tags by (auto simp: head_tail_reasons_def Let_def max_reasons_def)
qed

lemma accepted_mapping:
  assumes "head_tail_reasons allow delta before after = []" and "tag before \<noteq> head_tag" and "tag after \<noteq> head_tag"
  shows "mapping_lists before = [] \<and> mapping_lists after = []
    \<or> (\<exists>mb ma. mapping_lists before = children mb \<and> mapping_lists after = children ma \<and> accepted allow delta mb ma
        \<and> tag mb = mappingtable_tag \<and> (parsed before \<longrightarrow> parsed mb) \<and> (parsed after \<longrightarrow> parsed ma))"
proof -
  have child: "parsed c" if "parsed r" "first_child t r = Some c" for r t c
    using that by (auto simp: first_child_def find_Some_iff intro: parsed_child)
  have tagged: "tag c = t" if "first_child t r = Some c" for r t c
    using that by (auto simp: first_child_def find_Some_iff)
  note tags = accepted_parts(1) [OF assms(1)]
  show ?thesis
  proof (cases "first_child head_tag before")
    case None
    then have "first_child head_tag after = None"
      using find_zip_tags(2) [OF tags, of head_tag] by (fastforce simp: find_outside_body)
    with None show ?thesis using assms(2,3) by (simp add: mapping_lists_def head_of_def)
  next
    case (Some hb)
    then obtain ha where ha: "first_child head_tag after = Some ha"
        "(hb, ha) \<in> set (zip (parts_outside_body before) (parts_outside_body after))"
      using find_zip_tags(1) [OF tags, of head_tag] by (auto simp: find_outside_body)
    have hb: "tag hb = head_tag" by (rule tagged [OF Some])
    have "accepted allow delta hb ha"
      using accepted_parts(2) [OF assms(1) ha(2)] hb by (auto simp: part_reasons_def accepted_def)
    note first = accepted_first [OF this, unfolded hb, OF tag_facts(1) tag_facts(3) [OF hb], where t = mappingtable_tag]
    have not_bound: "\<not> may_go (children hb) (children ha) mappingtable_tag" "\<not> may_appear (children hb) (children ha) mappingtable_tag"
      using tag_facts(2) by (simp_all add: may_go_def may_appear_def)
    show ?thesis
    proof (cases "first_child mappingtable_tag hb")
      case None
      then have "first_child mappingtable_tag ha = None"
        using first(2) not_bound by (fastforce simp: first_child_def)
      with None Some ha show ?thesis using assms(2,3) by (simp add: mapping_lists_def head_of_def)
    next
      case (Some mb)
      then obtain ma where ma: "first_child mappingtable_tag ha = Some ma" "accepted allow delta mb ma"
        using first(1) not_bound by (auto simp: first_child_def)
      have "mapping_lists before = children mb" "mapping_lists after = children ma"
        using assms(2,3) \<open>first_child head_tag before = Some hb\<close> ha(1) Some ma(1)
        by (simp_all add: mapping_lists_def head_of_def)
      with ma Some tagged child \<open>first_child head_tag before = Some hb\<close> ha(1) show ?thesis by blast
    qed
  qed
qed

lemma accepted_list_keeps:
  assumes "accepted allow delta lb la" and "definition_list (tag lb)" and "parsed lb" and "parsed la"
    and "find (\<lambda>e. entry_id e = i) (children lb) = Some e"
    and "is_bound_list (tag lb) \<Longrightarrow> i \<notin> set (d_removable delta (tag lb))"
  shows "\<exists>f. find (\<lambda>e. entry_id e = i) (children la) = Some f \<and> same_content e f"
proof (cases "is_bound_list (tag lb)")
  case True
  with accepted_facts(2) [OF assms(1)] obtain loc where "bound_list_reasons loc lb la delta = []" by blast
  with bound_list_keeps assms(3-6) True show ?thesis by blast
next
  case False
  then have "entry_tag_of lb \<noteq> None"
    using assms(2) by (auto simp: definition_list_def entry_tag_of_def map_of_eq_None_iff split: option.splits list.splits)
  then obtain t where "entry_tag_of lb = Some t" by blast
  with accepted_facts(3) [OF assms(1) False] obtain loc where "entries_reasons loc t lb la = []" by blast
  with grown_list_keeps assms(3-5) show ?thesis by blast
qed

lemma definition_kept:
  assumes "head_tail_reasons allow delta before after = []" and "parsed before" and "parsed after"
    and "tag before \<noteq> head_tag" and "tag after \<noteq> head_tag" and "definition_list l"
    and "definition_at before l i = Some e" and "is_bound_list l \<Longrightarrow> i \<notin> set (d_removable delta l)"
  shows "\<exists>f. definition_at after l i = Some f \<and> same_content e f"
proof -
  from assms(7) obtain lb where lb: "find (\<lambda>c. tag c = l) (mapping_lists before) = Some lb"
      "find (\<lambda>e. entry_id e = i) (children lb) = Some e"
    by (auto simp: definition_at_def split: option.splits)
  then have tag: "tag lb = l" "lb \<in> set (mapping_lists before)" by (auto simp: find_Some_iff)
  from accepted_mapping [OF assms(1,4,5)] lb(1) obtain mb ma where m: "mapping_lists before = children mb"
      "mapping_lists after = children ma" "accepted allow delta mb ma" "tag mb = mappingtable_tag" "parsed mb" "parsed ma"
    using assms(2,3) by auto
  note first = accepted_first [OF m(3), unfolded m(4), OF tag_facts(2) tag_facts(4) [OF m(4)], where t = l]
  show ?thesis
  proof (cases "may_go (children mb) (children ma) l")
    case True
    with first(3) lb(1) m(1) obtain loc where "bound_list_gone_reasons loc lb delta = []" by auto
    moreover have "e \<in> set (children lb)" "entry_id e = i" using lb(2) by (auto simp: find_Some_iff)
    ultimately have "i \<in> set (d_removable delta l)" using gone_removable tag(1) by blast
    moreover have "is_bound_list l" using True by (simp add: may_go_def)
    ultimately show ?thesis using assms(8) by blast
  next
    case False
    with first(1) lb(1) m(1) obtain la where la: "find (\<lambda>c. tag c = l) (children ma) = Some la" "accepted allow delta lb la"
      by auto
    have "parsed lb" using parsed_child m(1,5) tag(2) by metis
    moreover have "parsed la" using parsed_child m(6) la(1) by (auto simp: find_Some_iff)
    ultimately have "\<exists>f. find (\<lambda>e. entry_id e = i) (children la) = Some f \<and> same_content e f"
      using accepted_list_keeps [OF la(2) _ _ _ lb(2)] assms(6,8) tag(1) by simp
    then show ?thesis using la(1) m(2) by (simp add: definition_at_def)
  qed
qed

lemma definition_added:
  assumes "head_tail_reasons allow delta before after = []" and "parsed before" and "parsed after"
    and "tag before \<noteq> head_tag" and "tag after \<noteq> head_tag" and "is_bound_list l"
    and "definition_at after l i = Some f" and "definition_at before l i = None"
  shows "i \<in> set (d_created delta l)"
proof -
  from assms(7) obtain la where la: "find (\<lambda>c. tag c = l) (mapping_lists after) = Some la"
      "find (\<lambda>e. entry_id e = i) (children la) = Some f"
    by (auto simp: definition_at_def split: option.splits)
  then have tag: "tag la = l" "la \<in> set (mapping_lists after)" by (auto simp: find_Some_iff)
  from accepted_mapping [OF assms(1,4,5)] la(1) obtain mb ma where m: "mapping_lists before = children mb"
      "mapping_lists after = children ma" "accepted allow delta mb ma" "tag mb = mappingtable_tag" "parsed mb" "parsed ma"
    using assms(2,3) by auto
  note first = accepted_first [OF m(3), unfolded m(4), OF tag_facts(2) tag_facts(4) [OF m(4)], where t = l]
  show ?thesis
  proof (cases "may_appear (children mb) (children ma) l")
    case True
    with first(4) la(1) m(2) obtain loc where "bound_list_new_reasons loc mb la (children ma) delta = []" by auto
    moreover have "f \<in> set (children la)" "entry_id f = i" using la(2) by (auto simp: find_Some_iff)
    ultimately show ?thesis using new_created tag(1) by blast
  next
    case False
    with first(2) la(1) m(2) obtain lb where lb: "find (\<lambda>c. tag c = l) (children mb) = Some lb" "accepted allow delta lb la"
      by auto
    have "find (\<lambda>e. entry_id e = i) (children lb) = None"
      using assms(8) lb(1) m(1) by (simp add: definition_at_def)
    moreover have "tag lb = l" "parsed lb" using lb(1) parsed_child [OF m(5)] by (auto simp: find_Some_iff)
    ultimately have lb': "tag lb = l" "parsed lb" "find (\<lambda>e. entry_id e = i) (children lb) = None" by simp_all
    have "parsed la" using parsed_child m(2,6) tag(2) by metis
    with accepted_facts(2) [OF lb(2)] bound_list_adds lb' la(2) assms(6) show ?thesis by metis
  qed
qed

lemma parts_kept:
  assumes "head_tail_reasons allow delta before after = []" and "parsed before" and "parsed after"
  shows "map (content tail_ignore []) (filter (\<lambda>c. tag c \<noteq> head_tag) (parts_outside_body after)) =
    map (content tail_ignore []) (filter (\<lambda>c. tag c \<noteq> head_tag) (parts_outside_body before))"
proof -
  have same: "content tail_ignore [] n = content tail_ignore [] o'"
    if "(o', n) \<in> set (zip (parts_outside_body before) (parts_outside_body after))" "tag o' \<noteq> head_tag" for o' n
  proof -
    have "o' \<in> set (children before)" "n \<in> set (children after)"
      using set_zip_leftD [OF that(1)] set_zip_rightD [OF that(1)] by (simp_all add: parts_outside_body_def)
    then have "parsed o'" "parsed n" using parsed_child assms(2,3) by blast+
    moreover have "signature tail_ignore [] o' = signature tail_ignore [] n"
      using accepted_parts(2) [OF assms(1) that(1)] that(2) by (simp add: part_reasons_def split: if_splits)
    ultimately show ?thesis using signature_content by (simp add: parsed_def)
  qed
  have "map (content tail_ignore []) (filter (\<lambda>c. tag c \<noteq> head_tag) news) =
      map (content tail_ignore []) (filter (\<lambda>c. tag c \<noteq> head_tag) olds)"
    if "map tag olds = map tag news"
      "\<And>o' n. (o', n) \<in> set (zip olds news) \<Longrightarrow> tag o' \<noteq> head_tag \<Longrightarrow> content tail_ignore [] n = content tail_ignore [] o'"
    for olds news
    using map_eq_imp_length_eq [OF that(1)] that by (induction olds news rule: list_induct2) auto
  with accepted_parts(1) [OF assms(1)] same show ?thesis by blast
qed

section \<open>A section is deleted\<close>

definition numbering :: "string \<Rightarrow> xml" where
  "numbering i = Elem ''NUMBERING'' [(''Id'', i)] [] [Elem ''PARAHEAD'' [(''Level'', ''1'')] ''^1.'' [] []] []"

definition sample_document :: "xml list \<Rightarrow> xml list \<Rightarrow> xml list \<Rightarrow> xml" where
  "sample_document shapes numberings secdefs = Elem ''HWPML'' [] []
    [Elem ''HEAD'' [] [] [Elem ''MAPPINGTABLE'' [] []
       [Elem ''CHARSHAPELIST'' [(''Count'', nat_digits (length shapes))] [] shapes [],
        Elem ''NUMBERINGLIST'' [(''Count'', nat_digits (length numberings))] [] numberings []] []] [],
     Elem ''BODY'' [] [] secdefs [], Elem ''TAIL'' [] [] [] []] []"

definition secdef :: "string \<Rightarrow> xml" where
  "secdef i = Elem ''SECDEF'' [(''OutlineShape'', i)] [] [] []"

definition two_sections :: xml where
  "two_sections = sample_document [Elem ''CHARSHAPE'' [(''Id'', ''0'')] [] [] []] [numbering ''1'', numbering ''2''] [secdef ''1'', secdef ''2'']"

definition one_section :: xml where
  "one_section = sample_document [Elem ''CHARSHAPE'' [(''Id'', ''0'')] [] [] [], Elem ''CHARSHAPE'' [(''Id'', ''1'')] [] [] []]
    [numbering ''1''] [secdef ''1'']"

lemma sample_accepted:
  "head_tail_reasons (\<lambda>_. []) (section_delete_definitions two_sections one_section (secdef ''2'') 1) two_sections one_section = []"
  by code_simp

lemma sample_parsed: "parsed two_sections" "parsed one_section"
  by code_simp+

lemma sample_definition: "definition_at two_sections ''NUMBERINGLIST'' ''1'' = Some (numbering ''1'')"
  by code_simp

lemma sample_lists:
  "definition_list ''NUMBERINGLIST''" "is_bound_list ''NUMBERINGLIST''" "tag two_sections \<noteq> head_tag" "tag one_section \<noteq> head_tag"
  "''1'' \<notin> set (d_removable (section_delete_definitions two_sections one_section (secdef ''2'') 1) ''NUMBERINGLIST'')"
  by code_simp+

section \<open>Properties\<close>

text \<open>
  C11. Two elements as a parser returns them have the same signature exactly when they are alike: the same tag
  and text, the same attributes in whatever order apart from the ignored ones, and alike children with the same tails.
  The printed form that the exact verifiers compare, attribute values and texts quoted, confuses no two elements.
\<close>

theorem signature_equal_iff:
  assumes "parsed e" and "parsed f"
  shows "signature ig om e = signature ig om f \<longleftrightarrow> alike ig om e f"
  using assms content_alike [OF assms] by (simp add: signature_content parsed_def)

lemma signature_equal_iff_witness:
  "signature [] [] (Elem ''P'' [(''b'', ''it is''), (''a'', ''1''), (''InstId'', ''7'')] ''x'' [] []) =
     signature [] [] (Elem ''P'' [(''a'', ''1''), (''b'', ''it is'')] ''x'' [] ''y'')
   \<and> signature [] [] (Elem ''P'' [(''a'', ''1'')] [] [Elem ''T'' [] [] [] [], Elem ''T'' [] ''x'' [] []] []) \<noteq>
     signature [] [] (Elem ''P'' [(''a'', ''1'')] [] [Elem ''T'' [] ''x'' [] [], Elem ''T'' [] [] [] []] [])"
proof -
  note parsed = parsed_def tag_ok_def
  have "parsed (Elem ''P'' [(''b'', ''it is''), (''a'', ''1''), (''InstId'', ''7'')] ''x'' [] [])"
      "parsed (Elem ''P'' [(''a'', ''1''), (''b'', ''it is'')] ''x'' [] ''y'')" by (simp_all add: parsed)
  note one = signature_equal_iff [OF this, where ig = "[]" and om = "[]"]
  have "parsed (Elem ''P'' [(''a'', ''1'')] [] [Elem ''T'' [] [] [] [], Elem ''T'' [] ''x'' [] []] [])"
      "parsed (Elem ''P'' [(''a'', ''1'')] [] [Elem ''T'' [] ''x'' [] [], Elem ''T'' [] [] [] []] [])" by (simp_all add: parsed)
  note two = signature_equal_iff [OF this, where ig = "[]" and om = "[]"]
  show ?thesis unfolding one two by (auto simp: volatile_def ignored_def)
qed





end
