(* ===== verification/ObjectPlan.thy ===== *)
theory ObjectPlan
  imports HwpmlSection Json
begin

text \<open>
  Requests of object_insert_exact (app/object_insert.py): the kinds of objects, the validation of a
  step into a plan, and what the native engine is given for it. A plan's fields that only one kind has
  are its \<open>payload\<close>. \<open>urlsplit\<close> of the standard library is the parameter \<open>url_parts\<close>: scheme, host part and path, or
  no value where it raises \<open>ValueError\<close>. Products of floats are rounded to doubles as written out below (without
  overflow, which the accepted sizes exclude).
\<close>

section \<open>Floating point\<close>

definition round_even :: "rat \<Rightarrow> int" where
  "round_even q =
    (let f = \<lfloor>q\<rfloor>; r = q - of_int f in
     if r < 1 / 2 then f else if 1 / 2 < r then f + 1 else if even f then f else f + 1)"

function binary_digits :: "int \<Rightarrow> int" where
  "binary_digits n = (if n \<le> 0 then 0 else 1 + binary_digits (n div 2))"
  by pat_completeness auto

termination
  by (relation "measure nat") auto

declare binary_digits.simps [simp del]

definition power_of_two :: "int \<Rightarrow> rat" where
  "power_of_two k = (if 0 \<le> k then 2 ^ nat k else 1 / 2 ^ nat (- k))"

text \<open>The exponent of the leading binary digit of a positive rational.\<close>

definition exponent_of :: "rat \<Rightarrow> int" where
  "exponent_of x = (if 1 \<le> x then binary_digits \<lfloor>x\<rfloor> - 1 else - binary_digits (\<lceil>1 / x\<rceil> - 1))"

text \<open>Rounding to a double: 53 binary digits, the smallest exponent of the normal numbers.\<close>

definition double :: "rat \<Rightarrow> rat" where
  "double x =
    (if x = 0 then 0
     else let u = power_of_two (max (exponent_of \<bar>x\<bar>) (- 1022) - 52) in of_int (round_even (x / u)) * u)"

definition float_times :: "int \<Rightarrow> rat \<Rightarrow> rat" where
  "float_times n x = double (double (of_int n) * x)"

definition hwpunit_per_mm :: rat where
  "hwpunit_per_mm = double (7200 / double (254 / 10))"

definition mm_to_hwpunit :: "rat \<Rightarrow> int" where
  "mm_to_hwpunit v = round_even (double (v * hwpunit_per_mm))"

section \<open>Kinds\<close>

datatype object_kind =
  Footnote | Endnote | Memo | Hyperlink | Bookmark | Equation | Line | Rectangle | Ellipse | Header | Footer

definition kind_names :: "(string \<times> object_kind) list" where
  "kind_names = [(''footnote'', Footnote), (''endnote'', Endnote), (''memo'', Memo), (''hyperlink'', Hyperlink),
    (''bookmark'', Bookmark), (''equation'', Equation), (''line'', Line), (''rectangle'', Rectangle),
    (''ellipse'', Ellipse), (''header'', Header), (''footer'', Footer)]"

definition kind_tag :: "object_kind \<Rightarrow> string \<times> string option" where
  "kind_tag k =
    (case k of
       Footnote \<Rightarrow> (''FOOTNOTE'', None) | Endnote \<Rightarrow> (''ENDNOTE'', None)
     | Memo \<Rightarrow> (''FIELDBEGIN'', Some ''Memo'') | Hyperlink \<Rightarrow> (''FIELDBEGIN'', Some ''Hyperlink'')
     | Bookmark \<Rightarrow> (''BOOKMARK'', None) | Equation \<Rightarrow> (''EQUATION'', None)
     | Line \<Rightarrow> (''LINE'', None) | Rectangle \<Rightarrow> (''RECTANGLE'', None) | Ellipse \<Rightarrow> (''ELLIPSE'', None)
     | Header \<Rightarrow> (''HEADER'', None) | Footer \<Rightarrow> (''FOOTER'', None))"

definition shape_kinds :: "object_kind list" where
  "shape_kinds = [Line, Rectangle, Ellipse]"

definition kind_params :: "object_kind \<Rightarrow> string list" where
  "kind_params k =
    (case k of
       Hyperlink \<Rightarrow> [''url'', ''display_text''] | Bookmark \<Rightarrow> [''name''] | Equation \<Rightarrow> [''script'']
     | Line \<Rightarrow> [''width_mm'', ''height_mm'', ''treat_as_char''] | Rectangle \<Rightarrow> [''width_mm'', ''height_mm'', ''treat_as_char'']
     | Ellipse \<Rightarrow> [''width_mm'', ''height_mm'', ''treat_as_char'']
     | Header \<Rightarrow> [''text'', ''apply_to''] | Footer \<Rightarrow> [''text'', ''apply_to''] | _ \<Rightarrow> [''text''])"

definition param_keys :: "string list" where
  "param_keys = [''apply_to'', ''display_text'', ''height_mm'', ''name'', ''script'', ''text'', ''treat_as_char'', ''url'', ''width_mm'']"

definition field_companions :: "(string \<times> int) list" where
  "field_companions = [(''FIELDEND'', 1)]"

definition apply_page_types :: "(string \<times> string) list" where
  "apply_page_types = [(''both'', ''Both''), (''even'', ''Even''), (''odd'', ''Odd'')]"

text \<open>The native entry point: its action, whether it is run or executed with a parameter set, whether the text is typed
  and the new object closed afterwards.\<close>

definition insert_action :: "object_kind \<Rightarrow> string" where
  "insert_action k =
    (case k of
       Footnote \<Rightarrow> ''InsertFootnote'' | Endnote \<Rightarrow> ''InsertEndnote'' | Memo \<Rightarrow> ''InsertFieldMemo''
     | Hyperlink \<Rightarrow> ''InsertHyperlink'' | Bookmark \<Rightarrow> ''Bookmark'' | Equation \<Rightarrow> ''EquationCreate''
     | Line \<Rightarrow> ''DrawObjCreatorLine'' | Rectangle \<Rightarrow> ''DrawObjCreatorRectangle'' | Ellipse \<Rightarrow> ''DrawObjCreatorEllipse''
     | Header \<Rightarrow> ''HeaderFooter'' | Footer \<Rightarrow> ''HeaderFooter'')"

definition runs_directly :: "object_kind \<Rightarrow> bool" where
  "runs_directly k \<longleftrightarrow> k \<in> {Footnote, Endnote, Memo}"

definition types_text :: "object_kind \<Rightarrow> bool" where
  "types_text k \<longleftrightarrow> k \<in> {Footnote, Endnote, Memo, Header, Footer}"

definition closes_after :: "object_kind \<Rightarrow> bool" where
  "closes_after k \<longleftrightarrow> k \<in> {Footnote, Endnote, Memo, Header, Footer}"

definition min_drawn_hu :: "object_kind \<Rightarrow> int" where
  "min_drawn_hu k = (if k = Ellipse then 2 else 1)"

datatype selection_policy = NoSelection | SelectionRequired | SelectionOptional

definition policy_of :: "object_kind \<Rightarrow> selection_policy" where
  "policy_of k = (case k of Hyperlink \<Rightarrow> SelectionRequired | Memo \<Rightarrow> SelectionOptional | _ \<Rightarrow> NoSelection)"

section \<open>Plans\<close>

datatype payload =
    NoteText string
  | LinkTo string string
  | MarkName string
  | EquationScript string
  | Drawn rat rat bool int int
  | PageText string string

record object_plan =
  op_kind :: object_kind
  op_pos :: "int list"
  op_payload :: payload

definition plan_text :: "object_plan \<Rightarrow> string option" where
  "plan_text p = (case op_payload p of NoteText t \<Rightarrow> Some t | PageText t _ \<Rightarrow> Some t | _ \<Rightarrow> None)"

definition control_key_for :: "string \<Rightarrow> string option \<Rightarrow> string" where
  "control_key_for t field_type = (if t = ''FIELDBEGIN'' then t @ '':'' @ attr_or_empty field_type else t)"

definition plan_key :: "object_plan \<Rightarrow> string" where
  "plan_key p = (case kind_tag (op_kind p) of (t, field_type) \<Rightarrow> control_key_for t field_type)"

definition plan_companions :: "object_plan \<Rightarrow> (string \<times> int) list" where
  "plan_companions p = (if fst (kind_tag (op_kind p)) = ''FIELDBEGIN'' then field_companions else [])"

text \<open>
  \<open>ObjectInsertError\<close> by its messages; \<open>UrlNotSplit\<close>, \<open>NumberTooLarge\<close> and \<open>NotHashable\<close> are the other exceptions
  the validation can raise (\<open>ValueError\<close> of urlsplit, \<open>OverflowError\<close> of a huge integer, \<open>TypeError\<close>).
\<close>

datatype object_error =
    KindUnknown | InsertNotConfirmed | FieldsOfOtherKinds "string list" | PositionShape | PositionEntries
  | NotText string | TooLong string nat | ControlCharacters string
  | UrlBreaksCommand | UrlScheme | UrlWithoutHost | UrlWithoutAddress
  | NotMillimetres string | OutOfMillimetres string | LineWithoutExtent | ExtentsNeeded object_kind
  | NotABoolean | ExtentTooSmall string int | PagesUnknown
  | NoReadbackText | ReadbackMalformed | TextOutsideRuns | HeaderFooterExists string | BookmarkTaken | NoDrawingLayout
  | UrlNotSplit | NumberTooLarge | NotHashable

definition is_object_error :: "object_error \<Rightarrow> bool" where
  "is_object_error e \<longleftrightarrow> e \<notin> {UrlNotSplit, NumberTooLarge, NotHashable}"

definition error_code :: "object_error \<Rightarrow> string" where
  "error_code e =
    (case e of
       TextOutsideRuns \<Rightarrow> ''unverifiable_layout'' | NoDrawingLayout \<Rightarrow> ''unverifiable_layout''
     | HeaderFooterExists _ \<Rightarrow> ''existing_header_footer'' | BookmarkTaken \<Rightarrow> ''bookmark_exists'' | _ \<Rightarrow> ''invalid_request'')"

type_synonym 'a object_checked = "object_error + 'a"

definition if_ok :: "'a object_checked \<Rightarrow> ('a \<Rightarrow> 'b object_checked) \<Rightarrow> 'b object_checked" where
  "if_ok r f = (case r of Inl e \<Rightarrow> Inl e | Inr x \<Rightarrow> f x)"

definition ensure :: "bool \<Rightarrow> object_error \<Rightarrow> unit object_checked" where
  "ensure b e = (if b then Inr () else Inl e)"

section \<open>Validation\<close>

definition max_text :: nat where "max_text = 2000"
definition max_url :: nat where "max_url = 2000"
definition max_bookmark :: nat where "max_bookmark = 40"
definition max_script :: nat where "max_script = 4000"

definition is_control_char :: "char \<Rightarrow> bool" where
  "is_control_char c \<longleftrightarrow> (of_char c :: nat) < 32 \<or> (127 \<le> (of_char c :: nat) \<and> (of_char c :: nat) < 160)"

definition has_control_chars :: "string \<Rightarrow> string \<Rightarrow> bool" where
  "has_control_chars allow s \<longleftrightarrow> list_ex (\<lambda>c. is_control_char c \<and> c \<notin> set allow) s"

definition text_field :: "fields \<Rightarrow> string \<Rightarrow> nat \<Rightarrow> string \<Rightarrow> string object_checked" where
  "text_field step key max_chars allow =
    (case get step key of
       JStr s \<Rightarrow>
         if \<not> nonblank s then Inl (NotText key)
         else if max_chars < length s then Inl (TooLong key max_chars)
         else if has_control_chars allow s then Inl (ControlCharacters key)
         else Inr s
     | _ \<Rightarrow> Inl (NotText key))"

type_synonym url_split = "string \<Rightarrow> (string \<times> string \<times> string) option"

definition url_field :: "url_split \<Rightarrow> string \<Rightarrow> string object_checked" where
  "url_field url_parts s =
    (if list_ex py_space s \<or> CHR '';'' \<in> set s \<or> CHR ''|'' \<in> set s then Inl UrlBreaksCommand
     else case url_parts s of
       None \<Rightarrow> Inl UrlNotSplit
     | Some (scheme, netloc, path) \<Rightarrow>
       let scheme = py_lower scheme in
       if scheme \<notin> {''http'', ''https'', ''mailto''} then Inl UrlScheme
       else if scheme \<in> {''http'', ''https''} \<and> netloc = [] then Inl UrlWithoutHost
       else if scheme = ''mailto'' \<and> path = [] then Inl UrlWithoutAddress
       else Inr s)"

text \<open>The smallest integers that no double is near to.\<close>

definition float_overflows :: "int \<Rightarrow> bool" where
  "float_overflows n \<longleftrightarrow> 2 ^ 1024 - 2 ^ 970 \<le> \<bar>n\<bar>"

definition mm_field :: "fields \<Rightarrow> string \<Rightarrow> rat object_checked" where
  "mm_field step key =
    (case get step key of
       JInt n \<Rightarrow> if float_overflows n then Inl NumberTooLarge
         else if 0 \<le> n \<and> n \<le> 1000 then Inr (of_int n) else Inl (OutOfMillimetres key)
     | JReal x \<Rightarrow> if 0 \<le> x \<and> x \<le> 1000 then Inr x else Inl (OutOfMillimetres key)
     | _ \<Rightarrow> Inl (NotMillimetres key))"

fun position_entries :: "json list \<Rightarrow> int list option" where
  "position_entries [] = Some []"
| "position_entries (v # vs) =
    (case v of
       JInt n \<Rightarrow> if n < 0 then None else map_option ((#) n) (position_entries vs)
     | _ \<Rightarrow> None)"

definition normalize_expected_pos :: "json \<Rightarrow> int list object_checked" where
  "normalize_expected_pos v =
    (case v of
       JList xs \<Rightarrow> if length xs \<noteq> 3 then Inl PositionShape
         else (case position_entries xs of None \<Rightarrow> Inl PositionEntries | Some ns \<Rightarrow> Inr ns)
     | _ \<Rightarrow> Inl PositionShape)"

definition treat_field :: "fields \<Rightarrow> bool object_checked" where
  "treat_field step = (case get step ''treat_as_char'' of JNull \<Rightarrow> Inr True | JBool b \<Rightarrow> Inr b | _ \<Rightarrow> Inl NotABoolean)"

definition extent_ok :: "object_kind \<Rightarrow> string \<times> rat \<Rightarrow> unit object_checked" where
  "extent_ok k field =
    ensure (\<not> (0 < snd field \<and> mm_to_hwpunit (snd field) < min_drawn_hu k)) (ExtentTooSmall (fst field) (mm_to_hwpunit (snd field)))"

definition shape_payload :: "object_kind \<Rightarrow> fields \<Rightarrow> payload object_checked" where
  "shape_payload k step =
    if_ok (mm_field step ''width_mm'') (\<lambda>w.
    if_ok (mm_field step ''height_mm'') (\<lambda>h.
    if_ok (ensure (\<not> (k = Line \<and> w = 0 \<and> h = 0)) LineWithoutExtent) (\<lambda>_.
    if_ok (ensure (\<not> (k \<noteq> Line \<and> (w = 0 \<or> h = 0))) (ExtentsNeeded k)) (\<lambda>_.
    if_ok (treat_field step) (\<lambda>treat.
    if_ok (extent_ok k (''width_mm'', w)) (\<lambda>_.
    if_ok (extent_ok k (''height_mm'', h)) (\<lambda>_.
      Inr (Drawn w h treat (mm_to_hwpunit w) (mm_to_hwpunit h)))))))))"

definition pages_field :: "fields \<Rightarrow> string object_checked" where
  "pages_field step =
    (let v = get step ''apply_to'' in
     if \<not> truthy v then Inr ''both''
     else case v of
       JStr s \<Rightarrow> if s \<in> set (map fst apply_page_types) then Inr s else Inl PagesUnknown
     | JList _ \<Rightarrow> Inl NotHashable
     | JObj _ \<Rightarrow> Inl NotHashable
     | _ \<Rightarrow> Inl PagesUnknown)"

definition payload_of :: "url_split \<Rightarrow> object_kind \<Rightarrow> fields \<Rightarrow> payload object_checked" where
  "payload_of url_parts k step =
    (case k of
       Hyperlink \<Rightarrow>
         if_ok (text_field step ''url'' max_url []) (\<lambda>u.
         if_ok (url_field url_parts u) (\<lambda>u.
         if_ok (text_field step ''display_text'' max_text []) (\<lambda>d. Inr (LinkTo u d))))
     | Bookmark \<Rightarrow> if_ok (text_field step ''name'' max_bookmark []) (\<lambda>n. Inr (MarkName n))
     | Equation \<Rightarrow> if_ok (text_field step ''script'' max_script [CHR 0x0A, CHR 0x09]) (\<lambda>s. Inr (EquationScript s))
     | Line \<Rightarrow> shape_payload k step | Rectangle \<Rightarrow> shape_payload k step | Ellipse \<Rightarrow> shape_payload k step
     | Header \<Rightarrow> if_ok (text_field step ''text'' max_text []) (\<lambda>t. if_ok (pages_field step) (\<lambda>a. Inr (PageText t a)))
     | Footer \<Rightarrow> if_ok (text_field step ''text'' max_text []) (\<lambda>t. if_ok (pages_field step) (\<lambda>a. Inr (PageText t a)))
     | _ \<Rightarrow> if_ok (text_field step ''text'' max_text []) (\<lambda>t. Inr (NoteText t)))"

definition kind_field :: "fields \<Rightarrow> object_kind object_checked" where
  "kind_field step =
    (case get step ''kind'' of
       JStr s \<Rightarrow> (case map_of kind_names s of None \<Rightarrow> Inl KindUnknown | Some k \<Rightarrow> Inr k)
     | _ \<Rightarrow> Inl KindUnknown)"

definition stray_fields :: "object_kind \<Rightarrow> fields \<Rightarrow> string list" where
  "stray_fields k step = filter (\<lambda>key. key \<notin> set (kind_params k) \<and> get step key \<noteq> JNull) param_keys"

definition normalize_step :: "url_split \<Rightarrow> fields \<Rightarrow> object_plan object_checked" where
  "normalize_step url_parts step =
    if_ok (kind_field step) (\<lambda>k.
    if_ok (ensure (get step ''confirm_mutation'' = JBool True) InsertNotConfirmed) (\<lambda>_.
    if_ok (ensure (stray_fields k step = []) (FieldsOfOtherKinds (stray_fields k step))) (\<lambda>_.
    if_ok (normalize_expected_pos (get step ''expected_pos'')) (\<lambda>pos.
    if_ok (payload_of url_parts k step) (\<lambda>load.
      Inr \<lparr>op_kind = k, op_pos = pos, op_payload = load\<rparr>)))))"

section \<open>What the engine is given\<close>

datatype native_item = TextItem string | NumberItem int

definition page_value :: "string \<Rightarrow> int" where
  "page_value pages = (if pages = ''both'' then 0 else if pages = ''even'' then 1 else 2)"

definition native_items :: "object_plan \<Rightarrow> (string \<times> native_item) list" where
  "native_items p =
    (case op_payload p of
       LinkTo url _ \<Rightarrow> [(''Command'', TextItem (url @ '';1;0;0;''))]
     | MarkName n \<Rightarrow> [(''Name'', TextItem n)]
     | EquationScript s \<Rightarrow> [(''string'', TextItem s), (''Version'', TextItem ''Equation Version 60'')]
     | Drawn _ _ treat w h \<Rightarrow> [(''Width'', NumberItem w), (''Height'', NumberItem h), (''TreatAsChar'', NumberItem (if treat then 1 else 0))]
     | PageText _ pages \<Rightarrow>
         (let which = NumberItem (if op_kind p = Header then 0 else 1)
          in [(''HeaderFooterCtrlType'', which), (''CtrlType'', which), (''Type'', NumberItem (page_value pages))])
     | NoteText _ \<Rightarrow> [])"

text \<open>\<open>drawing_support_reason\<close>: whether the request is refused for want of a drawing contract.\<close>

definition drawing_unsupported :: "object_plan \<Rightarrow> bool" where
  "drawing_unsupported p =
    (case op_payload p of Drawn _ _ _ w h \<Rightarrow> op_kind p = Line \<and> w \<noteq> 0 \<and> h \<noteq> 0 | _ \<Rightarrow> False)"

definition drawing_points :: "object_plan \<Rightarrow> (nat \<times> int list) option" where
  "drawing_points p =
    (case op_payload p of
       Drawn _ _ _ w h \<Rightarrow>
         if op_kind p = Rectangle then Some (4, [0, 0, w, 0, w, h, 0, h])
         else if op_kind p = Ellipse then Some (3, [w div 2, h div 2, w, h div 2, w div 2, 0])
         else if op_kind p = Line \<and> \<not> (w \<noteq> 0 \<and> h \<noteq> 0) then Some (2, [0, 0, w, h])
         else None
     | _ \<Rightarrow> None)"

definition kind_name :: "object_kind \<Rightarrow> string" where
  "kind_name k = (case find (\<lambda>p. snd p = k) kind_names of Some p \<Rightarrow> fst p | None \<Rightarrow> [])"

definition placed_word :: "bool \<Rightarrow> string" where
  "placed_word treat = (if treat then ''inline'' else ''floating'')"

definition undo_variant :: "object_plan \<Rightarrow> bool \<Rightarrow> string" where
  "undo_variant p selected =
    (case op_payload p of
       Drawn w h treat _ _ \<Rightarrow>
         if op_kind p = Line then
           (if h = 0 then ''line:horizontal_'' @ placed_word treat
            else if w = 0 then ''line:vertical_'' @ placed_word treat
            else ''line:diagonal'')
         else kind_name (op_kind p) @ '':'' @ placed_word treat
     | PageText _ pages \<Rightarrow> kind_name (op_kind p) @ '':'' @ pages
     | _ \<Rightarrow> if op_kind p = Memo \<and> selected then ''memo:selection'' else kind_name (op_kind p))"

definition undo_steps :: "(string \<times> nat) list" where
  "undo_steps = [(''footnote'', 2), (''endnote'', 2), (''bookmark'', 1), (''equation'', 1),
    (''line:horizontal_inline'', 1), (''line:horizontal_floating'', 1), (''line:vertical_inline'', 1), (''line:vertical_floating'', 1),
    (''rectangle:inline'', 1), (''rectangle:floating'', 1), (''ellipse:inline'', 1), (''ellipse:floating'', 1),
    (''header:both'', 2), (''header:odd'', 2), (''header:even'', 2), (''footer:both'', 2), (''footer:odd'', 2), (''footer:even'', 2)]"

end
