(* ===== verification/ObjectInsert.thy ===== *)
theory ObjectInsert
  imports ObjectPlan
begin

text \<open>
  The proof that a document changed by exactly one inserted object (app/object_insert.py): the census of
  the controls, the document-order tokens of a container, the descent to the changed place, the checks of the new
  object and the verdict. An element beside a token is the element itself. \<open>read_float\<close> is \<open>float(text)\<close> for finite values.
\<close>

section \<open>Controls and text\<close>

definition control_tags :: "string list" where
  "control_tags = [''TABLE'', ''PICTURE'', ''LINE'', ''RECTANGLE'', ''ELLIPSE'', ''ARC'', ''POLYGON'', ''CURVE'', ''CONNECTLINE'',
    ''UNKNOWNOBJECT'', ''CONTAINER'', ''OLE'', ''EQUATION'', ''TEXTART'', ''BUTTON'', ''RADIOBUTTON'', ''CHECKBUTTON'',
    ''COMBOBOX'', ''EDIT'', ''LISTBOX'', ''SCROLLBAR'', ''FIELDBEGIN'', ''FIELDEND'', ''BOOKMARK'', ''HEADER'', ''FOOTER'',
    ''FOOTNOTE'', ''ENDNOTE'', ''AUTONUM'', ''NEWNUM'', ''PAGENUMCTRL'', ''PAGEHIDING'', ''PAGENUM'', ''INDEXMARK'',
    ''COMPOSE'', ''DUTMAL'', ''HIDDENCOMMENT'', ''SECDEF'', ''COLDEF'']"

definition control_key :: "xml \<Rightarrow> string option" where
  "control_key e =
    (if tag e \<notin> set control_tags then None
     else Some (control_key_for (tag e) (if tag e = ''FIELDBEGIN'' then get_attr e ''Type'' else None)))"

definition body_of :: "xml \<Rightarrow> xml" where
  "body_of doc =
    (if tag doc = body_tag then doc else case find_below doc body_tag of Some b \<Rightarrow> b | None \<Rightarrow> doc)"

text \<open>The walk of \<open>summarize\<close>: control keys, text for the enclosing paragraph, finished paragraphs, CHAR elements.\<close>

record census =
  z_keys :: "string list"
  z_run :: string
  z_paragraphs :: "string list"
  z_chars :: nat

definition key_list :: "xml \<Rightarrow> string list" where
  "key_list e = (case control_key e of None \<Rightarrow> [] | Some k \<Rightarrow> [k])"

definition join_census :: "census list \<Rightarrow> census" where
  "join_census zs = \<lparr>z_keys = concat (map z_keys zs), z_run = concat (map z_run zs),
    z_paragraphs = concat (map z_paragraphs zs), z_chars = sum_list (map z_chars zs)\<rparr>"

fun walk :: "bool \<Rightarrow> xml \<Rightarrow> census" where
  "walk in_paragraph (Elem t a x cs z) =
    (let e = Elem t a x cs z in
     if t = ''P'' then
       (let own = join_census (map (walk True) cs)
        in own\<lparr>z_keys := key_list e @ z_keys own, z_run := [], z_paragraphs := z_paragraphs own @ [z_run own]\<rparr>)
     else if t = ''CHAR'' \<and> in_paragraph then
       \<lparr>z_keys = concat (map key_list (iter_all e)), z_run = inner_text e, z_paragraphs = [], z_chars = 1\<rparr>
     else
       (let own = join_census (map (walk in_paragraph) cs) in own\<lparr>z_keys := key_list e @ z_keys own\<rparr>))"

record summary =
  y_keys :: "string list"
  y_text :: string
  y_chars :: nat

definition norm_text :: "string \<Rightarrow> string" where
  "norm_text s = py_join '' '' (py_words s)"

definition summarize :: "xml \<Rightarrow> summary" where
  "summarize doc =
    (let z = walk False (body_of doc)
     in \<lparr>y_keys = z_keys z, y_text = norm_text (py_join '' '' (z_paragraphs z)), y_chars = z_chars z\<rparr>)"

definition element_text :: "xml \<Rightarrow> string" where
  "element_text e = norm_text (inner_text e)"

section \<open>Tokens\<close>

datatype token =
    OpenTag string "(string \<times> string) list"
  | CloseTag string
  | RunChar char "string option"
  | ControlToken string string

type_synonym item = "token \<times> xml option"

definition run_chars :: "string \<Rightarrow> string option \<Rightarrow> item list" where
  "run_chars s shape = map (\<lambda>c. (RunChar c shape, None)) s"

fun lin :: "string option \<Rightarrow> bool \<Rightarrow> xml \<Rightarrow> item list" where
  "lin shape in_run (Elem t a x cs z) =
    (let e = Elem t a x cs z in
     case control_key e of
       Some key \<Rightarrow> [(ControlToken key (plain_signature e), Some e)]
     | None \<Rightarrow>
       (let structural = t \<noteq> ''CHAR'' \<and> t \<noteq> ''TEXT'';
            inner_shape = (if t = ''TEXT'' then (case get_attr e ''CharShape'' of None \<Rightarrow> shape | Some s \<Rightarrow> Some s) else shape);
            run = in_run \<or> t = ''CHAR''
        in (if structural then [(OpenTag t (attrs [] e), None)] else [])
         @ (if t = ''CHAR'' then run_chars x inner_shape else [])
         @ concat (map (\<lambda>c. lin inner_shape run c @ (if run then run_chars (tail c) inner_shape else [])) cs)
         @ (if structural then [(CloseTag t, None)] else [])))"

definition linearize :: "xml \<Rightarrow> item list" where
  "linearize container = concat (map (lin None False) (children container))"

fun common_length :: "item list \<Rightarrow> item list \<Rightarrow> nat" where
  "common_length (a # as) (b # bs) = (if fst a = fst b then Suc (common_length as bs) else 0)"
| "common_length _ _ = 0"

text \<open>\<open>_middle\<close>: the prefix length and both middles.\<close>

definition middle :: "item list \<Rightarrow> item list \<Rightarrow> nat \<times> item list \<times> item list" where
  "middle before after =
    (let p = common_length before after; old = drop p before; new = drop p after; s = common_length (rev old) (rev new)
     in (p, take (length old - s) old, take (length new - s) new))"

section \<open>The drawn object\<close>

type_synonym float_reader = "string \<Rightarrow> rat option"

datatype shape_reason =
    FrameDiffers | TreatAsCharDiffers | OutlineNotVisible | TransformNotFinite string | NotIdentity string
  | NotPlainScale | Flipped | PointsDiffer | CornerRatio | CanvasDiffers | CurrentSizeDiffers | ExtentDiffers string
  | ArcProperty | EndpointsUnreadable | ReversedLine

definition only_child :: "xml option \<Rightarrow> string \<Rightarrow> xml option" where
  "only_child parent t =
    (case parent of None \<Rightarrow> None | Some p \<Rightarrow> (case findall p t of [c] \<Rightarrow> Some c | _ \<Rightarrow> None))"

definition exact_integer :: "string \<Rightarrow> int option" where
  "exact_integer s =
    (case s of
       c # ds \<Rightarrow> if c = CHR ''-'' then (if all_digits ds then Some (- int (digits_value ds)) else None)
         else if all_digits s then Some (int (digits_value s)) else None
     | [] \<Rightarrow> None)"

definition integer_attr :: "xml option \<Rightarrow> string \<Rightarrow> int option" where
  "integer_attr e name = (case e of None \<Rightarrow> None | Some e \<Rightarrow> (case get_attr e name of None \<Rightarrow> None | Some s \<Rightarrow> exact_integer s))"

definition finite_attr :: "float_reader \<Rightarrow> xml option \<Rightarrow> string \<Rightarrow> rat option" where
  "finite_attr read_float e name = (case e of None \<Rightarrow> None | Some e \<Rightarrow> (case get_attr e name of None \<Rightarrow> None | Some s \<Rightarrow> read_float s))"

definition matrix_of :: "float_reader \<Rightarrow> xml option \<Rightarrow> string \<Rightarrow> rat option list" where
  "matrix_of read_float rendering name =
    map (finite_attr read_float (only_child rendering name)) [''E1'', ''E2'', ''E3'', ''E4'', ''E5'', ''E6'']"

definition extent_fits :: "rat \<Rightarrow> int \<Rightarrow> bool" where
  "extent_fits got want \<longleftrightarrow>
    (if want = 0 then got = 0 else 0 < got \<and> \<bar>double (got - of_int want)\<bar> < 1 / 2)"

definition extent_reasons :: "string \<Rightarrow> rat \<times> rat \<Rightarrow> int \<times> int \<Rightarrow> shape_reason list" where
  "extent_reasons label got want =
    (if extent_fits (fst got) (fst want) \<and> extent_fits (snd got) (snd want) then [] else [ExtentDiffers label])"

definition reason_if :: "bool \<Rightarrow> 'r \<Rightarrow> 'r list" where
  "reason_if b r = (if b then [r] else [])"

definition frame_reasons :: "xml \<Rightarrow> bool \<Rightarrow> int \<Rightarrow> int \<Rightarrow> shape_reason list" where
  "frame_reasons e treat w h =
    (let shape_object = only_child (Some e) ''SHAPEOBJECT''; size' = only_child shape_object ''SIZE'';
         position = only_child shape_object ''POSITION'';
         outline = only_child (only_child (Some e) ''DRAWINGOBJECT'') ''LINESHAPE''
     in reason_if ((integer_attr size' ''Width'', integer_attr size' ''Height'') \<noteq> (Some w, Some h)) FrameDiffers
      @ reason_if ((case position of None \<Rightarrow> None | Some p \<Rightarrow> get_attr p ''TreatAsChar'')
          \<noteq> Some (if treat then ''true'' else ''false'')) TreatAsCharDiffers
      @ reason_if (case outline of
            None \<Rightarrow> True
          | Some l \<Rightarrow> get_attr l ''Style'' \<noteq> Some ''Solid'' \<or> get_attr l ''Width'' \<noteq> Some ''85'' \<or> get_attr l ''Alpha'' \<noteq> Some ''0''
              \<or> get_attr l ''Color'' \<notin> {None, Some ''0''}) OutlineNotVisible)"

definition component_of :: "xml \<Rightarrow> xml option" where
  "component_of e = only_child (only_child (Some e) ''DRAWINGOBJECT'') ''SHAPECOMPONENT''"

definition drawing_matrix :: "float_reader \<Rightarrow> xml \<Rightarrow> string \<Rightarrow> rat option list" where
  "drawing_matrix read_float e name = matrix_of read_float (only_child (component_of e) ''RENDERINGINFO'') name"

definition identity_matrix :: "rat option list" where
  "identity_matrix = [Some 1, Some 0, Some 0, Some 0, Some 1, Some 0]"

definition transform_reasons :: "float_reader \<Rightarrow> xml \<Rightarrow> shape_reason list" where
  "transform_reasons read_float e =
    concat (map (\<lambda>name. reason_if (drawing_matrix read_float e name \<noteq> identity_matrix) (NotIdentity name)) [''TRANSMATRIX'', ''ROTMATRIX''])
    @ reason_if (list_ex (\<lambda>i. drawing_matrix read_float e ''SCAMATRIX'' ! i \<noteq> Some 0) [1, 2, 3, 5]) NotPlainScale"

definition scale_of :: "float_reader \<Rightarrow> xml \<Rightarrow> nat \<Rightarrow> rat" where
  "scale_of read_float e i = (case drawing_matrix read_float e ''SCAMATRIX'' ! i of Some x \<Rightarrow> x | None \<Rightarrow> 0)"

definition rectangle_reasons :: "xml \<Rightarrow> int \<Rightarrow> int \<Rightarrow> shape_reason list" where
  "rectangle_reasons e w h =
    (let c = component_of e; size' = (Some w, Some h) in
     reason_if (map (integer_attr (Some e)) [''X0'', ''X1'', ''X2'', ''X3''] \<noteq> [Some 0, Some w, Some w, Some 0]
         \<or> map (integer_attr (Some e)) [''Y0'', ''Y1'', ''Y2'', ''Y3''] \<noteq> [Some 0, Some 0, Some h, Some h]) PointsDiffer
     @ reason_if (get_attr e ''Ratio'' \<noteq> Some ''0'') CornerRatio
     @ reason_if ((integer_attr c ''OriWidth'', integer_attr c ''OriHeight'') \<noteq> size') CanvasDiffers
     @ reason_if ((case c of None \<Rightarrow> False | Some c \<Rightarrow> get_attr c ''CurWidth'' \<noteq> None \<or> get_attr c ''CurHeight'' \<noteq> None)
         \<and> (integer_attr c ''CurWidth'', integer_attr c ''CurHeight'') \<noteq> size') CurrentSizeDiffers)"

definition ellipse_reasons :: "xml \<Rightarrow> int \<Rightarrow> int \<Rightarrow> shape_reason list" where
  "ellipse_reasons e w h =
    (let c = component_of e in
     reason_if (map (integer_attr (Some e)) [''CenterX'', ''CenterY'', ''Axis1X'', ''Axis1Y'', ''Axis2X'', ''Axis2Y'']
         \<noteq> map Some [w div 2, h div 2, w, h div 2, w div 2, 0]) PointsDiffer
     @ reason_if (get_attr e ''HasArcProperty'' \<noteq> Some ''false'') ArcProperty
     @ reason_if ((integer_attr c ''CurWidth'', integer_attr c ''CurHeight'') \<noteq> (Some w, Some h)) CurrentSizeDiffers)"

definition line_reasons :: "xml \<Rightarrow> int \<Rightarrow> int \<Rightarrow> shape_reason list" where
  "line_reasons e w h =
    (let c = component_of e in
     reason_if (None \<in> set (map (integer_attr (Some e)) [''StartX'', ''StartY'', ''EndX'', ''EndY''])) EndpointsUnreadable
     @ reason_if (get_attr e ''IsReverseHV'' \<noteq> Some ''false'') ReversedLine
     @ reason_if ((integer_attr c ''CurWidth'', integer_attr c ''CurHeight'') \<noteq> (Some w, Some h)) CurrentSizeDiffers)"

definition geometry_reasons :: "float_reader \<Rightarrow> object_kind \<Rightarrow> xml \<Rightarrow> int \<Rightarrow> int \<Rightarrow> shape_reason list" where
  "geometry_reasons read_float k e w h =
    (let sx = scale_of read_float e 0; sy = scale_of read_float e 4; c = component_of e;
         canvas = (integer_attr c ''OriWidth'', integer_attr c ''OriHeight'')
     in if k = Rectangle then extent_reasons ''scaled canvas'' (float_times w sx, float_times h sy) (w, h)
        else if k = Ellipse then
          (let half_x = w - w div 2; half_y = h div 2
           in if half_x \<le> 0 \<or> half_y \<le> 0 \<or> canvas \<noteq> (Some (2 * half_x), Some (2 * half_y)) then [CanvasDiffers]
              else extent_reasons ''scaled axes'' (float_times (2 * half_x) sx, float_times (2 * half_y) sy) (w, h))
        else case map (integer_attr (Some e)) [''StartX'', ''StartY'', ''EndX'', ''EndY''] of
          [Some x0, Some y0, Some x1, Some y1] \<Rightarrow>
            if canvas \<noteq> (Some \<bar>x1 - x0\<bar>, Some \<bar>y1 - y0\<bar>) \<or> (x0, y0) = (x1, y1) then [CanvasDiffers]
            else extent_reasons ''start point'' (float_times x0 sx, float_times y0 sy) (0, 0)
              @ extent_reasons ''scaled endpoints'' (float_times (x1 - x0) sx, float_times (y1 - y0) sy) (w, h)
        | _ \<Rightarrow> [])"

definition drawing_reasons :: "float_reader \<Rightarrow> object_kind \<Rightarrow> bool \<Rightarrow> int \<Rightarrow> int \<Rightarrow> xml \<Rightarrow> shape_reason list" where
  "drawing_reasons read_float k treat w h e =
    (let first = frame_reasons e treat w h
           @ concat (map (\<lambda>name. reason_if (None \<in> set (drawing_matrix read_float e name)) (TransformNotFinite name))
               [''TRANSMATRIX'', ''SCAMATRIX'', ''ROTMATRIX''])
     in if first \<noteq> [] then first
        else if transform_reasons read_float e \<noteq> [] then transform_reasons read_float e
        else
          (let c = component_of e;
               drawn = reason_if (case c of None \<Rightarrow> True | Some c \<Rightarrow> get_attr c ''HorzFlip'' \<noteq> Some ''false'' \<or> get_attr c ''VertFlip'' \<noteq> Some ''false'') Flipped
                 @ (if k = Rectangle then rectangle_reasons e w h else if k = Ellipse then ellipse_reasons e w h else line_reasons e w h)
           in if drawn \<noteq> [] then drawn else geometry_reasons read_float k e w h))"

section \<open>The new object\<close>

datatype insert_reason =
    CountDiffers string int int
  | TextDiffers | CommandDiffers | NameDiffers | NoScript | SeveralScripts | EmptyScript | ScriptDiffers
  | ShapeDiffers shape_reason | PagesDiffer "string option"
  | Unchanged | NestedTooDeep | NotTheNewObject | FieldNotClosed | FieldEndType "string option" | FieldWrapsOther
  | TextOutsideChanged | WrapsOtherText | ControlsChanged "(string \<times> int) list" | ParagraphsChanged | ContainersChanged "string list"
  | ContentNextToItChanged | OutsideBody document_reason

text \<open>\<open>re.sub\<close> of a backslash and one more character other than a newline by that character.\<close>

fun unescaped :: "string \<Rightarrow> string" where
  "unescaped (a # b # s) =
    (if a = CHR 0x5C \<and> b \<noteq> CHR 0x0A then b # unescaped s else a # unescaped (b # s))"
| "unescaped s = s"

definition field_command_target :: "string \<Rightarrow> string" where
  "field_command_target command = unescaped (takeWhile (\<lambda>c. c \<noteq> CHR '';'') command)"

definition script_reasons :: "xml \<Rightarrow> string \<Rightarrow> insert_reason list" where
  "script_reasons e script =
    (case iter_tag e ''SCRIPT'' @ iter_tag e ''script'' of
       [] \<Rightarrow> [NoScript]
     | [s] \<Rightarrow> if py_strip (xtext s) = [] then [EmptyScript]
         else if py_strip (xtext s) \<noteq> py_strip script then [ScriptDiffers] else []
     | _ \<Rightarrow> [SeveralScripts])"

definition element_reasons :: "float_reader \<Rightarrow> object_plan \<Rightarrow> xml \<Rightarrow> insert_reason list" where
  "element_reasons read_float p e =
    (case plan_text p of None \<Rightarrow> [] | Some t \<Rightarrow> reason_if (element_text e \<noteq> norm_text t) TextDiffers)
    @ (case op_payload p of
         LinkTo url _ \<Rightarrow> reason_if (field_command_target (attr_or_empty (get_attr e ''Command'')) \<noteq> url) CommandDiffers
       | MarkName n \<Rightarrow> reason_if (get_attr e ''Name'' \<noteq> Some n) NameDiffers
       | EquationScript s \<Rightarrow> script_reasons e s
       | Drawn _ _ treat w h \<Rightarrow> map ShapeDiffers (drawing_reasons read_float (op_kind p) treat w h e)
       | PageText _ pages \<Rightarrow>
           reason_if (get_attr e ''ApplyPageType'' \<noteq> map_of apply_page_types pages) (PagesDiffer (get_attr e ''ApplyPageType''))
       | NoteText _ \<Rightarrow> [])"

section \<open>Before the edit\<close>

definition pages_word :: "string \<Rightarrow> string option" where
  "pages_word pages = map_of apply_page_types pages"

definition check_before :: "object_plan \<Rightarrow> xml \<Rightarrow> summary object_checked" where
  "check_before p before =
    (if y_chars (summarize before) = 0 \<and> norm_text (inner_text (body_of before)) \<noteq> [] then Inl TextOutsideRuns
     else case op_payload p of
       PageText _ pages \<Rightarrow>
         (case find (\<lambda>e. get_attr e ''ApplyPageType'' \<in> {None, pages_word pages, Some ''Both''} \<or> pages_word pages = Some ''Both'')
             (iter_tag (body_of before) (fst (kind_tag (op_kind p)))) of
            Some _ \<Rightarrow> Inl (HeaderFooterExists pages)
          | None \<Rightarrow> Inr (summarize before))
     | MarkName n \<Rightarrow>
         if list_ex (\<lambda>e. get_attr e ''Name'' = Some n) (iter_tag (body_of before) ''BOOKMARK'') then Inl BookmarkTaken
         else Inr (summarize before)
     | _ \<Rightarrow> Inr (summarize before))"

section \<open>Locating the change\<close>

definition max_descent :: nat where "max_descent = 16"

text \<open>\<open>Counter\<close> of control keys, and the difference of two as its nonzero entries in order of the keys.\<close>

definition control_keys :: "item list \<Rightarrow> string list" where
  "control_keys items = concat (map (\<lambda>(t, _). case t of ControlToken k _ \<Rightarrow> [k] | _ \<Rightarrow> []) items)"

definition count_of :: "string list \<Rightarrow> string \<Rightarrow> int" where
  "count_of keys k = int (count_list keys k)"

definition key_changes :: "string list \<Rightarrow> string list \<Rightarrow> (string \<times> int) list" where
  "key_changes new old =
    filter (\<lambda>(k, n). n \<noteq> 0) (map (\<lambda>k. (k, count_of new k - count_of old k)) (sort (remdups (new @ old))))"

definition is_char :: "item \<Rightarrow> bool" where
  "is_char it \<longleftrightarrow> (case fst it of RunChar _ _ \<Rightarrow> True | _ \<Rightarrow> False)"

definition item_chars :: "item list \<Rightarrow> string" where
  "item_chars items = concat (map (\<lambda>(t, _). case t of RunChar c _ \<Rightarrow> [c] | _ \<Rightarrow> []) items)"

definition control_of :: "item \<Rightarrow> (string \<times> xml) option" where
  "control_of it = (case it of (ControlToken k _, Some e) \<Rightarrow> Some (k, e) | _ \<Rightarrow> None)"

definition starts_with_object :: "string \<Rightarrow> item list \<Rightarrow> bool" where
  "starts_with_object key new = (case new of it # _ \<Rightarrow> (case control_of it of Some (k, _) \<Rightarrow> k = key | None \<Rightarrow> False) | [] \<Rightarrow> False)"

definition field_end :: "item list \<Rightarrow> xml option" where
  "field_end new =
    (if length new < 2 then None
     else case control_of (last new) of Some (_, e) \<Rightarrow> if tag e = ''FIELDEND'' then Some e else None | None \<Rightarrow> None)"

definition inner_items :: "item list \<Rightarrow> item list" where
  "inner_items new = butlast (tl new)"

definition field_reasons :: "object_plan \<Rightarrow> item list \<Rightarrow> item list \<Rightarrow> insert_reason list" where
  "field_reasons p old new =
    reason_if (\<not> starts_with_object (plan_key p) new) NotTheNewObject
    @ (case field_end new of
         None \<Rightarrow> [FieldNotClosed]
       | Some e \<Rightarrow>
         if get_attr e ''Type'' \<notin> {None, snd (kind_tag (op_kind p))} then [FieldEndType (get_attr e ''Type'')]
         else if list_ex (\<lambda>it. \<not> is_char it) (inner_items new @ old) then [FieldWrapsOther]
         else if item_chars (inner_items new) \<noteq> item_chars old then [TextOutsideChanged]
         else case op_payload p of
           LinkTo _ shown_text \<Rightarrow> reason_if (item_chars (inner_items new) \<noteq> shown_text) WrapsOtherText
         | _ \<Rightarrow> [])"

definition element_tags :: "item list \<Rightarrow> string list" where
  "element_tags items =
    sort (remdups (concat (map (\<lambda>(t, _). case t of OpenTag n _ \<Rightarrow> [n] | CloseTag n \<Rightarrow> [n] | _ \<Rightarrow> []) items)))"

definition other_reasons :: "object_plan \<Rightarrow> item list \<Rightarrow> item list \<Rightarrow> insert_reason list" where
  "other_reasons p old new =
    (if starts_with_object (plan_key p) new \<and> length new = 1 \<and> old = [] then []
     else
       (let added = remove1 (plan_key p) (control_keys new);
            changed = key_changes added (control_keys old);
            tags = element_tags (new @ old);
            reasons = reason_if (changed \<noteq> []) (ControlsChanged changed)
              @ reason_if (''P'' \<in> set tags) ParagraphsChanged
              @ reason_if (filter (\<lambda>t. t \<noteq> ''P'') tags \<noteq> []) (ContainersChanged (filter (\<lambda>t. t \<noteq> ''P'') tags))
              @ reason_if (list_ex is_char (new @ old)) TextOutsideChanged
        in if reasons \<noteq> [] then reasons else [ContentNextToItChanged]))"

text \<open>The one changed control on both sides, when the whole change is inside it.\<close>

definition one_control :: "item list \<Rightarrow> item list \<Rightarrow> (xml \<times> xml) option" where
  "one_control old new =
    (case (old, new) of
       ([o'], [n]) \<Rightarrow>
         (case (control_of o', control_of n) of
            (Some (_, c), Some (_, d)) \<Rightarrow> if tag c = tag d \<and> attrs [] c = attrs [] d then Some (c, d) else None
          | _ \<Rightarrow> None)
     | _ \<Rightarrow> None)"

text \<open>
  \<open>_locate_insert\<close>; the number is how many controls may still be descended into. The result is the new element with the
  tags of the path and the token it stands at.
\<close>

fun locate_insert ::
  "float_reader \<Rightarrow> object_plan \<Rightarrow> nat \<Rightarrow> item list \<Rightarrow> item list \<Rightarrow> insert_reason list + (xml \<times> string list \<times> nat)" where
  "locate_insert read_float p depth before_items after_items =
    (case middle before_items after_items of (prefix, old, new) \<Rightarrow>
      if old = [] \<and> new = [] then Inl [Unchanged]
      else case one_control old new of
        Some (c, d) \<Rightarrow>
          (case depth of
             0 \<Rightarrow> Inl [NestedTooDeep]
           | Suc n \<Rightarrow>
             (case locate_insert read_float p n (linearize c) (linearize d) of
                Inl rs \<Rightarrow> Inl rs
              | Inr (e, path, at') \<Rightarrow> Inr (e, tag c # path, at')))
      | None \<Rightarrow>
        (let reasons = (if plan_companions p \<noteq> [] then field_reasons p old new else other_reasons p old new)
         in if reasons \<noteq> [] then Inl reasons
            else case new of
              [] \<Rightarrow> Inl []
            | it # _ \<Rightarrow>
              (case snd it of
                 None \<Rightarrow> Inl []
               | Some e \<Rightarrow>
                 if element_reasons read_float p e \<noteq> [] then Inl (element_reasons read_float p e) else Inr (e, [], prefix))))"

declare locate_insert.simps [simp del]

section \<open>The verdict\<close>

record insert_verdict =
  v_ok :: bool
  v_target :: string
  v_observed :: "(string \<times> int) list"
  v_inserted_at :: "(string list \<times> nat) option"
  v_text_chars :: "nat option"
  v_reasons :: "insert_reason list"

definition count_reasons :: "object_plan \<Rightarrow> string list \<Rightarrow> string list \<Rightarrow> insert_reason list" where
  "count_reasons p before_keys after_keys =
    (let change = (\<lambda>k. count_of after_keys k - count_of before_keys k)
     in reason_if (change (plan_key p) \<noteq> 1) (CountDiffers (plan_key p) (change (plan_key p)) 1)
      @ concat (map (\<lambda>(name, want). reason_if (change name \<noteq> want) (CountDiffers name (change name) want)) (plan_companions p)))"

definition evaluate_insert :: "float_reader \<Rightarrow> object_plan \<Rightarrow> xml \<Rightarrow> xml \<Rightarrow> insert_verdict" where
  "evaluate_insert read_float p before after =
    (let before_keys = y_keys (summarize before); after_keys = y_keys (summarize after);
         counted = count_reasons p before_keys after_keys;
         located = (if counted \<noteq> [] then Inl counted
           else locate_insert read_float p max_descent (linearize (body_of before)) (linearize (body_of after)));
         found = (case located of Inl rs \<Rightarrow> rs | Inr _ \<Rightarrow> []);
         reasons = found @ map OutsideBody (head_tail_reasons (\<lambda>_. []) no_delta before after)
     in \<lparr>v_ok = (reasons = []), v_target = plan_key p, v_observed = key_changes after_keys before_keys,
         v_inserted_at = (case located of Inl _ \<Rightarrow> None | Inr (_, path) \<Rightarrow> Some path),
         v_text_chars = (case located of Inl _ \<Rightarrow> None | Inr (e, _) \<Rightarrow> Some (length (element_text e))),
         v_reasons = take 10 reasons\<rparr>)"

end
