(* ===== verification/ObjectCommand.thy ===== *)
theory ObjectCommand
  imports ObjectInsert NativeCommand
begin

text \<open>
  Running object_insert_exact against Hancom (app/local_cli_object_insert.py, with the strict state reads
  and refusals of app/step_refusal.py). The editor is a record of operations on an unknown device
  state; a raw value read from it is a \<open>json\<close> value, a tuple being a list, and \<open>None\<close> stands for a read that raised;
  the selected text is already passed through \<open>str\<close>.
  A \<open>Refusal\<close> is the pending \<open>LocalCliStepRefusal\<close> the engine registers, \<open>MutationUnproven\<close> is
  \<open>LocalCliMutationError\<close>, and \<open>OtherError\<close> any other exception. \<open>s_reached\<close> is \<open>mutation.started\<close> (and \<open>control.started\<close>),
  \<open>s_calls\<close> the native calls issued from then on. Parsing XML text is the parameter \<open>parse\<close>; \<open>ed_slow\<close> compares the
  clock with the proof budget; the state recorded for \<open>hwpx undo\<close> is one read that may raise.
\<close>

datatype call_result = NoEntryPoint | CallRaised | CallReturned json

record 'd editor =
  ed_pos :: "'d \<Rightarrow> json option \<times> 'd"
  ed_selected_pos :: "'d \<Rightarrow> json option \<times> 'd"
  ed_mode :: "'d \<Rightarrow> json option \<times> 'd"
  ed_selected_text :: "'d \<Rightarrow> string option \<times> 'd"
  ed_readback :: "'d \<Rightarrow> json option \<times> 'd"
  ed_slow :: "'d \<Rightarrow> bool \<times> 'd"
  ed_history :: "'d \<Rightarrow> bool option \<times> 'd"
  ed_prepare :: "string \<Rightarrow> (string \<times> native_item) list \<Rightarrow> (nat \<times> int list) option \<Rightarrow> 'd \<Rightarrow> (json \<times> json list) option \<times> 'd"
  ed_on_mutating :: "'d \<Rightarrow> bool \<times> 'd"
  ed_run :: "string \<Rightarrow> 'd \<Rightarrow> call_result \<times> 'd"
  ed_execute :: "string \<Rightarrow> 'd \<Rightarrow> call_result \<times> 'd"
  ed_type_text :: "string \<Rightarrow> 'd \<Rightarrow> bool \<times> 'd"

definition observed :: "('d \<Rightarrow> 'a \<times> 'd) \<Rightarrow> ('d, 'a) cmd" where
  "observed f = on_device (\<lambda>d. case f d of (v, d') \<Rightarrow> (Inr v, d'))"

definition technical :: "('d, 'a) cmd" where
  "technical = fail (OtherError ''LocalCliRuntimeError'')"

section \<open>Refusals\<close>

definition refusal_codes :: "string list" where
  "refusal_codes = [''invalid_request'', ''caret_moved'', ''editor_not_normal'', ''selection_required'', ''selection_text_mismatch'',
    ''existing_header_footer'', ''bookmark_exists'', ''unverifiable_layout'', ''proof_budget'']"

text \<open>\<open>raise control.refuse(code, ..)\<close>: only before the first mutator and only with a code of the fixed set.\<close>

definition refuse_step :: "string \<Rightarrow> ('d, 'a) cmd" where
  "refuse_step code s = (if s_reached s \<or> code \<notin> set refusal_codes then technical s else fail (Refusal code) s)"

text \<open>\<open>begin_mutation\<close>, with the flag of the engine.\<close>

definition begin_mutation :: "'d editor \<Rightarrow> ('d, unit) cmd" where
  "begin_mutation ed s =
    (if s_reached s then (Inr (), s)
     else case ed_on_mutating ed (s_device s) of
       (False, d) \<Rightarrow> (Inl (OtherError ''on_mutating''), s\<lparr>s_device := d\<rparr>)
     | (True, d) \<Rightarrow> (Inr (), s\<lparr>s_device := d, s_reached := True\<rparr>))"

section \<open>Strict reads\<close>

definition strict_index :: "json \<Rightarrow> int option" where
  "strict_index v = (case v of JInt n \<Rightarrow> if 0 \<le> n then Some n else None | _ \<Rightarrow> None)"

fun strict_indexes :: "json list \<Rightarrow> int list option" where
  "strict_indexes [] = Some []"
| "strict_indexes (v # vs) =
    (case strict_index v of None \<Rightarrow> None | Some n \<Rightarrow> map_option ((#) n) (strict_indexes vs))"

definition strict_pos :: "json option \<Rightarrow> int list option" where
  "strict_pos v = (case v of Some (JList xs) \<Rightarrow> if length xs = 3 then strict_indexes xs else None | _ \<Rightarrow> None)"

definition strict_selection :: "json option \<Rightarrow> int list option option" where
  "strict_selection v =
    (case v of
       Some (JList (JBool b # xs)) \<Rightarrow>
         if length xs \<noteq> 6 then None
         else if \<not> b then Some None
         else map_option Some (strict_indexes xs)
     | _ \<Rightarrow> None)"

definition strict_selection_mode :: "json option \<Rightarrow> int option" where
  "strict_selection_mode v = (case v of Some w \<Rightarrow> strict_index w | None \<Rightarrow> None)"

record editor_state =
  es_pos :: "int list"
  es_selection :: "int list option"
  es_mode :: int

definition es_normal :: "editor_state \<Rightarrow> bool" where
  "es_normal st \<longleftrightarrow> es_mode st = 0 \<and> es_selection st = None"

definition es_selected :: "editor_state \<Rightarrow> bool" where
  "es_selected st \<longleftrightarrow> es_selection st \<noteq> None"

definition strict_read :: "(json option \<Rightarrow> 'a option) \<Rightarrow> ('d \<Rightarrow> json option \<times> 'd) \<Rightarrow> ('d, 'a) cmd" where
  "strict_read check f = bind_c (observed f) (\<lambda>v. case check v of None \<Rightarrow> technical | Some x \<Rightarrow> ret x)"

definition strict_state :: "'d editor \<Rightarrow> ('d, editor_state) cmd" where
  "strict_state ed =
    bind_c (strict_read strict_pos (ed_pos ed)) (\<lambda>p.
    bind_c (strict_read strict_selection (ed_selected_pos ed)) (\<lambda>sel.
    bind_c (strict_read strict_selection_mode (ed_mode ed)) (\<lambda>m.
      ret \<lparr>es_pos = p, es_selection = sel, es_mode = m\<rparr>)))"

section \<open>Readback\<close>

definition max_readback_chars :: int where
  "max_readback_chars = 4194304"

text \<open>The text without a leading XML declaration.\<close>

definition without_declaration :: "string \<Rightarrow> string" where
  "without_declaration s =
    (let t = dropWhile py_space s; r = drop 5 t; decl = takeWhile (\<lambda>c. c \<noteq> CHR ''>'') r
     in if starts_with ''<?xml'' t \<and> length decl < length r \<and> decl \<noteq> [] \<and> last decl = CHR ''?''
        then drop (Suc (length decl)) r else s)"

definition parse_hwpml :: "(string \<Rightarrow> xml option) \<Rightarrow> string \<Rightarrow> xml object_checked" where
  "parse_hwpml parse s =
    (if \<not> nonblank s then Inl NoReadbackText
     else case parse (without_declaration s) of None \<Rightarrow> Inl ReadbackMalformed | Some doc \<Rightarrow> Inr doc)"

definition read_document :: "(string \<Rightarrow> xml option) \<Rightarrow> 'd editor \<Rightarrow> bool \<Rightarrow> ('d, xml) cmd" where
  "read_document parse ed before =
    bind_c (observed (ed_readback ed)) (\<lambda>v.
      case v of
        Some (JStr s) \<Rightarrow>
          if max_readback_chars < int (length s) then (if before then refuse_step ''proof_budget'' else technical)
          else (case parse_hwpml parse s of Inl _ \<Rightarrow> technical | Inr doc \<Rightarrow> ret doc)
      | _ \<Rightarrow> technical)"

section \<open>The state an insertion needs\<close>

definition state_problem :: "object_plan \<Rightarrow> editor_state \<Rightarrow> string option" where
  "state_problem p st =
    (case policy_of (op_kind p) of
       NoSelection \<Rightarrow> if \<not> es_normal st then Some ''editor_not_normal''
         else if es_pos st \<noteq> op_pos p then Some ''caret_moved'' else None
     | SelectionRequired \<Rightarrow> if \<not> es_selected st then Some ''selection_required''
         else if es_pos st \<noteq> op_pos p then Some ''caret_moved'' else None
     | SelectionOptional \<Rightarrow> if \<not> (es_normal st \<or> es_selected st) then Some ''editor_not_normal''
         else if es_pos st \<noteq> op_pos p then Some ''caret_moved'' else None)"

definition problem_found :: "bool \<Rightarrow> string \<Rightarrow> ('d, 'a) cmd" where
  "problem_found initial code = (if initial then refuse_step code else technical)"

definition selected_text_proved :: "'d editor \<Rightarrow> bool \<Rightarrow> string \<Rightarrow> editor_state \<Rightarrow> ('d, unit) cmd" where
  "selected_text_proved ed initial wanted st =
    bind_c (observed (ed_selected_text ed)) (\<lambda>v.
      case v of
        Some t \<Rightarrow>
          bind_c (strict_state ed) (\<lambda>again.
            if es_selection again \<noteq> es_selection st \<or> es_pos again \<noteq> es_pos st then technical
            else if t \<noteq> wanted then problem_found initial ''selection_text_mismatch''
            else ret ())
      | None \<Rightarrow> technical)"

definition require_state :: "'d editor \<Rightarrow> object_plan \<Rightarrow> bool \<Rightarrow> ('d, editor_state) cmd" where
  "require_state ed p initial =
    bind_c (strict_state ed) (\<lambda>st.
      case state_problem p st of
        Some code \<Rightarrow> problem_found initial code
      | None \<Rightarrow>
        (case op_payload p of
           LinkTo _ shown_text \<Rightarrow> seq_c (selected_text_proved ed initial shown_text st) (ret st)
         | _ \<Rightarrow> ret st))"

section \<open>Issuing\<close>

definition log_native :: "string \<Rightarrow> ('d, unit) cmd" where
  "log_native name s = (Inr (), s\<lparr>s_calls := s_calls s @ [name]\<rparr>)"

definition call_succeeded :: "call_result \<Rightarrow> bool" where
  "call_succeeded r = (case r of CallReturned v \<Rightarrow> v = JNull \<or> truthy v | _ \<Rightarrow> False)"

definition call_strictly_true :: "call_result \<Rightarrow> bool" where
  "call_strictly_true r \<longleftrightarrow> r = CallReturned (JBool True)"

definition drawing_outline :: "(string \<times> int) list" where
  "drawing_outline = [(''style'', 1), (''Width'', 85), (''Color'', 0), (''Alpha'', 0), (''OutLineStyle'', 0)]"

definition item_number :: "string \<times> native_item \<Rightarrow> json" where
  "item_number it = (case snd it of NumberItem n \<Rightarrow> JInt n | TextItem s \<Rightarrow> JStr s)"

text \<open>What the prepared drawing must read back as: the items, the number of coordinates, each of them, the number of
  points, the outline.\<close>

definition expected_prepared :: "(string \<times> native_item) list \<Rightarrow> nat \<times> int list \<Rightarrow> json list" where
  "expected_prepared items drawing =
    map item_number items @ JInt (int (length (snd drawing))) # map JInt (snd drawing)
      @ JInt (int (fst drawing)) # map (JInt \<circ> snd) drawing_outline"

definition prepare_pset :: "'d editor \<Rightarrow> object_plan \<Rightarrow> ('d, unit) cmd" where
  "prepare_pset ed p =
    (let items = native_items p in
     case op_kind p \<in> set shape_kinds of
       False \<Rightarrow> bind_c (observed (ed_prepare ed (insert_action (op_kind p)) items None)) (\<lambda>v.
         case v of None \<Rightarrow> technical | Some _ \<Rightarrow> ret ())
     | True \<Rightarrow>
       (case drawing_points p of
          None \<Rightarrow> fail (OtherError ''ObjectInsertError'')
        | Some drawing \<Rightarrow>
          bind_c (observed (ed_prepare ed (insert_action (op_kind p)) items (Some drawing))) (\<lambda>v.
            case v of
              None \<Rightarrow> technical
            | Some (defaulted, values) \<Rightarrow>
              if defaulted = JBool True \<and> values = expected_prepared items drawing then ret () else technical)))"

definition issue_action :: "'d editor \<Rightarrow> object_plan \<Rightarrow> ('d, unit) cmd" where
  "issue_action ed p =
    (let name = insert_action (op_kind p) in
     seq_c (begin_mutation ed) (seq_c (log_native name)
       (bind_c (observed (if runs_directly (op_kind p) then ed_run ed name else ed_execute ed name)) (\<lambda>r.
         if (if op_kind p \<in> set shape_kinds then call_strictly_true r else call_succeeded r) then ret () else technical))))"

definition type_object_text :: "'d editor \<Rightarrow> string \<Rightarrow> ('d, unit) cmd" where
  "type_object_text ed t =
    seq_c (log_native ''InsertText'')
      (bind_c (observed (ed_type_text ed t)) (\<lambda>ok. if ok then ret () else technical))"

text \<open>\<open>int(item)\<close>, and \<open>_object_insert_pos\<close>: the caret's list, when its first three entries are numbers.\<close>

definition loose_int :: "json \<Rightarrow> int option" where
  "loose_int v =
    (case v of
       JInt n \<Rightarrow> Some n | JBool b \<Rightarrow> Some (if b then 1 else 0) | JReal x \<Rightarrow> Some (if 0 \<le> x then \<lfloor>x\<rfloor> else \<lceil>x\<rceil>)
     | JStr s \<Rightarrow> py_int s | _ \<Rightarrow> None)"

definition loose_list_number :: "json option \<Rightarrow> int option" where
  "loose_list_number v =
    (case v of
       Some (JList (a # b # c # _)) \<Rightarrow> if loose_int b \<noteq> None \<and> loose_int c \<noteq> None then loose_int a else None
     | _ \<Rightarrow> None)"

definition close_object :: "'d editor \<Rightarrow> object_plan \<Rightarrow> ('d, unit) cmd" where
  "close_object ed p =
    seq_c (log_native ''CloseEx'')
      (bind_c (observed (ed_run ed ''CloseEx'')) (\<lambda>r.
       bind_c (observed (ed_pos ed)) (\<lambda>v.
         if call_succeeded r \<and> loose_list_number v = Some (hd (op_pos p)) then ret () else technical)))"

definition release_object :: "'d editor \<Rightarrow> ('d, unit) cmd" where
  "release_object ed =
    bind_c (strict_state ed) (\<lambda>st.
      if es_normal st then ret ()
      else seq_c (log_native ''Cancel'')
        (bind_c (observed (ed_run ed ''Cancel'')) (\<lambda>r.
          if \<not> call_succeeded r then technical
          else bind_c (strict_state ed) (\<lambda>again. if es_normal again then ret () else technical))))"

definition mutate :: "'d editor \<Rightarrow> object_plan \<Rightarrow> ('d, unit) cmd" where
  "mutate ed p =
    seq_c (if runs_directly (op_kind p) then ret () else prepare_pset ed p)
      (seq_c (require_state ed p False)
        (seq_c (issue_action ed p)
          (seq_c (case plan_text p of Some t \<Rightarrow> if types_text (op_kind p) then type_object_text ed t else ret () | None \<Rightarrow> ret ())
            (if closes_after (op_kind p) then close_object ed p
             else if op_kind p \<in> set shape_kinds \<or> op_kind p = Equation then release_object ed
             else ret ()))))"

section \<open>The command\<close>

record insertion =
  in_plan :: object_plan
  in_before :: xml
  in_after :: xml
  in_verdict :: insert_verdict
  in_counted :: bool

definition counted_by_undo :: "object_plan \<Rightarrow> bool \<Rightarrow> bool" where
  "counted_by_undo p selected \<longleftrightarrow>
    map_of undo_steps (undo_variant p selected) = Some (if types_text (op_kind p) then 2 else 1)"

definition refusal_of :: "object_error \<Rightarrow> string" where
  "refusal_of e = (if error_code e \<in> set refusal_codes then error_code e else ''unverifiable_layout'')"

text \<open>\<open>Some b\<close>: a state was recorded (\<open>b\<close>) or is no census; \<open>None\<close>: the read raised.\<close>

definition history_read :: "'d editor \<Rightarrow> ('d, bool) cmd" where
  "history_read ed = bind_c (observed (ed_history ed)) (\<lambda>v. case v of None \<Rightarrow> technical | Some b \<Rightarrow> ret b)"

definition insert_body ::
  "(string \<Rightarrow> xml option) \<Rightarrow> float_reader \<Rightarrow> 'd editor \<Rightarrow> object_plan \<Rightarrow> ('d, insertion) cmd" where
  "insert_body parse read_float ed p =
    seq_c (require_state ed p True)
    (bind_c (read_document parse ed True) (\<lambda>before.
     bind_c (observed (ed_slow ed)) (\<lambda>slow.
     if slow then refuse_step ''proof_budget''
     else case check_before p before of
       Inl e \<Rightarrow> refuse_step (refusal_of e)
     | Inr _ \<Rightarrow>
       bind_c (history_read ed) (\<lambda>recorded.
       bind_c (require_state ed p False) (\<lambda>st.
       seq_c (mutate ed p)
       (bind_c (read_document parse ed False) (\<lambda>after.
        let v = evaluate_insert read_float p before after; counted = counted_by_undo p (es_selected st) in
        if \<not> v_ok v then technical
        else bind_c (if recorded \<and> counted then history_read ed else ret False) (\<lambda>again.
          ret \<lparr>in_plan = p, in_before = before, in_after = after, in_verdict = v, in_counted = recorded \<and> counted \<and> again\<rparr>))))))))"

definition object_insert_exact ::
  "(string \<Rightarrow> xml option) \<Rightarrow> float_reader \<Rightarrow> url_split \<Rightarrow> 'd editor \<Rightarrow> fields \<Rightarrow> ('d, insertion) cmd" where
  "object_insert_exact parse read_float url_parts ed step =
    (case normalize_step url_parts step of
       Inl e \<Rightarrow> if is_object_error e then refuse_step ''invalid_request'' else fail (OtherError ''not an ObjectInsertError'')
     | Inr p \<Rightarrow>
       if drawing_unsupported p then refuse_step ''unverifiable_layout''
       else guarded (insert_body parse read_float ed p))"

end
