(* ===== verification/ObjectProps.thy ===== *)
theory ObjectProps
  imports ObjectInsert HeadProps
begin

text \<open>
  What an accepted insertion means: the tokens of the body are those from before with the one new object at
  one place, in the body itself or inside one control whose own attributes did not change, and every definition
  of the document is kept. And what a plan is: sizes, texts and points within their bounds.
\<close>

section \<open>The change between two token lists\<close>

definition same_tokens :: "item list \<Rightarrow> item list \<Rightarrow> bool" where
  "same_tokens xs ys \<longleftrightarrow> map fst xs = map fst ys"

lemma common_length_take:
  "same_tokens (take (common_length xs ys) xs) (take (common_length xs ys) ys)"
  by (induction xs ys rule: common_length.induct) (simp_all add: same_tokens_def)

lemma common_length_le: "common_length xs ys \<le> length xs" "common_length xs ys \<le> length ys"
  by (induction xs ys rule: common_length.induct) auto

lemma drop_same_tail:
  assumes "n \<le> length xs" and "n \<le> length ys" and "same_tokens (take n (rev xs)) (take n (rev ys))"
  shows "same_tokens (drop (length xs - n) xs) (drop (length ys - n) ys)"
proof -
  have "take n (rev zs) = rev (drop (length zs - n) zs)" if "n \<le> length zs" for zs :: "item list"
    using that by (simp add: rev_drop)
  with assms show ?thesis by (simp add: same_tokens_def flip: rev_map)
qed

lemma middle_splits:
  assumes "middle before after = (p, old, new)"
  obtains b1 b2 a1 a2 where "before = b1 @ old @ b2" and "after = a1 @ new @ a2"
    and "same_tokens b1 a1" and "same_tokens b2 a2" and "length a1 = p"
proof -
  define q where "q = common_length before after"
  define o' where "o' = drop q before"
  define n' where "n' = drop q after"
  define s where "s = common_length (rev o') (rev n')"
  have m: "p = q" "old = take (length o' - s) o'" "new = take (length n' - s) n'"
    using assms by (auto simp: middle_def Let_def q_def o'_def n'_def s_def)
  have "before = take q before @ old @ drop (length o' - s) o'" "after = take q after @ new @ drop (length n' - s) n'"
    unfolding m by (simp_all only: append_take_drop_id o'_def n'_def)
  moreover have "same_tokens (take q before) (take q after)" unfolding q_def by (rule common_length_take)
  moreover have "same_tokens (drop (length o' - s) o') (drop (length n' - s) n')"
    using common_length_take [of "rev o'" "rev n'"] common_length_le [of "rev o'" "rev n'"]
    by (intro drop_same_tail) (simp_all add: s_def)
  moreover have "length (take q after) = p" using common_length_le(2) [of before after] m(1) by (simp add: q_def)
  ultimately show ?thesis using that by blast
qed

section \<open>One new object\<close>

text \<open>
  \<open>inserted_into p b a e\<close>: the container \<open>a\<close> is \<open>b\<close> with the object \<open>e\<close> that the plan asks for: right
  in it, around unchanged text when it is a field, or inside one of its controls.
\<close>

inductive inserted_into :: "object_plan \<Rightarrow> xml \<Rightarrow> xml \<Rightarrow> xml \<Rightarrow> bool" where
  placed: "plan_companions p = [] \<Longrightarrow> linearize b = b1 @ b2 \<Longrightarrow>
    linearize a = a1 @ (ControlToken (plan_key p) s, Some e) # a2 \<Longrightarrow> same_tokens b1 a1 \<Longrightarrow> same_tokens b2 a2 \<Longrightarrow>
    inserted_into p b a e"
| around: "plan_companions p \<noteq> [] \<Longrightarrow> linearize b = b1 @ old @ b2 \<Longrightarrow>
    linearize a = a1 @ (ControlToken (plan_key p) s, Some e) # new @ (ControlToken k s', Some f) # a2 \<Longrightarrow>
    same_tokens b1 a1 \<Longrightarrow> same_tokens b2 a2 \<Longrightarrow> tag f = ''FIELDEND'' \<Longrightarrow>
    list_all is_char (old @ new) \<Longrightarrow> item_chars new = item_chars old \<Longrightarrow> inserted_into p b a e"
| inside: "linearize b = b1 @ (ControlToken k s, Some c) # b2 \<Longrightarrow> linearize a = a1 @ (ControlToken k' s', Some d) # a2 \<Longrightarrow>
    same_tokens b1 a1 \<Longrightarrow> same_tokens b2 a2 \<Longrightarrow> tag c = tag d \<Longrightarrow> attrs [] c = attrs [] d \<Longrightarrow>
    inserted_into p c d e \<Longrightarrow> inserted_into p b a e"

lemma control_of_Some: "control_of it = Some (k, e) \<longleftrightarrow> (\<exists>s. it = (ControlToken k s, Some e))"
  by (cases it; cases "fst it"; cases "snd it") (auto simp: control_of_def split: token.splits option.splits)

lemma control_of_control [simp]: "control_of (ControlToken k s, Some e) = Some (k, e)"
  by (simp add: control_of_def)

lemma one_control_Some:
  "one_control old new = Some (c, d) \<longleftrightarrow>
    (\<exists>k s k' s'. old = [(ControlToken k s, Some c)] \<and> new = [(ControlToken k' s', Some d)] \<and> tag c = tag d \<and> attrs [] c = attrs [] d)"
  by (auto simp: one_control_def control_of_Some split: list.splits option.splits if_splits)

lemma starts_Some:
  "starts_with_object key new \<longleftrightarrow> (\<exists>s e rest. new = (ControlToken key s, Some e) # rest)"
  by (auto simp: starts_with_object_def control_of_Some split: list.splits option.splits)

lemma field_accepted:
  assumes "field_reasons p old new = []"
  obtains s e rest k s' f where "new = (ControlToken (plan_key p) s, Some e) # rest @ [(ControlToken k s', Some f)]"
    and "tag f = ''FIELDEND''" and "list_all is_char (old @ rest)" and "item_chars rest = item_chars old"
proof -
  from assms obtain s e r where new: "new = (ControlToken (plan_key p) s, Some e) # r"
    by (auto simp: field_reasons_def reason_if_def starts_Some split: if_splits)
  from assms obtain f where f: "field_end new = Some f"
    by (auto simp: field_reasons_def split: option.splits)
  then obtain k s' where l: "last new = (ControlToken k s', Some f)" "tag f = ''FIELDEND''" "\<not> length new < 2"
    by (auto simp: field_end_def control_of_Some split: if_splits option.splits)
  with new have r: "r = butlast r @ [(ControlToken k s', Some f)]"
    by (metis One_nat_def append_butlast_last_id last.simps length_Cons length_greater_0_conv lessI less_2_cases_iff list.size(3) numeral_2_eq_2)
  have "inner_items new = butlast r" using new by (simp add: inner_items_def)
  with assms f have "list_all is_char (old @ butlast r)" "item_chars (butlast r) = item_chars old"
    by (auto simp: field_reasons_def list_ex_iff list_all_iff split: if_splits)
  with r new l(2) that show ?thesis by metis
qed

lemma other_accepted:
  assumes "other_reasons p old new = []"
  obtains s e where "old = []" and "new = [(ControlToken (plan_key p) s, Some e)]"
proof -
  from assms have "starts_with_object (plan_key p) new \<and> length new = 1 \<and> old = []"
    by (auto simp: other_reasons_def Let_def split: if_splits)
  then show ?thesis using that by (auto simp: starts_Some length_Suc_conv)
qed

lemma located_here:
  assumes "middle (linearize b) (linearize a) = (n, old, new)" and "new = it # rest" and "snd it = Some e"
    and "(if plan_companions p \<noteq> [] then field_reasons p old new else other_reasons p old new) = []"
  shows "inserted_into p b a e"
proof -
  obtain b1 b2 a1 a2 where split: "linearize b = b1 @ old @ b2" "linearize a = a1 @ new @ a2"
      "same_tokens b1 a1" "same_tokens b2 a2"
    using middle_splits [OF assms(1)] by metis
  show ?thesis
  proof (cases "plan_companions p = []")
    case True
    with assms(4) have "other_reasons p old new = []" by simp
    then obtain s e' where "old = []" "new = [(ControlToken (plan_key p) s, Some e')]"
      by (rule other_accepted)
    with split assms(2,3) True show ?thesis by (auto intro: placed)
  next
    case False
    with assms(4) have "field_reasons p old new = []" by simp
    then obtain s e' r k s' f where f: "new = (ControlToken (plan_key p) s, Some e') # r @ [(ControlToken k s', Some f)]"
        "tag f = ''FIELDEND''" "list_all is_char (old @ r)" "item_chars r = item_chars old"
      by (rule field_accepted)
    with assms(2,3) have "e' = e" by auto
    with split f(1) have "linearize a = a1 @ (ControlToken (plan_key p) s, Some e) # r @ (ControlToken k s', Some f) # a2"
      by simp
    from around [OF False split(1) this split(3,4) f(2-4)] show ?thesis .
  qed
qed

lemma located_is_inserted:
  "locate_insert read_float p depth (linearize b) (linearize a) = Inr (e, path, n) \<Longrightarrow>
    inserted_into p b a e \<and> element_reasons read_float p e = []"
proof (induction depth arbitrary: b a path n)
  case 0
  obtain m old new where mid: "middle (linearize b) (linearize a) = (m, old, new)" by (metis prod_cases3)
  from 0 mid have "one_control old new = None"
    by (subst (asm) locate_insert.simps) (auto split: option.splits if_splits)
  with 0 mid obtain it rest where "new = it # rest" "snd it = Some e" "element_reasons read_float p e = []"
      "(if plan_companions p \<noteq> [] then field_reasons p old new else other_reasons p old new) = []"
    by (subst (asm) locate_insert.simps) (auto simp: Let_def split: if_splits list.splits option.splits)
  with located_here [OF mid] show ?case by blast
next
  case (Suc depth)
  obtain m old new where mid: "middle (linearize b) (linearize a) = (m, old, new)" by (metis prod_cases3)
  show ?case
  proof (cases "one_control old new")
    case None
    with Suc.prems mid obtain it rest where "new = it # rest" "snd it = Some e" "element_reasons read_float p e = []"
        "(if plan_companions p \<noteq> [] then field_reasons p old new else other_reasons p old new) = []"
      by (subst (asm) locate_insert.simps) (auto simp: Let_def split: if_splits list.splits option.splits)
    with located_here [OF mid] show ?thesis by blast
  next
    case (Some cd)
    obtain c d where cd: "cd = (c, d)" by force
    with Some have one: "one_control old new = Some (c, d)" by simp
    then obtain k s k' s' where c: "old = [(ControlToken k s, Some c)]" "new = [(ControlToken k' s', Some d)]"
        "tag c = tag d" "attrs [] c = attrs [] d"
      unfolding one_control_Some by blast
    from Suc.prems mid one c(1) obtain path' where "locate_insert read_float p depth (linearize c) (linearize d) = Inr (e, path', n)"
      by (subst (asm) locate_insert.simps) (auto split: sum.splits)
    then have inner: "inserted_into p c d e" "element_reasons read_float p e = []" using Suc.IH by blast+
    obtain b1 b2 a1 a2 where "linearize b = b1 @ old @ b2" "linearize a = a1 @ new @ a2"
        "same_tokens b1 a1" "same_tokens b2 a2"
      using middle_splits [OF mid] by metis
    with c inner show ?thesis by (auto intro: inside)
  qed
qed

lemma other_starts: "other_reasons p old new = [] \<Longrightarrow> \<exists>it rest e. new = it # rest \<and> snd it = Some e"
  by (erule other_accepted) auto

lemma field_starts: "field_reasons p old new = [] \<Longrightarrow> \<exists>it rest e. new = it # rest \<and> snd it = Some e"
  by (erule field_accepted) auto

text \<open>A failed search always says why.\<close>

lemma locate_not_empty: "locate_insert read_float p depth b a \<noteq> Inl []"
proof (induction depth arbitrary: b a)
  case 0
  obtain m old new where mid: "middle b a = (m, old, new)" by (metis prod_cases3)
  show ?case
    using other_starts [of p old new] field_starts [of p old new]
    by (subst locate_insert.simps) (auto simp: mid Let_def split: option.split list.split)
next
  case (Suc depth)
  obtain m old new where mid: "middle b a = (m, old, new)" by (metis prod_cases3)
  show ?case
    using other_starts [of p old new] field_starts [of p old new] Suc
    by (subst locate_insert.simps) (auto simp: mid Let_def split: option.split list.split sum.split)
qed

lemma accepted_located:
  assumes "v_ok (evaluate_insert read_float p before after)"
  shows "\<exists>e path n. locate_insert read_float p max_descent (linearize (body_of before)) (linearize (body_of after)) = Inr (e, path, n)"
    and "count_reasons p (y_keys (summarize before)) (y_keys (summarize after)) = []"
    and "head_tail_reasons (\<lambda>_. []) no_delta before after = []"
proof -
  define counted where "counted = count_reasons p (y_keys (summarize before)) (y_keys (summarize after))"
  define located where "located = (if counted \<noteq> [] then Inl counted
      else locate_insert read_float p max_descent (linearize (body_of before)) (linearize (body_of after)))"
  have ok: "(case located of Inl rs \<Rightarrow> rs | Inr _ \<Rightarrow> []) = []" "head_tail_reasons (\<lambda>_. []) no_delta before after = []"
    using assms unfolding evaluate_insert_def Let_def counted_def [symmetric] located_def [symmetric] by simp_all
  then show "head_tail_reasons (\<lambda>_. []) no_delta before after = []" by simp
  have none: "counted = []"
    using ok(1) by (cases "counted = []") (simp_all add: located_def)
  then show counted: "count_reasons p (y_keys (summarize before)) (y_keys (summarize after)) = []"
    by (simp add: counted_def)
  with ok(1) locate_not_empty have "\<not> isl located"
    by (auto simp: located_def counted_def split: sum.splits)
  then obtain e path n where "located = Inr (e, path, n)" by (cases located) auto
  then show "\<exists>e path n. locate_insert read_float p max_descent (linearize (body_of before)) (linearize (body_of after)) = Inr (e, path, n)"
    using none by (auto simp: located_def)
qed

lemma accepted_insert_kept:
  assumes "v_ok (evaluate_insert read_float p before after)" and "parsed before" and "parsed after"
    and "tag before \<noteq> head_tag" and "tag after \<noteq> head_tag" and "definition_list l" and "definition_at before l i = Some d"
  shows "\<exists>f. definition_at after l i = Some f \<and> same_content d f"
  by (rule definition_kept [OF accepted_located(3) [OF assms(1)] assms(2-7)]) (simp add: no_delta_def)

section \<open>Plans within bounds\<close>

lemma if_ok_Inr: "if_ok m f = Inr y \<longleftrightarrow> (\<exists>x. m = Inr x \<and> f x = Inr y)"
  by (cases m) (simp_all add: if_ok_def)

lemma ensure_Inr [simp]: "ensure b e = Inr x \<longleftrightarrow> b"
  by (simp add: ensure_def)

lemma round_even_nonneg: "0 \<le> q \<Longrightarrow> 0 \<le> round_even q"
  by (simp add: round_even_def Let_def)

lemma power_of_two_pos: "0 < power_of_two k"
  by (simp add: power_of_two_def)

lemma double_nonneg: "0 \<le> x \<Longrightarrow> 0 \<le> double x"
  by (simp add: double_def Let_def round_even_nonneg power_of_two_pos less_imp_le)

lemma mm_to_hwpunit_nonneg: "0 \<le> v \<Longrightarrow> 0 \<le> mm_to_hwpunit v"
  by (simp add: mm_to_hwpunit_def hwpunit_per_mm_def round_even_nonneg double_nonneg)

definition text_in_bounds :: "nat \<Rightarrow> string \<Rightarrow> string \<Rightarrow> bool" where
  "text_in_bounds max_chars allow s \<longleftrightarrow> nonblank s \<and> length s \<le> max_chars \<and> \<not> has_control_chars allow s"

definition extents_in_bounds :: "object_kind \<Rightarrow> rat \<Rightarrow> rat \<Rightarrow> int \<Rightarrow> int \<Rightarrow> bool" where
  "extents_in_bounds k w h wu hu \<longleftrightarrow>
    0 \<le> w \<and> w \<le> 1000 \<and> 0 \<le> h \<and> h \<le> 1000 \<and> wu = mm_to_hwpunit w \<and> hu = mm_to_hwpunit h \<and> 0 \<le> wu \<and> 0 \<le> hu
    \<and> (if k = Line then w \<noteq> 0 \<or> h \<noteq> 0 else w \<noteq> 0 \<and> h \<noteq> 0)
    \<and> (w \<noteq> 0 \<longrightarrow> min_drawn_hu k \<le> wu) \<and> (h \<noteq> 0 \<longrightarrow> min_drawn_hu k \<le> hu)"

definition payload_in_bounds :: "object_kind \<Rightarrow> payload \<Rightarrow> bool" where
  "payload_in_bounds k load \<longleftrightarrow>
    (case load of
       NoteText t \<Rightarrow> k \<in> {Footnote, Endnote, Memo} \<and> text_in_bounds max_text [] t
     | LinkTo u d \<Rightarrow> k = Hyperlink \<and> text_in_bounds max_url [] u \<and> list_all (\<lambda>c. \<not> py_space c \<and> c \<notin> {CHR '';'', CHR ''|''}) u
         \<and> text_in_bounds max_text [] d
     | MarkName n \<Rightarrow> k = Bookmark \<and> text_in_bounds max_bookmark [] n
     | EquationScript s \<Rightarrow> k = Equation \<and> text_in_bounds max_script [CHR 0x0A, CHR 0x09] s
     | Drawn w h _ wu hu \<Rightarrow> k \<in> {Line, Rectangle, Ellipse} \<and> extents_in_bounds k w h wu hu
     | PageText t pages \<Rightarrow> k \<in> {Header, Footer} \<and> text_in_bounds max_text [] t \<and> pages \<in> set (map fst apply_page_types))"

definition plan_in_bounds :: "object_plan \<Rightarrow> bool" where
  "plan_in_bounds p \<longleftrightarrow> length (op_pos p) = 3 \<and> (\<forall>n \<in> set (op_pos p). 0 \<le> n) \<and> payload_in_bounds (op_kind p) (op_payload p)"

lemma text_field_Inr: "text_field step key n allow = Inr s \<Longrightarrow> text_in_bounds n allow s"
  by (auto simp: text_field_def text_in_bounds_def split: json.splits if_splits)

lemma url_field_Inr: "url_field url_parts u = Inr v \<Longrightarrow> v = u \<and> list_all (\<lambda>c. \<not> py_space c \<and> c \<notin> {CHR '';'', CHR ''|''}) u"
  by (auto simp: url_field_def Let_def list_ex_iff list_all_iff split: if_splits option.splits prod.splits)

lemma mm_field_Inr: "mm_field step key = Inr v \<Longrightarrow> 0 \<le> v \<and> v \<le> 1000"
  by (auto simp: mm_field_def split: json.splits if_splits)

lemma position_entries_Some: "position_entries xs = Some ns \<Longrightarrow> length ns = length xs \<and> (\<forall>n \<in> set ns. 0 \<le> n)"
  by (induction xs arbitrary: ns) (auto split: json.splits if_splits)

lemma expected_pos_Inr: "normalize_expected_pos v = Inr ns \<Longrightarrow> length ns = 3 \<and> (\<forall>n \<in> set ns. 0 \<le> n)"
  by (auto simp: normalize_expected_pos_def dest: position_entries_Some split: json.splits if_splits option.splits)

lemma pages_field_Inr: "pages_field step = Inr s \<Longrightarrow> s \<in> set (map fst apply_page_types)"
  by (auto simp: pages_field_def Let_def apply_page_types_def split: json.splits if_splits)

lemma shape_payload_Inr:
  assumes "shape_payload k step = Inr load" and "k \<in> {Line, Rectangle, Ellipse}"
  shows "payload_in_bounds k load"
proof -
  from assms(1) obtain w h treat where f: "mm_field step ''width_mm'' = Inr w" "mm_field step ''height_mm'' = Inr h"
      "\<not> (k = Line \<and> w = 0 \<and> h = 0)" "\<not> (k \<noteq> Line \<and> (w = 0 \<or> h = 0))"
      "\<not> (0 < w \<and> mm_to_hwpunit w < min_drawn_hu k)" "\<not> (0 < h \<and> mm_to_hwpunit h < min_drawn_hu k)"
      "load = Drawn w h treat (mm_to_hwpunit w) (mm_to_hwpunit h)"
    unfolding shape_payload_def if_ok_Inr extent_ok_def ensure_Inr by auto
  have w: "0 \<le> w" "w \<le> 1000" and h: "0 \<le> h" "h \<le> 1000"
    using mm_field_Inr [OF f(1)] mm_field_Inr [OF f(2)] by simp_all
  have "extents_in_bounds k w h (mm_to_hwpunit w) (mm_to_hwpunit h)"
    using w h f(3-6) mm_to_hwpunit_nonneg [OF w(1)] mm_to_hwpunit_nonneg [OF h(1)]
    by (auto simp: extents_in_bounds_def)
  with f(7) assms(2) show ?thesis by (simp add: payload_in_bounds_def)
qed

lemma payload_of_Inr:
  assumes "payload_of url_parts k step = Inr load"
  shows "payload_in_bounds k load"
proof (cases "k = Hyperlink")
  case True
  with assms obtain u v d where f: "text_field step ''url'' max_url [] = Inr u" "url_field url_parts u = Inr v"
      "text_field step ''display_text'' max_text [] = Inr d" "load = LinkTo v d"
    by (auto simp: payload_of_def if_ok_Inr)
  show ?thesis
    using text_field_Inr [OF f(1)] text_field_Inr [OF f(3)] url_field_Inr [OF f(2)] True f(4)
    by (simp add: payload_in_bounds_def)
next
  case False
  consider "k \<in> {Line, Rectangle, Ellipse}" | "k \<in> {Header, Footer}" | "k \<in> {Footnote, Endnote, Memo, Bookmark, Equation}"
    using False by (cases k) simp_all
  then show ?thesis
  proof cases
    case 1
    with assms have "shape_payload k step = Inr load" by (auto simp: payload_of_def)
    with 1 show ?thesis by (intro shape_payload_Inr)
  next
    case 2
    with assms obtain t pages where f: "text_field step ''text'' max_text [] = Inr t" "pages_field step = Inr pages"
        "load = PageText t pages"
      by (auto simp: payload_of_def if_ok_Inr)
    with text_field_Inr [OF f(1)] pages_field_Inr [OF f(2)] 2 show ?thesis by (simp add: payload_in_bounds_def)
  next
    case 3
    with assms show ?thesis
      by (auto simp: payload_of_def if_ok_Inr payload_in_bounds_def) (erule text_field_Inr)+
  qed
qed

lemma normalized_in_bounds:
  assumes "normalize_step url_parts step = Inr p"
  shows "plan_in_bounds p"
proof -
  from assms obtain k pos load where "normalize_expected_pos (get step ''expected_pos'') = Inr pos"
      "payload_of url_parts k step = Inr load" "p = \<lparr>op_kind = k, op_pos = pos, op_payload = load\<rparr>"
    by (auto simp: normalize_step_def if_ok_Inr)
  with expected_pos_Inr payload_of_Inr show ?thesis by (auto simp: plan_in_bounds_def)
qed

text \<open>The points a drawing is made of, as pairs of coordinates.\<close>

fun point_pairs :: "int list \<Rightarrow> (int \<times> int) list" where
  "point_pairs (x # y # ps) = (x, y) # point_pairs ps"
| "point_pairs _ = []"

lemma points_inside:
  assumes "plan_in_bounds p" and "op_payload p = Drawn w h treat wu hu" and "\<not> drawing_unsupported p"
  shows "\<exists>n ps. drawing_points p = Some (n, ps) \<and> length ps = 2 * n
    \<and> (\<forall>(x, y) \<in> set (point_pairs ps). 0 \<le> x \<and> x \<le> wu \<and> 0 \<le> y \<and> y \<le> hu)"
proof -
  from assms have "op_kind p \<in> {Line, Rectangle, Ellipse}" "0 \<le> wu" "0 \<le> hu" "\<not> (op_kind p = Line \<and> wu \<noteq> 0 \<and> hu \<noteq> 0)"
    by (auto simp: plan_in_bounds_def payload_in_bounds_def extents_in_bounds_def drawing_unsupported_def)
  then show ?thesis using assms(2) by (auto simp: drawing_points_def)
qed

section \<open>A bookmark is inserted\<close>

definition char_run :: "string \<Rightarrow> xml" where
  "char_run s = Elem ''CHAR'' [] s [] []"

definition one_paragraph :: "xml list \<Rightarrow> xml" where
  "one_paragraph run = sample_document [] [numbering ''1'']
    [Elem ''P'' [(''ParaShape'', ''0'')] [] [Elem ''TEXT'' [(''CharShape'', ''0'')] [] run []] []]"

definition plain_paragraph :: xml where
  "plain_paragraph = one_paragraph [char_run ''ab'']"

definition marked_paragraph :: xml where
  "marked_paragraph = one_paragraph [char_run ''a'', Elem ''BOOKMARK'' [(''Name'', ''m'')] [] [] [], char_run ''b'']"

definition bookmark_step :: fields where
  "bookmark_step = [(''kind'', JStr ''bookmark''), (''confirm_mutation'', JBool True),
    (''expected_pos'', JList [JInt 0, JInt 0, JInt 1]), (''name'', JStr ''m'')]"

definition bookmark_plan :: object_plan where
  "bookmark_plan = \<lparr>op_kind = Bookmark, op_pos = [0, 0, 1], op_payload = MarkName ''m''\<rparr>"

lemma bookmark_planned: "normalize_step (\<lambda>_. None) bookmark_step = Inr bookmark_plan"
  by code_simp

lemma bookmark_accepted: "v_ok (evaluate_insert (\<lambda>_. None) bookmark_plan plain_paragraph marked_paragraph)"
  by code_simp

lemma paragraphs_parsed: "parsed plain_paragraph" "parsed marked_paragraph"
  by code_simp+

lemma paragraph_facts:
  "tag plain_paragraph \<noteq> head_tag" "tag marked_paragraph \<noteq> head_tag"
  "definition_at plain_paragraph ''NUMBERINGLIST'' ''1'' = Some (numbering ''1'')"
  by code_simp+

section \<open>Properties\<close>



text \<open>
  A step that is accepted has a plan within its bounds: three caret numbers that are not negative; texts,
  addresses, names and scripts that are not blank, not too long and free of control characters; extents of at most a metre that
  round to at least the smallest drawn extent; and, unless the drawing is refused for want of a contract, a
  layout whose points all lie in the frame.
\<close>

theorem accepted_plan_in_bounds:
  assumes "normalize_step url_parts step = Inr p"
  shows "plan_in_bounds p
    \<and> (\<forall>w h treat wu hu. op_payload p = Drawn w h treat wu hu \<and> \<not> drawing_unsupported p
        \<longrightarrow> (\<exists>n ps. drawing_points p = Some (n, ps) \<and> length ps = 2 * n
          \<and> (\<forall>(x, y) \<in> set (point_pairs ps). 0 \<le> x \<and> x \<le> wu \<and> 0 \<le> y \<and> y \<le> hu)))"
  using normalized_in_bounds [OF assms] points_inside by blast

definition ellipse_step :: fields where
  "ellipse_step = [(''kind'', JStr ''ellipse''), (''confirm_mutation'', JBool True),
    (''expected_pos'', JList [JInt 0, JInt 0, JInt 1]), (''width_mm'', JInt 10), (''height_mm'', JInt 5)]"

definition ellipse_plan :: object_plan where
  "ellipse_plan = \<lparr>op_kind = Ellipse, op_pos = [0, 0, 1], op_payload = Drawn 10 5 True 2835 1417\<rparr>"

lemma ellipse_planned: "normalize_step (\<lambda>_. None) ellipse_step = Inr ellipse_plan"
  by code_simp

lemma accepted_plan_in_bounds_witness:
  "extents_in_bounds Ellipse 10 5 2835 1417 \<and> (\<exists>n ps. drawing_points ellipse_plan = Some (n, ps) \<and> length ps = 2 * n)"
  using accepted_plan_in_bounds [OF ellipse_planned]
  by (auto simp: plan_in_bounds_def payload_in_bounds_def ellipse_plan_def drawing_unsupported_def)

section \<open>Requests that are neither accepted nor refused\<close>

text \<open>
  Three steps whose validation raises something other than \<open>ObjectInsertError\<close>, so that the engine does
  not turn it into a clean refusal.
\<close>

definition link_step :: "json \<Rightarrow> fields" where
  "link_step url = [(''kind'', JStr ''hyperlink''), (''confirm_mutation'', JBool True),
    (''expected_pos'', JList [JInt 0, JInt 0, JInt 1]), (''url'', url), (''display_text'', JStr ''x'')]"

lemma unsplit_url_escapes:
  assumes "url_parts ''http://['' = None"
  shows "\<exists>e. normalize_step url_parts (link_step (JStr ''http://['')) = Inl e \<and> \<not> is_object_error e"
proof -
  have "text_field (link_step (JStr ''http://['')) ''url'' max_url [] = Inr ''http://[''" by code_simp
  moreover have "list_ex py_space ''http://['' = False" by code_simp
  ultimately have "payload_of url_parts Hyperlink (link_step (JStr ''http://['')) = Inl UrlNotSplit"
    using assms by (simp add: payload_of_def if_ok_def url_field_def)
  moreover have "kind_field (link_step u) = Inr Hyperlink" "get (link_step u) ''confirm_mutation'' = JBool True"
      "normalize_expected_pos (get (link_step u) ''expected_pos'') = Inr [0, 0, 1]" for u
    by (simp_all add: link_step_def kind_field_def get_def kind_names_def normalize_expected_pos_def)
  moreover have "stray_fields Hyperlink (link_step (JStr ''http://['')) = []" by code_simp
  ultimately show ?thesis by (simp add: normalize_step_def if_ok_def ensure_def is_object_error_def)
qed

lemma huge_extent_escapes:
  "mm_field [(''width_mm'', JInt (2 ^ 1024))] ''width_mm'' = Inl NumberTooLarge" "\<not> is_object_error NumberTooLarge"
  by (simp_all add: mm_field_def get_def float_overflows_def is_object_error_def)

lemma listed_pages_escape:
  "pages_field [(''apply_to'', JList [JStr ''both''])] = Inl NotHashable" "\<not> is_object_error NotHashable"
  by (simp_all add: pages_field_def get_def truthy_def is_object_error_def)

end
