(* ===== verification/ObjectRun.thy ===== *)
theory ObjectRun
  imports ObjectCommand ObjectProps CommandProps
begin

text \<open>
  Outcomes of object_insert_exact whatever the editor does: the discipline of \<open>CommandProps\<close> for its
  steps, and what a success has issued and proved.
\<close>

section \<open>Discipline of the steps\<close>

lemma harmless_observed [command_rules]: "harmless (observed f)"
  unfolding observed_def by (rule harmless_device)

lemma harmless_technical [command_rules]: "harmless technical"
  unfolding technical_def by (intro command_rules)

lemma harmless_refuse_step [command_rules]: "harmless (refuse_step c)"
  by (auto simp: harmless_def refuse_step_def technical_def fail_def)

lemma harmless_problem [command_rules]: "harmless (problem_found b c)"
  unfolding problem_found_def by (intro command_rules)

lemma harmless_strict_read [command_rules]: "harmless (strict_read c f)"
  unfolding strict_read_def by (auto intro!: command_rules split: option.split)

lemma harmless_strict_state [command_rules]: "harmless (strict_state ed)"
  unfolding strict_state_def by (intro command_rules)

lemma harmless_selected_text [command_rules]: "harmless (selected_text_proved ed b w st)"
  unfolding selected_text_proved_def by (auto intro!: command_rules split: option.split)

lemma harmless_require [command_rules]: "harmless (require_state ed p b)"
  unfolding require_state_def by (auto intro!: command_rules split: option.split payload.split)

lemma harmless_read_document [command_rules]: "harmless (read_document parse ed b)"
  unfolding read_document_def by (auto intro!: command_rules split: option.split json.split sum.split)

lemma harmless_history [command_rules]: "harmless (history_read ed)"
  unfolding history_read_def by (auto intro!: command_rules split: option.split)

lemma harmless_prepare [command_rules]: "harmless (prepare_pset ed p)"
  unfolding prepare_pset_def Let_def by (auto intro!: command_rules split: option.split bool.split)

lemmas disciplined_steps [command_rules] =
  harmless_observed [THEN harmless_disciplined] harmless_technical [THEN harmless_disciplined]
  harmless_refuse_step [THEN harmless_disciplined] harmless_require [THEN harmless_disciplined]
  harmless_read_document [THEN harmless_disciplined] harmless_history [THEN harmless_disciplined]
  harmless_prepare [THEN harmless_disciplined]

text \<open>Steps that run only after the mutation has begun.\<close>

definition keeps_reached :: "('d, 'a) cmd \<Rightarrow> bool" where
  "keeps_reached m \<longleftrightarrow> (\<forall>s r s'. s_reached s \<and> m s = (r, s') \<longrightarrow> s_reached s')"

definition reaches_issue :: "('d, 'a) cmd \<Rightarrow> bool" where
  "reaches_issue m \<longleftrightarrow> (\<forall>s x s'. m s = (Inr x, s') \<longrightarrow> s_reached s')"

named_theorems reached_rules \<open>steps that keep the mutation begun\<close>

lemma keeps_disciplined: "disciplined m \<Longrightarrow> keeps_reached m"
  unfolding disciplined_def keeps_reached_def by metis

lemma keeps_harmless: "harmless m \<Longrightarrow> keeps_reached m"
  by (rule keeps_disciplined [OF harmless_disciplined])

lemma keeps_bind [reached_rules]:
  assumes "keeps_reached m" and "\<And>x. keeps_reached (f x)"
  shows "keeps_reached (bind_c m f)"
  unfolding keeps_reached_def
proof (intro allI impI)
  fix s r s' assume run: "s_reached s \<and> bind_c m f s = (r, s')"
  obtain q s1 where m: "m s = (q, s1)" by force
  with run assms(1) have "s_reached s1" unfolding keeps_reached_def by blast
  with run m assms(2) show "s_reached s'"
    unfolding keeps_reached_def by (cases q) (fastforce simp: bind_c_def)+
qed

lemma keeps_seq [reached_rules]: "keeps_reached m \<Longrightarrow> keeps_reached n \<Longrightarrow> keeps_reached (seq_c m n)"
  unfolding seq_c_def by (rule keeps_bind)

lemma keeps_log [reached_rules]: "keeps_reached (log_native n)"
  by (simp add: keeps_reached_def log_native_def)

lemma keeps_if [reached_rules]: "keeps_reached m \<Longrightarrow> keeps_reached n \<Longrightarrow> keeps_reached (if b then m else n)"
  by simp

lemmas keeps_ones [reached_rules] =
  harmless_basic [THEN keeps_harmless] harmless_observed [THEN keeps_harmless] harmless_technical [THEN keeps_harmless]
  harmless_strict_state [THEN keeps_harmless]

lemma keeps_text [reached_rules]: "keeps_reached (type_object_text ed t)"
  unfolding type_object_text_def by (intro reached_rules)

lemma keeps_close [reached_rules]: "keeps_reached (close_object ed p)"
  unfolding close_object_def by (intro reached_rules)

lemma keeps_release [reached_rules]: "keeps_reached (release_object ed)"
  unfolding release_object_def by (intro reached_rules)

lemma begin_reached: "begin_mutation ed s = (Inr x, s') \<Longrightarrow> s_reached s' \<and> s_calls s' = s_calls s"
  by (auto simp: begin_mutation_def split: if_splits prod.splits bool.splits)

lemma disciplined_begin [command_rules]: "disciplined (begin_mutation ed)"
  by (auto simp: disciplined_def begin_mutation_def split: if_splits prod.splits bool.splits)

lemma disciplined_then:
  assumes "disciplined m" and "reaches_issue m" and "keeps_reached n"
  shows "disciplined (seq_c m n)"
  unfolding disciplined_def
proof (intro allI impI)
  fix s r s' assume run: "seq_c m n s = (r, s')"
  obtain q s1 where m: "m s = (q, s1)" by force
  show "(s_reached s \<longrightarrow> s_reached s') \<and> (\<not> s_reached s' \<longrightarrow> s_calls s' = s_calls s)"
  proof (cases q)
    case (Inl e)
    with run m assms(1) show ?thesis by (auto simp: seq_c_def bind_c_def disciplined_def)
  next
    case (Inr x)
    with m assms(2) have "s_reached s1" unfolding reaches_issue_def by blast
    moreover have "n s1 = (r, s')" using run m Inr by (simp add: seq_c_def bind_c_def)
    ultimately show ?thesis using assms(3) unfolding keeps_reached_def by blast
  qed
qed

lemma reaches_then: "reaches_issue m \<Longrightarrow> keeps_reached n \<Longrightarrow> reaches_issue (seq_c m n)"
  unfolding reaches_issue_def keeps_reached_def seq_success by blast

lemma reaches_begin: "reaches_issue (begin_mutation ed)"
  unfolding reaches_issue_def using begin_reached by blast

lemma disciplined_issue_action: "disciplined (issue_action ed p)" "reaches_issue (issue_action ed p)"
  unfolding issue_action_def Let_def
  by (intro disciplined_then reaches_then disciplined_begin reaches_begin reached_rules)+

lemma disciplined_mutate [command_rules]: "disciplined (mutate ed p)"
proof -
  have "keeps_reached (seq_c (case plan_text p of Some t \<Rightarrow> if types_text (op_kind p) then type_object_text ed t else ret () | None \<Rightarrow> ret ())
      (if closes_after (op_kind p) then close_object ed p
       else if op_kind p \<in> set shape_kinds \<or> op_kind p = Equation then release_object ed else ret ()))"
    by (auto intro!: reached_rules split: option.split)
  then have tail: "disciplined (seq_c (issue_action ed p) (seq_c
      (case plan_text p of Some t \<Rightarrow> if types_text (op_kind p) then type_object_text ed t else ret () | None \<Rightarrow> ret ())
      (if closes_after (op_kind p) then close_object ed p
       else if op_kind p \<in> set shape_kinds \<or> op_kind p = Equation then release_object ed else ret ())))"
    by (rule disciplined_then [OF disciplined_issue_action])
  show ?thesis
    unfolding mutate_def by (rule seq_rules(2) [OF _ seq_rules(2) [OF _ tail]]) (intro command_rules)+
qed

lemma disciplined_insert [command_rules]: "disciplined (insert_body parse read_float ed p)"
  unfolding insert_body_def Let_def by (intro command_rules) (auto intro!: command_rules split: sum.split)

section \<open>What was issued\<close>

definition follow_ups :: "string list" where
  "follow_ups = [''InsertText'', ''CloseEx'', ''Cancel'']"

text \<open>On success, the calls issued are the given first ones and then only follow-ups.\<close>

definition emits :: "string list \<Rightarrow> ('d, 'a) cmd \<Rightarrow> bool" where
  "emits first m \<longleftrightarrow> (\<forall>s x s'. m s = (Inr x, s') \<longrightarrow>
    (\<exists>rest. s_calls s' = s_calls s @ first @ rest \<and> set rest \<subseteq> set follow_ups))"

lemma emits_harmless: "harmless m \<Longrightarrow> emits [] m"
  unfolding emits_def harmless_def by force

lemma emits_bind:
  assumes "emits first m" and "\<And>x. emits [] (f x)"
  shows "emits first (bind_c m f)"
  unfolding emits_def
proof (intro allI impI)
  fix s x s' assume "bind_c m f s = (Inr x, s')"
  then obtain y s1 where m: "m s = (Inr y, s1)" and f: "f y s1 = (Inr x, s')" by (auto simp: bind_success)
  from assms(1) m obtain r1 where "s_calls s1 = s_calls s @ first @ r1" "set r1 \<subseteq> set follow_ups" unfolding emits_def by blast
  moreover from assms(2) f obtain r2 where "s_calls s' = s_calls s1 @ r2" "set r2 \<subseteq> set follow_ups"
    unfolding emits_def by fastforce
  ultimately have "s_calls s' = s_calls s @ first @ (r1 @ r2)" "set (r1 @ r2) \<subseteq> set follow_ups" by simp_all
  then show "\<exists>rest. s_calls s' = s_calls s @ first @ rest \<and> set rest \<subseteq> set follow_ups" by blast
qed

lemma emits_seq: "emits first m \<Longrightarrow> emits [] n \<Longrightarrow> emits first (seq_c m n)"
  unfolding seq_c_def by (rule emits_bind)

lemma emits_after: "harmless m \<Longrightarrow> emits first n \<Longrightarrow> emits first (seq_c m n)"
  unfolding emits_def harmless_def seq_success by metis

lemma emits_after_bind: "harmless m \<Longrightarrow> (\<And>x. emits first (f x)) \<Longrightarrow> emits first (bind_c m f)"
  unfolding emits_def harmless_def bind_success by metis

lemma emits_follow_up: "n \<in> set follow_ups \<Longrightarrow> emits [] (log_native n)"
  by (auto simp: emits_def log_native_def)

lemma emits_begin: "emits first m \<Longrightarrow> emits first (seq_c (begin_mutation ed) m)"
  unfolding emits_def seq_success using begin_reached by metis

lemma emits_if: "emits first m \<Longrightarrow> emits first n \<Longrightarrow> emits first (if b then m else n)"
  by simp

lemma never_success [simp]: "refuse_step c s \<noteq> (Inr y, s')" "technical s \<noteq> (Inr y, s')"
  by (simp_all add: refuse_step_def technical_def fail_def)

lemma emits_issue: "emits [insert_action (op_kind p)] (issue_action ed p)"
proof -
  have log: "emits [n] (log_native n)" for n by (simp add: emits_def log_native_def)
  show ?thesis
    unfolding issue_action_def Let_def
    by (intro emits_begin emits_seq [OF log] emits_harmless command_rules)
qed

lemma emits_mutate: "emits [insert_action (op_kind p)] (mutate ed p)"
proof -
  have "emits [] (type_object_text ed t)" for t
    unfolding type_object_text_def
    by (intro emits_seq emits_follow_up emits_harmless command_rules) (simp add: follow_ups_def)
  moreover have "emits [] (close_object ed p)"
    unfolding close_object_def
    by (intro emits_seq emits_follow_up emits_harmless command_rules) (simp add: follow_ups_def)
  moreover have "emits [] (release_object ed)"
    unfolding release_object_def
    by (rule emits_after_bind [OF harmless_strict_state], rule emits_if,
        intro emits_harmless command_rules,
        rule emits_seq [OF emits_follow_up],
        simp add: follow_ups_def, intro emits_harmless command_rules)
  ultimately have tail: "emits [] (seq_c
      (case plan_text p of Some t \<Rightarrow> if types_text (op_kind p) then type_object_text ed t else ret () | None \<Rightarrow> ret ())
      (if closes_after (op_kind p) then close_object ed p
       else if op_kind p \<in> set shape_kinds \<or> op_kind p = Equation then release_object ed else ret ()))"
    by (intro emits_seq emits_if) (simp_all add: emits_harmless harmless_basic split: option.split)
  show ?thesis
    unfolding mutate_def
    by (rule emits_after [OF _ emits_after [OF _ emits_seq [OF emits_issue tail]]]) (intro command_rules)+
qed

text \<open>
  C3. Whatever the editor answers, object_insert_exact has three kinds of outcome. It succeeds: then the
  step was a valid request, the native insertion of its kind was issued exactly once, followed by nothing but
  typing, closing and releasing, and the two documents read show exactly the new object. Or it
  reports that a mutation may have persisted. Or it fails or refuses with no native call issued.
\<close>

theorem object_insert_outcomes:
  assumes "\<not> s_reached s" and "object_insert_exact parse read_float url_parts ed step s = (r, s')"
  shows "case r of
      Inl e \<Rightarrow> (\<exists>m. e = MutationUnproven m) \<or> (\<not> s_reached s' \<and> s_calls s' = s_calls s)
    | Inr out \<Rightarrow> normalize_step url_parts step = Inr (in_plan out)
        \<and> (\<exists>rest. s_calls s' = s_calls s @ insert_action (op_kind (in_plan out)) # rest \<and> set rest \<subseteq> set follow_ups)
        \<and> v_ok (evaluate_insert read_float (in_plan out) (in_before out) (in_after out))"
proof (cases r)
  case (Inl e)
  show ?thesis
  proof (cases "\<exists>p. normalize_step url_parts step = Inr p \<and> \<not> drawing_unsupported p")
    case True
    then obtain p where "normalize_step url_parts step = Inr p" "\<not> drawing_unsupported p" by blast
    with assms(2) Inl have "guarded (insert_body parse read_float ed p) s = (Inl e, s')" by (simp add: object_insert_exact_def)
    with guarded_outcome [OF disciplined_insert assms(1)] Inl show ?thesis by simp
  next
    case False
    with assms(2) have "refuse_step ''invalid_request'' s = (r, s') \<or> refuse_step ''unverifiable_layout'' s = (r, s')
        \<or> fail (OtherError ''not an ObjectInsertError'') s = (r, s')"
      by (auto simp: object_insert_exact_def split: sum.splits if_splits)
    then have "s_reached s' = s_reached s \<and> s_calls s' = s_calls s"
      using harmless_refuse_step harmless_basic(2) unfolding harmless_def by metis
    with Inl assms(1) show ?thesis by simp
  qed
next
  case (Inr out)
  from assms(2) Inr obtain p where p: "normalize_step url_parts step = Inr p"
      "insert_body parse read_float ed p s = (Inr out, s')"
    by (auto simp: object_insert_exact_def guarded_success split: sum.splits if_splits)
  have "emits [insert_action (op_kind p)] (insert_body parse read_float ed p)"
  proof -
    have fails: "emits first (refuse_step c)" "emits first technical" for first c
      by (simp_all add: emits_def)
    have ends: "emits [] (bind_c (if b then history_read ed else ret False) f)" if "\<And>x. harmless (f x)" for b f
      using that by (intro emits_harmless command_rules)
    show ?thesis
      unfolding insert_body_def Let_def
      by (auto intro!: emits_after emits_after_bind emits_seq [OF emits_mutate] emits_bind [OF emits_harmless] fails ends
          emits_harmless command_rules split: sum.split)
  qed
  with p(2) obtain rest where rest: "s_calls s' = s_calls s @ insert_action (op_kind p) # rest" "set rest \<subseteq> set follow_ups"
    unfolding emits_def by fastforce
  have "in_plan out = p \<and> v_ok (evaluate_insert read_float p (in_before out) (in_after out))"
    using p(2)
    by (auto simp: insert_body_def bind_success seq_success Let_def split: sum.splits if_splits)
      (metis sum.exhaust)+
  with p(1) rest Inr show ?thesis by auto
qed

section \<open>A bookmark is issued\<close>

text \<open>An editor whose caret is where the step expects it and whose document gains the bookmark when the
  action is executed; the device state says whether it was.\<close>

definition bookmark_editor :: "bool editor" where
  "bookmark_editor =
    \<lparr>ed_pos = (\<lambda>d. (Some (JList [JInt 0, JInt 0, JInt 1]), d)),
     ed_selected_pos = (\<lambda>d. (Some (JList [JBool False, JInt 0, JInt 0, JInt 0, JInt 0, JInt 0, JInt 0]), d)),
     ed_mode = (\<lambda>d. (Some (JInt 0), d)),
     ed_selected_text = (\<lambda>d. (None, d)),
     ed_readback = (\<lambda>d. (Some (JStr (if d then ''marked'' else ''plain'')), d)),
     ed_slow = (\<lambda>d. (False, d)),
     ed_history = (\<lambda>d. (Some True, d)),
     ed_prepare = (\<lambda>_ _ _ d. (Some (JBool True, []), d)),
     ed_on_mutating = (\<lambda>d. (True, d)),
     ed_run = (\<lambda>_ d. (NoEntryPoint, d)),
     ed_execute = (\<lambda>n d. (CallReturned (JBool (n = ''Bookmark'')), True)),
     ed_type_text = (\<lambda>_ d. (False, d))\<rparr>"

definition read_paragraph :: "string \<Rightarrow> xml option" where
  "read_paragraph s = Some (if s = ''marked'' then marked_paragraph else plain_paragraph)"

definition bookmark_run :: "(command_failure + insertion) \<times> bool native_session" where
  "bookmark_run = object_insert_exact read_paragraph (\<lambda>_. None) (\<lambda>_. None) bookmark_editor bookmark_step fresh_session"

lemma bookmark_run_succeeds: "\<not> isl (fst bookmark_run)" "length (s_calls (snd bookmark_run)) = 1"
  by code_simp+

lemma object_insert_outcomes_witness:
  "\<exists>out s'. bookmark_run = (Inr out, s') \<and> s_calls s' = [''Bookmark'']
    \<and> v_ok (evaluate_insert (\<lambda>_. None) bookmark_plan (in_before out) (in_after out))"
proof -
  obtain out s' where run: "bookmark_run = (Inr out, s')"
    using bookmark_run_succeeds(1) by (metis isl_def prod.exhaust_sel sum.exhaust_sel)
  have one: "length (s_calls s') = 1" using bookmark_run_succeeds(2) unfolding run snd_conv .
  have fresh: "\<not> s_reached fresh_session" "s_calls fresh_session = []" by (simp_all add: fresh_session_def)
  from object_insert_outcomes [OF fresh(1) run [unfolded bookmark_run_def]]
  have facts: "bookmark_plan = in_plan out \<and> (\<exists>rest. s_calls s' = insert_action (op_kind (in_plan out)) # rest \<and> set rest \<subseteq> set follow_ups)
      \<and> v_ok (evaluate_insert (\<lambda>_. None) (in_plan out) (in_before out) (in_after out))"
    unfolding fresh bookmark_planned sum.case append_Nil sum.inject .
  then have same: "in_plan out = bookmark_plan" by (elim conjE) (rule sym)
  have "s_calls s' = [''Bookmark'']"
    using facts one unfolding same by (auto simp: bookmark_plan_def insert_action_def)
  with facts run show ?thesis unfolding same by blast
qed

end
