(* ===== verification/Spec2Isabelle.thy ===== *)
theory Spec2Isabelle
  imports WorkerProps TableProps CommandProps RequestProps AtomicProps JournalProps SessionManager InteractiveOne
    HistoryProps HeadProps ObjectRun
begin

text \<open>
  A verification library for the HWPX editor server: a Python service that edits documents through the
  Hancom word processor on Windows. Requests arrive over HTTP or MCP; long conversions go through a job
  queue that worker processes serve, interactive edits through a live session, one thread that owns the
  word processor and runs the commands of many callers; what an interactive client did is kept in a
  directory per session; a command line client keeps a small state file.

  \<^bold>\<open>How the parts meet.\<close> The service admits a command to a live session (\<open>LocalCliLiveSession\<close>), which runs
  its handler on the owning thread. The handlers that change tables validate a step, plan the edit, reach
  the table, issue native calls, read the document back and compare (\<open>app/native_table.py\<close>). What happened
  is read from the handler's result and kept in the session's command journal, a JSON file written through
  \<open>app/atomic_json.py\<close>, as is the client's state. Sessions are found through a registry
  (\<open>LocalCliRuntimeManager\<close>). The handler that inserts one object (\<open>app/object_insert.py\<close> and
  \<open>app/local_cli_object_insert.py\<close>) reads the whole document before and after and compares the two
  trees; the part of that comparison outside the text, and the rules for the definitions a section owns,
  are \<open>app/hwpml_invariants.py\<close>. Interactive sessions (\<open>app/interactive_session_manager.py\<close>) are admitted one at
  a time and record every command with bounded, redacted data. The job queue (\<open>app/queue_db.py\<close>) is a database of its own.

  \<^bold>\<open>Theories and what they model.\<close>

  \<^item> \<open>Prelude\<close>, \<open>PyText\<close>, \<open>Json\<close>, \<open>Xml\<close>: Python values. Strings are lists of characters, integers are unbounded as
    in Python, a JSON object is the list of its items in order, errors are values of sums.
  \<^item> \<open>QueueDB\<close>, \<open>QueueProps\<close>: \<open>app/queue_db.py\<close>. Each method is a transaction on the tables \<open>jobs\<close> and
    \<open>worker_leases\<close>. The locales \<open>claim_operation\<close> and \<open>releasing_operation\<close> state what the four operations
    that need a claim have in common; they are interpreted on those operations.
  \<^item> \<open>Worker\<close>, \<open>WorkerProps\<close>: the queue side of \<open>app/worker.py\<close>; the child process, the clock and what other
    processes do to the queue between two calls are an environment with any answers.
  \<^item> \<open>TableStructure\<close>, \<open>TableProps\<close>: \<open>app/table_structure.py\<close>, the checks of exact line edits.
  \<^item> \<open>Tiling\<close>, \<open>NativeTable\<close>, \<open>NativeProps\<close>, \<open>NativeStyle\<close>, \<open>StyleProps\<close>, \<open>NativeCommand\<close>, \<open>CommandProps\<close>,
    \<open>Requests\<close>, \<open>RequestProps\<close>: \<open>app/native_table.py\<close>. \<open>Requests\<close> validates a step, \<open>NativeTable\<close> and \<open>NativeStyle\<close>
    plan the edit and judge the readback, \<open>NativeCommand\<close> runs the calls on a device whose answers are free.
    \<open>Tiling\<close> is the geometry of merged cells.
  \<^item> \<open>StateStore\<close>, \<open>AtomicJson\<close>, \<open>AtomicProps\<close>: \<open>app/atomic_json.py\<close>. Calls are processes that move step by
    step, interleaved, with a fault possible at every step. The locale \<open>state_store\<close> is the contract of a
    state that calls change one at a time; it is interpreted on the file and its clients use only that.
  \<^item> \<open>CliState\<close>, \<open>CliProps\<close>: \<open>local_cli_v1/state.py\<close>, as jobs of \<open>AtomicJson\<close>.
  \<^item> \<open>CommandJournal\<close>, \<open>JournalProps\<close>: \<open>normalize_command_outcome\<close> and the command journal of
    \<open>app/local_cli_runtime.py\<close>.
  \<^item> \<open>LiveSession\<close>, \<open>SessionSteps\<close>: \<open>LocalCliLiveSession\<close>. Every section under the session's lock is a function;
    \<open>session_step\<close> says which thread may do which of them when. A command is a cell of a heap, because the
    dictionary, the queue and the callers share it.
  \<^item> \<open>SessionRun\<close>: the step relation as a function on named actions, with which witnesses compute whole runs.
  \<^item> \<open>SessionProps\<close>, \<open>SessionCustody\<close>, \<open>SessionOrder\<close>, \<open>SessionDebt\<close>: what a session guarantees.
  \<^item> \<open>SessionManager\<close>: \<open>LocalCliRuntimeManager\<close>, with its sessions moving between its own locked sections.
  \<^item> \<open>HistoryText\<close>, \<open>HistoryProps\<close>: the texts and payloads \<open>app/interactive_session_manager.py\<close> keeps of a command:
    redaction of local paths by a regular expression, digests, bounds.
  \<^item> \<open>VerifyEvidence\<close>: \<open>app/interactive/verify_evidence.py\<close> and \<open>app/interactive/operator_status.py\<close>. \<open>EventLog\<close>: the event
    file of a session.
  \<^item> \<open>InteractiveSession\<close>, \<open>InteractiveStore\<close>, \<open>InteractiveRun\<close>: the session store of
    \<open>app/interactive_session_manager.py\<close>: one session's file, the operations on the whole directory, and the processes that interleave them,
    each write of which may fail or be the last of a dying process.
  \<^item> \<open>InteractiveProps\<close>, \<open>InteractiveOne\<close>: what the store guarantees. The locales \<open>session_law\<close> and \<open>lasting_law\<close> carry
    a relation between the old and the new state of one session through every step and every run; they are
    interpreted on the identity, the origin and the generations of a session.
  \<^item> \<open>HwpmlSignature\<close>, \<open>HwpmlHead\<close>, \<open>HwpmlSection\<close>, \<open>HeadProps\<close>: \<open>app/hwpml_invariants.py\<close>. The first is the canonical text of an
    element, the second the comparison of two HEAD trees, the third the references to definitions and the
    comparison of everything outside BODY.
  \<^item> \<open>ObjectPlan\<close>, \<open>ObjectInsert\<close>, \<open>ObjectProps\<close>: \<open>app/object_insert.py\<close>: validation of a step with its floating point
    arithmetic, what the word processor is given, and the verdict on the two trees.
  \<^item> \<open>ObjectCommand\<close>, \<open>ObjectRun\<close>: \<open>app/local_cli_object_insert.py\<close> and the refusals and strict reads of
    \<open>app/step_refusal.py\<close>, in the command type of \<open>NativeCommand\<close> and under the rules of \<open>CommandProps\<close>.

  \<^bold>\<open>What the lemmas show.\<close> Queue: claims are fenced by leases, counted and bounded, and settled by the worker
  that holds them. Tables: a plan is again a table, a deletion loses only content the request names, a style
  or width command changes exactly what it says, and a command either did all its calls with a clean
  readback, or none, or is reported as unproven. Files: interleaved calls behave as whole calls in some
  order, and no reader sees a torn file. Session: the native editor is never told to quit over unproved
  edits or a hold, a hold is permanent, commands run once and in order, no waiting caller is lost, and the
  debt of unproved edits is only discharged by a proof. Registry: it forgets only sessions with nothing
  left to answer for. Interactive sessions: one at a time up to named strays, generations grow, the
  recorded origin stays, a command is recorded whole or not at all, the reaper takes only settled
  directories, no local path survives in the history. Documents: two elements have the same signature
  exactly when they are alike, an accepted edit keeps every definition the document had, a section delete
  lets go only what nothing else names, and an accepted insertion added exactly the requested object.

  \<^bold>\<open>Bounds.\<close> Functions are total; none takes fuel. The step relations have no bound on their runs; the only
  numeric bounds are the code's own (attempts of a job, nine steps of a file call, the hundred settled
  records of a journal, the 102 items of a stored payload, the sixteen controls \<open>_locate_insert\<close> descends
  into, which is the decreasing argument of \<open>locate_insert\<close>).

  \<^bold>\<open>Parameters.\<close> \<open>json.dumps\<close> and \<open>json.loads\<close> are a codec with its round trip as hypothesis; \<open>str()\<close> of a value
  that is a float, a list or an object is the parameter \<open>shown\<close>; the word processor is a device or a free choice
  of a step. The session store takes the printing and hashing of values, the reading of time stamps and the clock
  as parameters; object insertion takes \<open>urlsplit\<close>, \<open>float()\<close> of a text and the XML parser. A character is one of
  the first 256 code points.

  \<^bold>\<open>Not modelled.\<close> The service over the sessions and its other step handlers, the other native commands, the
  template engine, the HTTP and MCP servers and the command line client beyond its state file: they assemble
  requests and responses around calls of the word processor. Time stamps, messages, diagnostics and the
  redaction of journal values are left out of the live session; the creation of new tables is left out of
  the table commands; the loading of a frozen artifact for its HTTP route and logging are left out of the
  interactive sessions; the summary of HEAD and the fixed labels of reasons are left out of the
  comparison of documents, and the response, the timed dry run and the text of the undo report are left
  out of object insertion.
\<close>

end
